(* ===== verification/Go_Prelude.thy ===== *)
theory Go_Prelude
  imports Main "HOL-Library.AList" "HOL-Library.Char_ord" "HOL-Library.List_Lexorder"
    "HOL-Library.Product_Lexorder" "HOL-Library.Multiset" "HOL-Library.Word"
begin

section \<open>Prelude: what the Go sources use of the language and its library\<close>

text \<open>
  Shared vocabulary of the development.
  \<^item> Fixed-width integers: \<open>i32\<close> and \<open>i64\<close> are Go's conversions to \<^verbatim>\<open>int32\<close> and \<^verbatim>\<open>int64\<close>
    (two's complement wrap-around written out on \<^typ>\<open>int\<close>); \<^verbatim>\<open>int\<close> is 64 bits wide.
  \<^item> Go maps are association lists with distinct keys; \<open>mget\<close>, \<open>mput\<close>, \<open>mdel\<close> are the map
    operations and the locale \<open>finite_map\<close> is the interface the components use.
  \<^item> The order of a \<^verbatim>\<open>range\<close> over a map is chosen by the Go runtime and the outcome of
    \<^verbatim>\<open>rand.Int64N\<close> by the random source. Both are read off one stream of arbitrary numbers,
    so a theorem that holds for every stream holds for every order and every draw.
  \<^item> Strings are byte lists (\<^typ>\<open>string\<close>), ordered bytewise as in Go; case mapping and white
    space are those of ASCII.
  \<^item> \<^verbatim>\<open>sort.Search\<close> is the binary search of the standard library.
  A run-time panic is a value of \<open>go_panic\<close>.
\<close>

named_theorems go_simps \<open>unfolding rules of the model's definitions\<close>
named_theorems wf_intros \<open>introduction rules for the well-formedness predicates\<close>

subsection \<open>Panics and results\<close>

datatype go_panic = PanicIndexOutOfRange | PanicInvalidArgument | PanicNilDereference

type_synonym 'a go = "go_panic + 'a"

definition go_ok :: "'a go \<Rightarrow> bool" where
  "go_ok r \<longleftrightarrow> (case r of Inl _ \<Rightarrow> False | Inr _ \<Rightarrow> True)"

lemma go_ok_simps [simp]: "go_ok (Inr x)" "\<not> go_ok (Inl e)"
  by (simp_all add: go_ok_def)

lemma go_okE: "go_ok r \<Longrightarrow> (\<And>x. r = Inr x \<Longrightarrow> P) \<Longrightarrow> P"
  by (cases r) auto

text \<open>Sequencing of steps that may fail: the first error is the result.\<close>

fun bindE :: "'e + 'a \<Rightarrow> ('a \<Rightarrow> 'e + 'b) \<Rightarrow> 'e + 'b" where
  "bindE (Inl e) f = Inl e"
| "bindE (Inr x) f = f x"

lemma bindE_Inr_iff: "bindE m f = Inr y \<longleftrightarrow> (\<exists>x. m = Inr x \<and> f x = Inr y)"
  by (cases m) auto

lemma bindE_Inl_iff: "bindE m f = Inl e \<longleftrightarrow> m = Inl e \<or> (\<exists>x. m = Inr x \<and> f x = Inl e)"
  by (cases m) auto

text \<open>A slice that may be nil; the nil slice and the empty slice both have length 0.\<close>

definition slice_of :: "'a list option \<Rightarrow> 'a list" where
  "slice_of g = (case g of None \<Rightarrow> [] | Some xs \<Rightarrow> xs)"

lemma slice_of_simps [simp]: "slice_of None = []" "slice_of (Some xs) = xs"
  by (simp_all add: slice_of_def)

subsection \<open>Machine integers\<close>

definition i32 :: "int \<Rightarrow> int" where
  "i32 x = (x + 2147483648) mod 4294967296 - 2147483648"

definition i64 :: "int \<Rightarrow> int" where
  "i64 x = (x + 9223372036854775808) mod 18446744073709551616 - 9223372036854775808"

definition MinInt64 :: int where
  "MinInt64 = - 9223372036854775808"

definition MaxInt64 :: int where
  "MaxInt64 = 9223372036854775807"

definition MaxInt32 :: int where
  "MaxInt32 = 2147483647"

lemma i32_range: "- 2147483648 \<le> i32 x \<and> i32 x \<le> MaxInt32"
  by (simp add: i32_def MaxInt32_def)

lemma i64_range: "MinInt64 \<le> i64 x \<and> i64 x \<le> MaxInt64"
  by (simp add: i64_def MinInt64_def MaxInt64_def)

lemma i32_id: "- 2147483648 \<le> x \<Longrightarrow> x \<le> MaxInt32 \<Longrightarrow> i32 x = x"
  by (simp add: i32_def MaxInt32_def)

lemma i64_id: "MinInt64 \<le> x \<Longrightarrow> x \<le> MaxInt64 \<Longrightarrow> i64 x = x"
  by (simp add: i64_def MinInt64_def MaxInt64_def)

text \<open>The wrap-around is the one of the word library.\<close>

lemma i64_word: "i64 x = sint (word_of_int x :: 64 word)"
  by (simp add: i64_def sint_sbintrunc' signed_take_bit_eq_take_bit_shift take_bit_eq_mod)

lemma i32_word: "i32 x = sint (word_of_int x :: 32 word)"
  by (simp add: i32_def sint_sbintrunc' signed_take_bit_eq_take_bit_shift take_bit_eq_mod)

text \<open>Integer division truncates towards zero.\<close>

definition go_quot :: "int \<Rightarrow> int \<Rightarrow> int" where
  "go_quot a b = sgn a * sgn b * (\<bar>a\<bar> div \<bar>b\<bar>)"

lemma go_quot_pos: "0 \<le> a \<Longrightarrow> 0 < b \<Longrightarrow> go_quot a b = a div b"
  by (cases "a = 0") (simp_all add: go_quot_def)

subsection \<open>Go maps\<close>

type_synonym ('k, 'v) gomap = "('k \<times> 'v) list"

definition mget :: "('k, 'v) gomap \<Rightarrow> 'k \<Rightarrow> 'v option" where
  "mget m k = map_of m k"

definition mput :: "'k \<Rightarrow> 'v \<Rightarrow> ('k, 'v) gomap \<Rightarrow> ('k, 'v) gomap" where
  "mput k v m = AList.update k v m"

definition mdel :: "'k \<Rightarrow> ('k, 'v) gomap \<Rightarrow> ('k, 'v) gomap" where
  "mdel k m = AList.delete k m"

text \<open>Reading a missing key yields the zero value of the value type.\<close>

definition mget0 :: "'v \<Rightarrow> ('k, 'v) gomap \<Rightarrow> 'k \<Rightarrow> 'v" where
  "mget0 z m k = (case mget m k of None \<Rightarrow> z | Some v \<Rightarrow> v)"

definition mkeys :: "('k, 'v) gomap \<Rightarrow> 'k list" where
  "mkeys m = map fst m"

text \<open>A loop that deletes, while ranging, every entry that satisfies a condition.\<close>

definition mfilter :: "('k \<Rightarrow> 'v \<Rightarrow> bool) \<Rightarrow> ('k, 'v) gomap \<Rightarrow> ('k, 'v) gomap" where
  "mfilter keep m = filter (\<lambda>(k, v). keep k v) m"

definition mwf :: "('k, 'v) gomap \<Rightarrow> bool" where
  "mwf m \<longleftrightarrow> distinct (mkeys m)"

lemma mget_Nil [simp]: "mget [] k = None"
  by (simp add: mget_def)

lemma mget_Cons [simp]: "mget ((k, v) # m) k' = (if k' = k then Some v else mget m k')"
  by (simp add: mget_def)

lemma mget_mput [simp]: "mget (mput k v m) k' = (if k' = k then Some v else mget m k')"
  by (simp add: mget_def mput_def update_conv')

lemma mget_mdel [simp]: "mget (mdel k m) k' = (if k' = k then None else mget m k')"
  by (simp add: mget_def mdel_def delete_conv')

lemma mget0_mput [simp]: "mget0 z (mput k v m) k' = (if k' = k then v else mget0 z m k')"
  by (simp add: mget0_def)

lemma mget0_mdel [simp]: "mget0 z (mdel k m) k' = (if k' = k then z else mget0 z m k')"
  by (simp add: mget0_def)

lemma mwf_Nil [simp, wf_intros]: "mwf []"
  by (simp add: mwf_def mkeys_def)

lemma mwf_mput [wf_intros]: "mwf m \<Longrightarrow> mwf (mput k v m)"
  by (simp add: mwf_def mkeys_def mput_def distinct_update)

lemma mwf_mdel [wf_intros]: "mwf m \<Longrightarrow> mwf (mdel k m)"
  by (simp add: mwf_def mkeys_def mdel_def distinct_delete)

lemma mwf_mfilter [wf_intros]: "mwf m \<Longrightarrow> mwf (mfilter P m)"
  by (simp add: mwf_def mkeys_def mfilter_def distinct_map_filter)

lemma mget_None_iff: "mget m k = None \<longleftrightarrow> k \<notin> set (mkeys m)"
  by (simp add: mget_def mkeys_def map_of_eq_None_iff)

lemma mkeys_mget: "k \<in> set (mkeys m) \<longleftrightarrow> (\<exists>v. mget m k = Some v)"
  using mget_None_iff [of m k] by (cases "mget m k") auto

lemma mget_SomeD: "mget m k = Some v \<Longrightarrow> (k, v) \<in> set m"
  by (simp add: mget_def map_of_SomeD)

lemma mwf_mget: "mwf m \<Longrightarrow> mget m k = Some v \<longleftrightarrow> (k, v) \<in> set m"
  by (simp add: mwf_def mkeys_def mget_def map_of_eq_Some_iff)

lemma mget_mfilter:
  "mwf m \<Longrightarrow> mget (mfilter P m) k =
     (case mget m k of None \<Rightarrow> None | Some v \<Rightarrow> if P k v then Some v else None)"
proof -
  assume wf: "mwf m"
  have *: "mget (mfilter P m) k = Some v \<longleftrightarrow> mget m k = Some v \<and> P k v" for v
    using wf by (simp add: mwf_mget mwf_mfilter) (auto simp: mfilter_def)
  show ?thesis
  proof (cases "mget (mfilter P m) k")
    case None
    with * [of "the (mget m k)"] show ?thesis by (cases "mget m k") auto
  next
    case (Some v)
    with * [of v] show ?thesis by simp
  qed
qed

lemma mkeys_mput: "set (mkeys (mput k v m)) = insert k (set (mkeys m))"
  by (auto simp: mkeys_mget split: if_splits)

lemma mkeys_mdel: "set (mkeys (mdel k m)) = set (mkeys m) - {k}"
  by (auto simp: mkeys_mget split: if_splits)

lemma length_mput:
  "length (mput k v m) = (if mget m k = None then Suc (length m) else length m)"
  by (induction m) (auto simp: mput_def)

lemma mput_same: "mget m k = Some v \<Longrightarrow> mput k v m = m"
  by (induction m) (auto simp: mput_def split: if_splits)

lemma mput_new: "mget m k = None \<Longrightarrow> mput k v m = m @ [(k, v)]"
  by (induction m) (auto simp: mput_def split: if_splits)

subsubsection \<open>The map interface\<close>

text \<open>
  What a component may rely on of a map: lookups after an insertion and a deletion, and the key
  set. The laws below the interface are proved once, from the interface alone.
\<close>

locale finite_map =
  fixes get :: "'m \<Rightarrow> 'k \<Rightarrow> 'v option"
    and put :: "'k \<Rightarrow> 'v \<Rightarrow> 'm \<Rightarrow> 'm"
    and del :: "'k \<Rightarrow> 'm \<Rightarrow> 'm"
    and keys :: "'m \<Rightarrow> 'k list"
    and inv :: "'m \<Rightarrow> bool"
  assumes get_put: "get (put k v m) k' = (if k' = k then Some v else get m k')"
    and get_del: "get (del k m) k' = (if k' = k then None else get m k')"
    and keys_get: "k \<in> set (keys m) \<longleftrightarrow> get m k \<noteq> None"
    and inv_put: "inv m \<Longrightarrow> inv (put k v m)"
    and inv_del: "inv m \<Longrightarrow> inv (del k m)"
    and inv_keys: "inv m \<Longrightarrow> distinct (keys m)"
begin

lemma put_put: "get (put k v (put k w m)) = get (put k v m)"
  by (rule ext) (simp add: get_put)

lemma put_commute: "k \<noteq> k' \<Longrightarrow> get (put k v (put k' w m)) = get (put k' w (put k v m))"
  by (rule ext) (simp add: get_put)

lemma del_put: "get (del k (put k v m)) = get (del k m)"
  by (rule ext) (simp add: get_put get_del)

lemma put_other: "k' \<noteq> k \<Longrightarrow> get (put k v m) k' = get m k'"
  by (simp add: get_put)

lemma del_other: "k' \<noteq> k \<Longrightarrow> get (del k m) k' = get m k'"
  by (simp add: get_del)

lemma keys_put: "set (keys (put k v m)) = insert k (set (keys m))"
  by (auto simp: keys_get get_put split: if_splits)

lemma keys_del: "set (keys (del k m)) = set (keys m) - {k}"
  by (auto simp: keys_get get_del split: if_splits)

lemma length_put:
  assumes "inv m"
  shows "length (keys (put k v m)) = (if get m k = None then Suc (length (keys m)) else length (keys m))"
proof -
  have "length (keys (put k v m)) = card (insert k (set (keys m)))"
    using assms by (metis distinct_card inv_keys inv_put keys_put)
  moreover have "length (keys m) = card (set (keys m))"
    using assms by (simp add: distinct_card inv_keys)
  ultimately show ?thesis
    using keys_get [of k m] by (auto simp: insert_absorb)
qed

end

interpretation gm: finite_map mget mput mdel mkeys mwf
proof unfold_locales
  show "mget (mput k v m) k' = (if k' = k then Some v else mget m k')" for k v m k'
    by simp
  show "mget (mdel k m) k' = (if k' = k then None else mget m k')" for k m k'
    by simp
  show "k \<in> set (mkeys m) \<longleftrightarrow> mget m k \<noteq> None" for k m
    by (auto simp: mkeys_mget)
  show "mwf m \<Longrightarrow> mwf (mput k v m)" for k v m
    by (rule mwf_mput)
  show "mwf m \<Longrightarrow> mwf (mdel k m)" for k m
    by (rule mwf_mdel)
  show "mwf m \<Longrightarrow> distinct (mkeys m)" for m
    by (simp add: mwf_def)
qed

end
