(* ===== verification/Go_Float.thy ===== *)
theory Go_Float
  imports Go_Prelude Complex_Main "HOL-Library.Log_Nat"
begin

section \<open>Floating point: the float64 arithmetic of the scheduler\<close>

text \<open>
  A finite \<^verbatim>\<open>float64\<close> is modelled by its exact rational value. An operation computes the exact
  rational result and rounds it to 53 significant bits, ties to even, as IEEE 754 does. The
  scheduler divides and multiplies values whose magnitude lies between \<open>2^-63\<close> and \<open>2^64\<close>, far
  inside the normal range, so exponent overflow and subnormal numbers do not occur and are not
  modelled; a division by a zero total is treated where it is compared (\<open>ratio_below\<close>).

  The lemmas show that rounding is monotone and exact on small integers, halves and doubles.
  The locale \<open>ratio_gate\<close> is what the pool relies on of the comparison of an alive ratio with a
  threshold; it is interpreted on \<open>ratio_below\<close>.
\<close>

type_synonym float64 = rat

definition rat_round_even :: "rat \<Rightarrow> int" where
  "rat_round_even x =
     (let f = \<lfloor>x\<rfloor>; r = x - of_int f
      in if r < 1 / 2 then f else if 1 / 2 < r then f + 1 else if even f then f else f + 1)"

text \<open>The binary exponent of a positive rational: \<open>2 powi rexp x \<le> x < 2 powi (rexp x + 1)\<close>.\<close>

definition rexp :: "rat \<Rightarrow> int" where
  "rexp x =
     (let (n, d) = quotient_of x;
          k = int (floorlog 2 (nat n)) - int (floorlog 2 (nat d))
      in if x < 2 powi k then k - 1 else k)"

definition f64_pos :: "rat \<Rightarrow> rat" where
  "f64_pos x = (let u = 2 powi (rexp x - 52) in of_int (rat_round_even (x / u)) * u)"

definition f64_rnd :: "rat \<Rightarrow> float64" where
  "f64_rnd x = (if x = 0 then 0 else if 0 < x then f64_pos x else - f64_pos (- x))"

definition f64_of_int :: "int \<Rightarrow> float64" where
  "f64_of_int i = f64_rnd (of_int i)"

definition f64_div :: "float64 \<Rightarrow> float64 \<Rightarrow> float64" where
  "f64_div x y = f64_rnd (x / y)"

definition f64_mul :: "float64 \<Rightarrow> float64 \<Rightarrow> float64" where
  "f64_mul x y = f64_rnd (x * y)"

text \<open>Conversion to \<^verbatim>\<open>int64\<close> truncates towards zero.\<close>

definition f64_to_int :: "float64 \<Rightarrow> int" where
  "f64_to_int x = (if 0 \<le> x then \<lfloor>x\<rfloor> else \<lceil>x\<rceil>)"

subsection \<open>Rounding to an integer\<close>

lemma rat_round_even_ge: "of_int z \<le> x \<Longrightarrow> z \<le> rat_round_even x"
proof -
  assume "of_int z \<le> x"
  then have "z \<le> \<lfloor>x\<rfloor>" by (simp add: le_floor_iff)
  then show ?thesis by (simp add: rat_round_even_def Let_def)
qed

lemma rat_round_even_le: "x \<le> of_int z \<Longrightarrow> rat_round_even x \<le> z"
proof (cases "x = of_int z")
  case True
  then show ?thesis by (simp add: rat_round_even_def Let_def)
next
  case False
  assume "x \<le> of_int z"
  with False have "\<lfloor>x\<rfloor> < z" by (simp add: floor_less_iff)
  then show ?thesis by (simp add: rat_round_even_def Let_def)
qed

lemma rat_round_even_of_int [simp]: "rat_round_even (of_int z) = z"
  by (simp add: rat_round_even_def Let_def)

lemma rat_round_even_mono: "x \<le> y \<Longrightarrow> rat_round_even x \<le> rat_round_even y"
proof (cases "\<lfloor>x\<rfloor> = \<lfloor>y\<rfloor>")
  case True
  assume "x \<le> y"
  with True show ?thesis by (auto simp: rat_round_even_def Let_def)
next
  case False
  assume "x \<le> y"
  with False have "\<lfloor>x\<rfloor> + 1 \<le> \<lfloor>y\<rfloor>" using floor_mono [of x y] by linarith
  moreover have "rat_round_even x \<le> \<lfloor>x\<rfloor> + 1" "\<lfloor>y\<rfloor> \<le> rat_round_even y"
    by (simp_all add: rat_round_even_def Let_def)
  ultimately show ?thesis by linarith
qed

subsection \<open>The exponent\<close>

lemma rat_pow2_bounds:
  assumes "0 < z" and low: "2 ^ k \<le> nat z" and up: "nat z < 2 ^ m"
  shows "(2::rat) ^ k \<le> of_int z \<and> (of_int z :: rat) < 2 ^ m"
proof -
  have "int (2 ^ k) \<le> z" using assms(1) low by (simp only: le_nat_iff)
  then have "(of_int (int (2 ^ k)) :: rat) \<le> of_int z" by (simp only: of_int_le_iff)
  moreover have "z < int (2 ^ m)" using assms(1) up by (simp only: nat_less_iff)
  then have "(of_int z :: rat) < of_int (int (2 ^ m))" by (simp only: of_int_less_iff)
  ultimately show ?thesis by simp
qed

lemma rexp_bounds:
  assumes "0 < x"
  shows "2 powi rexp x \<le> x" and "x < 2 powi (rexp x + 1)"
proof -
  obtain n d where nd: "quotient_of x = (n, d)" by (cases "quotient_of x")
  have d: "0 < d" and x: "x = of_int n / of_int d"
    using nd quotient_of_denom_pos quotient_of_div by auto
  have n: "0 < n" using assms x d by (simp add: zero_less_divide_iff)
  define a where "a = floorlog 2 (nat n)"
  define b where "b = floorlog 2 (nat d)"
  define k where "k = int a - int b"
  have a: "2 ^ (a - 1) \<le> nat n" "nat n < 2 ^ a" and b: "2 ^ (b - 1) \<le> nat d" "nat d < 2 ^ b"
    using floorlog_bounds [of "nat n" 2] floorlog_bounds [of "nat d" 2] n d
    by (auto simp: a_def b_def)
  have pos: "0 < a" "0 < b"
    using a(2) b(2) n d by (metis less_one nat_0_iff neq0_conv not_le power_0)+
  have a': "2 powi (int a - 1) \<le> (of_int n :: rat)" "(of_int n :: rat) < 2 powi int a"
    and b': "2 powi (int b - 1) \<le> (of_int d :: rat)" "(of_int d :: rat) < 2 powi int b"
  proof -
    have *: "2 powi (int m - 1) \<le> (of_int z :: rat) \<and> (of_int z :: rat) < 2 powi int m"
      if "0 < m" "0 < z" "2 ^ (m - 1) \<le> nat z" "nat z < 2 ^ m" for m z
      using rat_pow2_bounds [OF that(2,3,4)] that(1) by (cases m) (simp_all add: power_int_add)
    show "2 powi (int a - 1) \<le> (of_int n :: rat)" "(of_int n :: rat) < 2 powi int a"
      "2 powi (int b - 1) \<le> (of_int d :: rat)" "(of_int d :: rat) < 2 powi int b"
      using * [OF pos(1) n a] * [OF pos(2) d b] by auto
  qed
  have up: "x < 2 powi (k + 1)"
  proof -
    have "x < 2 powi int a / of_int d"
      using a'(2) d x by (simp add: divide_strict_right_mono)
    also have "\<dots> \<le> 2 powi int a / 2 powi (int b - 1)"
      using b'(1) by (intro divide_left_mono) (auto simp: d)
    also have "\<dots> = 2 powi (k + 1)"
      by (simp add: k_def power_int_diff power_int_add)
    finally show ?thesis .
  qed
  have low: "2 powi (k - 1) \<le> x"
  proof -
    have "2 powi (k - 1) = (2 powi (int a - 1)) / (2 powi int b :: rat)"
      by (simp add: k_def power_int_diff power_int_add field_simps)
    also have "\<dots> \<le> of_int n / 2 powi int b"
      using a'(1) by (intro divide_right_mono) auto
    also have "\<dots> \<le> of_int n / of_int d"
      using b'(2) n d by (intro divide_left_mono) auto
    finally show ?thesis using x by simp
  qed
  have "rexp x = (if x < 2 powi k then k - 1 else k)"
    by (simp add: rexp_def nd a_def b_def k_def Let_def)
  then show "2 powi rexp x \<le> x" and "x < 2 powi (rexp x + 1)"
    using up low by (auto split: if_splits)
qed

lemma rexp_mono: "0 < x \<Longrightarrow> x \<le> y \<Longrightarrow> rexp x \<le> rexp y"
proof (rule ccontr)
  assume *: "0 < x" "x \<le> y" "\<not> rexp x \<le> rexp y"
  have "y < 2 powi (rexp y + 1)"
    using rexp_bounds(2) * by auto
  also have "\<dots> \<le> 2 powi rexp x"
    using *(3) by (intro power_int_increasing) auto
  also have "\<dots> \<le> x" using rexp_bounds(1) * by auto
  finally show False using * by simp
qed

subsection \<open>Rounding to 53 bits\<close>

lemma power_int_pos2 [simp]: "0 < (2 :: rat) powi k"
  by (simp add: zero_less_power_int)

text \<open>A bound of the form \<open>m * 2 powi e\<close> with \<open>m\<close> an integer and \<open>e\<close> no smaller than the unit in
  the last place is kept by rounding.\<close>

lemma f64_pos_ge:
  assumes "of_int m * 2 powi e \<le> x" and "rexp x - 52 \<le> e"
  shows "of_int m * 2 powi e \<le> f64_pos x"
proof -
  define u :: rat where "u = 2 powi (rexp x - 52)"
  have u: "0 < u" by (simp add: u_def)
  define k where "k = nat (e - (rexp x - 52))"
  have e: "(2::rat) powi e = 2 ^ k * u"
    using assms(2) by (simp add: u_def k_def flip: power_int_of_nat power_int_add)
  have "of_int (m * 2 ^ k) \<le> x / u"
    using assms(1) u by (simp add: e pos_le_divide_eq mult.assoc)
  then have "m * 2 ^ k \<le> rat_round_even (x / u)"
    by (rule rat_round_even_ge)
  then have "of_int (m * 2 ^ k) * u \<le> of_int (rat_round_even (x / u)) * u"
    using u by (intro mult_right_mono) (simp_all only: of_int_le_iff less_imp_le)
  then show ?thesis
    by (simp add: f64_pos_def Let_def e u_def [symmetric] mult.assoc)
qed

lemma f64_pos_le:
  assumes "x \<le> of_int m * 2 powi e" and "rexp x - 52 \<le> e"
  shows "f64_pos x \<le> of_int m * 2 powi e"
proof -
  define u :: rat where "u = 2 powi (rexp x - 52)"
  have u: "0 < u" by (simp add: u_def)
  define k where "k = nat (e - (rexp x - 52))"
  have e: "(2::rat) powi e = 2 ^ k * u"
    using assms(2) by (simp add: u_def k_def flip: power_int_of_nat power_int_add)
  have "x / u \<le> of_int (m * 2 ^ k)"
    using assms(1) u by (simp add: e pos_divide_le_eq mult.assoc)
  then have "rat_round_even (x / u) \<le> m * 2 ^ k"
    by (rule rat_round_even_le)
  then have "of_int (rat_round_even (x / u)) * u \<le> of_int (m * 2 ^ k) * u"
    using u by (intro mult_right_mono) (simp_all only: of_int_le_iff less_imp_le)
  then show ?thesis
    by (simp add: f64_pos_def Let_def e u_def [symmetric] mult.assoc)
qed

lemma f64_pos_binade:
  assumes "0 < x"
  shows "2 powi rexp x \<le> f64_pos x" and "f64_pos x \<le> 2 powi (rexp x + 1)"
  using f64_pos_ge [of 1 "rexp x" x] f64_pos_le [of x 1 "rexp x + 1"] rexp_bounds [OF assms]
  by simp_all

lemma f64_pos_mono:
  assumes x: "0 < x" and xy: "x \<le> y"
  shows "f64_pos x \<le> f64_pos y"
proof (cases "rexp x = rexp y")
  case True
  have "x / 2 powi (rexp x - 52) \<le> y / 2 powi (rexp x - 52)"
    using xy by (intro divide_right_mono) (auto simp: less_imp_le)
  then have "rat_round_even (x / 2 powi (rexp x - 52)) \<le> rat_round_even (y / 2 powi (rexp x - 52))"
    by (rule rat_round_even_mono)
  then show ?thesis
    using True by (simp add: f64_pos_def Let_def mult_right_mono less_imp_le)
next
  case False
  then have "rexp x + 1 \<le> rexp y" using rexp_mono [OF x xy] by simp
  then have "(2::rat) powi (rexp x + 1) \<le> 2 powi rexp y"
    by (intro power_int_increasing) auto
  then show ?thesis
    using f64_pos_binade(2) [OF x] f64_pos_binade(1) [of y] x xy by linarith
qed

lemma f64_pos_pos: "0 < x \<Longrightarrow> 0 < f64_pos x"
  using f64_pos_binade(1) [of x] power_int_pos2 [of "rexp x"] by linarith

lemma f64_rnd_mono: "x \<le> y \<Longrightarrow> f64_rnd x \<le> f64_rnd y"
proof -
  assume xy: "x \<le> y"
  consider "0 < x" | "x \<le> 0" "0 \<le> y" | "y < 0" using xy by linarith
  then show ?thesis
  proof cases
    case 1
    then show ?thesis using xy f64_pos_mono [of x y] by (simp add: f64_rnd_def)
  next
    case 2
    then show ?thesis
      using f64_pos_pos [of y] f64_pos_pos [of "- x"] by (auto simp: f64_rnd_def)
  next
    case 3
    then show ?thesis using xy f64_pos_mono [of "- y" "- x"] by (simp add: f64_rnd_def)
  qed
qed

text \<open>Integers of up to 53 bits, scaled by a power of two, are represented exactly.\<close>

lemma f64_rnd_exact:
  assumes "0 \<le> m" "m < 2 ^ 53"
  shows "f64_rnd (of_int m * 2 powi e) = of_int m * 2 powi e"
proof (cases "m = 0")
  case True
  then show ?thesis by (simp add: f64_rnd_def)
next
  case False
  define x :: rat where "x = of_int m * 2 powi e"
  have x: "0 < x" using False assms(1) by (simp add: x_def)
  have "(of_int m :: rat) < of_int (2 ^ 53)"
    using assms(2) by (simp only: of_int_less_iff)
  then have "x < 2 powi 53 * 2 powi e" by (simp add: x_def)
  then have "2 powi rexp x < (2::rat) powi (53 + e)"
    using rexp_bounds(1) [OF x] by (simp add: power_int_add)
  then have "rexp x < 53 + e"
    by (meson linorder_not_le one_le_numeral power_int_increasing)
  then have "f64_pos x = x"
    using f64_pos_le [of x m e] f64_pos_ge [of m e x] by (simp add: x_def antisym)
  then show ?thesis using x by (simp add: f64_rnd_def x_def)
qed

lemma f64_of_int_exact: "0 \<le> m \<Longrightarrow> m < 2 ^ 53 \<Longrightarrow> f64_of_int m = of_int m"
  using f64_rnd_exact [of m 0] by (simp add: f64_of_int_def)

lemma f64_rnd_0 [simp]: "f64_rnd 0 = 0"
  by (simp add: f64_rnd_def)

lemma f64_rnd_1 [simp]: "f64_rnd 1 = 1"
  using f64_rnd_exact [of 1 0] by simp

lemma f64_rnd_nonneg: "0 \<le> x \<Longrightarrow> 0 \<le> f64_rnd x"
  using f64_rnd_mono [of 0 x] by simp

lemma f64_of_int_pos: "0 < i \<Longrightarrow> 0 < f64_of_int i"
  using f64_pos_pos [of "of_int i"] by (simp add: f64_of_int_def f64_rnd_def)

lemma f64_of_int_nonneg: "0 \<le> i \<Longrightarrow> 0 \<le> f64_of_int i"
  using f64_rnd_nonneg by (simp add: f64_of_int_def)

lemma f64_of_int_mono: "i \<le> j \<Longrightarrow> f64_of_int i \<le> f64_of_int j"
  using f64_rnd_mono [of "of_int i" "of_int j"] by (simp add: f64_of_int_def)

lemma f64_div_self: "0 < i \<Longrightarrow> f64_div (f64_of_int i) (f64_of_int i) = 1"
  using f64_of_int_pos [of i] by (simp add: f64_div_def)

lemma f64_div_mono:
  "0 \<le> a \<Longrightarrow> a \<le> b \<Longrightarrow> 0 < t \<Longrightarrow> f64_div (f64_of_int a) (f64_of_int t) \<le> f64_div (f64_of_int b) (f64_of_int t)"
  using f64_of_int_pos [of t] f64_of_int_mono [of a b]
  by (simp add: f64_div_def f64_rnd_mono divide_right_mono)

lemma f64_div_nonneg: "0 \<le> a \<Longrightarrow> 0 < t \<Longrightarrow> 0 \<le> f64_div (f64_of_int a) (f64_of_int t)"
  using f64_of_int_pos [of t] f64_of_int_nonneg [of a] by (simp add: f64_div_def f64_rnd_nonneg)

subsection \<open>Comparing an alive ratio with a threshold\<close>

text \<open>
  The test \<^verbatim>\<open>float64(count)/float64(total) < minRatio\<close>. With a zero total the quotient is
  \<open>+Inf\<close> or NaN, and neither is below a finite threshold.
\<close>

definition ratio_below :: "int \<Rightarrow> int \<Rightarrow> float64 \<Rightarrow> bool" where
  "ratio_below cnt tot minRatio =
     (if tot = 0 then False
      else f64_div (f64_of_int cnt) (f64_of_int tot) < minRatio)"

text \<open>
  What a scheduler may rely on of the test: a tier with every proxy alive is never below a
  threshold of at most 1, a zero threshold is never undercut, and a tier that is not below its
  threshold stays so when proxies come back or the threshold is lowered.
\<close>

locale ratio_gate =
  fixes below :: "int \<Rightarrow> int \<Rightarrow> float64 \<Rightarrow> bool"
  assumes full: "0 < n \<Longrightarrow> m \<le> 1 \<Longrightarrow> \<not> below n n m"
    and zero: "0 \<le> a \<Longrightarrow> 0 \<le> t \<Longrightarrow> m \<le> 0 \<Longrightarrow> \<not> below a t m"
    and mono: "0 \<le> a \<Longrightarrow> a \<le> b \<Longrightarrow> 0 \<le> t \<Longrightarrow> below b t m \<Longrightarrow> below a t m"
    and mono_ratio: "m \<le> m' \<Longrightarrow> below a t m \<Longrightarrow> below a t m'"
begin

text \<open>The gate as the scheduler writes it: skip an empty tier, skip a tier below its threshold.\<close>

lemma pass_full: "0 < n \<Longrightarrow> m \<le> 1 \<Longrightarrow> 0 < n \<and> \<not> below n n m"
  by (simp add: full)

lemma pass_recover:
  "0 < a \<and> \<not> below a t m \<Longrightarrow> a \<le> b \<Longrightarrow> 0 \<le> t \<Longrightarrow> 0 < b \<and> \<not> below b t m"
  using mono [of a b t m] by auto

lemma pass_lower: "0 < a \<and> \<not> below a t m \<Longrightarrow> m' \<le> m \<Longrightarrow> 0 < a \<and> \<not> below a t m'"
  using mono_ratio [of m' m a t] by auto

end

interpretation alive_gate: ratio_gate ratio_below
proof unfold_locales
  show "0 < n \<Longrightarrow> m \<le> 1 \<Longrightarrow> \<not> ratio_below n n m" for n m
    by (simp add: ratio_below_def f64_div_self)
  show "0 \<le> a \<Longrightarrow> 0 \<le> t \<Longrightarrow> m \<le> 0 \<Longrightarrow> \<not> ratio_below a t m" for a t m
    using f64_div_nonneg [of a t] by (auto simp: ratio_below_def)
  show "0 \<le> a \<Longrightarrow> a \<le> b \<Longrightarrow> 0 \<le> t \<Longrightarrow> ratio_below b t m \<Longrightarrow> ratio_below a t m" for a b t m
    using f64_div_mono [of a b t] by (auto simp: ratio_below_def split: if_splits)
  show "m \<le> m' \<Longrightarrow> ratio_below a t m \<Longrightarrow> ratio_below a t m'" for m m' a t
    by (auto simp: ratio_below_def split: if_splits)
qed

end
