(* ===== verification/Config_Validate.thy ===== *)
theory Config_Validate
  imports Config_Model
begin

section \<open>Validation of the configuration\<close>

text \<open>
  \<^verbatim>\<open>Config.Validate\<close> of \<^verbatim>\<open>internal/config/config.go\<close>, one definition per block of the method, in
  its order. An error is a value of \<open>cfg_error\<close>, one constructor per message. The method fills in
  defaults while it validates, so success returns the normalised configuration.
\<close>

datatype cfg_error =
    HealthCheckURLRequired nat
  | ProviderNameRequired nat
  | ProviderDuplicateName string
  | ProviderUnsupportedType string string
  | TunnelRequired string
  | TunnelGatewayRequired string
  | IPPoolRequired string
  | IPPoolExtractURLRequired string
  | FreeRequired string
  | FreeFeedURLRequired string
  | FreeCheckURLRequired string
  | ProviderCheckURLRequired string string
  | ProviderBadCountry string string
  | ProviderRatioNegative string
  | ProviderRatioAboveOne string
  | GroupNameRequired nat
  | GroupDuplicateName string
  | GroupRatioRange string
  | GroupInvalidRegion string string
  | GroupUnknownPrimary string string
  | GroupWeightTooSmall string string
  | GroupWeightNotPrimary string string
  | BackupNameRequired string nat
  | BackupRatioRange string string
  | BackupUnknownProvider string string string
  | AccountNameRequired nat
  | AccountDuplicateName string
  | AccountTokenRequired string
  | AccountDuplicateToken string
  | AccountBadRole string

fun validate_health_urls :: "nat \<Rightarrow> CheckURLItem list \<Rightarrow> cfg_error + unit" where
  "validate_health_urls i [] = Inr ()"
| "validate_health_urls i (it # items) =
     (if trim_space (cu_URL it) = [] then Inl (HealthCheckURLRequired i)
      else validate_health_urls (Suc i) items)"

subsection \<open>One provider\<close>

definition validate_tunnel :: "ProviderCfg \<Rightarrow> cfg_error + ProviderCfg" where
  "validate_tunnel p =
     (if pc_Type p = ''tunnel'' \<and> length (pc_URLs p) = 0 then
        (case pc_Tunnel p of
           None \<Rightarrow> Inl (TunnelRequired (pc_Name p))
         | Some t \<Rightarrow>
             if tc_Gateway t = [] then Inl (TunnelGatewayRequired (pc_Name p))
             else Inr (p\<lparr>pc_Tunnel := Some (t\<lparr>tc_Port := dflt0 8080 (tc_Port t),
                                              tc_Scheme := dfltS ''http'' (tc_Scheme t)\<rparr>)\<rparr>))
      else Inr p)"

definition validate_ippool :: "ProviderCfg \<Rightarrow> cfg_error + ProviderCfg" where
  "validate_ippool p =
     (if (pc_Type p = ''ip_pool'' \<or> pc_Type p = ''sticky'') \<and> length (pc_URLs p) = 0 then
        (case pc_IPPool p of
           None \<Rightarrow> Inl (IPPoolRequired (pc_Name p))
         | Some c \<Rightarrow>
             if ip_ExtractURL c = [] then Inl (IPPoolExtractURLRequired (pc_Name p))
             else Inr (p\<lparr>pc_IPPool := Some (c\<lparr>ip_Format := dfltS ''raw'' (ip_Format c),
                                              ip_RefreshSeconds := dflt0 60 (ip_RefreshSeconds c),
                                              ip_ExpireSeconds := dflt0 600 (ip_ExpireSeconds c)\<rparr>)\<rparr>))
      else Inr p)"

definition validate_sticky :: "ProviderCfg \<Rightarrow> ProviderCfg" where
  "validate_sticky p =
     (if pc_Type p = ''sticky'' \<and> pc_StickySeconds p = 0 then p\<lparr>pc_StickySeconds := 60\<rparr> else p)"

definition validate_free :: "ProviderCfg \<Rightarrow> cfg_error + ProviderCfg" where
  "validate_free p =
     (if pc_Type p = ''free'' then
        (case pc_Free p of
           None \<Rightarrow> Inl (FreeRequired (pc_Name p))
         | Some c \<Rightarrow>
             if fp_FeedURL c = [] then Inl (FreeFeedURLRequired (pc_Name p))
             else let p' = p\<lparr>pc_Free := Some (c\<lparr>fp_MaxSpeedMS := dflt0 3000 (fp_MaxSpeedMS c),
                                                fp_DeleteLatencyMS := dflt0 3000 (fp_DeleteLatencyMS c),
                                                fp_RefreshSeconds := dflt0 60 (fp_RefreshSeconds c)\<rparr>)\<rparr>
                  in if pc_CheckURL p' = [] \<and> length (pc_CheckURLs p') = 0
                     then Inl (FreeCheckURLRequired (pc_Name p)) else Inr p')
      else Inr p)"

fun validate_check_urls :: "string \<Rightarrow> CheckURLItem list \<Rightarrow> cfg_error + unit" where
  "validate_check_urls name [] = Inr ()"
| "validate_check_urls name (it # items) =
     (if trim_space (cu_URL it) = [] then Inl (ProviderCheckURLRequired name (cu_Name it))
      else validate_check_urls name items)"

definition validate_limits :: "ProviderCfg \<Rightarrow> cfg_error + ProviderCfg" where
  "validate_limits p =
     (let p1 = p\<lparr>pc_Weight := dflt0 1 (pc_Weight p)\<rparr>
      in if pc_Country p1 \<noteq> [] \<and> \<not> isISOAlpha2 (pc_Country p1)
         then Inl (ProviderBadCountry (pc_Name p1) (pc_Country p1))
         else if pc_MinAliveRatio p1 < 0 then Inl (ProviderRatioNegative (pc_Name p1))
         else if pc_MinAliveRatio p1 > 1 then Inl (ProviderRatioAboveOne (pc_Name p1))
         else Inr p1)"

definition validate_provider :: "nat \<Rightarrow> string list \<Rightarrow> ProviderCfg \<Rightarrow> cfg_error + ProviderCfg" where
  "validate_provider i provNames p =
     (if pc_Name p = [] then Inl (ProviderNameRequired i)
      else if pc_Name p \<in> set provNames then Inl (ProviderDuplicateName (pc_Name p))
      else if pc_Type p \<notin> {''tunnel'', ''ip_pool'', ''sticky'', ''free''}
        then Inl (ProviderUnsupportedType (pc_Name p) (pc_Type p))
      else bindE (validate_tunnel p) (\<lambda>p1.
           bindE (validate_ippool p1) (\<lambda>p2.
           bindE (validate_free (validate_sticky p2)) (\<lambda>p3.
           bindE (validate_check_urls (pc_Name p3) (pc_CheckURLs p3)) (\<lambda>_.
             validate_limits p3)))))"

fun validate_providers :: "nat \<Rightarrow> string list \<Rightarrow> ProviderCfg list \<Rightarrow> cfg_error + ProviderCfg list" where
  "validate_providers i seen [] = Inr []"
| "validate_providers i seen (p # ps) =
     bindE (validate_provider i seen p) (\<lambda>p'.
     bindE (validate_providers (Suc i) (pc_Name p # seen) ps) (\<lambda>ps'. Inr (p' # ps')))"

subsection \<open>One group\<close>

fun validate_all :: "('a \<Rightarrow> cfg_error option) \<Rightarrow> 'a list \<Rightarrow> cfg_error + unit" where
  "validate_all chk [] = Inr ()"
| "validate_all chk (x # xs) = (case chk x of Some e \<Rightarrow> Inl e | None \<Rightarrow> validate_all chk xs)"

definition check_weight :: "GroupCfg \<Rightarrow> string \<times> int \<Rightarrow> cfg_error option" where
  "check_weight g pw =
     (let (pn, w) = pw
      in if w < 1 then Some (GroupWeightTooSmall (gc_Name g) pn)
         else if pn \<notin> set (gc_Primary g) then Some (GroupWeightNotPrimary (gc_Name g) pn)
         else None)"

definition validate_backup :: "string list \<Rightarrow> string \<Rightarrow> nat \<times> BackupPool \<Rightarrow> cfg_error option" where
  "validate_backup provNames gname ib =
     (let (bi, b) = ib
      in if bk_Name b = [] then Some (BackupNameRequired gname bi)
         else if bk_MinAliveRatio b < 0 \<or> bk_MinAliveRatio b > 1
           then Some (BackupRatioRange gname (bk_Name b))
         else map_option (BackupUnknownProvider gname (bk_Name b))
                (find (\<lambda>pn. pn \<notin> set provNames) (bk_Providers b)))"

definition validate_group :: "string list \<Rightarrow> nat \<Rightarrow> string list \<Rightarrow> GroupCfg \<Rightarrow> cfg_error + unit" where
  "validate_group provNames gi groupNames g =
     (if gc_Name g = [] then Inl (GroupNameRequired gi)
      else if gc_Name g \<in> set groupNames then Inl (GroupDuplicateName (gc_Name g))
      else if gc_MinAliveRatio g < 0 \<or> gc_MinAliveRatio g > 1 then Inl (GroupRatioRange (gc_Name g))
      else bindE (validate_all (\<lambda>r. if \<not> validRegion r then Some (GroupInvalidRegion (gc_Name g) r) else None)
                    (gc_Regions g)) (\<lambda>_.
           bindE (validate_all (\<lambda>pn. if pn \<notin> set provNames then Some (GroupUnknownPrimary (gc_Name g) pn) else None)
                    (gc_Primary g)) (\<lambda>_.
           bindE (validate_all (check_weight g) (gc_PrimaryWeights g)) (\<lambda>_.
             validate_all (validate_backup provNames (gc_Name g)) (List.enumerate 0 (gc_Backups g))))))"

fun validate_groups :: "string list \<Rightarrow> nat \<Rightarrow> string list \<Rightarrow> GroupCfg list \<Rightarrow> cfg_error + unit" where
  "validate_groups provNames gi seen [] = Inr ()"
| "validate_groups provNames gi seen (g # gs) =
     bindE (validate_group provNames gi seen g) (\<lambda>_.
       validate_groups provNames (Suc gi) (gc_Name g # seen) gs)"

subsection \<open>Accounts and the whole configuration\<close>

fun validate_accounts :: "nat \<Rightarrow> string list \<Rightarrow> string list \<Rightarrow> AccountCfg list \<Rightarrow> cfg_error + unit" where
  "validate_accounts i names tokens [] = Inr ()"
| "validate_accounts i names tokens (a # as) =
     (if ac_Name a = [] then Inl (AccountNameRequired i)
      else if ac_Name a \<in> set names then Inl (AccountDuplicateName (ac_Name a))
      else if ac_Token a = [] then Inl (AccountTokenRequired (ac_Name a))
      else if ac_Token a \<in> set tokens then Inl (AccountDuplicateToken (ac_Name a))
      else if ac_Role a \<noteq> ''admin'' \<and> ac_Role a \<noteq> ''user'' \<and> ac_Role a \<noteq> [] then Inl (AccountBadRole (ac_Name a))
      else validate_accounts (Suc i) (ac_Name a # names) (ac_Token a # tokens) as)"

definition Validate :: "Config \<Rightarrow> cfg_error + Config" where
  "Validate c =
     bindE (validate_health_urls 0 (hc_CheckURLs (cf_HealthCheck c))) (\<lambda>_.
     bindE (validate_providers 0 [] (cf_Providers c)) (\<lambda>ps.
     bindE (if length (cf_Groups c) > 0 then validate_groups (map pc_Name ps) 0 [] (cf_Groups c) else Inr ()) (\<lambda>_.
     bindE (validate_accounts 0 [] [] (cf_Accounts c)) (\<lambda>_.
       Inr (c\<lparr>cf_Providers := ps\<rparr>)))))"

text \<open>What \<^verbatim>\<open>Load\<close> does after the YAML decoder has filled a \<^verbatim>\<open>Config\<close>.\<close>

definition Load_decoded :: "Config \<Rightarrow> cfg_error + Config" where
  "Load_decoded c = Validate (applyDefaults c)"

subsection \<open>What a valid configuration is\<close>

definition provider_ok :: "ProviderCfg \<Rightarrow> bool" where
  "provider_ok p \<longleftrightarrow>
     pc_Name p \<noteq> [] \<and> pc_Type p \<in> {''tunnel'', ''ip_pool'', ''sticky'', ''free''} \<and>
     pc_Weight p \<noteq> 0 \<and> 0 \<le> pc_MinAliveRatio p \<and> pc_MinAliveRatio p \<le> 1 \<and>
     (pc_Country p = [] \<or> isISOAlpha2 (pc_Country p)) \<and>
     (pc_Type p = ''tunnel'' \<and> pc_URLs p = [] \<longrightarrow>
        (\<exists>t. pc_Tunnel p = Some t \<and> tc_Gateway t \<noteq> [] \<and> tc_Port t \<noteq> 0 \<and> tc_Scheme t \<noteq> [])) \<and>
     (pc_Type p \<in> {''ip_pool'', ''sticky''} \<and> pc_URLs p = [] \<longrightarrow>
        (\<exists>c. pc_IPPool p = Some c \<and> ip_ExtractURL c \<noteq> [] \<and> ip_Format c \<noteq> [] \<and>
             ip_RefreshSeconds c \<noteq> 0 \<and> ip_ExpireSeconds c \<noteq> 0)) \<and>
     (pc_Type p = ''sticky'' \<longrightarrow> pc_StickySeconds p \<noteq> 0) \<and>
     (pc_Type p = ''free'' \<longrightarrow>
        (\<exists>c. pc_Free p = Some c \<and> fp_FeedURL c \<noteq> [] \<and> fp_MaxSpeedMS c \<noteq> 0 \<and>
             fp_DeleteLatencyMS c \<noteq> 0 \<and> fp_RefreshSeconds c \<noteq> 0) \<and>
        (pc_CheckURL p \<noteq> [] \<or> pc_CheckURLs p \<noteq> [])) \<and>
     (\<forall>it \<in> set (pc_CheckURLs p). trim_space (cu_URL it) \<noteq> [])"

definition group_ok :: "string list \<Rightarrow> GroupCfg \<Rightarrow> bool" where
  "group_ok provNames g \<longleftrightarrow>
     gc_Name g \<noteq> [] \<and> 0 \<le> gc_MinAliveRatio g \<and> gc_MinAliveRatio g \<le> 1 \<and>
     list_all validRegion (gc_Regions g) \<and> set (gc_Primary g) \<subseteq> set provNames \<and>
     (\<forall>(pn, w) \<in> set (gc_PrimaryWeights g). 1 \<le> w \<and> pn \<in> set (gc_Primary g)) \<and>
     (\<forall>b \<in> set (gc_Backups g). bk_Name b \<noteq> [] \<and> 0 \<le> bk_MinAliveRatio b \<and> bk_MinAliveRatio b \<le> 1 \<and>
        set (bk_Providers b) \<subseteq> set provNames)"

definition account_ok :: "AccountCfg \<Rightarrow> bool" where
  "account_ok a \<longleftrightarrow> ac_Name a \<noteq> [] \<and> ac_Token a \<noteq> [] \<and> ac_Role a \<in> {''admin'', ''user'', []}"

definition config_ok :: "Config \<Rightarrow> bool" where
  "config_ok c \<longleftrightarrow>
     list_all (\<lambda>it. trim_space (cu_URL it) \<noteq> []) (hc_CheckURLs (cf_HealthCheck c)) \<and>
     list_all provider_ok (cf_Providers c) \<and> distinct (map pc_Name (cf_Providers c)) \<and>
     list_all (group_ok (map pc_Name (cf_Providers c))) (cf_Groups c) \<and>
     distinct (map gc_Name (cf_Groups c)) \<and>
     list_all account_ok (cf_Accounts c) \<and> distinct (map ac_Name (cf_Accounts c)) \<and>
     distinct (map ac_Token (cf_Accounts c))"

subsection \<open>Providers: soundness and completeness\<close>

lemmas validate_provider_defs =
  validate_provider_def validate_tunnel_def validate_ippool_def validate_sticky_def
  validate_free_def validate_limits_def

lemma validate_check_urls_ok:
  "validate_check_urls n items = Inr () \<longleftrightarrow> (\<forall>it \<in> set items. trim_space (cu_URL it) \<noteq> [])"
  by (induction items) auto

lemma validate_health_urls_ok:
  "validate_health_urls i items = Inr () \<longleftrightarrow> list_all (\<lambda>it. trim_space (cu_URL it) \<noteq> []) items"
  by (induction items arbitrary: i) auto

text \<open>Each block of the provider validation keeps the fields the others look at.\<close>

lemma validate_tunnel_Inr:
  assumes "validate_tunnel p = Inr q"
  shows "q = p\<lparr>pc_Tunnel := pc_Tunnel q\<rparr>"
    and "pc_Type p = ''tunnel'' \<and> pc_URLs p = [] \<Longrightarrow>
      \<exists>t. pc_Tunnel q = Some t \<and> tc_Gateway t \<noteq> [] \<and> tc_Port t \<noteq> 0 \<and> tc_Scheme t \<noteq> []"
  using assms by (auto simp: validate_tunnel_def split: if_splits option.splits)

lemma validate_ippool_Inr:
  assumes "validate_ippool p = Inr q"
  shows "q = p\<lparr>pc_IPPool := pc_IPPool q\<rparr>"
    and "pc_Type p \<in> {''ip_pool'', ''sticky''} \<and> pc_URLs p = [] \<Longrightarrow>
      \<exists>c. pc_IPPool q = Some c \<and> ip_ExtractURL c \<noteq> [] \<and> ip_Format c \<noteq> [] \<and>
          ip_RefreshSeconds c \<noteq> 0 \<and> ip_ExpireSeconds c \<noteq> 0"
  using assms by (auto simp: validate_ippool_def split: if_splits option.splits)

lemma validate_free_Inr:
  assumes "validate_free p = Inr q"
  shows "q = p\<lparr>pc_Free := pc_Free q\<rparr>"
    and "pc_Type p = ''free'' \<Longrightarrow>
      (\<exists>c. pc_Free q = Some c \<and> fp_FeedURL c \<noteq> [] \<and> fp_MaxSpeedMS c \<noteq> 0 \<and>
          fp_DeleteLatencyMS c \<noteq> 0 \<and> fp_RefreshSeconds c \<noteq> 0) \<and>
      (pc_CheckURL p \<noteq> [] \<or> pc_CheckURLs p \<noteq> [])"
  using assms by (auto simp: validate_free_def Let_def split: if_splits option.splits)

lemma validate_limits_Inr:
  assumes "validate_limits p = Inr q"
  shows "q = p\<lparr>pc_Weight := dflt0 1 (pc_Weight p)\<rparr>"
    and "(pc_Country p = [] \<or> isISOAlpha2 (pc_Country p)) \<and> 0 \<le> pc_MinAliveRatio p \<and> pc_MinAliveRatio p \<le> 1"
  using assms by (auto simp: validate_limits_def Let_def split: if_splits)

lemma validate_provider_sound:
  assumes "validate_provider i seen p = Inr q"
  shows "provider_ok q \<and> pc_Name q = pc_Name p \<and> pc_Name q \<notin> set seen"
proof -
  from assms have name: "pc_Name p \<noteq> []" "pc_Name p \<notin> set seen"
    and type: "pc_Type p \<in> {''tunnel'', ''ip_pool'', ''sticky'', ''free''}"
    by (auto simp: validate_provider_def split: if_splits)
  from assms obtain p1 p2 p3 where 1: "validate_tunnel p = Inr p1" and 2: "validate_ippool p1 = Inr p2"
    and 3: "validate_free (validate_sticky p2) = Inr p3"
    and 4: "validate_check_urls (pc_Name p3) (pc_CheckURLs p3) = Inr ()" and 5: "validate_limits p3 = Inr q"
    by (auto simp: validate_provider_def bindE_Inr_iff split: if_splits)
  obtain r where r: "r = validate_sticky p2" by blast
  have 3: "validate_free r = Inr p3" using 3 r by simp
  have s: "r = p2\<lparr>pc_StickySeconds := pc_StickySeconds r\<rparr>"
      "pc_Type p2 = ''sticky'' \<Longrightarrow> pc_StickySeconds r \<noteq> 0"
    by (auto simp: validate_sticky_def r)
  note eqs = validate_tunnel_Inr(1) [OF 1] validate_ippool_Inr(1) [OF 2] s(1)
    validate_free_Inr(1) [OF 3] validate_limits_Inr(1) [OF 5]
  obtain T I S F where p1: "p1 = p\<lparr>pc_Tunnel := T\<rparr>" and p2: "p2 = p1\<lparr>pc_IPPool := I\<rparr>"
    and ps: "r = p2\<lparr>pc_StickySeconds := S\<rparr>" and p3: "p3 = r\<lparr>pc_Free := F\<rparr>"
    and q: "q = p3\<lparr>pc_Weight := dflt0 1 (pc_Weight p3)\<rparr>"
    using eqs by blast
  have q_eq: "q = p\<lparr>pc_Tunnel := T, pc_IPPool := I, pc_StickySeconds := S, pc_Free := F,
      pc_Weight := dflt0 1 (pc_Weight p)\<rparr>"
    by (simp add: q p3 ps p2 p1)
  note parts = validate_tunnel_Inr(2) [OF 1] validate_ippool_Inr(2) [OF 2] s(2)
    validate_free_Inr(2) [OF 3] validate_limits_Inr(2) [OF 5] 4 [unfolded validate_check_urls_ok]
  show ?thesis
    using parts [unfolded p3 ps p2 p1] name type unfolding provider_ok_def q_eq
    by simp
qed

lemma dflt_id: "x \<noteq> 0 \<Longrightarrow> dflt0 d x = x" "s \<noteq> [] \<Longrightarrow> dfltS e s = s"
  by simp_all

lemma validate_provider_complete:
  assumes ok: "provider_ok p" and "pc_Name p \<notin> set seen"
  shows "validate_provider i seen p = Inr p"
proof -
  note parts = ok [unfolded provider_ok_def]
  have 1: "validate_tunnel p = Inr p"
  proof (cases "pc_Type p = ''tunnel'' \<and> pc_URLs p = []")
    case True
    then obtain t where "pc_Tunnel p = Some t" "tc_Gateway t \<noteq> []" "tc_Port t \<noteq> 0" "tc_Scheme t \<noteq> []"
      using parts by blast
    then show ?thesis by (simp add: validate_tunnel_def)
  qed (auto simp: validate_tunnel_def)
  have 2: "validate_ippool p = Inr p"
  proof (cases "pc_Type p \<in> {''ip_pool'', ''sticky''} \<and> pc_URLs p = []")
    case True
    then obtain c where "pc_IPPool p = Some c" "ip_ExtractURL c \<noteq> []" "ip_Format c \<noteq> []"
        "ip_RefreshSeconds c \<noteq> 0" "ip_ExpireSeconds c \<noteq> 0"
      using parts by blast
    then show ?thesis by (simp add: validate_ippool_def)
  qed (auto simp: validate_ippool_def)
  have sticky: "validate_sticky p = p"
    using parts by (simp add: validate_sticky_def)
  have 3: "validate_free (validate_sticky p) = Inr p"
  proof (cases "pc_Type p = ''free''")
    case True
    then obtain c where "pc_Free p = Some c" "fp_FeedURL c \<noteq> []" "fp_MaxSpeedMS c \<noteq> 0"
        "fp_DeleteLatencyMS c \<noteq> 0" "fp_RefreshSeconds c \<noteq> 0"
        "pc_CheckURL p \<noteq> [] \<or> pc_CheckURLs p \<noteq> []"
      using parts by blast
    then show ?thesis unfolding sticky by (auto simp: validate_free_def)
  qed (simp add: validate_free_def sticky)
  have 4: "validate_check_urls (pc_Name p) (pc_CheckURLs p) = Inr ()"
    using ok by (simp add: validate_check_urls_ok provider_ok_def)
  have 5: "validate_limits p = Inr p"
    using ok by (auto simp: validate_limits_def provider_ok_def Let_def)
  have "pc_Name p \<noteq> []" "pc_Type p \<in> {''tunnel'', ''ip_pool'', ''sticky'', ''free''}"
    using ok by (auto simp: provider_ok_def)
  with assms(2) show ?thesis
    by (simp add: validate_provider_def 1 2 3 4 5)
qed

lemma validate_providers_sound:
  "validate_providers i seen ps = Inr qs \<Longrightarrow>
     list_all provider_ok qs \<and> map pc_Name qs = map pc_Name ps \<and> distinct (map pc_Name qs) \<and>
     set (map pc_Name qs) \<inter> set seen = {}"
proof (induction i seen ps arbitrary: qs rule: validate_providers.induct)
  case (1 i seen)
  then show ?case by simp
next
  case (2 i seen p ps)
  then obtain q qs' where q: "validate_provider i seen p = Inr q"
    and qs': "validate_providers (Suc i) (pc_Name p # seen) ps = Inr qs'" and qs: "qs = q # qs'"
    by (auto simp: bindE_Inr_iff)
  note ih = 2(1) [OF qs'] and p = validate_provider_sound [OF q]
  from p have [simp]: "pc_Name q = pc_Name p" by blast
  from ih have [simp]: "map pc_Name qs' = map pc_Name ps" by blast
  from ih have "distinct (map pc_Name ps)" "list_all provider_ok qs'"
      "set (map pc_Name ps) \<inter> set (pc_Name p # seen) = {}"
    by simp_all
  moreover from p have "provider_ok q" "pc_Name p \<notin> set seen" by simp_all
  ultimately show ?case unfolding qs by auto
qed

lemma validate_providers_complete:
  "list_all provider_ok ps \<Longrightarrow> distinct (map pc_Name ps) \<Longrightarrow> set (map pc_Name ps) \<inter> set seen = {} \<Longrightarrow>
     validate_providers i seen ps = Inr ps"
  by (induction i seen ps rule: validate_providers.induct) (auto simp: validate_provider_complete)

subsection \<open>Groups and accounts\<close>

lemma validate_all_ok: "validate_all chk xs = Inr () \<longleftrightarrow> (\<forall>x \<in> set xs. chk x = None)"
  by (induction xs) (auto split: option.split)

lemma validate_backup_ok:
  "validate_backup names g ib = None \<longleftrightarrow>
     bk_Name (snd ib) \<noteq> [] \<and> 0 \<le> bk_MinAliveRatio (snd ib) \<and> bk_MinAliveRatio (snd ib) \<le> 1 \<and>
     set (bk_Providers (snd ib)) \<subseteq> set names"
  by (cases ib) (auto simp: validate_backup_def find_None_iff not_less)

lemma check_weight_ok: "check_weight g (pn, w) = None \<longleftrightarrow> 1 \<le> w \<and> pn \<in> set (gc_Primary g)"
  by (auto simp: check_weight_def)

lemma enumerate_all:
  "(\<forall>x \<in> set (List.enumerate n xs). P (snd x)) \<longleftrightarrow> (\<forall>x \<in> set xs. P x)"
  by (induction xs arbitrary: n) auto

lemma validate_group_ok:
  "validate_group names i seen g = Inr () \<longleftrightarrow> group_ok names g \<and> gc_Name g \<notin> set seen"
proof -
  have backups: "validate_all (validate_backup names (gc_Name g)) (List.enumerate 0 (gc_Backups g)) = Inr () \<longleftrightarrow>
      (\<forall>b \<in> set (gc_Backups g). bk_Name b \<noteq> [] \<and> 0 \<le> bk_MinAliveRatio b \<and> bk_MinAliveRatio b \<le> 1 \<and>
        set (bk_Providers b) \<subseteq> set names)"
    using enumerate_all [of 0 "gc_Backups g" "\<lambda>b. bk_Name b \<noteq> [] \<and> 0 \<le> bk_MinAliveRatio b \<and>
      bk_MinAliveRatio b \<le> 1 \<and> set (bk_Providers b) \<subseteq> set names"]
    by (simp only: validate_all_ok validate_backup_ok)
  have weights: "validate_all (check_weight g) (gc_PrimaryWeights g) = Inr () \<longleftrightarrow>
      (\<forall>(pn, w) \<in> set (gc_PrimaryWeights g). 1 \<le> w \<and> pn \<in> set (gc_Primary g))"
    by (auto simp: validate_all_ok check_weight_ok)
  have regions: "validate_all (\<lambda>r. if \<not> validRegion r then Some (GroupInvalidRegion (gc_Name g) r) else None)
      (gc_Regions g) = Inr () \<longleftrightarrow> list_all validRegion (gc_Regions g)"
    by (auto simp: validate_all_ok list_all_iff)
  have primary: "validate_all (\<lambda>pn. if pn \<notin> set names then Some (GroupUnknownPrimary (gc_Name g) pn) else None)
      (gc_Primary g) = Inr () \<longleftrightarrow> set (gc_Primary g) \<subseteq> set names"
    by (auto simp: validate_all_ok)
  show ?thesis
    by (simp add: validate_group_def group_ok_def bindE_Inr_iff backups weights regions primary not_less)
qed

lemma validate_groups_ok:
  "validate_groups names i seen gs = Inr () \<longleftrightarrow>
     list_all (group_ok names) gs \<and> distinct (map gc_Name gs) \<and> set (map gc_Name gs) \<inter> set seen = {}"
  by (induction names i seen gs rule: validate_groups.induct)
    (auto simp: bindE_Inr_iff validate_group_ok)

lemma validate_accounts_ok:
  "validate_accounts i names tokens as = Inr () \<longleftrightarrow>
     list_all account_ok as \<and> distinct (map ac_Name as) \<and> set (map ac_Name as) \<inter> set names = {} \<and>
     distinct (map ac_Token as) \<and> set (map ac_Token as) \<inter> set tokens = {}"
  by (induction i names tokens as rule: validate_accounts.induct) (auto simp: account_ok_def)

subsection \<open>The whole configuration\<close>

lemma Validate_Inr:
  "Validate c = Inr c' \<longleftrightarrow>
     list_all (\<lambda>it. trim_space (cu_URL it) \<noteq> []) (hc_CheckURLs (cf_HealthCheck c)) \<and>
     (\<exists>ps. validate_providers 0 [] (cf_Providers c) = Inr ps \<and>
        list_all (group_ok (map pc_Name ps)) (cf_Groups c) \<and> distinct (map gc_Name (cf_Groups c)) \<and>
        list_all account_ok (cf_Accounts c) \<and> distinct (map ac_Name (cf_Accounts c)) \<and>
        distinct (map ac_Token (cf_Accounts c)) \<and> c' = c\<lparr>cf_Providers := ps\<rparr>)"
proof -
  have "(if length (cf_Groups c) > 0 then validate_groups names 0 [] (cf_Groups c) else Inr ()) = Inr () \<longleftrightarrow>
      list_all (group_ok names) (cf_Groups c) \<and> distinct (map gc_Name (cf_Groups c))" for names
    by (simp add: validate_groups_ok)
  then show ?thesis
    by (auto simp: Validate_def bindE_Inr_iff validate_health_urls_ok validate_accounts_ok)
qed

lemma Validate_sound_aux: "Validate c = Inr c' \<Longrightarrow> config_ok c'"
  by (auto simp: Validate_Inr config_ok_def dest: validate_providers_sound)

lemma Validate_complete_aux: "config_ok c \<Longrightarrow> Validate c = Inr c"
  by (auto simp: Validate_Inr config_ok_def validate_providers_complete)

end
