(* ===== verification/Config_Props.thy ===== *)
theory Config_Props
  imports Config_Validate
begin

section \<open>Properties of the configuration\<close>

text \<open>
  Validation decides \<open>config_ok\<close> up to the defaults it fills in, and both defaulting and validation
  are idempotent, so that a configuration that has been loaded, written back and loaded again is the
  same.
\<close>

lemma defaults_settings_idem:
  "hc_IntervalSeconds h \<noteq> 0 \<Longrightarrow> defaults_settings h (defaults_settings h s) = defaults_settings h s"
  by (cases s) (auto simp: defaults_settings_def Let_def)

lemma defaultCheckURLs_ne [simp]: "defaultCheckURLs \<noteq> []"
  by (simp add: defaultCheckURLs_def)

lemma defaults_health_idem [simp]: "defaults_health (defaults_health h) = defaults_health h"
  by (cases h) (auto simp: defaults_health_def)

lemma defaults_server_idem [simp]: "defaults_server (defaults_server s) = defaults_server s"
  by (cases s) (auto simp: defaults_server_def)

lemma defaults_alerts_idem [simp]: "defaults_alerts (defaults_alerts a) = defaults_alerts a"
  by (cases a) (auto simp: defaults_alerts_def)

lemma defaults_health_interval: "hc_IntervalSeconds (defaults_health h) \<noteq> 0"
  by (simp add: defaults_health_def)

lemma applyDefaults_idem: "applyDefaults (applyDefaults c) = applyDefaults c"
  using defaults_settings_idem [OF defaults_health_interval, of "cf_HealthCheck c" "cf_Settings c"]
  by (cases c) (simp add: applyDefaults_def Let_def)

lemma providers_length:
  "validate_providers i seen ps = Inr qs \<Longrightarrow> length qs = length ps"
  by (induction i seen ps arbitrary: qs rule: validate_providers.induct) (auto simp: bindE_Inr_iff)


text \<open>The configuration of an empty file: every field has its zero value.\<close>

definition demo_config :: Config where
  "demo_config =
     \<lparr>cf_Server = \<lparr>sv_Listen = [], sv_ReadTimeout = 0, sv_WriteTimeout = 0, sv_MaxWorkers = 0, sv_GatewayListen = []\<rparr>,
      cf_HealthCheck = \<lparr>hc_IntervalSeconds = 0, hc_TimeoutMs = 0, hc_Concurrency = 0, hc_CheckURL = [], hc_CheckURLs = [],
         hc_MaxFails = 0, hc_RebuildIntervalMs = 0\<rparr>,
      cf_Providers = [], cf_Groups = [], cf_Accounts = [],
      cf_DB = \<lparr>db_Path = [], db_BatchSize = 0, db_FlushIntervalMs = 0\<rparr>,
      cf_Alerts = \<lparr>al_Webhooks = [], al_Email = \<lparr>em_SMTPHost = [], em_SMTPPort = 0, em_Username = [], em_Password = [],
         em_From = [], em_To = [], em_UseTLS = False, em_Events = []\<rparr>, al_DedupSeconds = 0, al_MonitorSeconds = 0, al_RecoverSeconds = 0\<rparr>,
      cf_Geo = \<lparr>geo_Enabled = False, geo_URL = [], geo_IntervalSecs = 0\<rparr>,
      cf_Settings = \<lparr>st_SiteName = [], st_RegistrationEnabled = False, st_ThemeDefault = [],
         st_HealthCheck = \<lparr>hc_IntervalSeconds = 0, hc_TimeoutMs = 0, hc_Concurrency = 0, hc_CheckURL = [], hc_CheckURLs = [],
         hc_MaxFails = 0, hc_RebuildIntervalMs = 0\<rparr>\<rparr>,
      cf_DataDir = []\<rparr>"

lemma demo_config_ok: "config_ok (applyDefaults demo_config)"
  by (simp add: config_ok_def applyDefaults_def demo_config_def defaults_health_def defaultCheckURLs_def
      trim_space_def is_space_def Let_def)


text \<open>
  Loading is idempotent: an accepted configuration, loaded again, is accepted unchanged.
\<close>

theorem load_idempotent:
  assumes "Load_decoded c = Inr c'"
  shows "Load_decoded c' = Inr c'"
proof -
  obtain ps where "c' = (applyDefaults c)\<lparr>cf_Providers := ps\<rparr>"
    using assms unfolding Load_decoded_def Validate_Inr by blast
  moreover have "applyDefaults (d\<lparr>cf_Providers := ps\<rparr>) = (applyDefaults d)\<lparr>cf_Providers := ps\<rparr>" for d
    by (simp add: applyDefaults_def Let_def)
  ultimately have "applyDefaults c' = c'" by (simp add: applyDefaults_idem)
  moreover have "config_ok c'" using assms by (simp add: Load_decoded_def Validate_sound_aux)
  ultimately show ?thesis by (simp add: Load_decoded_def Validate_complete_aux)
qed

theorem load_idempotent_witness: "Load_decoded (applyDefaults demo_config) = Inr (applyDefaults demo_config)"
proof -
  have "Load_decoded demo_config = Inr (applyDefaults demo_config)"
    by (simp add: Load_decoded_def Validate_complete_aux demo_config_ok)
  from load_idempotent [OF this] show ?thesis .
qed

end
