(* ===== verification/Persist_File.thy ===== *)
theory Persist_File
  imports Config_Model
begin

section \<open>File persistence (internal/persist)\<close>

text \<open>
  The JSON-file store of \<^verbatim>\<open>internal/persist/file.go\<close>. A file of the data directory is modelled by
  what reading it gives: nothing there, an error of the operating system, an empty file, text that
  does not decode, or the decoded list (every field of the three configuration types has a JSON
  tag and none is omitted, so a list that is written and read back is the same list). The outcome
  of a write, which the operating system decides, is an argument; the temporary file is renamed
  over the target, so the target is either replaced or untouched. A nil \<^verbatim>\<open>*File\<close> is \<open>None\<close>. Every
  operation runs under the store's mutex, so it is one step.

  The locale \<open>named_store\<close> is the contract of one entity file; it is interpreted for the
  accounts, the providers and the groups.
\<close>

datatype io_error = ErrNotExist | ErrRead | ErrJSON | ErrMarshal | ErrWrite | ErrRename | ErrMkdir

datatype 'a disk_file = Missing | Unreadable | Blank | Malformed | Doc "'a list"

datatype write_outcome = Written | MarshalFails | TempFails | RenameFails

record File =
  fl_dir :: string
  fl_accounts :: "AccountCfg disk_file"
  fl_providers :: "ProviderCfg disk_file"
  fl_groups :: "GroupCfg disk_file"

subsection \<open>Opening, reading and writing\<close>

text \<open>The directory as found on disk is the argument \<open>d\<close>; \<open>mkdir\<close> tells whether
  \<^verbatim>\<open>os.MkdirAll\<close> succeeds.\<close>

definition OpenFile :: "bool \<Rightarrow> string \<Rightarrow> File \<Rightarrow> io_error + File option" where
  "OpenFile mkdir dir d =
     (if dir = [] then Inr None
      else if \<not> mkdir then Inl ErrMkdir
      else Inr (Some (d\<lparr>fl_dir := dir\<rparr>)))"

fun read_file :: "'a disk_file \<Rightarrow> io_error + 'a list" where
  "read_file Missing = Inl ErrNotExist"
| "read_file Unreadable = Inl ErrRead"
| "read_file Blank = Inr []"
| "read_file Malformed = Inl ErrJSON"
| "read_file (Doc xs) = Inr xs"

fun write_file :: "write_outcome \<Rightarrow> 'a list \<Rightarrow> 'a disk_file \<Rightarrow> 'a disk_file \<times> io_error option" where
  "write_file MarshalFails xs d = (d, Some ErrMarshal)"
| "write_file TempFails xs d = (d, Some ErrWrite)"
| "write_file RenameFails xs d = (d, Some ErrRename)"
| "write_file Written xs d = (Doc xs, None)"

text \<open>The body the three \<^verbatim>\<open>load...Locked\<close> functions share: a missing file is an empty list.\<close>

definition load_list :: "'a disk_file \<Rightarrow> io_error + 'a list" where
  "load_list d =
     (case read_file d of
        Inl e \<Rightarrow> if e = ErrNotExist then Inr [] else Inl e
      | Inr xs \<Rightarrow> Inr xs)"

text \<open>The loops of the three \<^verbatim>\<open>Save...\<close> functions (replace the first entry of that name, else
  append) and of the three \<^verbatim>\<open>Delete...\<close> functions (keep the entries of other names).\<close>

fun replace_first :: "('a \<Rightarrow> string) \<Rightarrow> 'a \<Rightarrow> 'a list \<Rightarrow> 'a list \<times> bool" where
  "replace_first nm a [] = ([], False)"
| "replace_first nm a (x # xs) =
     (if nm x = nm a then (a # xs, True)
      else let (ys, replaced) = replace_first nm a xs in (x # ys, replaced))"

definition upsert :: "('a \<Rightarrow> string) \<Rightarrow> 'a \<Rightarrow> 'a list \<Rightarrow> 'a list" where
  "upsert nm a xs =
     (let (ys, replaced) = replace_first nm a xs in if \<not> replaced then ys @ [a] else ys)"

fun drop_named :: "('a \<Rightarrow> string) \<Rightarrow> string \<Rightarrow> 'a list \<Rightarrow> 'a list" where
  "drop_named nm n [] = []"
| "drop_named nm n (x # xs) = (if nm x \<noteq> n then x # drop_named nm n xs else drop_named nm n xs)"

subsection \<open>Accounts\<close>

definition loadAccountsLocked :: "File \<Rightarrow> io_error + AccountCfg list" where
  "loadAccountsLocked f = load_list (fl_accounts f)"

definition LoadAccounts :: "File option \<Rightarrow> io_error + AccountCfg list" where
  "LoadAccounts fo = (case fo of None \<Rightarrow> Inr [] | Some f \<Rightarrow> loadAccountsLocked f)"

definition write_accounts :: "write_outcome \<Rightarrow> AccountCfg list \<Rightarrow> File \<Rightarrow> File option \<times> io_error option" where
  "write_accounts w xs f =
     (let (d, e) = write_file w xs (fl_accounts f) in (Some (f\<lparr>fl_accounts := d\<rparr>), e))"

definition SaveAccount :: "write_outcome \<Rightarrow> AccountCfg \<Rightarrow> File option \<Rightarrow> File option \<times> io_error option" where
  "SaveAccount w a fo =
     (case fo of None \<Rightarrow> (None, None)
      | Some f \<Rightarrow>
         (case loadAccountsLocked f of
            Inl e \<Rightarrow> (Some f, Some e)
          | Inr accts \<Rightarrow> write_accounts w (upsert ac_Name a accts) f))"

definition DeleteAccount :: "write_outcome \<Rightarrow> string \<Rightarrow> File option \<Rightarrow> File option \<times> io_error option" where
  "DeleteAccount w n fo =
     (case fo of None \<Rightarrow> (None, None)
      | Some f \<Rightarrow>
         (case loadAccountsLocked f of
            Inl e \<Rightarrow> (Some f, Some e)
          | Inr accts \<Rightarrow> write_accounts w (drop_named ac_Name n accts) f))"

definition ReplaceAccounts :: "write_outcome \<Rightarrow> AccountCfg list \<Rightarrow> File option \<Rightarrow> File option \<times> io_error option" where
  "ReplaceAccounts w accts fo =
     (case fo of None \<Rightarrow> (None, None) | Some f \<Rightarrow> write_accounts w accts f)"

subsection \<open>Providers\<close>

definition loadProvidersLocked :: "File \<Rightarrow> io_error + ProviderCfg list" where
  "loadProvidersLocked f = load_list (fl_providers f)"

definition LoadProviders :: "File option \<Rightarrow> io_error + ProviderCfg list" where
  "LoadProviders fo = (case fo of None \<Rightarrow> Inr [] | Some f \<Rightarrow> loadProvidersLocked f)"

definition write_providers :: "write_outcome \<Rightarrow> ProviderCfg list \<Rightarrow> File \<Rightarrow> File option \<times> io_error option" where
  "write_providers w xs f =
     (let (d, e) = write_file w xs (fl_providers f) in (Some (f\<lparr>fl_providers := d\<rparr>), e))"

definition SaveProvider :: "write_outcome \<Rightarrow> ProviderCfg \<Rightarrow> File option \<Rightarrow> File option \<times> io_error option" where
  "SaveProvider w p fo =
     (case fo of None \<Rightarrow> (None, None)
      | Some f \<Rightarrow>
         (case loadProvidersLocked f of
            Inl e \<Rightarrow> (Some f, Some e)
          | Inr ps \<Rightarrow> write_providers w (upsert pc_Name p ps) f))"

definition DeleteProvider :: "write_outcome \<Rightarrow> string \<Rightarrow> File option \<Rightarrow> File option \<times> io_error option" where
  "DeleteProvider w n fo =
     (case fo of None \<Rightarrow> (None, None)
      | Some f \<Rightarrow>
         (case loadProvidersLocked f of
            Inl e \<Rightarrow> (Some f, Some e)
          | Inr ps \<Rightarrow> write_providers w (drop_named pc_Name n ps) f))"

definition ReplaceProviders :: "write_outcome \<Rightarrow> ProviderCfg list \<Rightarrow> File option \<Rightarrow> File option \<times> io_error option" where
  "ReplaceProviders w ps fo =
     (case fo of None \<Rightarrow> (None, None) | Some f \<Rightarrow> write_providers w ps f)"

subsection \<open>Groups\<close>

definition loadGroupsLocked :: "File \<Rightarrow> io_error + GroupCfg list" where
  "loadGroupsLocked f = load_list (fl_groups f)"

definition LoadGroups :: "File option \<Rightarrow> io_error + GroupCfg list" where
  "LoadGroups fo = (case fo of None \<Rightarrow> Inr [] | Some f \<Rightarrow> loadGroupsLocked f)"

definition write_groups :: "write_outcome \<Rightarrow> GroupCfg list \<Rightarrow> File \<Rightarrow> File option \<times> io_error option" where
  "write_groups w xs f =
     (let (d, e) = write_file w xs (fl_groups f) in (Some (f\<lparr>fl_groups := d\<rparr>), e))"

definition SaveGroup :: "write_outcome \<Rightarrow> GroupCfg \<Rightarrow> File option \<Rightarrow> File option \<times> io_error option" where
  "SaveGroup w g fo =
     (case fo of None \<Rightarrow> (None, None)
      | Some f \<Rightarrow>
         (case loadGroupsLocked f of
            Inl e \<Rightarrow> (Some f, Some e)
          | Inr gs \<Rightarrow> write_groups w (upsert gc_Name g gs) f))"

definition DeleteGroup :: "write_outcome \<Rightarrow> string \<Rightarrow> File option \<Rightarrow> File option \<times> io_error option" where
  "DeleteGroup w n fo =
     (case fo of None \<Rightarrow> (None, None)
      | Some f \<Rightarrow>
         (case loadGroupsLocked f of
            Inl e \<Rightarrow> (Some f, Some e)
          | Inr gs \<Rightarrow> write_groups w (drop_named gc_Name n gs) f))"

definition ReplaceGroups :: "write_outcome \<Rightarrow> GroupCfg list \<Rightarrow> File option \<Rightarrow> File option \<times> io_error option" where
  "ReplaceGroups w gs fo =
     (case fo of None \<Rightarrow> (None, None) | Some f \<Rightarrow> write_groups w gs f)"

subsection \<open>Lists of named entries as finite maps\<close>

definition entry :: "('a \<Rightarrow> string) \<Rightarrow> 'a list \<Rightarrow> string \<rightharpoonup> 'a" where
  "entry nm xs n = find (\<lambda>x. nm x = n) xs"

lemma entry_simps [simp]:
  "entry nm [] n = None"
  "entry nm (x # xs) n = (if nm x = n then Some x else entry nm xs n)"
  by (simp_all add: entry_def)

lemma entry_append: "entry nm (xs @ ys) n = (case entry nm xs n of None \<Rightarrow> entry nm ys n | Some x \<Rightarrow> Some x)"
  by (induction xs) auto

lemma entry_None: "entry nm xs n = None \<longleftrightarrow> n \<notin> nm ` set xs"
  by (induction xs) auto

lemma entry_Some_name: "entry nm xs n = Some x \<Longrightarrow> x \<in> set xs \<and> nm x = n"
  by (induction xs) (auto split: if_splits)

lemma entry_distinct:
  "distinct (map nm xs) \<Longrightarrow> entry nm xs n = Some x \<longleftrightarrow> x \<in> set xs \<and> nm x = n"
  by (induction xs) (auto simp: image_iff)

lemma upsert_simps [simp]:
  "upsert nm a [] = [a]"
  "upsert nm a (x # xs) = (if nm x = nm a then a # xs else x # upsert nm a xs)"
  by (simp_all add: upsert_def split: prod.split)

lemma entry_upsert: "entry nm (upsert nm a xs) = (entry nm xs)(nm a \<mapsto> a)"
  by (induction xs) (auto simp: fun_eq_iff)

lemma set_names_upsert: "nm ` set (upsert nm a xs) = insert (nm a) (nm ` set xs)"
  by (induction xs) auto

lemma distinct_upsert: "distinct (map nm xs) \<Longrightarrow> distinct (map nm (upsert nm a xs))"
proof (induction xs)
  case (Cons x xs)
  then show ?case using set_names_upsert [of nm a xs] by (auto simp: image_iff)
qed simp

lemma drop_named_filter: "drop_named nm n xs = filter (\<lambda>x. nm x \<noteq> n) xs"
  by (induction xs) auto

lemma entry_drop_named: "entry nm (drop_named nm n xs) = (entry nm xs)(n := None)"
  by (induction xs) (auto simp: fun_eq_iff)

lemma distinct_drop_named: "distinct (map nm xs) \<Longrightarrow> distinct (map nm (drop_named nm n xs))"
  by (simp add: drop_named_filter distinct_map_filter)

subsection \<open>The contract of an entity file\<close>

locale named_store =
  fixes nm :: "'a \<Rightarrow> string"
    and load :: "'s \<Rightarrow> 'e + 'a list"
    and save :: "'a \<Rightarrow> 's \<Rightarrow> 's \<times> 'e option"
    and delete :: "string \<Rightarrow> 's \<Rightarrow> 's \<times> 'e option"
    and replace :: "'a list \<Rightarrow> 's \<Rightarrow> 's \<times> 'e option"
    and attached :: "'s \<Rightarrow> bool"
  assumes save_ok: "attached s \<Longrightarrow> save a s = (s', None) \<Longrightarrow>
      attached s' \<and> (\<exists>xs. load s = Inr xs \<and> load s' = Inr (upsert nm a xs))"
    and delete_ok: "attached s \<Longrightarrow> delete n s = (s', None) \<Longrightarrow>
      attached s' \<and> (\<exists>xs. load s = Inr xs \<and> load s' = Inr (drop_named nm n xs))"
    and replace_ok: "attached s \<Longrightarrow> replace xs s = (s', None) \<Longrightarrow> attached s' \<and> load s' = Inr xs"
    and save_err: "save a s = (s', Some e) \<Longrightarrow> s' = s"
    and delete_err: "delete n s = (s', Some e) \<Longrightarrow> s' = s"
    and replace_err: "replace xs s = (s', Some e) \<Longrightarrow> s' = s"
begin

definition stored :: "'s \<Rightarrow> string \<rightharpoonup> 'a" where
  "stored s = (case load s of Inl _ \<Rightarrow> (\<lambda>_. None) | Inr xs \<Rightarrow> entry nm xs)"

definition names_distinct :: "'s \<Rightarrow> bool" where
  "names_distinct s \<longleftrightarrow> (case load s of Inl _ \<Rightarrow> True | Inr xs \<Rightarrow> distinct (map nm xs))"

lemma save_stored: "attached s \<Longrightarrow> save a s = (s', None) \<Longrightarrow> stored s' = (stored s)(nm a \<mapsto> a)"
  by (drule (1) save_ok) (auto simp: stored_def entry_upsert)

lemma delete_stored: "attached s \<Longrightarrow> delete n s = (s', None) \<Longrightarrow> stored s' = (stored s)(n := None)"
  by (drule (1) delete_ok) (auto simp: stored_def entry_drop_named)

lemma replace_stored: "attached s \<Longrightarrow> replace xs s = (s', None) \<Longrightarrow> stored s' = entry nm xs"
  by (drule (1) replace_ok) (simp add: stored_def)

lemma save_distinct:
  assumes "attached s" "names_distinct s"
  shows "names_distinct (fst (save a s))"
proof (cases "save a s")
  case (Pair s' e)
  show ?thesis
  proof (cases e)
    case None
    with Pair assms(1) obtain xs where "load s = Inr xs" "load s' = Inr (upsert nm a xs)"
      using save_ok by blast
    with assms(2) Pair show ?thesis by (simp add: names_distinct_def distinct_upsert)
  next
    case (Some err)
    with Pair save_err have "s' = s" by blast
    with assms(2) Pair show ?thesis by simp
  qed
qed

lemma delete_distinct:
  assumes "attached s" "names_distinct s"
  shows "names_distinct (fst (delete n s))"
proof (cases "delete n s")
  case (Pair s' e)
  show ?thesis
  proof (cases e)
    case None
    with Pair assms(1) obtain xs where "load s = Inr xs" "load s' = Inr (drop_named nm n xs)"
      using delete_ok by blast
    with assms(2) Pair show ?thesis by (simp add: names_distinct_def distinct_drop_named)
  next
    case (Some err)
    with Pair delete_err have "s' = s" by blast
    with assms(2) Pair show ?thesis by simp
  qed
qed

text \<open>Saving an entry and deleting it again gives back the file without that name.\<close>

lemma save_delete:
  "attached s \<Longrightarrow> save a s = (s1, None) \<Longrightarrow> delete (nm a) s1 = (s2, None) \<Longrightarrow>
   stored s2 = (stored s)(nm a := None)"
  using save_ok [of s a s1] save_stored [of s a s1] delete_stored [of s1 "nm a" s2] by simp

end

lemma write_file_ok: "write_file w xs d = (d', None) \<Longrightarrow> d' = Doc xs"
  by (cases w) auto

lemma write_file_err: "write_file w xs d = (d', Some e) \<Longrightarrow> d' = d"
  by (cases w) auto

lemma load_list_Doc [simp]: "load_list (Doc xs) = Inr xs"
  by (simp add: load_list_def)

lemmas persist_account_defs =
  SaveAccount_def DeleteAccount_def ReplaceAccounts_def LoadAccounts_def loadAccountsLocked_def write_accounts_def

lemmas persist_provider_defs =
  SaveProvider_def DeleteProvider_def ReplaceProviders_def LoadProviders_def loadProvidersLocked_def write_providers_def

lemmas persist_group_defs =
  SaveGroup_def DeleteGroup_def ReplaceGroups_def LoadGroups_def loadGroupsLocked_def write_groups_def

interpretation accounts_file: named_store ac_Name LoadAccounts "SaveAccount w" "DeleteAccount w"
  "ReplaceAccounts w" "\<lambda>fo. fo \<noteq> None" for w
  by unfold_locales
    (auto simp: persist_account_defs dest!: write_file_ok write_file_err split: sum.splits prod.splits option.splits)

interpretation providers_file: named_store pc_Name LoadProviders "SaveProvider w" "DeleteProvider w"
  "ReplaceProviders w" "\<lambda>fo. fo \<noteq> None" for w
  by unfold_locales
    (auto simp: persist_provider_defs dest!: write_file_ok write_file_err split: sum.splits prod.splits option.splits)

interpretation groups_file: named_store gc_Name LoadGroups "SaveGroup w" "DeleteGroup w"
  "ReplaceGroups w" "\<lambda>fo. fo \<noteq> None" for w
  by unfold_locales
    (auto simp: persist_group_defs dest!: write_file_ok write_file_err split: sum.splits prod.splits option.splits)

end
