(* ===== verification/Go_Runtime.thy ===== *)
theory Go_Runtime
  imports Go_Prelude
begin

section \<open>Runtime choices and library searches\<close>

text \<open>
  The runtime's nondeterminism and the standard-library search.
  \<^item> \<open>range_order\<close>: the order in which a \<^verbatim>\<open>range\<close> loop delivers the entries of a map. It is a
    permutation of the entries, chosen by the stream of numbers; \<open>range_order_perm\<close> says it
    loses and invents nothing, \<open>range_order_all\<close> that every permutation can be chosen.
  \<^item> \<open>int64n\<close>: \<^verbatim>\<open>rand.Int64N\<close>, which panics on a bound that is not positive.
  \<^item> \<open>sort_search\<close>: \<^verbatim>\<open>sort.Search\<close>; \<open>sort_search_least\<close> says that it finds the least index
    at which a monotone condition holds. The locale \<open>index_search\<close> is that contract and holds
    the consequences the weighted selection uses.
\<close>

type_synonym rng = "nat \<Rightarrow> nat"

definition rng_next :: "rng \<Rightarrow> nat \<times> rng" where
  "rng_next r = (r 0, \<lambda>n. r (Suc n))"

subsection \<open>Range order\<close>

fun take_nth :: "nat \<Rightarrow> 'a list \<Rightarrow> 'a list" where
  "take_nth n [] = []"
| "take_nth 0 (x # xs) = xs"
| "take_nth (Suc n) (x # xs) = x # take_nth n xs"

lemma length_take_nth [simp]: "n < length xs \<Longrightarrow> length (take_nth n xs) = length xs - 1"
  by (induction n xs rule: take_nth.induct) auto

lemma mset_take_nth: "n < length xs \<Longrightarrow> mset xs = add_mset (xs ! n) (mset (take_nth n xs))"
  by (induction n xs rule: take_nth.induct) auto

function range_order :: "'a list \<Rightarrow> rng \<Rightarrow> 'a list \<times> rng" where
  "range_order [] r = ([], r)"
| "range_order (x # xs) r =
     (let (c, r1) = rng_next r;
          i = c mod length (x # xs);
          (ys, r2) = range_order (take_nth i (x # xs)) r1
      in ((x # xs) ! i # ys, r2))"
  by pat_completeness auto
termination
proof (relation "measure (\<lambda>(xs, r). length xs)", goal_cases)
  case 1
  show ?case by simp
next
  case (2 x xs r c1 c r1 i)
  then have "i < length (x # xs)" by simp
  then have "length (take_nth i (x # xs)) < length (x # xs)"
    by (simp only: length_take_nth list.size)
  then show ?case using 2 by simp
qed

lemma range_order_Cons:
  assumes "i = r 0 mod length (x # xs)"
  shows "fst (range_order (x # xs) r) =
    (x # xs) ! i # fst (range_order (take_nth i (x # xs)) (\<lambda>n. r (Suc n)))"
  using assms by (simp add: rng_next_def Let_def split: prod.split)

declare range_order.simps(2) [simp del]

lemma range_order_perm: "mset (fst (range_order xs r)) = mset xs"
proof (induction xs arbitrary: r rule: measure_induct_rule [where f = length])
  case (less xs)
  show ?case
  proof (cases xs)
    case Nil
    then show ?thesis by simp
  next
    case (Cons x xs')
    define i where "i = r 0 mod length (x # xs')"
    have i: "i < length (x # xs')" by (simp add: i_def)
    then have "length (take_nth i (x # xs')) < length xs"
      using Cons by (simp only: length_take_nth list.size)
    then have "mset (fst (range_order (take_nth i (x # xs')) (\<lambda>n. r (Suc n)))) =
        mset (take_nth i (x # xs'))"
      by (rule less)
    then have "mset (fst (range_order (x # xs') r)) =
        add_mset ((x # xs') ! i) (mset (take_nth i (x # xs')))"
      by (simp only: range_order_Cons [where r = r, OF i_def] mset.simps)
    also have "\<dots> = mset (x # xs')"
      using i by (rule mset_take_nth [symmetric])
    finally show ?thesis using Cons by simp
  qed
qed

lemma set_range_order [simp]: "set (fst (range_order xs r)) = set xs"
  by (metis range_order_perm set_mset_mset)

lemma length_range_order [simp]: "length (fst (range_order xs r)) = length xs"
  by (metis range_order_perm size_mset)

lemma distinct_range_order: "distinct (map f (fst (range_order xs r))) = distinct (map f xs)"
  by (metis mset_map range_order_perm mset_eq_imp_distinct_iff)

text \<open>Every order is possible.\<close>

lemma range_order_all: "mset ys = mset xs \<Longrightarrow> \<exists>r. fst (range_order xs r) = ys"
proof (induction ys arbitrary: xs)
  case Nil
  then show ?case by simp
next
  case (Cons y ys)
  then obtain x xs' where xs: "xs = x # xs'"
    by (cases xs) auto
  from Cons.prems have "y \<in> set xs"
    by (metis list.set_intros(1) set_mset_mset)
  then obtain i where i: "i < length xs" and y: "xs ! i = y"
    by (auto simp: in_set_conv_nth)
  then have "mset (take_nth i xs) = mset ys"
    using Cons.prems mset_take_nth [OF i] by simp
  then obtain r where r: "fst (range_order (take_nth i xs) r) = ys"
    using Cons.IH [of "take_nth i xs"] by auto
  define r' where "r' = (\<lambda>n. case n of 0 \<Rightarrow> i | Suc m \<Rightarrow> r m)"
  have "i = r' 0 mod length (x # xs')"
    using i xs by (simp add: r'_def)
  then have "fst (range_order (x # xs') r') = (x # xs') ! i # fst (range_order (take_nth i (x # xs')) r)"
    by (simp only: range_order_Cons) (simp add: r'_def)
  then show ?case
    using xs y r by auto
qed

subsection \<open>Random numbers\<close>

definition int64n :: "int \<Rightarrow> rng \<Rightarrow> (int \<times> rng) go" where
  "int64n n r = (if n \<le> 0 then Inl PanicInvalidArgument
     else Inr (int (fst (rng_next r)) mod n, snd (rng_next r)))"

lemma int64n_range:
  "int64n n r = Inr (t, r') \<Longrightarrow> 0 \<le> t \<and> t < n"
  by (auto simp: int64n_def split: if_splits)

lemma int64n_all: "0 \<le> t \<Longrightarrow> t < n \<Longrightarrow> \<exists>r. fst (projr (int64n n r)) = t"
  by (rule exI [where x = "\<lambda>_. nat t"]) (simp add: int64n_def rng_next_def)

subsection \<open>Binary search\<close>

text \<open>\<^verbatim>\<open>sort.Search(n, f)\<close>: the loop \<^verbatim>\<open>for i < j { h := (i+j)/2; if !f(h) { i = h+1 } else { j = h } }\<close>.\<close>

function search_loop :: "(nat \<Rightarrow> bool) \<Rightarrow> nat \<Rightarrow> nat \<Rightarrow> nat" where
  "search_loop f i j =
     (if i < j then
        let h = (i + j) div 2
        in if \<not> f h then search_loop f (h + 1) j else search_loop f i h
      else i)"
  by pat_completeness auto
termination
  by (relation "measure (\<lambda>(f, i, j). j - i)") auto

declare search_loop.simps [simp del]

definition sort_search :: "nat \<Rightarrow> (nat \<Rightarrow> bool) \<Rightarrow> nat" where
  "sort_search n f = search_loop f 0 n"

lemma search_loop_inv:
  assumes "i \<le> j"
    and mono: "\<And>a b. a \<le> b \<Longrightarrow> b < n \<Longrightarrow> f a \<Longrightarrow> f b"
    and "j \<le> n"
    and "\<And>k. k < i \<Longrightarrow> \<not> f k"
    and "\<And>k. j \<le> k \<Longrightarrow> k < n \<Longrightarrow> f k"
  shows "search_loop f i j \<le> n \<and> (\<forall>k < search_loop f i j. \<not> f k) \<and>
    (\<forall>k < n. search_loop f i j \<le> k \<longrightarrow> f k)"
  using assms
proof (induction f i j rule: search_loop.induct)
  case (1 f i j)
  note mono = 1(4) and jn = 1(5) and below = 1(6) and above = 1(7)
  let ?h = "(i + j) div 2"
  show ?case
  proof (cases "i < j")
    case False
    then have "search_loop f i j = i" "i = j"
      using 1(3) by (subst search_loop.simps, simp_all)
    then show ?thesis using jn below above by auto
  next
    case True
    then have h: "i \<le> ?h" "?h < j" by auto
    show ?thesis
    proof (cases "f ?h")
      case f: True
      have "search_loop f i j = search_loop f i ?h"
        using True f by (simp add: search_loop.simps [of f i j] Let_def)
      moreover have above': "f k" if "?h \<le> k" "k < n" for k
        using mono [OF that f] .
      have "\<not> \<not> f ?h" "?h \<le> n" using f h jn by auto
      note 1(2) [OF True refl this(1) h(1) mono this(2) below above']
      ultimately show ?thesis by simp
    next
      case f: False
      have "search_loop f i j = search_loop f (?h + 1) j"
        using True f by (simp add: search_loop.simps [of f i j] Let_def)
      moreover have below': "\<not> f k" if "k < ?h + 1" for k
        using mono [of k ?h] that f h jn by auto
      have "?h + 1 \<le> j" using h by simp
      note 1(1) [OF True refl f this mono jn below' above]
      ultimately show ?thesis by simp
    qed
  qed
qed

lemma sort_search_least:
  assumes "\<And>a b. a \<le> b \<Longrightarrow> b < n \<Longrightarrow> f a \<Longrightarrow> f b"
  shows "sort_search n f \<le> n" and "\<And>k. k < sort_search n f \<Longrightarrow> \<not> f k"
    and "\<And>k. sort_search n f \<le> k \<Longrightarrow> k < n \<Longrightarrow> f k"
  using search_loop_inv [of 0 n n f] assms by (auto simp: sort_search_def)

text \<open>The contract of an index search, as the selection code relies on it.\<close>

locale index_search =
  fixes search :: "nat \<Rightarrow> (nat \<Rightarrow> bool) \<Rightarrow> nat"
  assumes search_least: "(\<And>a b. a \<le> b \<Longrightarrow> b < n \<Longrightarrow> f a \<Longrightarrow> f b) \<Longrightarrow>
      search n f \<le> n \<and> (\<forall>k < search n f. \<not> f k) \<and> (\<forall>k < n. search n f \<le> k \<longrightarrow> f k)"
begin

text \<open>
  Over a non-decreasing list whose last element exceeds the target, the search for the first
  element above the target stays in range.
\<close>

lemma search_above:
  fixes cum :: "int list"
  assumes s: "sorted cum" and ne: "cum \<noteq> []" and l: "t < last cum"
  defines "j \<equiv> search (length cum) (\<lambda>i. t < cum ! i)"
  shows "j < length cum" and "t < cum ! j" and "\<And>k. k < j \<Longrightarrow> cum ! k \<le> t"
proof -
  let ?n = "length cum" and ?f = "\<lambda>i. t < cum ! i"
  have "?f b" if "a \<le> b" "b < ?n" "?f a" for a b
    using sorted_nth_mono [OF s, of a b] that by simp
  then have *: "j \<le> ?n \<and> (\<forall>k < j. \<not> ?f k) \<and> (\<forall>k < ?n. j \<le> k \<longrightarrow> ?f k)"
    unfolding j_def by (intro search_least) blast
  have "?f (?n - 1)" using l ne by (simp add: last_conv_nth)
  with * ne show j: "j < ?n"
    by (metis diff_less le_neq_implies_less length_greater_0_conv zero_less_one)
  with * show "t < cum ! j" by simp
  show "cum ! k \<le> t" if "k < j" for k
    using * that by auto
qed

text \<open>The index is determined by the target: the search inverts the cumulative list.\<close>

lemma search_above_unique:
  fixes cum :: "int list"
  assumes s: "sorted cum" and j: "j < length cum" and above: "t < cum ! j"
    and below: "\<And>k. k < j \<Longrightarrow> cum ! k \<le> t"
  shows "search (length cum) (\<lambda>i. t < cum ! i) = j"
proof -
  have ne: "cum \<noteq> []" using j by auto
  have "cum ! j \<le> last cum"
    using j ne sorted_nth_mono [OF s, of j "length cum - 1"] by (simp add: last_conv_nth)
  with above have "t < last cum" by simp
  note * = search_above [OF s ne this]
  show ?thesis
  proof (rule linorder_cases [of "search (length cum) (\<lambda>i. t < cum ! i)" j])
    assume "search (length cum) (\<lambda>i. t < cum ! i) < j"
    then show ?thesis using *(2) below by fastforce
  next
    assume "j < search (length cum) (\<lambda>i. t < cum ! i)"
    then show ?thesis using *(3) above by fastforce
  qed
qed

end

interpretation bsearch: index_search sort_search
proof unfold_locales
  fix n :: nat and f :: "nat \<Rightarrow> bool"
  assume "\<And>a b. a \<le> b \<Longrightarrow> b < n \<Longrightarrow> f a \<Longrightarrow> f b"
  then show "sort_search n f \<le> n \<and> (\<forall>k < sort_search n f. \<not> f k) \<and>
      (\<forall>k < n. sort_search n f \<le> k \<longrightarrow> f k)"
    using sort_search_least [of n f] by blast
qed

subsection \<open>Time\<close>

text \<open>\<^verbatim>\<open>t.Sub(u)\<close> saturates at the range of a duration.\<close>

definition time_sub :: "int \<Rightarrow> int \<Rightarrow> int" where
  "time_sub t u = max MinInt64 (min MaxInt64 (t - u))"

lemma time_sub_mono: "t \<le> t' \<Longrightarrow> time_sub t u \<le> time_sub t' u"
  by (auto simp: time_sub_def)

lemma time_sub_ge: "time_sub t u \<ge> d \<Longrightarrow> 0 < d \<Longrightarrow> t - u \<ge> d"
  by (auto simp: time_sub_def MinInt64_def)

end
