(* ===== verification/Go_Encoding.thy ===== *)
theory Go_Encoding
  imports Go_Strings
begin

section \<open>Encodings of the standard library\<close>

text \<open>
  What the sources use of \<^verbatim>\<open>encoding/hex\<close>, \<^verbatim>\<open>strconv.Atoi\<close> and \<^verbatim>\<open>net/url\<close> (Go 1.25): hexadecimal text,
  decimal parsing with the range of \<^verbatim>\<open>int\<close>, and \<^verbatim>\<open>url.Parse\<close> with the accessors \<^verbatim>\<open>Hostname\<close>, \<^verbatim>\<open>Port\<close>,
  \<^verbatim>\<open>User\<close>. Of a URL only scheme, credentials and host are kept; path, query and fragment are
  checked as the library checks them, since a malformed escape in a path or fragment is an error.
\<close>

subsection \<open>Hexadecimal text\<close>

definition hex_digit :: "nat \<Rightarrow> char" where
  "hex_digit n = (if n < 10 then char_of (48 + n) else char_of (87 + n))"

definition hex_value :: "char \<Rightarrow> nat option" where
  "hex_value c =
     (let n = of_char c :: nat
      in if 48 \<le> n \<and> n \<le> 57 then Some (n - 48)
         else if 97 \<le> n \<and> n \<le> 102 then Some (n - 87)
         else if 65 \<le> n \<and> n \<le> 70 then Some (n - 55)
         else None)"

fun hex_encode :: "string \<Rightarrow> string" where
  "hex_encode [] = []"
| "hex_encode (c # cs) = hex_digit (of_char c div 16) # hex_digit (of_char c mod 16) # hex_encode cs"

fun hex_decode :: "string \<Rightarrow> string option" where
  "hex_decode [] = Some []"
| "hex_decode [_] = None"
| "hex_decode (a # b # cs) =
     (case (hex_value a, hex_value b, hex_decode cs) of
        (Some x, Some y, Some s) \<Rightarrow> Some (char_of (16 * x + y) # s)
      | _ \<Rightarrow> None)"


lemma hex_value_digit: "n < 16 \<Longrightarrow> hex_value (hex_digit n) = Some n"
  by (auto simp: hex_value_def hex_digit_def)

lemma hex_decode_encode: "hex_decode (hex_encode s) = Some s"
proof (induction s)
  case (Cons c cs)
  have "(of_char c :: nat) div 16 < 16"
    by (simp add: less_mult_imp_div_less)
  then show ?case using Cons by (simp add: hex_value_digit)
qed simp

lemma dollar_not_hex: "CHR ''$'' \<notin> set (hex_encode s)"
proof (induction s)
  case (Cons c cs)
  have "hex_digit n \<noteq> CHR ''$''" if "n < 16" for n
    using that hex_value_digit [of n] by (auto simp: hex_value_def)
  moreover have "(of_char c :: nat) div 16 < 16" by (simp add: less_mult_imp_div_less)
  ultimately show ?case using Cons by (metis hex_encode.simps(2) mod_less_divisor set_ConsD zero_less_numeral)
qed simp

lemma hex_encode_eq_Nil [simp]: "hex_encode s = [] \<longleftrightarrow> s = []"
  by (cases s) auto

subsection \<open>Decimal numbers\<close>

definition is_digit :: "char \<Rightarrow> bool" where
  "is_digit c \<longleftrightarrow> (let n = of_char c :: nat in 48 \<le> n \<and> n \<le> 57)"

text \<open>\<^verbatim>\<open>strconv.Atoi\<close>: an optional sign, then digits; \<open>None\<close> on a syntax or a range error.\<close>

definition atoi :: "string \<Rightarrow> int option" where
  "atoi s =
     (let neg = has_prefix s ''-'';
          ds = (if neg \<or> has_prefix s ''+'' then tl s else s);
          v = int (digits_val 0 ds)
      in if ds = [] \<or> \<not> list_all is_digit ds then None
         else if neg then (if v \<le> 9223372036854775808 then Some (- v) else None)
         else if v \<le> MaxInt64 then Some v else None)"

lemma nat_digits_digit: "list_all is_digit (nat_digits n)"
  using digit_chars [of _ n] by (auto simp: list_all_iff is_digit_def)

lemma hd_nat_digits: "is_digit (hd (nat_digits n))"
  using nat_digits_digit [of n] by (cases "nat_digits n") auto

lemma atoi_itoa:
  assumes "0 \<le> i" "i \<le> MaxInt64"
  shows "atoi (itoa i) = Some i"
proof -
  have "hd (nat_digits n) \<noteq> CHR ''-''" "hd (nat_digits n) \<noteq> CHR ''+''" for n
    using hd_nat_digits [of n] by (auto simp: is_digit_def)
  then have "\<not> has_prefix (nat_digits n) ''-''" "\<not> has_prefix (nat_digits n) ''+''" for n
    by (cases "nat_digits n"; auto simp: has_prefix_def; metis list.sel(1))+
  then show ?thesis
    using assms by (simp add: atoi_def itoa_def nat_digits_digit digits_val_nat_digits Let_def)
qed

subsection \<open>URLs\<close>

datatype esc_mode = EncPath | EncUserPassword | EncHost | EncZone | EncFragment

definition is_alnum :: "char \<Rightarrow> bool" where
  "is_alnum c \<longleftrightarrow> is_letter c \<or> is_digit c"

text \<open>The bytes a host may have unescaped.\<close>

definition host_char :: "char \<Rightarrow> bool" where
  "host_char c \<longleftrightarrow> is_alnum c \<or> c \<in> set ''-_.~!$&'' \<or> of_char c = (39 :: nat) \<or> c \<in> set ''()*+,;=:[]<>'' \<or> of_char c = (34 :: nat)"

fun unescape :: "esc_mode \<Rightarrow> string \<Rightarrow> string option" where
  "unescape mode [] = Some []"
| "unescape mode (c # cs) =
     (if c = CHR ''%'' then
        (case cs of
           a # b # ds \<Rightarrow>
             (case (hex_value a, hex_value b) of
                (Some x, Some y) \<Rightarrow>
                  let v = char_of (16 * x + y); pct = (a = CHR ''2'' \<and> b = CHR ''5'')
                  in if mode = EncHost \<and> x < 8 \<and> \<not> pct then None
                     else if mode = EncZone \<and> \<not> pct \<and> v \<noteq> CHR '' '' \<and> \<not> host_char v then None
                     else map_option ((#) v) (unescape mode ds)
              | _ \<Rightarrow> None)
         | _ \<Rightarrow> None)
      else if (mode = EncHost \<or> mode = EncZone) \<and> of_char c < (128 :: nat) \<and> \<not> host_char c then None
      else map_option ((#) c) (unescape mode cs))"

record URL =
  u_Scheme :: string
  u_User :: "(string \<times> string) option"
  u_Host :: string

definition last_index_char :: "char \<Rightarrow> string \<Rightarrow> nat option" where
  "last_index_char c s = map_option (\<lambda>i. length s - 1 - i) (index_char c (rev s))"

fun index_str :: "string \<Rightarrow> string \<Rightarrow> nat option" where
  "index_str [] p = (if p = [] then Some 0 else None)"
| "index_str (c # cs) p = (if has_prefix (c # cs) p then Some 0 else map_option Suc (index_str cs p))"

fun scheme_loop :: "string \<Rightarrow> nat \<Rightarrow> string \<Rightarrow> (string \<times> string) option" where
  "scheme_loop raw i [] = Some ([], raw)"
| "scheme_loop raw i (c # cs) =
     (if is_letter c then scheme_loop raw (Suc i) cs
      else if is_digit c \<or> c \<in> set ''+-.'' then (if i = 0 then Some ([], raw) else scheme_loop raw (Suc i) cs)
      else if c = CHR '':'' then (if i = 0 then None else Some (take i raw, cs))
      else Some ([], raw))"

definition validOptionalPort :: "string \<Rightarrow> bool" where
  "validOptionalPort p \<longleftrightarrow> p = [] \<or> hd p = CHR '':'' \<and> list_all is_digit (tl p)"

definition parse_host :: "string \<Rightarrow> string option" where
  "parse_host host =
     (if has_prefix host ''['' then
        (case last_index_char (CHR '']'') host of
           None \<Rightarrow> None
         | Some i \<Rightarrow>
            if \<not> validOptionalPort (drop (i + 1) host) then None
            else (case index_str (take i host) ''%25'' of
                    None \<Rightarrow> unescape EncHost host
                  | Some z \<Rightarrow>
                     (case (unescape EncHost (take z host), unescape EncZone (drop z (take i host)), unescape EncHost (drop i host)) of
                        (Some a, Some b, Some c) \<Rightarrow> Some (a @ b @ c)
                      | _ \<Rightarrow> None)))
      else
        (case last_index_char (CHR '':'') host of
           None \<Rightarrow> unescape EncHost host
         | Some i \<Rightarrow> if \<not> validOptionalPort (drop i host) then None else unescape EncHost host))"

definition user_char :: "char \<Rightarrow> bool" where
  "user_char c \<longleftrightarrow> is_alnum c \<or> c \<in> set ''-._:~!$&()*+,;=%@'' \<or> of_char c = (39 :: nat)"

definition parse_authority :: "string \<Rightarrow> ((string \<times> string) option \<times> string) option" where
  "parse_authority authority =
     (case last_index_char (CHR ''@'') authority of
        None \<Rightarrow> map_option (\<lambda>h. (None, h)) (parse_host authority)
      | Some i \<Rightarrow>
         (case parse_host (drop (i + 1) authority) of
            None \<Rightarrow> None
          | Some h \<Rightarrow>
             let ui = take i authority
             in if \<not> list_all user_char ui then None
                else (case cut_char (CHR '':'') ui of
                        None \<Rightarrow> map_option (\<lambda>u. (Some (u, []), h)) (unescape EncUserPassword ui)
                      | Some (u, p) \<Rightarrow>
                         (case (unescape EncUserPassword u, unescape EncUserPassword p) of
                            (Some u, Some p) \<Rightarrow> Some (Some (u, p), h)
                          | _ \<Rightarrow> None))))"

definition cut0 :: "char \<Rightarrow> string \<Rightarrow> string \<times> string" where
  "cut0 c s = (case cut_char c s of None \<Rightarrow> (s, []) | Some ab \<Rightarrow> ab)"

lemma cut0_shorter: "s \<noteq> [] \<Longrightarrow> length (snd (cut0 c s)) < length s"
proof (cases "cut_char c s")
  case (Some ab)
  then have "s = fst ab @ c # snd ab" using cut_char_Some [of c s "fst ab" "snd ab"] by simp
  then have "length s = length (fst ab) + Suc (length (snd ab))" by (metis length_Cons length_append)
  with Some show ?thesis by (simp add: cut0_def)
qed (simp add: cut0_def)

definition url_parse_nofrag :: "string \<Rightarrow> URL option" where
  "url_parse_nofrag raw =
     (if \<not> list_all (\<lambda>c. (32 :: nat) \<le> of_char c \<and> of_char c \<noteq> (127 :: nat)) raw then None
      else if raw = ''*'' then Some \<lparr>u_Scheme = [], u_User = None, u_Host = []\<rparr>
      else
        (case scheme_loop raw 0 raw of
           None \<Rightarrow> None
         | Some (scheme, rest0) \<Rightarrow>
            let sch = to_lower scheme;
                rest = fst (cut0 (CHR ''?'') rest0);
                path = (\<lambda>usr host p. map_option (\<lambda>_. \<lparr>u_Scheme = sch, u_User = usr, u_Host = host\<rparr>) (unescape EncPath p))
            in if \<not> has_prefix rest ''/'' then
                 (if sch \<noteq> [] then Some \<lparr>u_Scheme = sch, u_User = None, u_Host = []\<rparr>
                  else if CHR '':'' \<in> set (fst (cut0 (CHR ''/'') rest)) then None
                  else path None [] rest)
               else if (sch \<noteq> [] \<or> \<not> has_prefix rest ''///'') \<and> has_prefix rest ''//'' then
                 (let auth = drop 2 rest;
                      i = (case index_char (CHR ''/'') auth of None \<Rightarrow> length auth | Some i \<Rightarrow> i)
                  in case parse_authority (take i auth) of
                       None \<Rightarrow> None
                     | Some (usr, host) \<Rightarrow> path usr host (drop i auth))
               else path None [] rest))"

definition url_parse :: "string \<Rightarrow> URL option" where
  "url_parse raw =
     (let (u, frag) = cut0 (CHR ''#'') raw
      in case url_parse_nofrag u of
           None \<Rightarrow> None
         | Some url \<Rightarrow>
            if frag = [] then Some url
            else map_option (\<lambda>_. url) (unescape EncFragment frag))"

text \<open>\<^verbatim>\<open>u.Hostname()\<close> and \<^verbatim>\<open>u.Port()\<close>.\<close>

definition split_host_port :: "string \<Rightarrow> string \<times> string" where
  "split_host_port hp =
     (let (host, port) =
        (case last_index_char (CHR '':'') hp of
           None \<Rightarrow> (hp, [])
         | Some i \<Rightarrow> if validOptionalPort (drop i hp) then (take i hp, drop (i + 1) hp) else (hp, []))
      in if has_prefix host ''['' \<and> has_suffix host '']'' then (butlast (tl host), port) else (host, port))"

end
