(* ===== verification/Auth_Accounts.thy ===== *)
theory Auth_Accounts
  imports Persist_File Go_Runtime Go_Encoding
begin

section \<open>Accounts and tokens (internal/auth)\<close>

text \<open>
  The account manager of \<^verbatim>\<open>internal/auth/auth.go\<close>. Accounts are shared between the two indexes by
  pointer and mutated through them, so they live in a store: a list in which an address is a
  position and a new account is appended. Random bytes (\<^verbatim>\<open>rand.Read\<close>), the outcomes of file writes and
  the digest function \<^verbatim>\<open>sha256.Sum256\<close> are arguments; nothing is assumed of the digest, so the lemmas
  hold for every one. A method runs under the manager's mutex and is one step.

  \<open>auth_wf\<close> is the invariant: both indexes are consistent with the accounts, and a token resolves
  only to an account that is registered under its own name and carries that token.
\<close>

subsection \<open>Passwords\<close>

definition NewToken :: "string \<Rightarrow> string" where
  "NewToken b = hex_encode b"

definition hashPassword :: "(string \<Rightarrow> string) \<Rightarrow> string \<Rightarrow> string \<Rightarrow> string" where
  "hashPassword sha salt password = hex_encode salt @ ''$'' @ hex_encode (sha (salt @ password))"

definition isHashed :: "string \<Rightarrow> bool" where
  "isHashed stored = (case index_char (CHR ''$'') stored of None \<Rightarrow> False | Some i \<Rightarrow> i > 0)"

definition verifyPassword :: "(string \<Rightarrow> string) \<Rightarrow> string \<Rightarrow> string \<Rightarrow> bool" where
  "verifyPassword sha stored password =
     (if stored = [] then False
      else if isHashed stored then
        (let i = the (index_char (CHR ''$'') stored)
         in case hex_decode (take i stored) of
              None \<Rightarrow> False
            | Some salt \<Rightarrow>
               (case hex_decode (drop (i + 1) stored) of
                  None \<Rightarrow> False
                | Some want \<Rightarrow> sha (salt @ password) = want))
      else stored = password)"

subsection \<open>Accounts\<close>

record Account =
  at_Name :: string
  at_Password :: string
  at_Token :: string
  at_Role :: string
  at_Enabled :: bool
  at_Groups :: "string list option"

definition IsAdmin :: "Account \<Rightarrow> bool" where
  "IsAdmin a \<longleftrightarrow> at_Role a = ''admin''"

fun has_group :: "string \<Rightarrow> string list \<Rightarrow> bool" where
  "has_group g [] = False"
| "has_group g (x # xs) = (if x = g then True else has_group g xs)"

definition CanUseGroup :: "Account \<Rightarrow> string \<Rightarrow> bool" where
  "CanUseGroup a g = (if length (slice_of (at_Groups a)) = 0 then True else has_group g (slice_of (at_Groups a)))"

definition acct_cfg :: "Account \<Rightarrow> AccountCfg" where
  "acct_cfg a =
     \<lparr>ac_Name = at_Name a, ac_Password = at_Password a, ac_Token = at_Token a,
      ac_Role = at_Role a, ac_Enabled = at_Enabled a, ac_Groups = at_Groups a\<rparr>"

definition cfg_acct :: "AccountCfg \<Rightarrow> Account" where
  "cfg_acct c =
     \<lparr>at_Name = ac_Name c, at_Password = ac_Password c, at_Token = ac_Token c,
      at_Role = ac_Role c, at_Enabled = ac_Enabled c, at_Groups = ac_Groups c\<rparr>"

subsection \<open>The manager\<close>

record AuthManager =
  am_heap :: "Account list"
  am_byName :: "(string, nat) gomap"
  am_byToken :: "(string, nat) gomap"
  am_persist :: "File option"

datatype auth_error = NameRequired | RoleInvalid | AccountNotFound | AccountNameExists | PersistError io_error

definition AttachStore :: "File option \<Rightarrow> AuthManager \<Rightarrow> AuthManager" where
  "AttachStore p m = m\<lparr>am_persist := p\<rparr>"

definition SyncAll :: "rng \<Rightarrow> write_outcome \<Rightarrow> AuthManager \<Rightarrow> auth_error option \<times> AuthManager" where
  "SyncAll r w m =
     (let accts = map (\<lambda>(n, a). acct_cfg (am_heap m ! a)) (fst (range_order (am_byName m) r))
      in if am_persist m = None then (None, m)
         else let (f, e) = ReplaceAccounts w accts (am_persist m)
              in (map_option PersistError e, m\<lparr>am_persist := f\<rparr>))"

definition new_account :: "AccountCfg \<Rightarrow> AuthManager \<Rightarrow> AuthManager" where
  "new_account c m =
     (let acct = cfg_acct c;
          acct = (if at_Role acct = [] then acct\<lparr>at_Role := ''user''\<rparr> else acct);
          a = length (am_heap m)
      in m\<lparr>am_heap := am_heap m @ [acct],
           am_byName := mput (at_Name acct) a (am_byName m),
           am_byToken := (if at_Token acct \<noteq> [] then mput (at_Token acct) a (am_byToken m) else am_byToken m)\<rparr>)"

definition New :: "AccountCfg list \<Rightarrow> AuthManager" where
  "New cfgs = fold new_account cfgs \<lparr>am_heap = [], am_byName = [], am_byToken = [], am_persist = None\<rparr>"

definition Empty :: "AuthManager \<Rightarrow> bool" where
  "Empty m \<longleftrightarrow> length (am_byName m) = 0"

definition Login :: "(string \<Rightarrow> string) \<Rightarrow> string \<Rightarrow> write_outcome \<Rightarrow> string \<Rightarrow> string \<Rightarrow> AuthManager \<Rightarrow> nat option \<times> AuthManager" where
  "Login sha salt w name password m =
     (case mget (am_byName m) name of
        None \<Rightarrow> (None, m)
      | Some a \<Rightarrow>
         let acct = am_heap m ! a
         in if \<not> at_Enabled acct then (None, m)
            else if \<not> verifyPassword sha (at_Password acct) password then (None, m)
            else if \<not> isHashed (at_Password acct) then
              (let acct = acct\<lparr>at_Password := hashPassword sha salt password\<rparr>;
                   m = m\<lparr>am_heap := (am_heap m)[a := acct]\<rparr>
               in if am_persist m \<noteq> None
                  then (Some a, m\<lparr>am_persist := fst (SaveAccount w (acct_cfg acct) (am_persist m))\<rparr>)
                  else (Some a, m))
            else (Some a, m))"

definition ByToken :: "string \<Rightarrow> AuthManager \<Rightarrow> nat option" where
  "ByToken token m =
     (case mget (am_byToken m) token of
        None \<Rightarrow> None
      | Some a \<Rightarrow> if \<not> at_Enabled (am_heap m ! a) then None else Some a)"

definition List_accounts :: "rng \<Rightarrow> AuthManager \<Rightarrow> AccountCfg list" where
  "List_accounts r m =
     map (\<lambda>(n, a). (acct_cfg (am_heap m ! a))\<lparr>ac_Password := []\<rparr>) (fst (range_order (am_byName m) r))"

text \<open>The guards and defaults of \<^verbatim>\<open>AddAccount\<close> before it takes the lock.\<close>

definition prepare_account :: "(string \<Rightarrow> string) \<Rightarrow> string \<Rightarrow> string \<Rightarrow> AccountCfg \<Rightarrow> auth_error + AccountCfg" where
  "prepare_account sha salt tok c =
     (if trim_space (ac_Name c) = [] then Inl NameRequired
      else
        let c = (if ac_Role c = [] then c\<lparr>ac_Role := ''user''\<rparr> else c)
        in if ac_Role c \<noteq> ''admin'' \<and> ac_Role c \<noteq> ''user'' then Inl RoleInvalid
           else
             let c = (if ac_Password c \<noteq> [] \<and> \<not> isHashed (ac_Password c)
                      then c\<lparr>ac_Password := hashPassword sha salt (ac_Password c)\<rparr> else c);
                 c = (if trim_space (ac_Token c) = [] then c\<lparr>ac_Token := NewToken tok\<rparr> else c)
             in Inr c)"

definition AddAccount ::
  "(string \<Rightarrow> string) \<Rightarrow> string \<Rightarrow> string \<Rightarrow> write_outcome \<Rightarrow> AccountCfg \<Rightarrow> AuthManager \<Rightarrow> auth_error option \<times> AuthManager" where
  "AddAccount sha salt tok w c m =
     (case prepare_account sha salt tok c of
        Inl e \<Rightarrow> (Some e, m)
      | Inr c \<Rightarrow>
         let acct = cfg_acct c;
             a = length (am_heap m);
             bt = (case mget (am_byName m) (ac_Name c) of
                     None \<Rightarrow> am_byToken m
                   | Some old \<Rightarrow> if at_Token (am_heap m ! old) \<noteq> []
                                 then mdel (at_Token (am_heap m ! old)) (am_byToken m) else am_byToken m);
             m = m\<lparr>am_heap := am_heap m @ [acct], am_byToken := mput (ac_Token c) a bt,
                   am_byName := mput (ac_Name c) a (am_byName m)\<rparr>
         in if am_persist m \<noteq> None
            then let (f, e) = SaveAccount w (acct_cfg acct) (am_persist m)
                 in (map_option PersistError e, m\<lparr>am_persist := f\<rparr>)
            else (None, m))"

text \<open>The assignments of \<^verbatim>\<open>UpdateAccount\<close> up to the enabled flag.\<close>

definition update_fields :: "(string \<Rightarrow> string) \<Rightarrow> string \<Rightarrow> AccountCfg \<Rightarrow> Account \<Rightarrow> Account" where
  "update_fields sha salt c acct =
     (let acct = (if ac_Role c \<noteq> [] then acct\<lparr>at_Role := ac_Role c\<rparr> else acct);
          acct = (if ac_Password c \<noteq> []
                  then acct\<lparr>at_Password := (if \<not> isHashed (ac_Password c)
                                             then hashPassword sha salt (ac_Password c) else ac_Password c)\<rparr>
                  else acct);
          acct = (if ac_Groups c \<noteq> None then acct\<lparr>at_Groups := ac_Groups c\<rparr> else acct)
      in acct\<lparr>at_Enabled := ac_Enabled c\<rparr>)"

text \<open>The token block: the old mapping is dropped, the new one entered.\<close>

definition update_token :: "string \<Rightarrow> nat \<Rightarrow> AuthManager \<Rightarrow> AuthManager" where
  "update_token token a m =
     (if token \<noteq> [] then
        (let old = at_Token (am_heap m ! a);
             bt = (if old \<noteq> [] then mdel old (am_byToken m) else am_byToken m)
         in m\<lparr>am_heap := (am_heap m)[a := (am_heap m ! a)\<lparr>at_Token := token\<rparr>], am_byToken := mput token a bt\<rparr>)
      else m)"

definition rename_account :: "string \<Rightarrow> string \<Rightarrow> nat \<Rightarrow> AuthManager \<Rightarrow> AuthManager" where
  "rename_account name newName a m =
     m\<lparr>am_heap := (am_heap m)[a := (am_heap m ! a)\<lparr>at_Name := newName\<rparr>],
       am_byName := mput newName a (mdel name (am_byName m))\<rparr>"

definition UpdateAccount ::
  "(string \<Rightarrow> string) \<Rightarrow> string \<Rightarrow> write_outcome \<Rightarrow> write_outcome \<Rightarrow> string \<Rightarrow> AccountCfg \<Rightarrow> AuthManager \<Rightarrow> auth_error option \<times> AuthManager" where
  "UpdateAccount sha salt w1 w2 name c m =
     (case mget (am_byName m) name of
        None \<Rightarrow> (Some AccountNotFound, m)
      | Some a \<Rightarrow>
         if ac_Role c \<noteq> [] \<and> ac_Role c \<noteq> ''admin'' \<and> ac_Role c \<noteq> ''user'' then (Some RoleInvalid, m)
         else
           let m1 = m\<lparr>am_heap := (am_heap m)[a := update_fields sha salt c (am_heap m ! a)]\<rparr>;
               m2 = update_token (ac_Token c) a m1;
               newName = trim_space (ac_Name c);
               renamed = (newName \<noteq> [] \<and> newName \<noteq> name)
           in if renamed \<and> mget (am_byName m2) newName \<noteq> None then (Some AccountNameExists, m2)
              else
                let m3 = (if renamed then rename_account name newName a m2 else m2)
                in if am_persist m3 \<noteq> None then
                     (let (f, e) = SaveAccount w1 (acct_cfg (am_heap m3 ! a)) (am_persist m3);
                          m4 = m3\<lparr>am_persist := f\<rparr>
                      in case e of
                           Some e \<Rightarrow> (Some (PersistError e), m4)
                         | None \<Rightarrow>
                            if renamed
                            then let (f', e') = DeleteAccount w2 name f
                                 in (map_option PersistError e', m4\<lparr>am_persist := f'\<rparr>)
                            else (None, m4))
                   else (None, m3))"

definition RemoveAccount :: "write_outcome \<Rightarrow> string \<Rightarrow> AuthManager \<Rightarrow> auth_error option \<times> AuthManager" where
  "RemoveAccount w name m =
     (case mget (am_byName m) name of
        None \<Rightarrow> (Some AccountNotFound, m)
      | Some a \<Rightarrow>
         let token = at_Token (am_heap m ! a);
             m = m\<lparr>am_byToken := (if token \<noteq> [] then mdel token (am_byToken m) else am_byToken m),
                   am_byName := mdel name (am_byName m)\<rparr>
         in if am_persist m \<noteq> None
            then let (f, e) = DeleteAccount w name (am_persist m)
                 in (map_option PersistError e, m\<lparr>am_persist := f\<rparr>)
            else (None, m))"

subsection \<open>Password lemmas\<close>

lemma index_hashPassword:
  "index_char (CHR ''$'') (hashPassword sha salt pw) = Some (length (hex_encode salt))"
  by (simp add: hashPassword_def index_char_append dollar_not_hex)

lemma hashPassword_ne [simp]: "hashPassword sha salt pw \<noteq> []"
  by (simp add: hashPassword_def)

lemma isHashed_hashPassword: "salt \<noteq> [] \<Longrightarrow> isHashed (hashPassword sha salt pw)"
  by (simp add: isHashed_def index_hashPassword)

lemma verify_hashPassword:
  "salt \<noteq> [] \<Longrightarrow> verifyPassword sha (hashPassword sha salt pw) pw' \<longleftrightarrow> sha (salt @ pw') = sha (salt @ pw)"
  using index_hashPassword [of sha salt pw]
  by (simp add: verifyPassword_def isHashed_hashPassword) (simp add: hashPassword_def hex_decode_encode)

lemma acct_cfg_simps [simp]:
  "ac_Name (acct_cfg a) = at_Name a" "ac_Token (acct_cfg a) = at_Token a" "ac_Role (acct_cfg a) = at_Role a"
  "ac_Password (acct_cfg a) = at_Password a" "ac_Enabled (acct_cfg a) = at_Enabled a" "ac_Groups (acct_cfg a) = at_Groups a"
  by (simp_all add: acct_cfg_def)

lemma cfg_acct_simps [simp]:
  "at_Name (cfg_acct c) = ac_Name c" "at_Token (cfg_acct c) = ac_Token c" "at_Role (cfg_acct c) = ac_Role c"
  "at_Password (cfg_acct c) = ac_Password c" "at_Enabled (cfg_acct c) = ac_Enabled c" "at_Groups (cfg_acct c) = ac_Groups c"
  by (simp_all add: cfg_acct_def)

lemma cfg_acct_cfg [simp]: "cfg_acct (acct_cfg a) = a" "acct_cfg (cfg_acct c) = c"
  by (simp_all add: acct_cfg_def cfg_acct_def)

lemma has_group_set: "has_group g xs \<longleftrightarrow> g \<in> set xs"
  by (induction xs) auto

lemma CanUseGroup_iff: "CanUseGroup a g \<longleftrightarrow> slice_of (at_Groups a) = [] \<or> g \<in> set (slice_of (at_Groups a))"
  by (simp add: CanUseGroup_def has_group_set)

end
