(* ===== verification/Auth_Inv.thy ===== *)
theory Auth_Inv
  imports Auth_Accounts
begin

section \<open>The account manager's invariant\<close>

text \<open>
  \<open>auth_wf\<close> and its preservation by every operation, the registered accounts as a finite map
  (\<open>acct_view\<close>) with the effect of every operation on it, and the agreement of that map with the
  account file (\<open>synced\<close>).
\<close>

definition auth_wf :: "AuthManager \<Rightarrow> bool" where
  "auth_wf m \<longleftrightarrow>
     mwf (am_byName m) \<and> mwf (am_byToken m) \<and>
     (\<forall>n a. mget (am_byName m) n = Some a \<longrightarrow>
        a < length (am_heap m) \<and> at_Name (am_heap m ! a) = n \<and> at_Role (am_heap m ! a) \<noteq> []) \<and>
     (\<forall>t a. mget (am_byToken m) t = Some a \<longrightarrow>
        t \<noteq> [] \<and> a < length (am_heap m) \<and> at_Token (am_heap m ! a) = t \<and>
        mget (am_byName m) (at_Name (am_heap m ! a)) = Some a)"

definition acct_view :: "AuthManager \<Rightarrow> string \<rightharpoonup> AccountCfg" where
  "acct_view m n = map_option (\<lambda>a. acct_cfg (am_heap m ! a)) (mget (am_byName m) n)"

text \<open>The account file holds exactly the given map; the manager is in step with its file.\<close>

definition file_map :: "File option \<Rightarrow> (string \<rightharpoonup> AccountCfg) \<Rightarrow> bool" where
  "file_map fo M \<longleftrightarrow> fo \<noteq> None \<and>
     (\<exists>cs. LoadAccounts fo = Inr cs \<and> distinct (map ac_Name cs) \<and> entry ac_Name cs = M)"

definition synced :: "AuthManager \<Rightarrow> bool" where
  "synced m \<longleftrightarrow> file_map (am_persist m) (acct_view m)"

lemma auth_wfI:
  assumes "mwf (am_byName m)" "mwf (am_byToken m)"
    and "\<And>n a. mget (am_byName m) n = Some a \<Longrightarrow>
        a < length (am_heap m) \<and> at_Name (am_heap m ! a) = n \<and> at_Role (am_heap m ! a) \<noteq> []"
    and "\<And>t a. mget (am_byToken m) t = Some a \<Longrightarrow>
        t \<noteq> [] \<and> a < length (am_heap m) \<and> at_Token (am_heap m ! a) = t \<and>
        mget (am_byName m) (at_Name (am_heap m ! a)) = Some a"
  shows "auth_wf m"
  using assms unfolding auth_wf_def by blast

lemma auth_wf_name:
  "auth_wf m \<Longrightarrow> mget (am_byName m) n = Some a \<Longrightarrow>
   a < length (am_heap m) \<and> at_Name (am_heap m ! a) = n \<and> at_Role (am_heap m ! a) \<noteq> []"
  unfolding auth_wf_def by blast

lemma auth_wf_token:
  "auth_wf m \<Longrightarrow> mget (am_byToken m) t = Some a \<Longrightarrow>
   t \<noteq> [] \<and> a < length (am_heap m) \<and> at_Token (am_heap m ! a) = t \<and> mget (am_byName m) (at_Name (am_heap m ! a)) = Some a"
  unfolding auth_wf_def by blast

lemma auth_wf_maps: "auth_wf m \<Longrightarrow> mwf (am_byName m) \<and> mwf (am_byToken m)"
  unfolding auth_wf_def by blast

lemma auth_wf_persist [simp]: "auth_wf (m\<lparr>am_persist := f\<rparr>) = auth_wf m"
  by (simp add: auth_wf_def)

lemma acct_view_persist [simp]: "acct_view (m\<lparr>am_persist := f\<rparr>) = acct_view m"
  by (simp add: acct_view_def fun_eq_iff)

subsection \<open>Preservation\<close>

text \<open>A new object enters both indexes; the entries of the object it replaces are gone.\<close>

lemma auth_wf_insert:
  assumes wf: "auth_wf m" and r: "at_Role acct \<noteq> []" and b: "mwf bt"
    and sub: "\<And>t a. mget bt t = Some a \<Longrightarrow> mget (am_byToken m) t = Some a \<and> at_Name (am_heap m ! a) \<noteq> at_Name acct"
  shows "auth_wf (m\<lparr>am_heap := am_heap m @ [acct], am_byName := mput (at_Name acct) (length (am_heap m)) (am_byName m),
     am_byToken := (if at_Token acct \<noteq> [] then mput (at_Token acct) (length (am_heap m)) bt else bt)\<rparr>)"
    (is "auth_wf ?m")
proof (rule auth_wfI)
  show "mwf (am_byName ?m)" "mwf (am_byToken ?m)"
    using b auth_wf_maps [OF wf] by (auto intro: wf_intros)
next
  fix n a assume "mget (am_byName ?m) n = Some a"
  then show "a < length (am_heap ?m) \<and> at_Name (am_heap ?m ! a) = n \<and> at_Role (am_heap ?m ! a) \<noteq> []"
    using r auth_wf_name [OF wf, of n a] by (auto simp: nth_append split: if_splits)
next
  fix t a assume t: "mget (am_byToken ?m) t = Some a"
  show "t \<noteq> [] \<and> a < length (am_heap ?m) \<and> at_Token (am_heap ?m ! a) = t \<and>
      mget (am_byName ?m) (at_Name (am_heap ?m ! a)) = Some a"
  proof (cases "a = length (am_heap m)")
    case True
    then show ?thesis using t sub auth_wf_token [OF wf, of t a] by (auto split: if_splits)
  next
    case False
    then have "mget bt t = Some a" using t by (auto split: if_splits)
    then show ?thesis using sub [of t a] auth_wf_token [OF wf, of t a] by (auto simp: nth_append)
  qed
qed

text \<open>An update in place that keeps name and token.\<close>

lemma auth_wf_update:
  assumes wf: "auth_wf m" and a: "mget (am_byName m) n = Some a"
    and x: "at_Name x = n" "at_Token x = at_Token (am_heap m ! a)" "at_Role x \<noteq> []"
  shows "auth_wf (m\<lparr>am_heap := (am_heap m)[a := x]\<rparr>)" (is "auth_wf ?m")
proof -
  have n: "a < length (am_heap m)" "at_Name (am_heap m ! a) = n" using auth_wf_name [OF wf a] by auto
  have nth: "am_heap ?m ! b = (if b = a then x else am_heap m ! b)" for b
    using n by (simp add: nth_list_update)
  show ?thesis
  proof (rule auth_wfI)
    show "mwf (am_byName ?m)" "mwf (am_byToken ?m)" using auth_wf_maps [OF wf] by simp_all
  next
    fix k b assume "mget (am_byName ?m) k = Some b"
    then show "b < length (am_heap ?m) \<and> at_Name (am_heap ?m ! b) = k \<and> at_Role (am_heap ?m ! b) \<noteq> []"
      using auth_wf_name [OF wf, of k b] n x unfolding nth by auto
  next
    fix t b assume "mget (am_byToken ?m) t = Some b"
    then show "t \<noteq> [] \<and> b < length (am_heap ?m) \<and> at_Token (am_heap ?m ! b) = t \<and>
        mget (am_byName ?m) (at_Name (am_heap ?m ! b)) = Some b"
      using auth_wf_token [OF wf, of t b] n x unfolding nth by auto
  qed
qed

lemma update_token_wf:
  assumes wf: "auth_wf m" and a: "mget (am_byName m) n = Some a"
  shows "auth_wf (update_token tok a m)"
proof (cases "tok = []")
  case True
  then show ?thesis using wf by (simp add: update_token_def)
next
  case False
  let ?m = "update_token tok a m" and ?x = "(am_heap m ! a)\<lparr>at_Token := tok\<rparr>"
  have n: "a < length (am_heap m)" "at_Name (am_heap m ! a) = n" "at_Role (am_heap m ! a) \<noteq> []"
    using auth_wf_name [OF wf a] by auto
  have f: "am_byName ?m = am_byName m"
    "am_byToken ?m = mput tok a (if at_Token (am_heap m ! a) \<noteq> [] then mdel (at_Token (am_heap m ! a)) (am_byToken m) else am_byToken m)"
    "am_heap ?m = (am_heap m)[a := ?x]"
    using False by (simp_all add: update_token_def Let_def)
  have nth: "am_heap ?m ! b = (if b = a then ?x else am_heap m ! b)" for b
    unfolding f using n by (simp add: nth_list_update)
  show ?thesis
  proof (rule auth_wfI)
    show "mwf (am_byName ?m)" "mwf (am_byToken ?m)"
      unfolding f using auth_wf_maps [OF wf] by (auto intro: wf_intros)
  next
    fix k b assume "mget (am_byName ?m) k = Some b"
    then show "b < length (am_heap ?m) \<and> at_Name (am_heap ?m ! b) = k \<and> at_Role (am_heap ?m ! b) \<noteq> []"
      using auth_wf_name [OF wf, of k b] n unfolding nth f(1) by (auto simp: f)
  next
    fix t b assume t: "mget (am_byToken ?m) t = Some b"
    have "t = tok \<and> b = a \<or> t \<noteq> tok \<and> b \<noteq> a \<and> mget (am_byToken m) t = Some b"
      using t auth_wf_token [OF wf, of t b] unfolding f by (auto split: if_splits)
    then show "t \<noteq> [] \<and> b < length (am_heap ?m) \<and> at_Token (am_heap ?m ! b) = t \<and>
        mget (am_byName ?m) (at_Name (am_heap ?m ! b)) = Some b"
      using auth_wf_token [OF wf, of t b] n a False unfolding nth f(1) by (auto simp: f(3))
  qed
qed

lemma rename_account_wf:
  assumes wf: "auth_wf m" and a: "mget (am_byName m) n = Some a" and new: "mget (am_byName m) n' = None"
  shows "auth_wf (rename_account n n' a m)" (is "auth_wf ?m")
proof -
  have n: "a < length (am_heap m)" "at_Name (am_heap m ! a) = n" "at_Role (am_heap m ! a) \<noteq> []"
    using auth_wf_name [OF wf a] by auto
  let ?x = "(am_heap m ! a)\<lparr>at_Name := n'\<rparr>"
  have f: "am_byName ?m = mput n' a (mdel n (am_byName m))" "am_byToken ?m = am_byToken m"
    "am_heap ?m = (am_heap m)[a := ?x]"
    by (simp_all add: rename_account_def)
  have nth: "am_heap ?m ! b = (if b = a then ?x else am_heap m ! b)" for b
    unfolding f using n by (simp add: nth_list_update)
  show ?thesis
  proof (rule auth_wfI)
    show "mwf (am_byName ?m)" "mwf (am_byToken ?m)"
      unfolding f using auth_wf_maps [OF wf] by (auto intro: wf_intros)
  next
    fix k b assume k: "mget (am_byName ?m) k = Some b"
    have "k = n' \<and> b = a \<or> k \<noteq> n' \<and> b \<noteq> a \<and> mget (am_byName m) k = Some b"
      using k n auth_wf_name [OF wf, of k b] unfolding f by (auto split: if_splits)
    then show "b < length (am_heap ?m) \<and> at_Name (am_heap ?m ! b) = k \<and> at_Role (am_heap ?m ! b) \<noteq> []"
      using auth_wf_name [OF wf, of k b] n unfolding nth by (auto simp: f(3))
  next
    fix t b assume "mget (am_byToken ?m) t = Some b"
    then have "mget (am_byToken m) t = Some b" by (simp add: f)
    then show "t \<noteq> [] \<and> b < length (am_heap ?m) \<and> at_Token (am_heap ?m ! b) = t \<and>
        mget (am_byName ?m) (at_Name (am_heap ?m ! b)) = Some b"
      using auth_wf_token [OF wf, of t b] n a new unfolding nth f(1) by (auto simp: f(3))
  qed
qed

subsection \<open>The account file as a map\<close>

lemma file_map_save:
  assumes "file_map fo M"
  shows "snd (SaveAccount Written c fo) = None \<and> file_map (fst (SaveAccount Written c fo)) (M(ac_Name c \<mapsto> c))"
proof -
  obtain f cs where f: "fo = Some f" "loadAccountsLocked f = Inr cs" "distinct (map ac_Name cs)" "entry ac_Name cs = M"
    using assms by (auto simp: file_map_def LoadAccounts_def)
  then have "SaveAccount Written c fo = (Some (f\<lparr>fl_accounts := Doc (upsert ac_Name c cs)\<rparr>), None)"
    by (simp add: SaveAccount_def write_accounts_def)
  then show ?thesis
    using f by (auto simp: file_map_def LoadAccounts_def loadAccountsLocked_def distinct_upsert entry_upsert)
qed

lemma file_map_delete:
  assumes "file_map fo M"
  shows "snd (DeleteAccount Written n fo) = None \<and> file_map (fst (DeleteAccount Written n fo)) (M(n := None))"
proof -
  obtain f cs where f: "fo = Some f" "loadAccountsLocked f = Inr cs" "distinct (map ac_Name cs)" "entry ac_Name cs = M"
    using assms by (auto simp: file_map_def LoadAccounts_def)
  then have "DeleteAccount Written n fo = (Some (f\<lparr>fl_accounts := Doc (drop_named ac_Name n cs)\<rparr>), None)"
    by (simp add: DeleteAccount_def write_accounts_def)
  then show ?thesis
    using f by (auto simp: file_map_def LoadAccounts_def loadAccountsLocked_def distinct_drop_named entry_drop_named)
qed

lemma file_map_replace:
  assumes "fo \<noteq> None" "distinct (map ac_Name cs)"
  shows "snd (ReplaceAccounts Written cs fo) = None \<and> file_map (fst (ReplaceAccounts Written cs fo)) (entry ac_Name cs)"
  using assms
  by (auto simp: file_map_def ReplaceAccounts_def write_accounts_def LoadAccounts_def loadAccountsLocked_def)

subsection \<open>The operations on the registered accounts\<close>

lemma acct_view_update:
  assumes wf: "auth_wf m" and a: "mget (am_byName m) n = Some a"
  shows "acct_view (m\<lparr>am_heap := (am_heap m)[a := x]\<rparr>) = (acct_view m)(n \<mapsto> acct_cfg x)"
proof (rule ext)
  fix k
  show "acct_view (m\<lparr>am_heap := (am_heap m)[a := x]\<rparr>) k = ((acct_view m)(n \<mapsto> acct_cfg x)) k"
    using auth_wf_name [OF wf a] auth_wf_name [OF wf, of k] a
    by (cases "mget (am_byName m) k") (auto simp: acct_view_def nth_list_update)
qed

lemma acct_view_insert:
  assumes wf: "auth_wf m"
  shows "acct_view (m\<lparr>am_heap := am_heap m @ [x], am_byName := mput (at_Name x) (length (am_heap m)) (am_byName m), am_byToken := bt\<rparr>)
    = (acct_view m)(at_Name x \<mapsto> acct_cfg x)" (is "acct_view ?m = _")
proof (rule ext)
  fix k
  show "acct_view ?m k = ((acct_view m)(at_Name x \<mapsto> acct_cfg x)) k"
    using auth_wf_name [OF wf, of k] by (cases "mget (am_byName m) k") (auto simp: acct_view_def nth_append)
qed

lemma acct_view_mem:
  "auth_wf m \<Longrightarrow> acct_view m n = Some c \<longleftrightarrow>
     (\<exists>a. mget (am_byName m) n = Some a \<and> acct_cfg (am_heap m ! a) = c)"
  by (auto simp: acct_view_def)

text \<open>\<^verbatim>\<open>AddAccount\<close>: a prepared account has a name, a role and a token.\<close>

lemma trim_space_ne: "trim_space s \<noteq> [] \<Longrightarrow> s \<noteq> []"
  by auto

lemma prepare_accountE:
  assumes "prepare_account sha salt tok c = Inr c'"
  obtains "trim_space (ac_Name c) \<noteq> []" "ac_Name c' = ac_Name c"
    "ac_Role c' = (if ac_Role c = [] then ''user'' else ac_Role c)" "ac_Role c' \<in> {''admin'', ''user''}"
    "ac_Password c' = (if ac_Password c \<noteq> [] \<and> \<not> isHashed (ac_Password c) then hashPassword sha salt (ac_Password c) else ac_Password c)"
    "ac_Token c' = (if trim_space (ac_Token c) = [] then NewToken tok else ac_Token c)"
    "ac_Enabled c' = ac_Enabled c" "ac_Groups c' = ac_Groups c"
  using assms by (auto simp: prepare_account_def Let_def split: if_splits)

lemma prepare_account_token:
  "prepare_account sha salt tok c = Inr c' \<Longrightarrow> tok \<noteq> [] \<Longrightarrow> ac_Token c' \<noteq> [] \<and> ac_Role c' \<noteq> []"
  by (erule prepare_accountE) (auto simp: NewToken_def)

definition insert_account :: "AccountCfg \<Rightarrow> AuthManager \<Rightarrow> AuthManager" where
  "insert_account c m =
     m\<lparr>am_heap := am_heap m @ [cfg_acct c],
       am_byName := mput (ac_Name c) (length (am_heap m)) (am_byName m),
       am_byToken := mput (ac_Token c) (length (am_heap m))
         (case mget (am_byName m) (ac_Name c) of
            None \<Rightarrow> am_byToken m
          | Some old \<Rightarrow> if at_Token (am_heap m ! old) \<noteq> []
                        then mdel (at_Token (am_heap m ! old)) (am_byToken m) else am_byToken m)\<rparr>"

lemma AddAccount_eq:
  "prepare_account sha salt tok c = Inr c' \<Longrightarrow>
   AddAccount sha salt tok w c m =
     (if am_persist m = None then (None, insert_account c' m)
      else (map_option PersistError (snd (SaveAccount w c' (am_persist m))),
            (insert_account c' m)\<lparr>am_persist := fst (SaveAccount w c' (am_persist m))\<rparr>))"
  by (simp add: AddAccount_def insert_account_def Let_def split: prod.split)

lemma insert_account_wf:
  assumes wf: "auth_wf m" and c: "ac_Role c \<noteq> []" "ac_Token c \<noteq> []"
  shows "auth_wf (insert_account c m)"
proof -
  let ?bt = "case mget (am_byName m) (ac_Name c) of None \<Rightarrow> am_byToken m
     | Some old \<Rightarrow> if at_Token (am_heap m ! old) \<noteq> [] then mdel (at_Token (am_heap m ! old)) (am_byToken m) else am_byToken m"
  have bt: "mwf ?bt" using auth_wf_maps [OF wf] by (auto intro: wf_intros split: option.split)
  have sub: "mget (am_byToken m) t = Some a \<and> at_Name (am_heap m ! a) \<noteq> at_Name (cfg_acct c)" if t: "mget ?bt t = Some a" for t a
  proof -
    have *: "mget (am_byToken m) t = Some a" using t by (auto split: option.splits if_splits)
    with auth_wf_token [OF wf this] t show ?thesis by (auto split: option.splits if_splits)
  qed
  have "at_Role (cfg_acct c) \<noteq> []" using c by simp
  from auth_wf_insert [OF wf this bt sub] c show ?thesis
    by (simp add: insert_account_def)
qed

lemma insert_account_view:
  "auth_wf m \<Longrightarrow> acct_view (insert_account c m) = (acct_view m)(ac_Name c \<mapsto> c)"
  using acct_view_insert [of m _ "cfg_acct c"] by (simp add: insert_account_def)

lemma AddAccount_wf:
  assumes "auth_wf m" "tok \<noteq> []"
  shows "auth_wf (snd (AddAccount sha salt tok w c m))"
proof (cases "prepare_account sha salt tok c")
  case (Inl e)
  then show ?thesis using assms by (simp add: AddAccount_def)
next
  case (Inr c')
  then show ?thesis
    using insert_account_wf [OF assms(1)] prepare_account_token [OF Inr assms(2)]
    by (simp add: AddAccount_eq [OF Inr])
qed

lemma AddAccount_synced:
  assumes wf: "auth_wf m" and s: "synced m"
  shows "synced (snd (AddAccount sha salt tok Written c m))"
proof (cases "prepare_account sha salt tok c")
  case (Inl e)
  then show ?thesis using s by (simp add: AddAccount_def)
next
  case (Inr c')
  obtain f where "am_persist m = Some f" using s by (auto simp: synced_def file_map_def)
  then show ?thesis
    using file_map_save [of "am_persist m" "acct_view m" c'] s
    by (simp add: AddAccount_eq [OF Inr] synced_def insert_account_view [OF wf])
qed

text \<open>\<^verbatim>\<open>UpdateAccount\<close>.\<close>

lemma update_fields_simps [simp]:
  "at_Name (update_fields sha salt c x) = at_Name x" "at_Token (update_fields sha salt c x) = at_Token x"
  "at_Enabled (update_fields sha salt c x) = ac_Enabled c"
  "at_Role (update_fields sha salt c x) = (if ac_Role c \<noteq> [] then ac_Role c else at_Role x)"
  "at_Groups (update_fields sha salt c x) = (if ac_Groups c \<noteq> None then ac_Groups c else at_Groups x)"
  "at_Password (update_fields sha salt c x) =
     (if ac_Password c = [] then at_Password x
      else if isHashed (ac_Password c) then ac_Password c else hashPassword sha salt (ac_Password c))"
  by (simp_all add: update_fields_def Let_def)

text \<open>The account after the assignments of an update that is not refused for its role.\<close>

definition updated_account :: "(string \<Rightarrow> string) \<Rightarrow> string \<Rightarrow> AccountCfg \<Rightarrow> Account \<Rightarrow> Account" where
  "updated_account sha salt c x =
     (let y = update_fields sha salt c x in if ac_Token c \<noteq> [] then y\<lparr>at_Token := ac_Token c\<rparr> else y)"

definition updated_manager :: "(string \<Rightarrow> string) \<Rightarrow> string \<Rightarrow> AccountCfg \<Rightarrow> nat \<Rightarrow> AuthManager \<Rightarrow> AuthManager" where
  "updated_manager sha salt c a m =
     update_token (ac_Token c) a (m\<lparr>am_heap := (am_heap m)[a := update_fields sha salt c (am_heap m ! a)]\<rparr>)"

lemma update_token_fields [simp]:
  "am_byName (update_token t a m) = am_byName m" "am_persist (update_token t a m) = am_persist m"
  "length (am_heap (update_token t a m)) = length (am_heap m)"
  by (simp_all add: update_token_def Let_def)

lemma updated_manager_fields [simp]:
  "am_byName (updated_manager sha salt c a m) = am_byName m" "am_persist (updated_manager sha salt c a m) = am_persist m"
  by (simp_all add: updated_manager_def)

lemma updated_manager:
  assumes wf: "auth_wf m" and a: "mget (am_byName m) n = Some a"
  shows "auth_wf (updated_manager sha salt c a m)"
    and "am_heap (updated_manager sha salt c a m) = (am_heap m)[a := updated_account sha salt c (am_heap m ! a)]"
    and "acct_view (updated_manager sha salt c a m) = (acct_view m)(n \<mapsto> acct_cfg (updated_account sha salt c (am_heap m ! a)))"
proof -
  note n = auth_wf_name [OF wf a]
  let ?m = "m\<lparr>am_heap := (am_heap m)[a := update_fields sha salt c (am_heap m ! a)]\<rparr>"
  have "auth_wf ?m" using n by (intro auth_wf_update [OF wf a]) auto
  then show "auth_wf (updated_manager sha salt c a m)"
    unfolding updated_manager_def using a by (intro update_token_wf [of _ n]) simp_all
  show heap: "am_heap (updated_manager sha salt c a m) = (am_heap m)[a := updated_account sha salt c (am_heap m ! a)]"
    using n by (simp add: updated_manager_def update_token_def updated_account_def Let_def)
  have "acct_view (updated_manager sha salt c a m) =
      acct_view (m\<lparr>am_heap := (am_heap m)[a := updated_account sha salt c (am_heap m ! a)]\<rparr>)"
    by (simp add: acct_view_def heap fun_eq_iff)
  then show "acct_view (updated_manager sha salt c a m) = (acct_view m)(n \<mapsto> acct_cfg (updated_account sha salt c (am_heap m ! a)))"
    by (simp add: acct_view_update [OF wf a])
qed

lemma rename_account_view:
  assumes wf: "auth_wf m" and a: "mget (am_byName m) n = Some a" and "n' \<noteq> n"
  shows "acct_view (rename_account n n' a m) = (acct_view m)(n := None, n' \<mapsto> acct_cfg ((am_heap m ! a)\<lparr>at_Name := n'\<rparr>))"
proof (rule ext)
  fix k
  show "acct_view (rename_account n n' a m) k = ((acct_view m)(n := None, n' \<mapsto> acct_cfg ((am_heap m ! a)\<lparr>at_Name := n'\<rparr>))) k"
    using auth_wf_name [OF wf a] auth_wf_name [OF wf, of k] assms(3)
    by (cases "mget (am_byName m) k") (auto simp: acct_view_def rename_account_def nth_list_update)
qed

definition renames :: "string \<Rightarrow> AccountCfg \<Rightarrow> bool" where
  "renames name c \<longleftrightarrow> trim_space (ac_Name c) \<noteq> [] \<and> trim_space (ac_Name c) \<noteq> name"

definition role_refused :: "AccountCfg \<Rightarrow> bool" where
  "role_refused c \<longleftrightarrow> ac_Role c \<noteq> [] \<and> ac_Role c \<noteq> ''admin'' \<and> ac_Role c \<noteq> ''user''"

lemma UpdateAccount_eq:
  assumes a: "mget (am_byName m) name = Some a" and r: "\<not> role_refused c"
    and m2: "m2 = updated_manager sha salt c a m"
    and m3: "m3 = (if renames name c then rename_account name (trim_space (ac_Name c)) a m2 else m2)"
  shows "UpdateAccount sha salt w1 w2 name c m =
    (if renames name c \<and> mget (am_byName m) (trim_space (ac_Name c)) \<noteq> None then (Some AccountNameExists, m2)
     else if am_persist m = None then (None, m3)
     else let (f, e) = SaveAccount w1 (acct_cfg (am_heap m3 ! a)) (am_persist m)
          in case e of Some e \<Rightarrow> (Some (PersistError e), m3\<lparr>am_persist := f\<rparr>)
             | None \<Rightarrow> if renames name c
                then let (f', e') = DeleteAccount w2 name f in (map_option PersistError e', m3\<lparr>am_persist := f'\<rparr>)
                else (None, m3\<lparr>am_persist := f\<rparr>))"
proof -
  have p: "am_persist m3 = am_persist m" unfolding m3 m2 by (simp add: rename_account_def)
  have b: "am_byName m2 = am_byName m" unfolding m2 by simp
  have u: "UpdateAccount sha salt w1 w2 name c m =
      (if role_refused c then (Some RoleInvalid, m)
       else if renames name c \<and> mget (am_byName m2) (trim_space (ac_Name c)) \<noteq> None then (Some AccountNameExists, m2)
       else if am_persist m3 \<noteq> None
       then let (f, e) = SaveAccount w1 (acct_cfg (am_heap m3 ! a)) (am_persist m3)
            in case e of Some e \<Rightarrow> (Some (PersistError e), m3\<lparr>am_persist := f\<rparr>)
               | None \<Rightarrow> if renames name c
                  then let (f', e') = DeleteAccount w2 name f in (map_option PersistError e', m3\<lparr>am_persist := f, am_persist := f'\<rparr>)
                  else (None, m3\<lparr>am_persist := f\<rparr>)
       else (None, m3))"
    unfolding UpdateAccount_def a option.case Let_def m3 m2 updated_manager_def renames_def role_refused_def
    by (rule refl)
  have fold2: "m3\<lparr>am_persist := f, am_persist := f'\<rparr> = m3\<lparr>am_persist := f'\<rparr>" for f f' by simp
  show ?thesis
    unfolding u p b fold2 using r
    by (cases "am_persist m"; cases "mget (am_byName m) (trim_space (ac_Name c))") simp_all
qed

lemma UpdateAccount_wf:
  assumes wf: "auth_wf m"
  shows "auth_wf (snd (UpdateAccount sha salt w1 w2 name c m))"
proof (cases "mget (am_byName m) name = None \<or> role_refused c")
  case True
  then show ?thesis using wf by (auto simp: UpdateAccount_def role_refused_def split: option.split)
next
  case False
  then obtain a where a: "mget (am_byName m) name = Some a" and r: "\<not> role_refused c" by auto
  define m2 where "m2 = updated_manager sha salt c a m"
  define m3 where "m3 = (if renames name c then rename_account name (trim_space (ac_Name c)) a m2 else m2)"
  have wf2: "auth_wf m2" unfolding m2_def by (rule updated_manager [OF wf a])
  have "auth_wf m3" if "\<not> (renames name c \<and> mget (am_byName m) (trim_space (ac_Name c)) \<noteq> None)"
    using that wf2 a rename_account_wf [OF wf2, of name a "trim_space (ac_Name c)"]
    by (cases "renames name c") (simp_all add: m3_def m2_def)
  then show ?thesis
    using wf2 unfolding UpdateAccount_eq [OF a r m2_def m3_def]
    by (auto split: prod.split option.split)
qed

lemma UpdateAccount_synced:
  assumes wf: "auth_wf m" and s: "synced m"
    and e: "fst (UpdateAccount sha salt Written Written name c m) \<noteq> Some AccountNameExists"
  shows "synced (snd (UpdateAccount sha salt Written Written name c m))"
proof (cases "mget (am_byName m) name = None \<or> role_refused c")
  case True
  then show ?thesis using s by (auto simp: UpdateAccount_def role_refused_def split: option.split)
next
  case False
  then obtain a where a: "mget (am_byName m) name = Some a" and r: "\<not> role_refused c" by auto
  define m2 where "m2 = updated_manager sha salt c a m"
  define n' where "n' = trim_space (ac_Name c)"
  define m3 where "m3 = (if renames name c then rename_account name n' a m2 else m2)"
  note eq = UpdateAccount_eq [OF a r m2_def m3_def [unfolded n'_def], folded n'_def]
  obtain f where f: "am_persist m = Some f" using s by (auto simp: synced_def file_map_def)
  have free: "\<not> (renames name c \<and> mget (am_byName m) n' \<noteq> None)" using e unfolding eq
    by (cases "mget (am_byName m) n'") (auto split: if_splits)
  have view2: "acct_view m2 = (acct_view m)(name \<mapsto> acct_cfg (updated_account sha salt c (am_heap m ! a)))"
    and heap2: "am_heap m2 ! a = updated_account sha salt c (am_heap m ! a)"
    using updated_manager [OF wf a, of sha salt c] auth_wf_name [OF wf a] by (simp_all add: m2_def)
  define x where "x = acct_cfg (am_heap m3 ! a)"
  note save = file_map_save [of "am_persist m" "acct_view m" x]
  show ?thesis
  proof (cases "renames name c")
    case True
    have "a < length (am_heap m2)" using auth_wf_name [OF wf a] by (simp add: m2_def updated_manager_def)
    then have x: "x = acct_cfg ((am_heap m2 ! a)\<lparr>at_Name := n'\<rparr>)" "ac_Name x = n'"
      using True by (simp_all add: x_def m3_def rename_account_def)
    have "acct_view m3 = (acct_view m2)(name := None, n' \<mapsto> x)"
      using True a updated_manager(1) [OF wf a] unfolding m3_def x m2_def
      by (simp add: rename_account_view renames_def n'_def)
    then have v: "acct_view m3 = ((acct_view m)(n' \<mapsto> x))(name := None)"
      using True view2 by (auto simp: fun_eq_iff renames_def n'_def)
    have "file_map (fst (SaveAccount Written x (am_persist m))) ((acct_view m)(n' \<mapsto> x))"
      using save s x by (simp add: synced_def)
    from file_map_delete [OF this, of name] save s True free f show ?thesis
      unfolding eq x_def [symmetric] by (auto simp: synced_def v split: prod.split)
  next
    case False
    then have "m3 = m2" by (simp add: m3_def)
    moreover have "ac_Name x = name"
      using auth_wf_name [OF updated_manager(1) [OF wf a, of sha salt c], of name a] a
      unfolding x_def \<open>m3 = m2\<close> m2_def by simp
    ultimately have "acct_view m3 = (acct_view m)(ac_Name x \<mapsto> x)" using view2 heap2 by (simp add: x_def)
    then show ?thesis
      using save s False free f unfolding eq x_def [symmetric] by (auto simp: synced_def split: prod.split)
  qed
qed

text \<open>\<^verbatim>\<open>RemoveAccount\<close>, \<^verbatim>\<open>Login\<close>, \<^verbatim>\<open>SyncAll\<close>.\<close>

definition drop_account :: "string \<Rightarrow> nat \<Rightarrow> AuthManager \<Rightarrow> AuthManager" where
  "drop_account name a m =
     m\<lparr>am_byToken := (if at_Token (am_heap m ! a) \<noteq> [] then mdel (at_Token (am_heap m ! a)) (am_byToken m) else am_byToken m),
       am_byName := mdel name (am_byName m)\<rparr>"

lemma RemoveAccount_eq:
  "mget (am_byName m) name = Some a \<Longrightarrow> RemoveAccount w name m =
     (if am_persist m = None then (None, drop_account name a m)
      else (map_option PersistError (snd (DeleteAccount w name (am_persist m))),
            (drop_account name a m)\<lparr>am_persist := fst (DeleteAccount w name (am_persist m))\<rparr>))"
  by (cases "am_persist m") (simp_all add: RemoveAccount_def drop_account_def Let_def split: prod.split)

lemma drop_account_wf:
  assumes wf: "auth_wf m" and a: "mget (am_byName m) name = Some a"
  shows "auth_wf (drop_account name a m)" (is "auth_wf ?m")
proof (rule auth_wfI)
  show "mwf (am_byName ?m)" "mwf (am_byToken ?m)"
    using auth_wf_maps [OF wf] by (auto simp: drop_account_def intro: wf_intros)
next
  fix n b assume "mget (am_byName ?m) n = Some b"
  then show "b < length (am_heap ?m) \<and> at_Name (am_heap ?m ! b) = n \<and> at_Role (am_heap ?m ! b) \<noteq> []"
    using auth_wf_name [OF wf, of n b] by (auto simp: drop_account_def split: if_splits)
next
  fix t b assume t: "mget (am_byToken ?m) t = Some b"
  then have "mget (am_byToken m) t = Some b" by (auto simp: drop_account_def split: if_splits)
  from auth_wf_token [OF wf this] t a
  show "t \<noteq> [] \<and> b < length (am_heap ?m) \<and> at_Token (am_heap ?m ! b) = t \<and>
      mget (am_byName ?m) (at_Name (am_heap ?m ! b)) = Some b"
    by (auto simp: drop_account_def split: if_splits)
qed

lemma drop_account_view: "acct_view (drop_account name a m) = (acct_view m)(name := None)"
  by (simp add: acct_view_def drop_account_def fun_eq_iff)

lemma RemoveAccount_wf:
  assumes "auth_wf m"
  shows "auth_wf (snd (RemoveAccount w name m))"
proof (cases "mget (am_byName m) name")
  case None
  then show ?thesis using assms by (simp add: RemoveAccount_def)
next
  case (Some a)
  then show ?thesis using drop_account_wf [OF assms Some] by (simp add: RemoveAccount_eq [OF Some])
qed

lemma RemoveAccount_synced:
  assumes "synced m"
  shows "synced (snd (RemoveAccount Written name m))"
proof (cases "mget (am_byName m) name")
  case None
  then show ?thesis using assms by (simp add: RemoveAccount_def)
next
  case (Some a)
  obtain f where "am_persist m = Some f" using assms by (auto simp: synced_def file_map_def)
  then show ?thesis
    using assms file_map_delete [of "am_persist m" "acct_view m" name]
    by (simp add: RemoveAccount_eq [OF Some] synced_def drop_account_view)
qed

end
