(* ===== verification/Auth_Props.thy ===== *)
theory Auth_Props
  imports Auth_Inv
begin

section \<open>Properties of the account manager\<close>

text \<open>
  Logins, tokens, revocation and the agreement of the manager with its file, over all sequences of
  operations. \<open>run_auth\<close> performs one operation; \<open>auth_reachable\<close> are the states a manager built from
  accounts of distinct names can get into, with any outcome of the file writes.
\<close>

subsection \<open>Logins, construction and synchronisation\<close>

lemma New_snoc: "New (cs @ [c]) = new_account c (New cs)"
  by (simp add: New_def)

lemma New_Nil [simp]: "New [] = \<lparr>am_heap = [], am_byName = [], am_byToken = [], am_persist = None\<rparr>"
  by (simp add: New_def)

text \<open>An account without a role is a user.\<close>

definition with_role :: "AccountCfg \<Rightarrow> AccountCfg" where
  "with_role c = (if ac_Role c = [] then c\<lparr>ac_Role := ''user''\<rparr> else c)"

lemma new_account_eq:
  "new_account c m = m\<lparr>am_heap := am_heap m @ [cfg_acct (with_role c)],
     am_byName := mput (ac_Name c) (length (am_heap m)) (am_byName m),
     am_byToken := (if ac_Token c \<noteq> [] then mput (ac_Token c) (length (am_heap m)) (am_byToken m) else am_byToken m)\<rparr>"
  by (simp add: new_account_def with_role_def cfg_acct_def Let_def)

lemma with_role_simps [simp]:
  "ac_Name (with_role c) = ac_Name c" "ac_Token (with_role c) = ac_Token c" "ac_Role (with_role c) \<noteq> []"
  "ac_Role c \<noteq> [] \<Longrightarrow> with_role c = c"
  by (simp_all add: with_role_def)

lemma New_wf_view:
  "distinct (map ac_Name cs) \<Longrightarrow>
   auth_wf (New cs) \<and> acct_view (New cs) = (\<lambda>n. map_option with_role (entry ac_Name cs n)) \<and> am_persist (New cs) = None"
proof (induction cs rule: rev_induct)
  case Nil
  then show ?case by (simp add: auth_wf_def acct_view_def)
next
  case (snoc c cs)
  let ?m = "New cs" and ?x = "cfg_acct (with_role c)"
  have IH: "auth_wf ?m" "acct_view ?m = (\<lambda>n. map_option with_role (entry ac_Name cs n))" "am_persist ?m = None"
    using snoc by auto
  have new: "entry ac_Name cs (ac_Name c) = None" using snoc.prems by (auto simp: entry_None)
  then have free: "mget (am_byName ?m) (ac_Name c) = None"
    using IH(2) by (metis acct_view_def option.map_disc_iff)
  have "auth_wf (new_account c ?m)"
    using auth_wf_insert [OF IH(1), of ?x "am_byToken ?m"] auth_wf_maps [OF IH(1)] auth_wf_token [OF IH(1)] free
    by (fastforce simp: new_account_eq)
  moreover have "acct_view (new_account c ?m) = (acct_view ?m)(ac_Name c \<mapsto> with_role c)"
    using acct_view_insert [OF IH(1), of _ ?x] by (simp add: new_account_eq)
  ultimately show ?case
    using new by (auto simp: New_snoc IH(2) fun_eq_iff entry_append new_account_eq IH(3) split: option.split)
qed

lemma Login_cases:
  assumes "Login sha salt w n pw m = (r, m')"
  obtains (refused) "r = None" "m' = m"
      "\<And>a. mget (am_byName m) n = Some a \<Longrightarrow> \<not> (at_Enabled (am_heap m ! a) \<and> verifyPassword sha (at_Password (am_heap m ! a)) pw)"
  | (hashed) a where "r = Some a" "mget (am_byName m) n = Some a" "at_Enabled (am_heap m ! a)"
      "verifyPassword sha (at_Password (am_heap m ! a)) pw" "isHashed (at_Password (am_heap m ! a))" "m' = m"
  | (migrated) a x where "r = Some a" "mget (am_byName m) n = Some a" "at_Enabled (am_heap m ! a)"
      "at_Password (am_heap m ! a) = pw" "pw \<noteq> []" "\<not> isHashed pw"
      "x = (am_heap m ! a)\<lparr>at_Password := hashPassword sha salt pw\<rparr>"
      "m' = m\<lparr>am_heap := (am_heap m)[a := x], am_persist :=
         (if am_persist m = None then None else fst (SaveAccount w (acct_cfg x) (am_persist m)))\<rparr>"
proof (cases "mget (am_byName m) n")
  case None
  then show thesis using assms refused by (simp add: Login_def)
next
  case (Some a)
  let ?y = "am_heap m ! a"
  consider "\<not> (at_Enabled ?y \<and> verifyPassword sha (at_Password ?y) pw)"
    | "at_Enabled ?y" "verifyPassword sha (at_Password ?y) pw" "isHashed (at_Password ?y)"
    | "at_Enabled ?y" "verifyPassword sha (at_Password ?y) pw" "\<not> isHashed (at_Password ?y)" by blast
  then show thesis
  proof cases
    case 1
    have "Login sha salt w n pw m = (None, m)" using 1 Some by (simp add: Login_def Let_def)
    then show thesis using assms refused [of] 1 Some by simp
  next
    case 2
    then have "Login sha salt w n pw m = (Some a, m)" using Some by (simp add: Login_def Let_def)
    then show thesis using assms hashed [OF _ Some] 2 by simp
  next
    case 3
    then have pw: "at_Password ?y = pw" "pw \<noteq> []" by (auto simp: verifyPassword_def split: if_splits)
    let ?x = "?y\<lparr>at_Password := hashPassword sha salt pw\<rparr>"
    have "Login sha salt w n pw m = (Some a, m\<lparr>am_heap := (am_heap m)[a := ?x], am_persist :=
         (if am_persist m = None then None else fst (SaveAccount w (acct_cfg ?x) (am_persist m)))\<rparr>)"
      using 3 Some pw by (cases "am_persist m") (simp_all add: Login_def Let_def)
    with assms have "r = Some a" "m' = m\<lparr>am_heap := (am_heap m)[a := ?x], am_persist :=
         (if am_persist m = None then None else fst (SaveAccount w (acct_cfg ?x) (am_persist m)))\<rparr>" by simp_all
    from migrated [OF this(1) Some 3(1) pw _ refl this(2)] 3(3) pw show thesis by simp
  qed
qed

lemma Login_wf: "auth_wf m \<Longrightarrow> auth_wf (snd (Login sha salt w n pw m))"
proof (cases "Login sha salt w n pw m")
  case (Pair r m')
  assume wf: "auth_wf m"
  from Pair show ?thesis
  proof (cases rule: Login_cases)
    case (migrated a x)
    have "auth_wf (m\<lparr>am_heap := (am_heap m)[a := x]\<rparr>)"
      using migrated auth_wf_name [OF wf migrated(2)] by (intro auth_wf_update [OF wf migrated(2)]) auto
    then show ?thesis using Pair migrated by (simp add: auth_wf_def)
  qed (use wf Pair in auto)
qed

lemma Login_synced:
  assumes wf: "auth_wf m" and s: "synced m"
  shows "synced (snd (Login sha salt Written n pw m))"
proof (cases "Login sha salt Written n pw m")
  case (Pair r m')
  from Pair show ?thesis
  proof (cases rule: Login_cases)
    case (migrated a x)
    obtain f where "am_persist m = Some f" using s by (auto simp: synced_def file_map_def)
    moreover have "acct_view m' = (acct_view m)(ac_Name (acct_cfg x) \<mapsto> acct_cfg x)"
      using acct_view_update [OF wf migrated(2), of x] auth_wf_name [OF wf migrated(2)] migrated
      by (simp add: acct_view_def fun_eq_iff)
    ultimately show ?thesis
      using Pair migrated(8) file_map_save [of "am_persist m" "acct_view m" "acct_cfg x"] s
      by (simp add: synced_def)
  qed (use s Pair in auto)
qed

lemma SyncAll_wf: "auth_wf m \<Longrightarrow> auth_wf (snd (SyncAll r w m))"
  by (simp add: SyncAll_def Let_def split: prod.split)

text \<open>The accounts written by \<^verbatim>\<open>SyncAll\<close>, in whatever order the map is ranged over, are the registered ones.\<close>

lemma range_accounts:
  assumes wf: "auth_wf m" and cs: "cs = map (\<lambda>(n, a). acct_cfg (am_heap m ! a)) (fst (range_order (am_byName m) r))"
  shows "distinct (map ac_Name cs) \<and> entry ac_Name cs = acct_view m"
proof -
  let ?es = "fst (range_order (am_byName m) r)"
  have perm: "mset ?es = mset (am_byName m)" by (rule range_order_perm)
  then have set_es: "set ?es = set (am_byName m)" by (metis set_mset_mset)
  have mw: "mwf (am_byName m)" using auth_wf_maps [OF wf] by simp
  have key: "at_Name (am_heap m ! a) = n" if "(n, a) \<in> set (am_byName m)" for n a
    using that auth_wf_name [OF wf, of n a] mwf_mget [OF mw] by blast
  have "map ac_Name cs = map fst ?es" unfolding cs using key set_es by (auto simp: case_prod_unfold)
  moreover have "mset (map fst ?es) = mset (map fst (am_byName m))" using perm by (metis mset_map)
  ultimately have d: "distinct (map ac_Name cs)"
    using mw by (metis mkeys_def mset_eq_imp_distinct_iff mwf_def)
  have "entry ac_Name cs n = Some c \<longleftrightarrow> acct_view m n = Some c" for n c
  proof -
    have "c \<in> set cs \<longleftrightarrow> (\<exists>k a. (k, a) \<in> set (am_byName m) \<and> acct_cfg (am_heap m ! a) = c)"
      unfolding cs set_map set_es by auto
    moreover have "ac_Name c = k" if "(k, a) \<in> set (am_byName m)" "acct_cfg (am_heap m ! a) = c" for k a
      using key [OF that(1)] that(2) by auto
    ultimately show ?thesis
      unfolding entry_distinct [OF d] acct_view_mem [OF wf] mwf_mget [OF mw] by blast
  qed
  then have "entry ac_Name cs n = acct_view m n" for n
    by (metis option.exhaust)
  with d show ?thesis by blast
qed

lemma SyncAll_synced:
  assumes "auth_wf m" "am_persist m \<noteq> None"
  shows "synced (snd (SyncAll r Written m))"
proof -
  let ?cs = "map (\<lambda>(n, a). acct_cfg (am_heap m ! a)) (fst (range_order (am_byName m) r))"
  note * = range_accounts [OF assms(1) refl, of r]
  show ?thesis
    using file_map_replace [OF assms(2), of ?cs] * assms(2)
    by (cases "am_persist m") (simp_all add: SyncAll_def Let_def synced_def case_prod_unfold)
qed

subsection \<open>Sequences of operations\<close>

datatype auth_op =
    DoLogin string string string
  | DoAdd string string AccountCfg
  | DoUpdate string string AccountCfg
  | DoRemove string
  | DoSync rng

fun run_auth :: "(string \<Rightarrow> string) \<Rightarrow> write_outcome \<Rightarrow> auth_op \<Rightarrow> AuthManager \<Rightarrow> auth_error option \<times> AuthManager" where
  "run_auth sha w (DoLogin salt n pw) m = (None, snd (Login sha salt w n pw m))"
| "run_auth sha w (DoAdd salt tok c) m = AddAccount sha salt tok w c m"
| "run_auth sha w (DoUpdate salt n c) m = UpdateAccount sha salt w w n c m"
| "run_auth sha w (DoRemove n) m = RemoveAccount w n m"
| "run_auth sha w (DoSync r) m = SyncAll r w m"

text \<open>\<^verbatim>\<open>rand.Read\<close> fills the sixteen bytes it is given.\<close>

fun auth_op_ok :: "auth_op \<Rightarrow> bool" where
  "auth_op_ok (DoAdd salt tok c) \<longleftrightarrow> length salt = 16 \<and> length tok = 16"
| "auth_op_ok (DoLogin salt n pw) \<longleftrightarrow> length salt = 16"
| "auth_op_ok (DoUpdate salt n c) \<longleftrightarrow> length salt = 16"
| "auth_op_ok _ \<longleftrightarrow> True"

inductive auth_reachable :: "(string \<Rightarrow> string) \<Rightarrow> AuthManager \<Rightarrow> bool" for sha where
  built: "distinct (map ac_Name cs) \<Longrightarrow> auth_reachable sha (AttachStore f (New cs))"
| step: "auth_reachable sha m \<Longrightarrow> auth_op_ok op \<Longrightarrow> auth_reachable sha (snd (run_auth sha w op m))"

lemma run_auth_wf: "auth_wf m \<Longrightarrow> auth_op_ok op \<Longrightarrow> auth_wf (snd (run_auth sha w op m))"
  by (cases op) (auto intro: Login_wf AddAccount_wf UpdateAccount_wf RemoveAccount_wf SyncAll_wf)

lemma auth_reachable_wf: "auth_reachable sha m \<Longrightarrow> auth_wf m"
  by (induction rule: auth_reachable.induct) (auto simp: AttachStore_def New_wf_view intro: run_auth_wf)

lemma run_auth_synced:
  assumes "auth_wf m" "synced m" "fst (run_auth sha Written op m) \<noteq> Some AccountNameExists"
  shows "synced (snd (run_auth sha Written op m))"
proof -
  have "am_persist m \<noteq> None" using assms(2) by (simp add: synced_def file_map_def)
  then show ?thesis
    using assms
    by (cases op) (auto intro: Login_synced AddAccount_synced UpdateAccount_synced RemoveAccount_synced SyncAll_synced)
qed

subsection \<open>The properties\<close>

definition demo_cfg :: AccountCfg where
  "demo_cfg = \<lparr>ac_Name = ''ann'', ac_Password = ''pw'', ac_Token = ''t1'', ac_Role = ''admin'', ac_Enabled = True, ac_Groups = None\<rparr>"

definition demo_auth :: AuthManager where
  "demo_auth = New [demo_cfg]"

lemma demo_auth_eq:
  "demo_auth = \<lparr>am_heap = [cfg_acct demo_cfg], am_byName = [(''ann'', 0)], am_byToken = [(''t1'', 0)], am_persist = None\<rparr>"
  by (simp add: demo_auth_def New_def new_account_eq demo_cfg_def mput_def)

lemma demo_auth_wf: "auth_wf demo_auth"
  unfolding demo_auth_def using New_wf_view [of "[demo_cfg]"] by simp

text \<open>
  A hashed password verifies: the stored form is recognised as hashed, the password it was made
  from is accepted, and another one only if its digest under the same salt is the same.
\<close>

theorem password_roundtrip:
  assumes "salt \<noteq> []"
  shows "isHashed (hashPassword sha salt pw) \<and> verifyPassword sha (hashPassword sha salt pw) pw \<and>
    (verifyPassword sha (hashPassword sha salt pw) pw' \<longleftrightarrow> sha (salt @ pw') = sha (salt @ pw))"
  using assms by (simp add: isHashed_hashPassword verify_hashPassword)

theorem password_roundtrip_witness:
  "verifyPassword rev (hashPassword rev ''s'' ''pw'') ''pw'' \<and> \<not> verifyPassword rev (hashPassword rev ''s'' ''pw'') ''px''"
  using password_roundtrip [of "''s''" rev "''pw''" "''px''"] by simp

text \<open>
  C21. Tokens never outlive their account: in every reachable state, a token that authenticates resolves
  to an enabled account that is registered under its own name and whose current token it is.
\<close>

theorem auth_tokens_current:
  assumes "auth_reachable sha m" "ByToken t m = Some a"
  shows "a < length (am_heap m) \<and> at_Enabled (am_heap m ! a) \<and> at_Token (am_heap m ! a) = t \<and> t \<noteq> [] \<and>
    mget (am_byName m) (at_Name (am_heap m ! a)) = Some a"
  using auth_wf_token [OF auth_reachable_wf [OF assms(1)], of t a] assms(2)
  by (auto simp: ByToken_def split: option.splits if_splits)

theorem auth_tokens_current_witness:
  "at_Token (am_heap demo_auth ! 0) = ''t1'' \<and> mget (am_byName demo_auth) ''ann'' = Some 0"
proof -
  have "auth_reachable rev (AttachStore None (New [demo_cfg]))" by (rule auth_reachable.built) simp
  then have "auth_reachable rev demo_auth" by (simp add: demo_auth_eq AttachStore_def New_def new_account_eq demo_cfg_def mput_def)
  moreover have "ByToken ''t1'' demo_auth = Some 0" by (simp add: demo_auth_eq ByToken_def demo_cfg_def)
  ultimately show ?thesis
    using auth_tokens_current [of rev demo_auth "''t1''" 0] by (simp add: demo_auth_eq demo_cfg_def)
qed

text \<open>
  C23. Logins. A login succeeds exactly for an enabled account registered under the name whose stored
  password verifies; it then leaves a hashed password that still accepts the same password, and the
  rest of the account and every other account as they were. A refused login changes nothing.
\<close>

theorem login_exact:
  assumes wf: "auth_wf m" and salt: "salt \<noteq> []" and L: "Login sha salt w n pw m = (r, m')"
  shows "(\<forall>a. r = Some a \<longleftrightarrow> mget (am_byName m) n = Some a \<and> at_Enabled (am_heap m ! a) \<and>
        verifyPassword sha (at_Password (am_heap m ! a)) pw) \<and>
    (r = None \<longrightarrow> m' = m) \<and> am_byName m' = am_byName m \<and> am_byToken m' = am_byToken m \<and>
    (\<forall>a. r = Some a \<longrightarrow> isHashed (at_Password (am_heap m' ! a)) \<and>
       verifyPassword sha (at_Password (am_heap m' ! a)) pw \<and>
       am_heap m' = (am_heap m)[a := (am_heap m ! a)\<lparr>at_Password := at_Password (am_heap m' ! a)\<rparr>])"
  using L
proof (cases rule: Login_cases)
  case refused
  then show ?thesis by auto
next
  case (hashed a)
  then show ?thesis by auto
next
  case (migrated a x)
  have "a < length (am_heap m)" using auth_wf_name [OF wf migrated(2)] by simp
  moreover have "verifyPassword sha pw pw" using migrated(5,6) by (simp add: verifyPassword_def)
  ultimately show ?thesis
    using migrated salt by (auto simp: isHashed_hashPassword verify_hashPassword)
qed

theorem login_exact_witness:
  "fst (Login rev ''s'' Written ''ann'' ''pw'' demo_auth) = Some 0 \<and> fst (Login rev ''s'' Written ''ann'' ''no'' demo_auth) = None"
proof -
  have g: "mget (am_byName demo_auth) ''ann'' = Some 0" "am_heap demo_auth ! 0 = cfg_acct demo_cfg"
    by (simp_all add: demo_auth_eq)
  have v: "verifyPassword rev (ac_Password demo_cfg) pw \<longleftrightarrow> pw = ''pw''" for pw
    by (auto simp: verifyPassword_def isHashed_def demo_cfg_def)
  have s: "''s'' \<noteq> []" by simp
  have *: "fst (Login rev ''s'' Written ''ann'' pw demo_auth) = Some a \<longleftrightarrow> a = 0 \<and> pw = ''pw''" for a pw
  proof -
    have "Login rev ''s'' Written ''ann'' pw demo_auth =
        (fst (Login rev ''s'' Written ''ann'' pw demo_auth), snd (Login rev ''s'' Written ''ann'' pw demo_auth))"
      by (rule prod.collapse [symmetric])
    from login_exact [OF demo_auth_wf s this] have "fst (Login rev ''s'' Written ''ann'' pw demo_auth) = Some a \<longleftrightarrow>
        mget (am_byName demo_auth) ''ann'' = Some a \<and> at_Enabled (am_heap demo_auth ! a) \<and>
        verifyPassword rev (at_Password (am_heap demo_auth ! a)) pw" by (rule conjunct1 [THEN spec])
    then show ?thesis unfolding g using v [of pw] by (cases "a = 0") (auto simp: g demo_cfg_def)
  qed
  show ?thesis
    using * [of "''pw''" 0] * [of "''no''"] by (cases "fst (Login rev ''s'' Written ''ann'' ''no'' demo_auth)") auto
qed

text \<open>
  Adding an account. A request without a name or with another role than admin and user is refused
  and changes nothing. Otherwise the account is registered under its name with the given flags, the
  default role and a token, whatever was registered there before is replaced, its token resolves to
  it, its password logs in, another password only on a digest collision, and no other name changes.
\<close>

theorem add_account:
  assumes wf: "auth_wf m" and rnd: "salt \<noteq> []" "tok \<noteq> []"
    and A: "AddAccount sha salt tok w c m = (e, m')"
  shows "(trim_space (ac_Name c) = [] \<longrightarrow> e = Some NameRequired \<and> m' = m) \<and>
    (trim_space (ac_Name c) \<noteq> [] \<and> role_refused c \<longrightarrow> e = Some RoleInvalid \<and> m' = m) \<and>
    (trim_space (ac_Name c) \<noteq> [] \<and> \<not> role_refused c \<longrightarrow>
      (\<exists>a x. mget (am_byName m') (ac_Name c) = Some a \<and> am_heap m' ! a = x \<and>
         at_Enabled x = ac_Enabled c \<and> at_Groups x = ac_Groups c \<and> at_Token x \<noteq> [] \<and>
         at_Role x = (if ac_Role c = [] then ''user'' else ac_Role c) \<and>
         (trim_space (ac_Token c) \<noteq> [] \<longrightarrow> at_Token x = ac_Token c) \<and>
         ByToken (at_Token x) m' = (if ac_Enabled c then Some a else None) \<and>
         (ac_Password c \<noteq> [] \<and> \<not> isHashed (ac_Password c) \<longrightarrow>
            (\<forall>pw. verifyPassword sha (at_Password x) pw \<longleftrightarrow> sha (salt @ pw) = sha (salt @ ac_Password c)))) \<and>
      (\<forall>n. n \<noteq> ac_Name c \<longrightarrow> acct_view m' n = acct_view m n))"
proof (cases "prepare_account sha salt tok c")
  case (Inl err)
  then have "e = Some err" "m' = m" using A by (simp_all add: AddAccount_def)
  moreover have "(if trim_space (ac_Name c) = [] then err = NameRequired else err = RoleInvalid \<and> role_refused c)"
    using Inl by (auto simp: prepare_account_def role_refused_def Let_def split: if_splits)
  ultimately show ?thesis by (auto split: if_splits)
next
  case (Inr c')
  from Inr have ok: "trim_space (ac_Name c) \<noteq> []" "\<not> role_refused c"
    by (auto simp: prepare_account_def role_refused_def Let_def split: if_splits)
  from Inr have c': "ac_Name c' = ac_Name c" "ac_Enabled c' = ac_Enabled c" "ac_Groups c' = ac_Groups c"
    "ac_Role c' = (if ac_Role c = [] then ''user'' else ac_Role c)"
    "trim_space (ac_Token c) \<noteq> [] \<longrightarrow> ac_Token c' = ac_Token c"
    "ac_Password c \<noteq> [] \<and> \<not> isHashed (ac_Password c) \<longrightarrow> ac_Password c' = hashPassword sha salt (ac_Password c)"
    by (auto elim!: prepare_accountE)
  have t: "ac_Token c' \<noteq> []" using prepare_account_token [OF Inr rnd(2)] by simp
  have m': "am_byName m' = am_byName (insert_account c' m)" "am_byToken m' = am_byToken (insert_account c' m)"
    "am_heap m' = am_heap (insert_account c' m)"
    using A unfolding AddAccount_eq [OF Inr] by (auto split: if_splits)
  then have "acct_view m' = (acct_view m)(ac_Name c' \<mapsto> c')"
    using insert_account_view [OF wf, of c'] by (simp add: acct_view_def fun_eq_iff)
  moreover have "mget (am_byName m') (ac_Name c) = Some (length (am_heap m))"
      "am_heap m' ! length (am_heap m) = cfg_acct c'"
      "ByToken (ac_Token c') m' = (if ac_Enabled c then Some (length (am_heap m)) else None)"
    using c' by (simp_all add: m' insert_account_def ByToken_def)
  ultimately show ?thesis
    using ok t c' rnd(1) by (simp add: verify_hashPassword)
qed

theorem add_account_witness:
  "\<exists>a. ByToken ''t2'' (snd (AddAccount rev ''s'' ''r'' Written (demo_cfg\<lparr>ac_Name := ''bob'', ac_Token := ''t2''\<rparr>) demo_auth)) = Some a"
proof -
  let ?c = "demo_cfg\<lparr>ac_Name := ''bob'', ac_Token := ''t2''\<rparr>"
  have s: "''s'' \<noteq> []" "''r'' \<noteq> []" by simp_all
  have t: "trim_space ''bob'' \<noteq> []" "trim_space ''t2'' \<noteq> []" "\<not> role_refused ?c"
    by (simp_all add: trim_space_def is_space_def role_refused_def demo_cfg_def)
  have "AddAccount rev ''s'' ''r'' Written ?c demo_auth =
      (fst (AddAccount rev ''s'' ''r'' Written ?c demo_auth), snd (AddAccount rev ''s'' ''r'' Written ?c demo_auth))"
    by (rule prod.collapse [symmetric])
  from add_account [OF demo_auth_wf s this] t show ?thesis
    by (auto simp: demo_cfg_def)
qed

text \<open>
  Revocation. Removing an account takes its name out of the registry, so it cannot log in, and no
  token resolves any more to an account of that name; every other account stays registered as it was,
  and its token too unless it was the removed one's. An unknown name is an error that changes nothing.
\<close>

theorem remove_account:
  assumes wf: "auth_wf m" and R: "RemoveAccount w n m = (e, m')"
  shows "if mget (am_byName m) n = None then e = Some AccountNotFound \<and> m' = m
    else acct_view m' = (acct_view m)(n := None) \<and> auth_wf m' \<and>
      fst (Login sha salt w' n pw m') = None \<and>
      (\<forall>t a. mget (am_byToken m') t = Some a \<longrightarrow> at_Name (am_heap m' ! a) \<noteq> n) \<and>
      (\<forall>t. t \<noteq> at_Token (am_heap m ! the (mget (am_byName m) n)) \<longrightarrow> ByToken t m' = ByToken t m)"
proof (cases "mget (am_byName m) n")
  case None
  then show ?thesis using R by (simp add: RemoveAccount_def)
next
  case (Some a)
  let ?d = "drop_account n a m"
  have m': "am_byName m' = am_byName ?d" "am_byToken m' = am_byToken ?d" "am_heap m' = am_heap ?d"
    using R unfolding RemoveAccount_eq [OF Some] by (auto split: if_splits)
  have v: "acct_view m' = (acct_view m)(n := None)"
    using drop_account_view [of n a m] m' by (simp add: acct_view_def fun_eq_iff)
  have wf': "auth_wf m'" using RemoveAccount_wf [OF wf, of w n] R by simp
  have gone: "mget (am_byName m') n = None" by (simp add: m' drop_account_def)
  then have "fst (Login sha salt w' n pw m') = None" by (simp add: Login_def)
  moreover have "at_Name (am_heap m' ! b) \<noteq> n" if "mget (am_byToken m') t = Some b" for t b
    using auth_wf_token [OF wf' that] gone by auto
  moreover have "ByToken t m' = ByToken t m" if "t \<noteq> at_Token (am_heap m ! a)" for t
    using that by (simp add: ByToken_def m' drop_account_def cong: option.case_cong)
  ultimately show ?thesis using v wf' Some by auto
qed

theorem remove_account_witness:
  "acct_view (snd (RemoveAccount Written ''ann'' demo_auth)) ''ann'' = None \<and>
   fst (Login rev ''s'' Written ''ann'' ''pw'' (snd (RemoveAccount Written ''ann'' demo_auth))) = None"
proof -
  have "mget (am_byName demo_auth) ''ann'' \<noteq> None" by (simp add: demo_auth_eq)
  moreover have "RemoveAccount Written ''ann'' demo_auth =
      (fst (RemoveAccount Written ''ann'' demo_auth), snd (RemoveAccount Written ''ann'' demo_auth))"
    by (rule prod.collapse [symmetric])
  note remove_account [OF demo_auth_wf this, of rev "''s''" Written "''pw''"]
  ultimately show ?thesis by simp
qed

text \<open>
  C22. Accounts survive a restart. While the manager is in step with its file and writes succeed, every
  operation that is not a rename onto a taken name leaves it in step, and a manager built from the
  file then has the same accounts, with the same credentials, as the one that wrote it.
\<close>

theorem accounts_survive_restart:
  assumes "auth_wf m" "synced m" "auth_op_ok op" "run_auth sha Written op m = (e, m')" "e \<noteq> Some AccountNameExists"
  shows "synced m' \<and> (\<exists>cs. LoadAccounts (am_persist m') = Inr cs \<and> auth_wf (New cs) \<and> acct_view (New cs) = acct_view m')"
proof -
  have s: "synced m'" using run_auth_synced [OF assms(1,2), of sha op] assms(4,5) by simp
  have wf': "auth_wf m'" using run_auth_wf [OF assms(1,3), of sha Written] assms(4) by simp
  obtain cs where cs: "LoadAccounts (am_persist m') = Inr cs" "distinct (map ac_Name cs)" "entry ac_Name cs = acct_view m'"
    using s by (auto simp: synced_def file_map_def)
  have "map_option with_role (acct_view m' n) = acct_view m' n" for n
    using auth_wf_name [OF wf', of n] by (cases "mget (am_byName m') n") (auto simp: acct_view_def)
  then show ?thesis using New_wf_view [OF cs(2)] cs s by simp
qed

text \<open>A manager in step with its file: one account, stored in a data directory.\<close>

definition demo_file :: File where
  "demo_file = \<lparr>fl_dir = ''data'', fl_accounts = Doc [demo_cfg], fl_providers = Missing, fl_groups = Missing\<rparr>"

theorem accounts_survive_restart_witness:
  "synced (snd (run_auth rev Written (DoRemove ''ann'') (AttachStore (Some demo_file) demo_auth)))"
proof -
  let ?m = "AttachStore (Some demo_file) demo_auth"
  have wf: "auth_wf ?m" using demo_auth_wf by (simp add: AttachStore_def)
  have "acct_view ?m = entry ac_Name [demo_cfg]"
    by (rule ext) (simp add: acct_view_def AttachStore_def demo_auth_eq demo_cfg_def)
  then have s: "synced ?m"
    by (simp add: synced_def file_map_def AttachStore_def LoadAccounts_def loadAccountsLocked_def demo_file_def)
  have "fst (RemoveAccount Written ''ann'' ?m) \<noteq> Some AccountNameExists"
    by (simp add: RemoveAccount_def AttachStore_def demo_auth_eq demo_file_def Let_def
        DeleteAccount_def loadAccountsLocked_def write_accounts_def)
  with accounts_survive_restart [OF wf s, of "DoRemove ''ann''" rev] show ?thesis
    by (metis auth_op_ok.simps(4) prod.collapse run_auth.simps(4))
qed

subsection \<open>Where the code departs from its comments\<close>

text \<open>
  A rename onto a taken name is refused, but role, password, token and the enabled flag of the account
  have been changed by then, in memory only: the manager and its file have parted.
\<close>

theorem rename_conflict_changes_account:
  "\<exists>m c. auth_wf m \<and>
     (let (e, m') = UpdateAccount rev ''s'' Written Written ''ann'' c m
      in e = Some AccountNameExists \<and> map_option ac_Role (acct_view m ''ann'') = Some ''admin'' \<and>
         map_option ac_Role (acct_view m' ''ann'') = Some ''user'')"
proof -
  let ?m = "New [demo_cfg, demo_cfg\<lparr>ac_Name := ''bob'', ac_Token := ''t2''\<rparr>]"
  let ?c = "demo_cfg\<lparr>ac_Name := ''bob'', ac_Password := [], ac_Role := ''user'', ac_Token := []\<rparr>"
  have "auth_wf ?m" using New_wf_view [of "[demo_cfg, demo_cfg\<lparr>ac_Name := ''bob'', ac_Token := ''t2''\<rparr>]"]
    by (simp add: demo_cfg_def)
  moreover have "let (e, m') = UpdateAccount rev ''s'' Written Written ''ann'' ?c ?m
      in e = Some AccountNameExists \<and> map_option ac_Role (acct_view ?m ''ann'') = Some ''admin'' \<and>
         map_option ac_Role (acct_view m' ''ann'') = Some ''user''"
    by (simp add: New_def new_account_eq demo_cfg_def mput_def UpdateAccount_def Let_def update_token_def
        trim_space_def is_space_def acct_view_def update_fields_def acct_cfg_def cfg_acct_def)
  ultimately show ?thesis by blast
qed

text \<open>
  Nothing stops two accounts from having the same token: the newcomer takes over the token, and
  removing the older account revokes it for the newcomer.
\<close>

theorem token_collision:
  "\<exists>m c. auth_wf m \<and>
     (let m1 = snd (AddAccount rev ''s'' ''r'' Written c m); m2 = snd (RemoveAccount Written ''ann'' m1)
      in ByToken ''t1'' m = mget (am_byName m) ''ann'' \<and> ByToken ''t1'' m1 = mget (am_byName m1) ''bob'' \<and>
         mget (am_byName m2) ''bob'' \<noteq> None \<and> ByToken ''t1'' m2 = None)"
proof -
  have "let m1 = snd (AddAccount rev ''s'' ''r'' Written (demo_cfg\<lparr>ac_Name := ''bob'', ac_Password := []\<rparr>) demo_auth);
           m2 = snd (RemoveAccount Written ''ann'' m1)
      in ByToken ''t1'' demo_auth = mget (am_byName demo_auth) ''ann'' \<and> ByToken ''t1'' m1 = mget (am_byName m1) ''bob'' \<and>
         mget (am_byName m2) ''bob'' \<noteq> None \<and> ByToken ''t1'' m2 = None"
    by (simp add: demo_auth_eq demo_cfg_def mput_def mdel_def AddAccount_def prepare_account_def RemoveAccount_def
        Let_def trim_space_def is_space_def ByToken_def cfg_acct_def)
  with demo_auth_wf show ?thesis by blast
qed

text \<open>
  A password with a dollar sign after its first byte counts as already hashed: it is stored verbatim,
  and does not log in, since what precedes the sign is no hexadecimal text.
\<close>

theorem dollar_password_locked_out:
  "\<exists>c. ac_Password c = ''pa$$word'' \<and>
     fst (Login sha salt w ''bob'' ''pa$$word'' (snd (AddAccount sha salt ''r'' w c demo_auth))) = None"
proof -
  have "fst (Login sha salt w ''bob'' ''pa$$word'' (snd (AddAccount sha salt ''r'' w
      (demo_cfg\<lparr>ac_Name := ''bob'', ac_Password := ''pa$$word''\<rparr>) demo_auth))) = None"
    by (simp add: demo_auth_eq demo_cfg_def mput_def AddAccount_def prepare_account_def isHashed_def hex_value_def
        Let_def trim_space_def is_space_def Login_def cfg_acct_def verifyPassword_def numeral_eq_Suc)
  then show ?thesis by (intro exI [of _ "demo_cfg\<lparr>ac_Name := ''bob'', ac_Password := ''pa$$word''\<rparr>"]) simp
qed

end
