(* ===== verification/Proxy_Model.thy ===== *)
theory Proxy_Model
  imports Go_Strings Go_Float
begin

section \<open>The proxy record (internal/model)\<close>

text \<open>
  The data model of \<^verbatim>\<open>internal/model/proxy.go\<close>: the kind of a proxy (a \<^verbatim>\<open>uint8\<close> with three named
  values), the proxy with its static configuration and its runtime counters, its address string
  and its copy. The atomic counters are plain fields; every operation that touches them is
  modelled as a state transformer of its own.
\<close>

type_synonym Kind = "8 word"

definition KindTunnel :: Kind where "KindTunnel = 1"
definition KindIPPool :: Kind where "KindIPPool = 2"
definition KindSticky :: Kind where "KindSticky = 3"

definition Kind_String :: "Kind \<Rightarrow> string" where
  "Kind_String k =
     (if k = KindTunnel then ''tunnel''
      else if k = KindIPPool then ''ip_pool''
      else if k = KindSticky then ''sticky''
      else ''unknown'')"

record Proxy =
  px_ID :: string
  px_Provider :: string
  px_Kind :: Kind
  px_Scheme :: string
  px_Host :: string
  px_Port :: int
  px_Username :: string
  px_Password :: string
  px_Weight :: int
  px_CheckURL :: string
  px_CheckURLs :: "string list"
  px_ExpireAt :: int
  px_CheckIntervalMS :: int
  px_Priority :: int
  px_MinAliveRatio :: float64
  px_StickySeconds :: int
  px_Free :: bool
  px_DeleteLatencyMS :: int
  px_Country :: string
  px_Alive :: bool
  px_Fails :: int
  px_LatencyMS :: int
  px_LastUsed :: int

text \<open>The zero value \<^verbatim>\<open>model.Proxy{}\<close>.\<close>

definition zero_proxy :: Proxy where
  "zero_proxy =
     \<lparr>px_ID = [], px_Provider = [], px_Kind = 0, px_Scheme = [], px_Host = [], px_Port = 0,
      px_Username = [], px_Password = [], px_Weight = 0, px_CheckURL = [], px_CheckURLs = [],
      px_ExpireAt = 0, px_CheckIntervalMS = 0, px_Priority = 0, px_MinAliveRatio = 0,
      px_StickySeconds = 0, px_Free = False, px_DeleteLatencyMS = 0, px_Country = [],
      px_Alive = False, px_Fails = 0, px_LatencyMS = 0, px_LastUsed = 0\<rparr>"

definition Proxy_Addr :: "Proxy \<Rightarrow> string" where
  "Proxy_Addr p = px_Host p @ '':'' @ itoa (px_Port p)"

text \<open>\<^verbatim>\<open>Clone\<close> builds a new object field by field, then copies the counters.\<close>

definition Proxy_Clone :: "Proxy \<Rightarrow> Proxy" where
  "Proxy_Clone p =
     (let c = zero_proxy
        \<lparr>px_ID := px_ID p, px_Provider := px_Provider p, px_Kind := px_Kind p,
         px_Scheme := px_Scheme p, px_Host := px_Host p, px_Port := px_Port p,
         px_Username := px_Username p, px_Password := px_Password p, px_Weight := px_Weight p,
         px_CheckURL := px_CheckURL p, px_CheckURLs := [] @ px_CheckURLs p,
         px_ExpireAt := px_ExpireAt p, px_CheckIntervalMS := px_CheckIntervalMS p,
         px_Priority := px_Priority p, px_MinAliveRatio := px_MinAliveRatio p,
         px_StickySeconds := px_StickySeconds p, px_Free := px_Free p,
         px_DeleteLatencyMS := px_DeleteLatencyMS p, px_Country := px_Country p\<rparr>
      in c\<lparr>px_Alive := px_Alive p, px_Fails := px_Fails p, px_LatencyMS := px_LatencyMS p,
          px_LastUsed := px_LastUsed p\<rparr>)"

lemma Kind_distinct [simp]:
  "KindTunnel \<noteq> KindIPPool" "KindTunnel \<noteq> KindSticky" "KindIPPool \<noteq> KindSticky"
  "KindIPPool \<noteq> KindTunnel" "KindSticky \<noteq> KindTunnel" "KindSticky \<noteq> KindIPPool"
  by (simp_all add: KindTunnel_def KindIPPool_def KindSticky_def)

lemma Kind_String_inj:
  "k \<in> {KindTunnel, KindIPPool, KindSticky} \<Longrightarrow> Kind_String k = Kind_String k' \<Longrightarrow> k' = k"
  by (auto simp: Kind_String_def split: if_splits)

lemma Proxy_Clone_eq: "Proxy_Clone p = p"
  by (cases p) (simp add: Proxy_Clone_def zero_proxy_def)

text \<open>The address determines host and port, since a printed port contains no colon.\<close>

lemma colon_not_digit: "CHR '':'' \<notin> set (nat_digits n)"
  using digit_chars [of "CHR '':''" n] by auto

lemma Proxy_Addr_inj:
  assumes "0 \<le> px_Port p" "0 \<le> px_Port q" and eq: "Proxy_Addr p = Proxy_Addr q"
  shows "px_Host p = px_Host q \<and> px_Port p = px_Port q"
proof -
  let ?d = "\<lambda>p. nat_digits (nat (px_Port p))"
  have "cut_char (CHR '':'') (rev (Proxy_Addr r)) = Some (rev (?d r), rev (px_Host r))"
    if "0 \<le> px_Port r" for r
    using that cut_char_append [of "CHR '':''" "rev (?d r)" "rev (px_Host r)"]
    by (simp add: Proxy_Addr_def itoa_def colon_not_digit)
  from this [OF assms(1)] this [OF assms(2)] eq
  have "?d p = ?d q" "px_Host p = px_Host q" by auto
  then show ?thesis using assms(1,2) by (simp add: nat_digits_inj eq_nat_nat_iff)
qed

end
