(* ===== verification/Provider_Sources.thy ===== *)
theory Provider_Sources
  imports Config_Validate Proxy_Model Go_Encoding
begin

section \<open>Proxy providers (internal/provider)\<close>

text \<open>
  The four kinds of provider of \<^verbatim>\<open>internal/provider\<close>: a single tunnel gateway, a list of pasted URLs,
  an extraction API that returns addresses as text or JSON, and a public feed of free proxies. What the
  network delivers is an argument (\<open>fetch\<close>), as are the JSON decoder and the clock: the functions here
  are everything the providers do with an answer, from the request's outcome to the list of proxies.
  A nil configuration pointer is a panic, as in the code, and a nil slice of proxies (\<open>None\<close>) is kept
  apart from an empty one, since a refresh that yields nil is ignored.

  The lemmas say which proxies a provider builds: their identifiers, ports, flags and number.
\<close>

datatype Provider = StaticURLs ProviderCfg | Tunnel ProviderCfg | IPPool ProviderCfg | FreePool ProviderCfg

datatype prov_error = UnsupportedType string | RequestFailed | BadStatus int string | ReadFailed

text \<open>What a request to a provider's URL yields: no request or response, a response, or a body that
  breaks off.\<close>

datatype fetch = FetchFails | Response int string | BodyFails int

record JsonAddr =
  ja_IP :: string
  ja_Port :: int
  ja_Addr :: string

record JsonPool =
  jp_Data :: "JsonAddr list"
  jp_DataArr :: "string list"
  jp_List :: "string list"
  jp_IPs :: "string list"

record freeProxyEntry =
  fe_IP :: string
  fe_Port :: int
  fe_Protocol :: string
  fe_Country :: string
  fe_Anonymity :: string
  fe_Speed :: int

record env =
  ev_now :: int
  ev_fetch :: fetch
  ev_pool_json :: "string \<Rightarrow> JsonPool option"
  ev_feed_json :: "string \<Rightarrow> freeProxyEntry list option"

definition New_provider :: "ProviderCfg \<Rightarrow> prov_error + Provider" where
  "New_provider cfg =
     (if length (pc_URLs cfg) > 0 \<and> (pc_Type cfg = ''tunnel'' \<or> pc_Type cfg = ''sticky'') then Inr (StaticURLs cfg)
      else if pc_Type cfg = ''tunnel'' then Inr (Tunnel cfg)
      else if pc_Type cfg = ''ip_pool'' \<or> pc_Type cfg = ''sticky'' then Inr (IPPool cfg)
      else if pc_Type cfg = ''free'' then Inr (FreePool cfg)
      else Inl (UnsupportedType (pc_Type cfg)))"

fun prov_cfg :: "Provider \<Rightarrow> ProviderCfg" where
  "prov_cfg (StaticURLs c) = c"
| "prov_cfg (Tunnel c) = c"
| "prov_cfg (IPPool c) = c"
| "prov_cfg (FreePool c) = c"

definition Provider_Name :: "Provider \<Rightarrow> string" where
  "Provider_Name p = pc_Name (prov_cfg p)"

fun Provider_Kind :: "Provider \<Rightarrow> Kind" where
  "Provider_Kind (StaticURLs c) = (if pc_Type c = ''sticky'' then KindSticky else KindTunnel)"
| "Provider_Kind (Tunnel c) = KindTunnel"
| "Provider_Kind (IPPool c) = (if pc_Type c = ''sticky'' then KindSticky else KindIPPool)"
| "Provider_Kind (FreePool c) = KindIPPool"

definition Provider_Weight :: "Provider \<Rightarrow> int" where
  "Provider_Weight p = i32 (pc_Weight (prov_cfg p))"

definition Provider_CheckURL :: "Provider \<Rightarrow> string" where
  "Provider_CheckURL p = (if pc_CheckURL (prov_cfg p) \<noteq> [] then pc_CheckURL (prov_cfg p) else [])"

text \<open>\<^verbatim>\<open>fmt.Sprintf("%s:%s:%d", name, host, port)\<close>.\<close>

definition proxy_id :: "string \<Rightarrow> string \<Rightarrow> int \<Rightarrow> string" where
  "proxy_id name host port = name @ '':'' @ host @ '':'' @ itoa port"

text \<open>The fields every provider fills in from its configuration.\<close>

definition base_proxy :: "ProviderCfg \<Rightarrow> Kind \<Rightarrow> string \<Rightarrow> int \<Rightarrow> Proxy" where
  "base_proxy cfg kind host port = zero_proxy
     \<lparr>px_ID := proxy_id (pc_Name cfg) host port, px_Provider := pc_Name cfg, px_Kind := kind,
      px_Host := host, px_Port := port, px_Weight := i32 (pc_Weight cfg),
      px_CheckURL := pc_CheckURL cfg, px_CheckURLs := ProviderCfg_EnabledCheckURLs cfg,
      px_CheckIntervalMS := i64 (pc_CheckIntervalS cfg * 1000), px_Priority := pc_Priority cfg,
      px_MinAliveRatio := pc_MinAliveRatio cfg, px_Alive := True\<rparr>"

subsection \<open>A tunnel\<close>

definition Tunnel_Initial :: "ProviderCfg \<Rightarrow> (prov_error + Proxy list option) go" where
  "Tunnel_Initial cfg =
     (case pc_Tunnel cfg of
        None \<Rightarrow> Inl PanicNilDereference
      | Some tc \<Rightarrow> Inr (Inr (Some
         [(base_proxy cfg KindTunnel (tc_Gateway tc) (tc_Port tc))
            \<lparr>px_Scheme := tc_Scheme tc, px_Username := tc_Username tc, px_Password := tc_Password tc\<rparr>])))"

definition Tunnel_Refresh :: "ProviderCfg \<Rightarrow> (prov_error + Proxy list option) go" where
  "Tunnel_Refresh cfg = Inr (Inr None)"

subsection \<open>Pasted URLs\<close>

definition ParseProxyURL :: "string \<Rightarrow> (string \<times> string \<times> int \<times> string \<times> string) option" where
  "ParseProxyURL raw =
     (let s = trim_space raw
      in if s = [] then None
         else
           let s = (if \<not> contains_str s ''://'' then ''http://'' @ s else s)
           in case url_parse s of
                None \<Rightarrow> None
              | Some u \<Rightarrow>
                 if u_Host u = [] then None
                 else
                   let scheme = to_lower (u_Scheme u);
                       scheme = (if scheme = [] then ''http'' else scheme);
                       scheme = (if scheme \<noteq> ''http'' \<and> scheme \<noteq> ''https'' \<and> scheme \<noteq> ''socks5'' \<and> scheme \<noteq> ''socks5h''
                                 then ''http'' else scheme);
                       (host, portStr) = split_host_port (u_Host u);
                       (username, password) = (case u_User u of None \<Rightarrow> ([], []) | Some up \<Rightarrow> up)
                   in case (if portStr \<noteq> [] then
                              (case atoi portStr of
                                 None \<Rightarrow> None
                               | Some p \<Rightarrow> if p \<le> 0 \<or> p > 65535 then None else Some p)
                            else if scheme = ''https'' then Some 443 else Some 80) of
                        None \<Rightarrow> None
                      | Some port \<Rightarrow> if host = [] then None else Some (scheme, host, port, username, password))"

fun static_loop :: "ProviderCfg \<Rightarrow> string list \<Rightarrow> string list \<Rightarrow> Proxy list" where
  "static_loop cfg seen [] = []"
| "static_loop cfg seen (raw # urls) =
     (case ParseProxyURL raw of
        None \<Rightarrow> static_loop cfg seen urls
      | Some (scheme, host, port, username, password) \<Rightarrow>
         let i = proxy_id (pc_Name cfg) host port
         in if i \<in> set seen then static_loop cfg seen urls
            else (base_proxy cfg (Provider_Kind (StaticURLs cfg)) host port)
                   \<lparr>px_Scheme := scheme, px_Username := username, px_Password := password,
                    px_StickySeconds := pc_StickySeconds cfg\<rparr>
                 # static_loop cfg (i # seen) urls)"

definition StaticURLs_Refresh :: "ProviderCfg \<Rightarrow> (prov_error + Proxy list option) go" where
  "StaticURLs_Refresh cfg = Inr (Inr (Some (static_loop cfg [] (pc_URLs cfg))))"

subsection \<open>An extraction API\<close>

definition splitAddr :: "string \<Rightarrow> (string \<times> string) option" where
  "splitAddr addr0 =
     (let addr = trim_space addr0;
          addr = (if contains_str addr ''://''
                  then (case index_str addr ''://'' of None \<Rightarrow> addr | Some idx \<Rightarrow> drop (idx + 3) addr) else addr)
      in case last_index_char (CHR '':'') addr of
           None \<Rightarrow> None
         | Some i \<Rightarrow> if i > 0 then Some (take i addr, drop (i + 1) addr) else None)"

text \<open>\<^verbatim>\<open>bufio.Scanner\<close> over lines: it stops at a line that does not fit its buffer of 65536 bytes.\<close>

function scan_lines :: "string \<Rightarrow> string list" where
  "scan_lines s =
     (if s = [] then []
      else let (line, rest) = cut0 (CHR 0x0A) s
           in if length line \<ge> 65536 then [] else line # scan_lines rest)"
  by pat_completeness auto

termination
proof (relation "measure length", goal_cases)
  case (2 s x line rest)
  then have "rest = snd (cut0 (CHR 0x0A) s)" by (metis snd_conv)
  then show ?case using 2(1) cut0_shorter [of s "CHR 0x0A"] by simp
qed simp

declare scan_lines.simps [simp del]

fun json_entries :: "JsonAddr list \<Rightarrow> string list" where
  "json_entries [] = []"
| "json_entries (d # ds) =
     (if ja_Addr d \<noteq> [] then ja_Addr d # json_entries ds
      else if ja_IP d \<noteq> [] \<and> ja_Port d > 0 then (ja_IP d @ '':'' @ itoa (ja_Port d)) # json_entries ds
      else json_entries ds)"

definition pool_entries :: "env \<Rightarrow> IPPoolConfig \<Rightarrow> string \<Rightarrow> string list option" where
  "pool_entries ev ipc body =
     (if ip_Format ipc = ''json'' then
        (case ev_pool_json ev body of
           None \<Rightarrow> None
         | Some raw \<Rightarrow> Some (json_entries (jp_Data raw) @ jp_DataArr raw @ jp_List raw @ jp_IPs raw))
      else if ip_Format ipc \<in> {''text'', ''raw'', []} then
        Some (filter (\<lambda>l. l \<noteq> []) (map trim_space (scan_lines body)))
      else None)"

text \<open>\<^verbatim>\<open>now.Add(time.Duration(expire) * time.Second).UnixNano()\<close>, in \<^verbatim>\<open>int64\<close> nanoseconds.\<close>

definition expiry :: "int \<Rightarrow> int \<Rightarrow> int" where
  "expiry now secs = i64 (now + i64 (secs * 1000000000))"

fun pool_loop :: "ProviderCfg \<Rightarrow> IPPoolConfig \<Rightarrow> int \<Rightarrow> nat \<Rightarrow> string list \<Rightarrow> string list \<Rightarrow> Proxy list" where
  "pool_loop cfg ipc expireAt k seen [] = []"
| "pool_loop cfg ipc expireAt k seen (e # es) =
     (if ip_MaxProxies ipc > 0 \<and> int k \<ge> ip_MaxProxies ipc then []
      else case splitAddr e of
             None \<Rightarrow> pool_loop cfg ipc expireAt k seen es
           | Some (host, portStr) \<Rightarrow>
              (case atoi portStr of
                 None \<Rightarrow> pool_loop cfg ipc expireAt k seen es
               | Some port \<Rightarrow>
                  if port \<le> 0 \<or> port > 65535 then pool_loop cfg ipc expireAt k seen es
                  else if host @ '':'' @ portStr \<in> set seen then pool_loop cfg ipc expireAt k seen es
                  else (base_proxy cfg (Provider_Kind (IPPool cfg)) host port)
                         \<lparr>px_Scheme := ''http'', px_Username := ip_Username ipc, px_Password := ip_Password ipc,
                          px_StickySeconds := pc_StickySeconds cfg, px_ExpireAt := expireAt\<rparr>
                       # pool_loop cfg ipc expireAt (Suc k) ((host @ '':'' @ portStr) # seen) es))"

definition IPPool_parse :: "env \<Rightarrow> ProviderCfg \<Rightarrow> IPPoolConfig \<Rightarrow> string \<Rightarrow> Proxy list option" where
  "IPPool_parse ev cfg ipc body =
     (case pool_entries ev ipc body of
        None \<Rightarrow> None
      | Some entries \<Rightarrow>
         let expire = (if ip_ExpireSeconds ipc = 0 then 600 else ip_ExpireSeconds ipc)
         in Some (pool_loop cfg ipc (expiry (ev_now ev) expire) 0 [] entries))"

text \<open>The body of an answer is read up to the limit; an error answer is quoted up to 1024 bytes.\<close>

definition fetch_body :: "nat \<Rightarrow> fetch \<Rightarrow> prov_error + string" where
  "fetch_body limit f =
     (case f of
        FetchFails \<Rightarrow> Inl RequestFailed
      | Response status body \<Rightarrow>
         if status \<noteq> 200 then Inl (BadStatus status (trim_space (take 1024 body))) else Inr (take limit body)
      | BodyFails status \<Rightarrow> if status \<noteq> 200 then Inl (BadStatus status []) else Inl ReadFailed)"

definition IPPool_Refresh :: "env \<Rightarrow> ProviderCfg \<Rightarrow> (prov_error + Proxy list option) go" where
  "IPPool_Refresh ev cfg =
     (case pc_IPPool cfg of
        None \<Rightarrow> Inl PanicNilDereference
      | Some ipc \<Rightarrow>
         Inr (bindE (fetch_body 4194304 (ev_fetch ev)) (\<lambda>body. Inr (IPPool_parse ev cfg ipc body))))"

subsection \<open>A feed of free proxies\<close>

definition supportsHTTP :: "string \<Rightarrow> bool" where
  "supportsHTTP protocol = contains_str (to_lower protocol) ''http''"

fun free_loop :: "ProviderCfg \<Rightarrow> FreePoolConfig \<Rightarrow> int \<Rightarrow> int \<Rightarrow> nat \<Rightarrow> string list \<Rightarrow> freeProxyEntry list \<Rightarrow> Proxy list" where
  "free_loop cfg fc maxSpeed expireAt k seen [] = []"
| "free_loop cfg fc maxSpeed expireAt k seen (d # ds) =
     (if fp_MaxProxies fc > 0 \<and> int k \<ge> fp_MaxProxies fc then []
      else if fe_Speed d \<le> 0 \<or> fe_Speed d \<ge> maxSpeed then free_loop cfg fc maxSpeed expireAt k seen ds
      else if \<not> supportsHTTP (fe_Protocol d) then free_loop cfg fc maxSpeed expireAt k seen ds
      else if fe_Port d \<le> 0 \<or> fe_Port d > 65535 then free_loop cfg fc maxSpeed expireAt k seen ds
      else let host = trim_space (fe_IP d)
           in if host = [] then free_loop cfg fc maxSpeed expireAt k seen ds
              else let key = host @ '':'' @ itoa (fe_Port d)
                   in if key \<in> set seen then free_loop cfg fc maxSpeed expireAt k seen ds
                      else (base_proxy cfg KindIPPool host (fe_Port d))
                             \<lparr>px_Scheme := ''http'', px_Free := True, px_DeleteLatencyMS := fp_DeleteLatencyMS fc,
                              px_ExpireAt := expireAt\<rparr>
                           # free_loop cfg fc maxSpeed expireAt (Suc k) (key # seen) ds)"

definition FreePool_parse :: "env \<Rightarrow> ProviderCfg \<Rightarrow> FreePoolConfig \<Rightarrow> string \<Rightarrow> Proxy list option" where
  "FreePool_parse ev cfg fc body =
     (case ev_feed_json ev body of
        None \<Rightarrow> None
      | Some feed \<Rightarrow>
         let maxSpeed = (if fp_MaxSpeedMS fc \<le> 0 then 2000 else fp_MaxSpeedMS fc);
             expireAt = (if fp_ExpireSeconds fc > 0 then expiry (ev_now ev) (fp_ExpireSeconds fc) else 0)
         in Some (free_loop cfg fc maxSpeed expireAt 0 [] feed))"

definition FreePool_Refresh :: "env \<Rightarrow> ProviderCfg \<Rightarrow> (prov_error + Proxy list option) go" where
  "FreePool_Refresh ev cfg =
     (case pc_Free cfg of
        None \<Rightarrow> Inl PanicNilDereference
      | Some fc \<Rightarrow>
         Inr (bindE (fetch_body 8388608 (ev_fetch ev)) (\<lambda>body. Inr (FreePool_parse ev cfg fc body))))"

subsection \<open>The interface\<close>

fun Provider_Refresh :: "env \<Rightarrow> Provider \<Rightarrow> (prov_error + Proxy list option) go" where
  "Provider_Refresh ev (StaticURLs c) = StaticURLs_Refresh c"
| "Provider_Refresh ev (Tunnel c) = Tunnel_Refresh c"
| "Provider_Refresh ev (IPPool c) = IPPool_Refresh ev c"
| "Provider_Refresh ev (FreePool c) = FreePool_Refresh ev c"

fun Provider_Initial :: "env \<Rightarrow> Provider \<Rightarrow> (prov_error + Proxy list option) go" where
  "Provider_Initial ev (StaticURLs c) = StaticURLs_Refresh c"
| "Provider_Initial ev (Tunnel c) = Tunnel_Initial c"
| "Provider_Initial ev (IPPool c) = IPPool_Refresh ev c"
| "Provider_Initial ev (FreePool c) = FreePool_Refresh ev c"

end
