(* ===== verification/Provider_Props.thy ===== *)
theory Provider_Props
  imports Provider_Sources
begin

section \<open>Properties of the providers\<close>

text \<open>
  What the pool may rely on of a provider's list: identifiers built from name, host and port, the
  provider's own name, a live flag, a 32-bit weight, a port in range, caps and de-duplication; and the
  round trip of the URL parser on the URLs it documents.
\<close>

subsection \<open>Identifiers\<close>

lemma proxy_id_inj:
  assumes "0 \<le> p" "0 \<le> q" "proxy_id n h p = proxy_id n g q"
  shows "h = g \<and> p = q"
proof -
  have "Proxy_Addr (zero_proxy\<lparr>px_Host := h, px_Port := p\<rparr>) = Proxy_Addr (zero_proxy\<lparr>px_Host := g, px_Port := q\<rparr>)"
    using assms(3) by (simp add: proxy_id_def Proxy_Addr_def)
  from Proxy_Addr_inj [OF _ _ this] assms(1,2) show ?thesis by simp
qed

text \<open>What every provider promises of a proxy it builds.\<close>

definition built_by :: "ProviderCfg \<Rightarrow> Proxy \<Rightarrow> bool" where
  "built_by cfg p \<longleftrightarrow>
     px_ID p = proxy_id (pc_Name cfg) (px_Host p) (px_Port p) \<and> px_Provider p = pc_Name cfg \<and>
     px_Alive p \<and> px_Fails p = 0 \<and> px_LastUsed p = 0 \<and> px_LatencyMS p = 0 \<and>
     px_Weight p = i32 (pc_Weight cfg) \<and> px_Priority p = pc_Priority cfg \<and>
     px_MinAliveRatio p = pc_MinAliveRatio cfg"

lemma built_by_base [simp]:
  "built_by cfg (base_proxy cfg k h p)"
  "built_by cfg (x\<lparr>px_Scheme := s\<rparr>) = built_by cfg x"
  "built_by cfg (x\<lparr>px_Username := s\<rparr>) = built_by cfg x"
  "built_by cfg (x\<lparr>px_Password := s\<rparr>) = built_by cfg x"
  "built_by cfg (x\<lparr>px_StickySeconds := n\<rparr>) = built_by cfg x"
  "built_by cfg (x\<lparr>px_ExpireAt := n\<rparr>) = built_by cfg x"
  "built_by cfg (x\<lparr>px_Free := b\<rparr>) = built_by cfg x"
  "built_by cfg (x\<lparr>px_DeleteLatencyMS := n\<rparr>) = built_by cfg x"
  by (simp_all add: built_by_def base_proxy_def zero_proxy_def)

lemma base_proxy_simps [simp]:
  "px_ID (base_proxy cfg k h p) = proxy_id (pc_Name cfg) h p" "px_Host (base_proxy cfg k h p) = h"
  "px_Port (base_proxy cfg k h p) = p" "px_Kind (base_proxy cfg k h p) = k" "px_ExpireAt (base_proxy cfg k h p) = 0"
  "px_Free (base_proxy cfg k h p) = False"
  by (simp_all add: base_proxy_def zero_proxy_def)

subsection \<open>Pasted URLs\<close>

lemma ParseProxyURL_ok:
  assumes "ParseProxyURL raw = Some (s, h, p, u, w)"
  shows "s \<in> {''http'', ''https'', ''socks5'', ''socks5h''} \<and> h \<noteq> [] \<and> 1 \<le> p \<and> p \<le> 65535"
proof -
  have *: "(if c then ''http'' else x) \<in> {''http'', ''https'', ''socks5'', ''socks5h''}"
    if "c = (x \<noteq> ''http'' \<and> x \<noteq> ''https'' \<and> x \<noteq> ''socks5'' \<and> x \<noteq> ''socks5h'')" for c x
    using that by auto
  show ?thesis
    using assms unfolding ParseProxyURL_def
    by (auto simp: Let_def split: if_splits option.splits prod.splits)
qed

definition url_ids :: "ProviderCfg \<Rightarrow> string list \<Rightarrow> string set" where
  "url_ids cfg urls = (\<Union>raw \<in> set urls. case ParseProxyURL raw of None \<Rightarrow> {}
     | Some (s, h, p, u, w) \<Rightarrow> {proxy_id (pc_Name cfg) h p})"

lemma url_ids_simps [simp]:
  "url_ids cfg [] = {}"
  "url_ids cfg (raw # urls) = (case ParseProxyURL raw of None \<Rightarrow> {}
     | Some (s, h, p, u, w) \<Rightarrow> {proxy_id (pc_Name cfg) h p}) \<union> url_ids cfg urls"
  by (simp_all add: url_ids_def)

lemma static_loop_ids:
  "distinct (map px_ID (static_loop cfg seen urls)) \<and>
   px_ID ` set (static_loop cfg seen urls) = url_ids cfg urls - set seen"
  by (induction cfg seen urls rule: static_loop.induct) (auto simp: Let_def split: option.splits)

lemma static_loop_built:
  "p \<in> set (static_loop cfg seen urls) \<Longrightarrow>
   built_by cfg p \<and> 1 \<le> px_Port p \<and> px_Port p \<le> 65535 \<and> px_Host p \<noteq> [] \<and> px_ExpireAt p = 0 \<and>
   px_Kind p = Provider_Kind (StaticURLs cfg)"
proof (induction urls arbitrary: seen)
  case (Cons raw urls)
  show ?case
  proof (cases "ParseProxyURL raw")
    case None
    with Cons show ?thesis by simp
  next
    case (Some t)
    obtain s h q u w where t: "t = (s, h, q, u, w)" by (cases t)
    with Some have "h \<noteq> [] \<and> 1 \<le> q \<and> q \<le> 65535" using ParseProxyURL_ok by blast
    then show ?thesis using Cons.IH Cons.prems Some t by (auto simp: Let_def split: if_splits)
  qed
qed simp

subsection \<open>Extracted addresses\<close>

lemma last_index_char_less: "last_index_char c s = Some i \<Longrightarrow> i < length s"
  by (auto simp: last_index_char_def dest: index_char_Some)

lemma splitAddr_host: "splitAddr e = Some (h, p) \<Longrightarrow> h \<noteq> []"
  unfolding splitAddr_def Let_def
  by (auto dest!: last_index_char_less split: option.splits if_splits)

lemma pool_loop_built:
  "p \<in> set (pool_loop cfg ipc x k seen es) \<Longrightarrow>
   built_by cfg p \<and> 1 \<le> px_Port p \<and> px_Port p \<le> 65535 \<and> px_Host p \<noteq> [] \<and> px_ExpireAt p = x \<and>
   px_Kind p = Provider_Kind (IPPool cfg)"
proof (induction es arbitrary: k seen)
  case (Cons e es)
  show ?case
  proof (cases "splitAddr e")
    case None
    with Cons show ?thesis by (auto split: if_splits)
  next
    case (Some hp)
    obtain h q where hp: "hp = (h, q)" by (cases hp)
    with Some have h: "h \<noteq> []" using splitAddr_host by blast
    show ?thesis
      using Cons.IH Cons.prems Some hp h by (cases "atoi q") (auto split: if_splits)
  qed
qed simp

lemma pool_loop_length:
  "ip_MaxProxies ipc > 0 \<Longrightarrow> int (length (pool_loop cfg ipc x k seen es)) \<le> max 0 (ip_MaxProxies ipc - int k)"
proof (induction es arbitrary: k seen)
  case (Cons e es)
  then have IH: "int (length (pool_loop cfg ipc x k seen es)) \<le> max 0 (ip_MaxProxies ipc - int k)" for k seen
    by blast
  show ?case
  proof (cases "splitAddr e")
    case None
    then show ?thesis using IH [of k seen] by simp
  next
    case (Some hp)
    obtain h q where hp: "hp = (h, q)" by (cases hp)
    show ?thesis
      using IH [of k seen] IH [of "Suc k" "(h @ '':'' @ q) # seen"] Some hp Cons.prems by (cases "atoi q") auto
  qed
qed simp

subsection \<open>Free proxies\<close>

definition admissible :: "int \<Rightarrow> freeProxyEntry \<Rightarrow> bool" where
  "admissible maxSpeed d \<longleftrightarrow>
     0 < fe_Speed d \<and> fe_Speed d < maxSpeed \<and> supportsHTTP (fe_Protocol d) \<and>
     1 \<le> fe_Port d \<and> fe_Port d \<le> 65535 \<and> trim_space (fe_IP d) \<noteq> []"

lemma free_loop_cons:
  "free_loop cfg fc ms x k seen (d # ds) =
     (if fp_MaxProxies fc > 0 \<and> int k \<ge> fp_MaxProxies fc then []
      else if \<not> admissible ms d \<or> trim_space (fe_IP d) @ '':'' @ itoa (fe_Port d) \<in> set seen then free_loop cfg fc ms x k seen ds
      else (base_proxy cfg KindIPPool (trim_space (fe_IP d)) (fe_Port d))
             \<lparr>px_Scheme := ''http'', px_Free := True, px_DeleteLatencyMS := fp_DeleteLatencyMS fc, px_ExpireAt := x\<rparr>
           # free_loop cfg fc ms x (Suc k) ((trim_space (fe_IP d) @ '':'' @ itoa (fe_Port d)) # seen) ds)"
  by (auto simp: admissible_def Let_def)

declare free_loop.simps(2) [simp del]

lemma free_loop_built:
  "p \<in> set (free_loop cfg fc ms x k seen ds) \<Longrightarrow>
   built_by cfg p \<and> px_Free p \<and> px_Kind p = KindIPPool \<and> px_ExpireAt p = x \<and>
   (\<exists>d \<in> set ds. admissible ms d \<and> px_Host p = trim_space (fe_IP d) \<and> px_Port p = fe_Port d)"
  by (induction ds arbitrary: k seen) (auto simp: free_loop_cons split: if_splits)

lemma free_loop_addrs:
  "distinct (map Proxy_Addr (free_loop cfg fc ms x k seen ds)) \<and>
   Proxy_Addr ` set (free_loop cfg fc ms x k seen ds) \<inter> set seen = {}"
proof (induction ds arbitrary: k seen)
  case (Cons d ds)
  let ?k = "trim_space (fe_IP d) @ '':'' @ itoa (fe_Port d)"
  let ?p = "(base_proxy cfg KindIPPool (trim_space (fe_IP d)) (fe_Port d))
     \<lparr>px_Scheme := ''http'', px_Free := True, px_DeleteLatencyMS := fp_DeleteLatencyMS fc, px_ExpireAt := x\<rparr>"
  have "Proxy_Addr ?p = ?k" by (simp add: Proxy_Addr_def)
  then show ?case
    using Cons.IH [of k seen] Cons.IH [of "Suc k" "?k # seen"] unfolding free_loop_cons by auto
qed simp

lemma free_loop_complete:
  "fp_MaxProxies fc \<le> 0 \<Longrightarrow> d \<in> set ds \<Longrightarrow> admissible ms d \<Longrightarrow>
   trim_space (fe_IP d) @ '':'' @ itoa (fe_Port d) \<in> set seen \<union> Proxy_Addr ` set (free_loop cfg fc ms x k seen ds)"
proof (induction ds arbitrary: k seen)
  case (Cons e ds)
  let ?k = "trim_space (fe_IP e) @ '':'' @ itoa (fe_Port e)"
  show ?case
  proof (cases "\<not> admissible ms e \<or> ?k \<in> set seen")
    case True
    then show ?thesis using Cons by (auto simp: free_loop_cons)
  next
    case False
    show ?thesis
      using Cons.IH [of "?k # seen" "Suc k"] Cons.prems False by (auto simp: free_loop_cons Proxy_Addr_def)
  qed
qed simp

lemma free_loop_length:
  "fp_MaxProxies fc > 0 \<Longrightarrow> int (length (free_loop cfg fc ms x k seen ds)) \<le> max 0 (fp_MaxProxies fc - int k)"
proof (induction ds arbitrary: k seen)
  case (Cons d ds)
  then have IH: "int (length (free_loop cfg fc ms x k seen ds)) \<le> max 0 (fp_MaxProxies fc - int k)" for k seen
    by blast
  show ?case
    using IH [of k seen] IH [of "Suc k" "(trim_space (fe_IP d) @ '':'' @ itoa (fe_Port d)) # seen"] Cons.prems
    unfolding free_loop_cons max_def by (auto split: if_splits)
qed simp

lemma built_id: "built_by cfg p \<Longrightarrow> px_ID p = pc_Name cfg @ '':'' @ Proxy_Addr p"
  by (simp add: built_by_def proxy_id_def Proxy_Addr_def)

subsection \<open>The round trip of the URL parser\<close>

text \<open>Bytes that need no escape and delimit nothing.\<close>

definition plain_char :: "char \<Rightarrow> bool" where
  "plain_char c \<longleftrightarrow> is_alnum c \<or> c = CHR ''.'' \<or> c = CHR ''-''"

definition plain :: "string \<Rightarrow> bool" where
  "plain s \<longleftrightarrow> s \<noteq> [] \<and> list_all plain_char s"

lemma plain_char_code:
  "plain_char c \<Longrightarrow> (45 :: nat) \<le> of_char c \<and> (of_char c :: nat) \<le> 122 \<and> (of_char c :: nat) \<notin> {47, 58, 63, 64, 91, 93}"
  by (auto simp: plain_char_def is_alnum_def is_letter_def is_digit_def Let_def)

lemma plain_notin:
  assumes "list_all plain_char s" "(of_char c :: nat) \<in> {32, 35, 37, 47, 58, 63, 64, 91, 93}"
  shows "c \<notin> set s"
  using assms plain_char_code [of c] by (auto simp: list_all_iff)

lemma plain_digits: "list_all plain_char (nat_digits n)"
  using nat_digits_digit [of n] by (auto simp: list_all_iff plain_char_def is_alnum_def)

lemma unescape_plain:
  "list_all (\<lambda>c. host_char c \<and> c \<noteq> CHR ''%'') s \<Longrightarrow> unescape mode s = Some s"
  by (induction s) auto

lemma plain_host_char: "plain_char c \<Longrightarrow> host_char c \<and> c \<noteq> CHR ''%''"
  using plain_char_code [of c] by (auto simp: plain_char_def host_char_def)

lemma unescape_plain_str: "list_all plain_char s \<Longrightarrow> unescape mode s = Some s"
  using plain_host_char by (intro unescape_plain) (auto simp: list_all_iff)

lemma last_index_split: "c \<notin> set b \<Longrightarrow> last_index_char c (a @ c # b) = Some (length a)"
  by (simp add: last_index_char_def index_char_append)

lemma last_index_None: "c \<notin> set s \<Longrightarrow> last_index_char c s = None"
  by (simp add: last_index_char_def index_char_None)

lemma parse_host_plain:
  assumes "plain h"
  shows "parse_host (h @ '':'' @ nat_digits n) = Some (h @ '':'' @ nat_digits n)"
proof -
  have h: "list_all plain_char h" "h \<noteq> []" using assms by (auto simp: plain_def)
  have "\<not> has_prefix (h @ '':'' @ nat_digits n) ''[''"
    using h plain_notin [OF h(1), of "CHR ''[''"] by (cases h) (auto simp: has_prefix_def)
  moreover have "last_index_char (CHR '':'') (h @ '':'' @ nat_digits n) = Some (length h)"
    using last_index_split [of "CHR '':''" "nat_digits n" h] plain_notin [OF plain_digits, of "CHR '':''"] by simp
  moreover have "unescape EncHost (h @ '':'' @ nat_digits n) = Some (h @ '':'' @ nat_digits n)"
  proof (rule unescape_plain)
    have "host_char (CHR '':'')" by (simp add: host_char_def)
    then show "list_all (\<lambda>c. host_char c \<and> c \<noteq> CHR ''%'') (h @ '':'' @ nat_digits n)"
      using h(1) plain_digits [of n] plain_host_char by (simp add: list_all_iff) blast
  qed
  ultimately show ?thesis
    using nat_digits_digit [of n] by (simp add: parse_host_def validOptionalPort_def)
qed

lemma split_host_port_plain:
  assumes "plain h"
  shows "split_host_port (h @ '':'' @ nat_digits n) = (h, nat_digits n)"
proof -
  have h: "list_all plain_char h" "h \<noteq> []" using assms by (auto simp: plain_def)
  have "last_index_char (CHR '':'') (h @ '':'' @ nat_digits n) = Some (length h)"
    using last_index_split [of "CHR '':''" "nat_digits n" h] plain_notin [OF plain_digits, of "CHR '':''"] by simp
  moreover have "\<not> has_prefix h ''[''"
    using h plain_notin [OF h(1), of "CHR ''[''"] by (cases h) (auto simp: has_prefix_def)
  ultimately show ?thesis
    using nat_digits_digit by (simp add: split_host_port_def validOptionalPort_def Let_def)
qed

lemma parse_authority_plain:
  assumes "plain h" "plain u" "plain w"
  shows "parse_authority (u @ '':'' @ w @ ''@'' @ h @ '':'' @ nat_digits n) = Some (Some (u, w), h @ '':'' @ nat_digits n)"
proof -
  have p: "list_all plain_char h" "list_all plain_char u" "list_all plain_char w" using assms by (auto simp: plain_def)
  have "CHR ''@'' \<notin> set (h @ '':'' @ nat_digits n)"
    using plain_notin [OF p(1), of "CHR ''@''"] plain_notin [OF plain_digits, of "CHR ''@''"] by auto
  then have "last_index_char (CHR ''@'') ((u @ '':'' @ w) @ ''@'' @ h @ '':'' @ nat_digits n) = Some (length (u @ '':'' @ w))"
    using last_index_split [of "CHR ''@''" "h @ '':'' @ nat_digits n" "u @ '':'' @ w"] by simp
  moreover have "list_all user_char (u @ '':'' @ w)"
    using p by (auto simp: list_all_iff plain_char_def user_char_def)
  moreover have "cut_char (CHR '':'') (u @ '':'' @ w) = Some (u, w)"
    using cut_char_append [of "CHR '':''" u w] plain_notin [OF p(2), of "CHR '':''"] by simp
  ultimately show ?thesis
    using parse_host_plain [OF assms(1), of n] unescape_plain_str [OF p(2)] unescape_plain_str [OF p(3)]
    by (simp add: parse_authority_def Let_def)
qed

lemma parse_authority_bare:
  assumes "plain h"
  shows "parse_authority (h @ '':'' @ nat_digits n) = Some (None, h @ '':'' @ nat_digits n)"
proof -
  have p: "list_all plain_char h" using assms by (auto simp: plain_def)
  have "CHR ''@'' \<notin> set (h @ '':'' @ nat_digits n)"
    using plain_notin [OF p, of "CHR ''@''"] plain_notin [OF plain_digits, of "CHR ''@''"] by auto
  then show ?thesis
    using parse_host_plain [OF assms, of n] by (simp add: parse_authority_def last_index_None)
qed

definition auth_char :: "char \<Rightarrow> bool" where
  "auth_char c \<longleftrightarrow> plain_char c \<or> c = CHR '':'' \<or> c = CHR ''@''"

lemma auth_char_code:
  "auth_char c \<Longrightarrow> (45 :: nat) \<le> of_char c \<and> (of_char c :: nat) \<le> 122 \<and> c \<noteq> CHR ''/'' \<and> c \<noteq> CHR ''?'' \<and> c \<noteq> CHR ''#''"
  using plain_char_code [of c] by (auto simp: auth_char_def)

definition url_safe :: "char \<Rightarrow> bool" where
  "url_safe c \<longleftrightarrow> (32 :: nat) < of_char c \<and> of_char c < (127 :: nat) \<and> c \<notin> set ''/?#''"

lemma auth_safe: "list_all auth_char s \<Longrightarrow> list_all url_safe s"
  using auth_char_code by (fastforce simp: list_all_iff url_safe_def)

lemma url_parse_authority:
  assumes sch: "sch \<in> {''http'', ''https'', ''socks5'', ''socks5h''}" and au: "list_all url_safe au"
    and pa: "parse_authority au = Some (usr, host)"
  shows "url_parse (sch @ ''://'' @ au) = Some \<lparr>u_Scheme = sch, u_User = usr, u_Host = host\<rparr>"
proof -
  let ?s = "sch @ ''://'' @ au"
  have no: "CHR ''#'' \<notin> set au" "CHR ''?'' \<notin> set au" "CHR ''/'' \<notin> set au"
    using au by (auto simp: list_all_iff url_safe_def)
  have ctl: "list_all (\<lambda>c. (32 :: nat) \<le> of_char c \<and> of_char c \<noteq> (127 :: nat)) au"
    using au by (fastforce simp: list_all_iff url_safe_def)
  have "CHR ''#'' \<notin> set ?s" using sch no(1) by auto
  then have frag: "cut0 (CHR ''#'') ?s = (?s, [])"
    unfolding cut0_def cut_char_None [symmetric] by (simp only: option.case)
  have loop: "scheme_loop ?s 0 ?s = Some (sch, ''//'' @ au)"
    using sch by (auto simp: is_letter_def is_digit_def)
  have "CHR ''?'' \<notin> set (''//'' @ au)" using no(2) by simp
  then have q: "cut0 (CHR ''?'') (''//'' @ au) = (''//'' @ au, [])"
    unfolding cut0_def cut_char_None [symmetric] by (simp only: option.case)
  have idx: "index_char (CHR ''/'') au = None" using no(3) by (simp add: index_char_None)
  have low: "to_lower sch = sch" "sch \<noteq> []" using sch by (auto simp: to_lower_def ascii_lower_def Let_def)
  have c: "list_all (\<lambda>c. (32 :: nat) \<le> of_char c \<and> of_char c \<noteq> (127 :: nat)) ?s" "?s \<noteq> ''*''"
    using sch ctl by auto
  have "url_parse_nofrag ?s = Some \<lparr>u_Scheme = sch, u_User = usr, u_Host = host\<rparr>"
    unfolding url_parse_nofrag_def loop using c low pa
    by (simp add: q [simplified] idx Let_def has_prefix_def)
  then show ?thesis unfolding url_parse_def frag by simp
qed

lemma trim_space_id: "s \<noteq> [] \<Longrightarrow> \<not> is_space (hd s) \<Longrightarrow> \<not> is_space (last s) \<Longrightarrow> trim_space s = s"
proof -
  assume s: "s \<noteq> []" "\<not> is_space (hd s)" "\<not> is_space (last s)"
  have "dropWhile is_space s = s" using s by (intro dropWhile_id) simp
  moreover have "dropWhile is_space (rev s) = rev s" using s by (intro dropWhile_id) (simp add: hd_rev)
  ultimately show ?thesis by (simp add: trim_space_def)
qed

lemma contains_str_set: "contains_str s p \<Longrightarrow> set p \<subseteq> set s"
proof (induction s p rule: contains_str.induct)
  case (2 c cs p)
  then show ?case
    by (metis contains_str.simps(2) has_prefix_def set_subset_Cons set_take_subset subset_trans)
qed simp

lemma contains_str_append: "contains_str (a @ p @ b) p"
proof (induction a)
  case Nil
  show ?case by (cases "p @ b") (auto simp: has_prefix_def, metis append_eq_conv_conj)
qed simp

lemma ParseProxyURL_eq:
  assumes t: "trim_space raw = s" "s \<noteq> []" and s': "s' = (if \<not> contains_str s ''://'' then ''http://'' @ s else s)"
    and u: "url_parse s' = Some \<lparr>u_Scheme = sch, u_User = usr, u_Host = h @ '':'' @ nat_digits (nat port)\<rparr>"
    and sch: "sch \<in> {''http'', ''https'', ''socks5'', ''socks5h''}"
    and h: "plain h" and port: "1 \<le> port" "port \<le> 65535"
  shows "ParseProxyURL raw = Some (sch, h, port, case usr of None \<Rightarrow> ([], []) | Some up \<Rightarrow> up)"
proof -
  have low: "to_lower sch = sch" "sch \<noteq> []" using sch by (auto simp: to_lower_def ascii_lower_def Let_def)
  have a: "atoi (nat_digits (nat port)) = Some port"
    using atoi_itoa [of port] port by (simp add: itoa_def MaxInt64_def)
  have hn: "h \<noteq> []" using h by (simp add: plain_def)
  show ?thesis
    unfolding ParseProxyURL_def t(1) Let_def s' [symmetric] u
    using t(2) low sch port hn a split_host_port_plain [OF h, of "nat port"]
    by (cases usr) (auto simp: case_prod_unfold)
qed



text \<open>
  A list of pasted URLs becomes one proxy per distinct endpoint: the identifiers are distinct and
  are exactly those of the URLs that parse, and each proxy carries the provider's name, weight and
  kind, is alive, never expires, and has a host and a port in range. It never fails.
\<close>

theorem static_urls_proxies:
  "\<exists>ps. StaticURLs_Refresh cfg = Inr (Inr (Some ps)) \<and> distinct (map px_ID ps) \<and> px_ID ` set ps = url_ids cfg (pc_URLs cfg) \<and>
     (\<forall>p \<in> set ps. built_by cfg p \<and> 1 \<le> px_Port p \<and> px_Port p \<le> 65535 \<and> px_Host p \<noteq> [] \<and> px_ExpireAt p = 0 \<and>
        px_Kind p = (if pc_Type cfg = ''sticky'' then KindSticky else KindTunnel))"
  using static_loop_ids [of cfg "[]" "pc_URLs cfg"] static_loop_built [of _ cfg "[]" "pc_URLs cfg"]
  by (auto simp: StaticURLs_Refresh_def)

definition demo_prov :: ProviderCfg where
  "demo_prov =
     \<lparr>pc_Name = ''t'', pc_Type = ''tunnel'', pc_Enabled = True, pc_Weight = 10, pc_Priority = 0, pc_CheckIntervalS = 0,
      pc_MinAliveRatio = 0, pc_StickySeconds = 0, pc_CheckURL = [], pc_CheckURLs = [], pc_Country = [],
      pc_URLs = [''gw.example.com:1080''], pc_Tunnel = None, pc_IPPool = None, pc_Free = None, pc_Owner = [], pc_Public = False\<rparr>"

lemma digits_1080: "nat_digits 1080 = ''1080''"
  by (simp add: nat_digits.simps) (simp add: char_of_def bit_0)

lemma demo_url: "ParseProxyURL ''gw.example.com:1080'' = Some (''http'', ''gw.example.com'', 1080, [], [])"
proof -
  note n = digits_1080
  have h: "plain ''gw.example.com''" by (simp add: plain_def plain_char_def is_alnum_def is_letter_def is_digit_def)
  have "url_parse (''http'' @ ''://'' @ ''gw.example.com:1080'') =
      Some \<lparr>u_Scheme = ''http'', u_User = None, u_Host = ''gw.example.com'' @ '':'' @ nat_digits (nat 1080)\<rparr>"
    using url_parse_authority [of "''http''" "''gw.example.com:1080''" None] parse_authority_bare [OF h, of 1080] n
    by (simp add: url_safe_def)
  then show ?thesis
    using ParseProxyURL_eq [of "''gw.example.com:1080''" "''gw.example.com:1080''" _ "''http''" None "''gw.example.com''" 1080] h
    by (simp add: trim_space_def is_space_def has_prefix_def)
qed

theorem static_urls_proxies_witness:
  "\<exists>p. StaticURLs_Refresh demo_prov = Inr (Inr (Some [p])) \<and> px_ID p = ''t:gw.example.com:1080'' \<and> px_Alive p"
proof -
  note n = digits_1080
  have "url_ids demo_prov (pc_URLs demo_prov) = {''t:gw.example.com:1080''}"
    by (simp add: demo_prov_def demo_url proxy_id_def itoa_def n)
  moreover obtain ps where ps: "StaticURLs_Refresh demo_prov = Inr (Inr (Some ps))" "distinct (map px_ID ps)"
      "px_ID ` set ps = url_ids demo_prov (pc_URLs demo_prov)" "\<forall>p \<in> set ps. px_Alive p"
    using static_urls_proxies [of demo_prov] by (auto simp: built_by_def)
  ultimately have *: "px_ID ` set ps = {''t:gw.example.com:1080''}" by simp
  then obtain p qs where "ps = p # qs" by (cases ps) auto
  with * ps(2,4) have "ps = [p]" "px_ID p = ''t:gw.example.com:1080''" "px_Alive p"
    by (cases qs; auto)+
  then show ?thesis using ps(1) by auto
qed

text \<open>
  An extraction API. A request that fails or is not answered with 200 is an error; an answered one
  gives proxies that carry the provider's data, have a host and a port in range, are alive and expire
  after the configured time (600 seconds when it is 0), and no more than the cap.
\<close>

theorem ip_pool_proxies:
  assumes "pc_IPPool cfg = Some ipc"
  shows "(case ev_fetch ev of
       FetchFails \<Rightarrow> IPPool_Refresh ev cfg = Inr (Inl RequestFailed)
     | BodyFails status \<Rightarrow> (\<exists>e. IPPool_Refresh ev cfg = Inr (Inl e))
     | Response status body \<Rightarrow>
         if status \<noteq> 200 then \<exists>msg. IPPool_Refresh ev cfg = Inr (Inl (BadStatus status msg))
         else \<exists>r ps. IPPool_Refresh ev cfg = Inr (Inr r) \<and> slice_of r = ps \<and>
           (0 < ip_MaxProxies ipc \<longrightarrow> int (length ps) \<le> ip_MaxProxies ipc) \<and>
           (\<forall>p \<in> set ps. built_by cfg p \<and> 1 \<le> px_Port p \<and> px_Port p \<le> 65535 \<and> px_Host p \<noteq> [] \<and>
              px_ExpireAt p = expiry (ev_now ev) (if ip_ExpireSeconds ipc = 0 then 600 else ip_ExpireSeconds ipc)))"
proof (cases "ev_fetch ev")
  case (Response status body)
  show ?thesis
  proof (cases "status = 200")
    case True
    let ?ps = "slice_of (IPPool_parse ev cfg ipc (take 4194304 body))"
    have "IPPool_Refresh ev cfg = Inr (Inr (IPPool_parse ev cfg ipc (take 4194304 body)))"
      using assms Response True by (simp add: IPPool_Refresh_def fetch_body_def)
    moreover have "0 < ip_MaxProxies ipc \<longrightarrow> int (length ?ps) \<le> ip_MaxProxies ipc"
      using pool_loop_length [of ipc cfg _ 0 "[]"] by (auto simp: IPPool_parse_def Let_def split: option.split)
    moreover have "\<forall>p \<in> set ?ps. built_by cfg p \<and> 1 \<le> px_Port p \<and> px_Port p \<le> 65535 \<and> px_Host p \<noteq> [] \<and>
        px_ExpireAt p = expiry (ev_now ev) (if ip_ExpireSeconds ipc = 0 then 600 else ip_ExpireSeconds ipc)"
      using pool_loop_built [of _ cfg ipc _ 0 "[]"] by (auto simp: IPPool_parse_def Let_def split: option.splits)
    ultimately show ?thesis using Response True by auto
  next
    case False
    then show ?thesis using assms Response by (simp add: IPPool_Refresh_def fetch_body_def)
  qed
qed (use assms in \<open>simp_all add: IPPool_Refresh_def fetch_body_def\<close>)

definition demo_ipc :: IPPoolConfig where
  "demo_ipc = \<lparr>ip_ExtractURL = ''http://x'', ip_RefreshSeconds = 60, ip_ExpireSeconds = 60, ip_Username = [], ip_Password = [],
     ip_Format = ''json'', ip_MaxProxies = 0\<rparr>"

definition demo_env :: env where
  "demo_env = \<lparr>ev_now = 0, ev_fetch = Response 200 [],
     ev_pool_json = (\<lambda>_. Some \<lparr>jp_Data = [], jp_DataArr = [''1.1.1.1:80'', ''1.1.1.1:080''], jp_List = [], jp_IPs = []\<rparr>),
     ev_feed_json = (\<lambda>_. Some [\<lparr>fe_IP = ''9.9.9.9'', fe_Port = 80, fe_Protocol = ''HTTP'', fe_Country = [], fe_Anonymity = [], fe_Speed = 100\<rparr>])\<rparr>"

theorem ip_pool_proxies_witness:
  "\<exists>r. IPPool_Refresh demo_env (demo_prov\<lparr>pc_IPPool := Some demo_ipc\<rparr>) = Inr (Inr r) \<and> (\<forall>p \<in> set (slice_of r). px_Port p \<le> 65535)"
  using ip_pool_proxies [of "demo_prov\<lparr>pc_IPPool := Some demo_ipc\<rparr>" demo_ipc demo_env] by (auto simp: demo_env_def)

text \<open>
  A feed of free proxies. The proxies have distinct identifiers, are marked free, number at most the
  cap, and each comes from an entry that speaks HTTP, is faster than the limit and has an address and
  a port in range; without a cap, every such entry is there.
\<close>

theorem free_feed_proxies:
  assumes fc: "pc_Free cfg = Some fc" and f: "ev_fetch ev = Response 200 body"
    and feed: "ev_feed_json ev (take 8388608 body) = Some ds"
    and ms: "ms = (if fp_MaxSpeedMS fc \<le> 0 then 2000 else fp_MaxSpeedMS fc)"
  shows "\<exists>ps. FreePool_Refresh ev cfg = Inr (Inr (Some ps)) \<and> distinct (map px_ID ps) \<and>
     (0 < fp_MaxProxies fc \<longrightarrow> int (length ps) \<le> fp_MaxProxies fc) \<and>
     (\<forall>p \<in> set ps. built_by cfg p \<and> px_Free p \<and>
        (\<exists>d \<in> set ds. admissible ms d \<and> px_Host p = trim_space (fe_IP d) \<and> px_Port p = fe_Port d)) \<and>
     (fp_MaxProxies fc \<le> 0 \<longrightarrow>
        (\<forall>d \<in> set ds. admissible ms d \<longrightarrow> (\<exists>p \<in> set ps. Proxy_Addr p = trim_space (fe_IP d) @ '':'' @ itoa (fe_Port d))))"
proof -
  define x where "x = (if fp_ExpireSeconds fc > 0 then expiry (ev_now ev) (fp_ExpireSeconds fc) else 0)"
  define ps where "ps = free_loop cfg fc ms x 0 [] ds"
  have "FreePool_Refresh ev cfg = Inr (Inr (Some ps))"
    using fc f feed by (simp add: FreePool_Refresh_def fetch_body_def FreePool_parse_def ps_def ms x_def Let_def)
  moreover have b: "\<forall>p \<in> set ps. built_by cfg p \<and> px_Free p \<and>
        (\<exists>d \<in> set ds. admissible ms d \<and> px_Host p = trim_space (fe_IP d) \<and> px_Port p = fe_Port d)"
    using free_loop_built unfolding ps_def by blast
  moreover have "distinct (map px_ID ps)"
  proof -
    have "map px_ID ps = map (\<lambda>a. pc_Name cfg @ '':'' @ a) (map Proxy_Addr ps)"
      using b built_id by simp
    moreover have "inj (\<lambda>a. pc_Name cfg @ '':'' @ a)" by (auto intro: injI)
    ultimately show ?thesis
      using free_loop_addrs [of cfg fc ms x 0 "[]" ds] unfolding ps_def
      by (metis distinct_map inj_on_subset subset_UNIV)
  qed
  moreover have "0 < fp_MaxProxies fc \<longrightarrow> int (length ps) \<le> fp_MaxProxies fc"
    using free_loop_length [of fc cfg ms x 0 "[]" ds] by (auto simp: ps_def)
  moreover have "\<exists>p \<in> set ps. Proxy_Addr p = trim_space (fe_IP d) @ '':'' @ itoa (fe_Port d)"
    if "fp_MaxProxies fc \<le> 0" "d \<in> set ds" "admissible ms d" for d
    using free_loop_complete [OF that, of "[]" cfg x 0] unfolding ps_def by auto
  ultimately show ?thesis by blast
qed

definition demo_free :: FreePoolConfig where
  "demo_free = \<lparr>fp_FeedURL = ''http://f'', fp_RefreshSeconds = 60, fp_ExpireSeconds = 0, fp_MaxProxies = 0, fp_MaxSpeedMS = 3000, fp_DeleteLatencyMS = 3000\<rparr>"

theorem free_feed_proxies_witness:
  "\<exists>ps p. FreePool_Refresh demo_env (demo_prov\<lparr>pc_Free := Some demo_free\<rparr>) = Inr (Inr (Some ps)) \<and> p \<in> set ps \<and>
     Proxy_Addr p = ''9.9.9.9'' @ '':'' @ itoa 80"
proof -
  let ?d = "\<lparr>fe_IP = ''9.9.9.9'', fe_Port = 80, fe_Protocol = ''HTTP'', fe_Country = [], fe_Anonymity = [], fe_Speed = 100\<rparr>"
  have t: "trim_space ''9.9.9.9'' = ''9.9.9.9''" by (simp add: trim_space_def is_space_def)
  then have a: "admissible 3000 ?d"
    by (simp add: admissible_def supportsHTTP_def to_lower_def ascii_lower_def has_prefix_def) (simp add: char_of_def bit_0)
  have "ev_fetch demo_env = Response 200 []" "ev_feed_json demo_env (take 8388608 []) = Some [?d]"
      "3000 = (if fp_MaxSpeedMS demo_free \<le> 0 then 2000 else fp_MaxSpeedMS demo_free)" "fp_MaxProxies demo_free \<le> 0"
    by (simp_all add: demo_env_def demo_free_def)
  with free_feed_proxies [of "demo_prov\<lparr>pc_Free := Some demo_free\<rparr>" demo_free demo_env "[]" "[?d]" 3000] a t
  show ?thesis by (auto simp del: take_Nil)
qed

text \<open>
  C28. Every validated provider can be built, and, unless it is an extraction pool with pasted URLs, its
  methods never panic, whatever the network answers.
\<close>

theorem validated_provider_runs:
  assumes "provider_ok cfg"
  shows "\<exists>pv. New_provider cfg = Inr pv \<and> Provider_Name pv = pc_Name cfg \<and>
    ((pc_Type cfg = ''ip_pool'' \<longrightarrow> pc_URLs cfg = []) \<longrightarrow>
       go_ok (Provider_Initial ev pv) \<and> go_ok (Provider_Refresh ev pv))"
proof -
  from assms have ty: "pc_Type cfg \<in> {''tunnel'', ''ip_pool'', ''sticky'', ''free''}"
    and tun: "pc_Type cfg = ''tunnel'' \<and> pc_URLs cfg = [] \<longrightarrow> pc_Tunnel cfg \<noteq> None"
    and ipp: "pc_Type cfg \<in> {''ip_pool'', ''sticky''} \<and> pc_URLs cfg = [] \<longrightarrow> pc_IPPool cfg \<noteq> None"
    and fr: "pc_Type cfg = ''free'' \<longrightarrow> pc_Free cfg \<noteq> None"
    by (auto simp: provider_ok_def)
  show ?thesis
    using ty tun ipp fr
    by (cases "pc_URLs cfg")
      (auto simp: New_provider_def Provider_Name_def StaticURLs_Refresh_def Tunnel_Initial_def Tunnel_Refresh_def
        IPPool_Refresh_def FreePool_Refresh_def)
qed

theorem validated_provider_runs_witness:
  "\<exists>pv. New_provider demo_prov = Inr pv \<and> go_ok (Provider_Initial demo_env pv)"
proof -
  have "provider_ok demo_prov" by (simp add: provider_ok_def demo_prov_def)
  moreover have "pc_Type demo_prov \<noteq> ''ip_pool''" by (simp add: demo_prov_def)
  ultimately show ?thesis using validated_provider_runs [of demo_prov demo_env] by blast
qed

subsection \<open>Where the code departs from its documentation\<close>

text \<open>
  An extraction pool with pasted URLs and no \<^verbatim>\<open>ip_pool\<close> section passes validation, which treats the URLs
  as a substitute for it, but \<^verbatim>\<open>New\<close> still builds an extraction pool from it, whose first refresh
  dereferences the missing section.
\<close>

theorem validated_ip_pool_panics:
  "\<exists>cfg pv. provider_ok cfg \<and> New_provider cfg = Inr pv \<and> Provider_Initial ev pv = Inl PanicNilDereference"
proof -
  let ?c = "demo_prov\<lparr>pc_Type := ''ip_pool''\<rparr>"
  have "provider_ok ?c" by (simp add: provider_ok_def demo_prov_def)
  moreover have "New_provider ?c = Inr (IPPool ?c)" by (simp add: New_provider_def)
  moreover have "Provider_Initial ev (IPPool ?c) = Inl PanicNilDereference" by (simp add: IPPool_Refresh_def demo_prov_def)
  ultimately show ?thesis by blast
qed

text \<open>
  The extraction pool de-duplicates on the text of the port, so \<^verbatim>\<open>1.1.1.1:80\<close> and \<^verbatim>\<open>1.1.1.1:080\<close> give two
  proxies with the same identifier.
\<close>

theorem ip_pool_duplicate_ids:
  "\<exists>ps. IPPool_Refresh demo_env (demo_prov\<lparr>pc_IPPool := Some demo_ipc\<rparr>) = Inr (Inr (Some ps)) \<and> \<not> distinct (map px_ID ps)"
proof -
  let ?c = "demo_prov\<lparr>pc_IPPool := Some demo_ipc\<rparr>"
  have s: "splitAddr ''1.1.1.1:80'' = Some (''1.1.1.1'', ''80'')" "splitAddr ''1.1.1.1:080'' = Some (''1.1.1.1'', ''080'')"
    by (simp_all add: splitAddr_def trim_space_def is_space_def has_prefix_def last_index_char_def)
  have a: "atoi ''80'' = Some 80" "atoi ''080'' = Some 80"
    by (simp_all add: atoi_def has_prefix_def is_digit_def digit_val_def MaxInt64_def)
  have "IPPool_Refresh demo_env ?c = Inr (Inr (Some (pool_loop ?c demo_ipc (expiry 0 60) 0 [] [''1.1.1.1:80'', ''1.1.1.1:080''])))"
    by (simp add: IPPool_Refresh_def demo_env_def fetch_body_def IPPool_parse_def pool_entries_def demo_ipc_def)
  moreover have "\<not> distinct (map px_ID (pool_loop ?c demo_ipc (expiry 0 60) 0 [] [''1.1.1.1:80'', ''1.1.1.1:080'']))"
    by (simp add: s a demo_ipc_def)
  ultimately show ?thesis by blast
qed

end
