(* ===== verification/Pool_Snapshot.thy ===== *)
theory Pool_Snapshot
  imports Proxy_Model Config_Model Go_Runtime
begin

section \<open>The pool and its scheduling snapshot (internal/pool/pool.go)\<close>

text \<open>
  The state of \<^verbatim>\<open>Pool\<close> and the construction of its immutable scheduling snapshot.

  Proxies are shared by pointer: the map \<^verbatim>\<open>proxies\<close>, the snapshot and its layers all hold
  \<^verbatim>\<open>*model.Proxy\<close>, and operations update proxies in place. The model has an explicit store:
  \<open>pl_heap\<close> maps an address to the proxy there, \<open>pl_brk\<close> is the first address not in use, and
  every other structure holds addresses. The critical sections of the code are the atomic steps.
  The callback \<^verbatim>\<open>stateSink\<close> is the log \<open>pl_sunk\<close> of the calls made to it while it is installed.
  The order of \<^verbatim>\<open>range\<close> loops over maps and random draws are read from \<open>pl_rng\<close>. Numbers of
  proxies are unbounded integers; weights and latencies are 64-bit and wrap.
\<close>

type_synonym addr = nat
type_synonym heap = "addr \<Rightarrow> Proxy"

record prioGroup =
  pg_priority :: int
  pg_start :: nat
  pg_end :: nat
  pg_aliveTotal :: int
  pg_aliveCount :: int
  pg_minRatio :: float64
  pg_cumW :: "int list"
  pg_totalW :: int

record layerSnap =
  ly_name :: string
  ly_proxies :: "addr list"
  ly_aliveTotal :: int
  ly_aliveCount :: int
  ly_minRatio :: float64
  ly_useSWRR :: bool
  ly_weight :: "int list"
  ly_cumW :: "int list"
  ly_totalW :: int
  ly_refLatency :: int

record groupSnap =
  gs_name :: string
  gs_layers :: "layerSnap list"

record Snapshot =
  sn_proxies :: "addr list"
  sn_prio :: "prioGroup list"
  sn_groups :: "groupSnap list"

record stickyEntry =
  se_proxyID :: string
  se_expireAt :: int

record Pool =
  pl_heap :: heap
  pl_brk :: addr
  pl_proxies :: "(string, addr) gomap"
  pl_snap :: Snapshot
  pl_seq :: "64 word"
  pl_sticky :: "(string, stickyEntry) gomap"
  pl_groupsCfg :: "GroupCfg list"
  pl_swrr :: "(string, int) gomap"
  pl_stateSink :: bool
  pl_sunk :: "(Proxy \<times> bool) list"
  pl_rng :: rng

definition empty_snapshot :: Snapshot where
  "empty_snapshot = \<lparr>sn_proxies = [], sn_prio = [], sn_groups = []\<rparr>"

definition NewPool :: "rng \<Rightarrow> Pool" where
  "NewPool r =
     \<lparr>pl_heap = (\<lambda>_. zero_proxy), pl_brk = 0, pl_proxies = [], pl_snap = empty_snapshot, pl_seq = 0,
      pl_sticky = [], pl_groupsCfg = [], pl_swrr = [], pl_stateSink = False, pl_sunk = [], pl_rng = r\<rparr>"

definition SetStateSink :: "bool \<Rightarrow> Pool \<Rightarrow> Pool" where
  "SetStateSink fn p = p\<lparr>pl_stateSink := fn\<rparr>"

definition notifyState :: "addr \<Rightarrow> bool \<Rightarrow> Pool \<Rightarrow> Pool" where
  "notifyState a removed p =
     (if pl_stateSink p then p\<lparr>pl_sunk := pl_sunk p @ [(pl_heap p a, removed)]\<rparr> else p)"

subsection \<open>Region filters\<close>

definition region_case :: "string \<Rightarrow> string \<Rightarrow> bool" where
  "region_case r country =
     (if r = ''domestic'' then country = ''CN''
      else if r = ''overseas'' then country \<noteq> ''CN''
      else equal_fold country r)"

definition regionMatches :: "string list \<Rightarrow> string \<Rightarrow> bool" where
  "regionMatches regions country =
     (if length regions = 0 then True else list_ex (\<lambda>r. region_case r country) regions)"

definition count_region :: "heap \<Rightarrow> string list \<Rightarrow> addr \<Rightarrow> (string, int) gomap \<Rightarrow> (string, int) gomap" where
  "count_region h regions a m =
     (if regionMatches regions (px_Country (h a))
      then mput (px_Provider (h a)) (mget0 0 m (px_Provider (h a)) + 1) m else m)"

definition collect_region ::
  "heap \<Rightarrow> string list \<Rightarrow> addr \<Rightarrow> (string, addr list) gomap \<Rightarrow> (string, addr list) gomap" where
  "collect_region h regions a m =
     (if regionMatches regions (px_Country (h a))
      then mput (px_Provider (h a)) (mget0 [] m (px_Provider (h a)) @ [a]) m else m)"

definition regionAggregates ::
  "heap \<Rightarrow> string list \<Rightarrow> addr list \<Rightarrow> addr list \<Rightarrow> (string, int) gomap \<times> (string, addr list) gomap" where
  "regionAggregates h regions all alive =
     (fold (count_region h regions) all [], fold (collect_region h regions) alive [])"

subsection \<open>Layers\<close>

definition layerRefLatency :: "heap \<Rightarrow> addr list \<Rightarrow> int" where
  "layerRefLatency h proxies =
     (let (sm, cnt) = fold (\<lambda>a (sm, cnt). let lat = px_LatencyMS (h a)
                              in if lat > 0 then (i64 (sm + lat), cnt + 1) else (sm, cnt))
                        proxies (0, 0)
      in if cnt = 0 then 0 else go_quot sm cnt)"

text \<open>One iteration of the loop over the proxies of a provider; a proxy already seen is skipped.\<close>

definition layer_visit :: "heap \<Rightarrow> addr \<Rightarrow> string list \<times> layerSnap \<Rightarrow> string list \<times> layerSnap" where
  "layer_visit h a s =
     (let (seen, l) = s; pr = h a
      in if px_ID pr \<in> set seen then s
         else (px_ID pr # seen,
               l\<lparr>ly_proxies := ly_proxies l @ [a],
                 ly_aliveCount := ly_aliveCount l + 1,
                 ly_useSWRR := (if px_Kind pr = KindTunnel then False else ly_useSWRR l)\<rparr>))"

fun layer_collect ::
  "heap \<Rightarrow> (string, addr list) gomap \<Rightarrow> (string, int) gomap \<Rightarrow> string list \<Rightarrow>
   string list \<times> layerSnap \<Rightarrow> string list \<times> layerSnap" where
  "layer_collect h aliveByProv totalByProv [] s = s"
| "layer_collect h aliveByProv totalByProv (pn # pns) (seen, l) =
     layer_collect h aliveByProv totalByProv pns
       (fold (layer_visit h) (mget0 [] aliveByProv pn)
          (seen, l\<lparr>ly_aliveTotal := ly_aliveTotal l + mget0 0 totalByProv pn\<rparr>))"

definition layer_weight :: "heap \<Rightarrow> (string, int) gomap \<Rightarrow> addr \<Rightarrow> int" where
  "layer_weight h weights a =
     (let pr = h a;
          w = (case mget weights (px_Provider pr) of
                 Some gw \<Rightarrow> if gw > 0 then i32 gw else px_Weight pr
               | None \<Rightarrow> px_Weight pr)
      in if w \<le> 0 then 1 else w)"

fun cum_weights :: "int \<Rightarrow> int list \<Rightarrow> int list" where
  "cum_weights acc [] = []"
| "cum_weights acc (w # ws) = i64 (acc + w) # cum_weights (i64 (acc + w)) ws"

definition sum_weights :: "int list \<Rightarrow> int" where
  "sum_weights ws = fold (\<lambda>w acc. i64 (acc + w)) ws 0"

definition zero_layer :: layerSnap where
  "zero_layer =
     \<lparr>ly_name = [], ly_proxies = [], ly_aliveTotal = 0, ly_aliveCount = 0, ly_minRatio = 0,
      ly_useSWRR = False, ly_weight = [], ly_cumW = [], ly_totalW = 0, ly_refLatency = 0\<rparr>"

definition buildLayer ::
  "heap \<Rightarrow> string \<Rightarrow> string list \<Rightarrow> (string, int) gomap \<Rightarrow> float64 \<Rightarrow>
   (string, addr list) gomap \<Rightarrow> (string, int) gomap \<Rightarrow> layerSnap" where
  "buildLayer h name providers weights minRatio aliveByProv totalByProv =
     (let l0 = zero_layer\<lparr>ly_name := name, ly_minRatio := minRatio, ly_useSWRR := True\<rparr>;
          l = snd (layer_collect h aliveByProv totalByProv providers ([], l0));
          ws = map (layer_weight h weights) (ly_proxies l)
      in l\<lparr>ly_weight := ws, ly_cumW := cum_weights 0 ws, ly_totalW := sum_weights ws,
           ly_refLatency := layerRefLatency h (ly_proxies l)\<rparr>)"

subsection \<open>Groups\<close>

definition buildGroup :: "heap \<Rightarrow> addr list \<Rightarrow> addr list \<Rightarrow> GroupCfg \<Rightarrow> groupSnap" where
  "buildGroup h all alive gc =
     (let (totalByProv, aliveByProv) = regionAggregates h (gc_Regions gc) all alive;
          primary = buildLayer h ''primary'' (gc_Primary gc) (gc_PrimaryWeights gc)
                      (gc_MinAliveRatio gc) aliveByProv totalByProv;
          backupProviders = concat (map bk_Providers (gc_Backups gc));
          backupMinRatio = (case gc_Backups gc of [] \<Rightarrow> 0 | b # _ \<Rightarrow> bk_MinAliveRatio b)
      in \<lparr>gs_name = gc_Name gc,
          gs_layers =
            (if length backupProviders > 0
             then [primary, buildLayer h ''backup'' backupProviders (gc_BackupWeights gc)
                              backupMinRatio aliveByProv totalByProv]
             else [primary])\<rparr>)"

definition buildGroups :: "Pool \<Rightarrow> addr list \<Rightarrow> rng \<Rightarrow> groupSnap list \<times> rng" where
  "buildGroups p alive r =
     (let (entries, r') = range_order (pl_proxies p) r
      in (map (buildGroup (pl_heap p) (map snd entries) alive) (pl_groupsCfg p), r'))"

subsection \<open>Legacy priority groups\<close>

record gStat =
  gst_total :: int
  gst_alive :: int
  gst_minRatio :: float64

definition scan_proxy ::
  "heap \<Rightarrow> addr \<Rightarrow> (int, gStat) gomap \<times> addr list \<Rightarrow> (int, gStat) gomap \<times> addr list" where
  "scan_proxy h a s =
     (let (stats, alive) = s; pr = h a;
          st0 = (case mget stats (px_Priority pr) of
                   None \<Rightarrow> \<lparr>gst_total = 0, gst_alive = 0, gst_minRatio = 1\<rparr> | Some st \<Rightarrow> st);
          st1 = st0\<lparr>gst_total := gst_total st0 + 1\<rparr>;
          st2 = (if px_MinAliveRatio pr < gst_minRatio st1
                 then st1\<lparr>gst_minRatio := px_MinAliveRatio pr\<rparr> else st1)
      in if px_Alive pr
         then (mput (px_Priority pr) (st2\<lparr>gst_alive := gst_alive st2 + 1\<rparr>) stats, alive @ [a])
         else (mput (px_Priority pr) st2 stats, alive))"

text \<open>
  \<^verbatim>\<open>sort.Slice\<close> with the comparison of \<^verbatim>\<open>buildPrioGroups\<close>: higher priority first, then the ID.
  Distinct proxies have distinct IDs, so the order is total and the sort has one result.
\<close>

definition prio_key :: "heap \<Rightarrow> addr \<Rightarrow> int \<times> string" where
  "prio_key h a = (- px_Priority (h a), px_ID (h a))"

text \<open>The loop over runs of equal priority; \<^verbatim>\<open>stats[prio]\<close> is dereferenced and must be present.\<close>

function prio_loop :: "heap \<Rightarrow> (int, gStat) gomap \<Rightarrow> nat \<Rightarrow> addr list \<Rightarrow> prioGroup list go" where
  "prio_loop h stats i [] = Inr []"
| "prio_loop h stats i (a # as) =
     (let prio = px_Priority (h a);
          run = takeWhile (\<lambda>b. px_Priority (h b) = prio) (a # as);
          rest = dropWhile (\<lambda>b. px_Priority (h b) = prio) (a # as);
          ws = map (\<lambda>b. px_Weight (h b)) run
      in case mget stats prio of
           None \<Rightarrow> Inl PanicNilDereference
         | Some st \<Rightarrow>
             bindE (prio_loop h stats (i + length run) rest) (\<lambda>gs. Inr (
               \<lparr>pg_priority = prio, pg_start = i, pg_end = i + length run,
                pg_aliveTotal = gst_total st, pg_aliveCount = gst_alive st,
                pg_minRatio = gst_minRatio st,
                pg_cumW = cum_weights 0 ws, pg_totalW = sum_weights ws\<rparr> # gs)))"
  by pat_completeness auto
termination
  by (relation "measure (\<lambda>(h, stats, i, as). length as)") (auto simp: less_Suc_eq_le length_dropWhile_le)

definition buildPrioGroups ::
  "heap \<Rightarrow> addr list \<Rightarrow> (int, gStat) gomap \<Rightarrow> (addr list \<times> prioGroup list) go" where
  "buildPrioGroups h alive stats =
     (let sorted_alive = sort_key (prio_key h) alive
      in bindE (prio_loop h stats 0 sorted_alive) (\<lambda>gs. Inr (sorted_alive, gs)))"

subsection \<open>Rebuild\<close>

text \<open>\<^verbatim>\<open>buildPrioGroups\<close> sorts the slice that the new snapshot holds, so the snapshot sees the sorted order.\<close>

definition Rebuild :: "Pool \<Rightarrow> Pool go" where
  "Rebuild p =
     (let (entries, r1) = range_order (pl_proxies p) (pl_rng p);
          (stats, alive) = fold (scan_proxy (pl_heap p)) (map snd entries) ([], [])
      in if length (pl_groupsCfg p) > 0 then
           let (gs, r2) = buildGroups p alive r1
           in Inr (p\<lparr>pl_snap := \<lparr>sn_proxies = alive, sn_prio = [], sn_groups = gs\<rparr>,
                     pl_seq := pl_seq p + 1, pl_rng := r2\<rparr>)
         else
           bindE (buildPrioGroups (pl_heap p) alive stats) (\<lambda>(sorted_alive, prio).
             Inr (p\<lparr>pl_snap := \<lparr>sn_proxies = sorted_alive, sn_prio = prio, sn_groups = []\<rparr>,
                    pl_seq := pl_seq p + 1, pl_rng := r1\<rparr>)))"

definition SetGroups :: "GroupCfg list \<Rightarrow> Pool \<Rightarrow> Pool go" where
  "SetGroups cfg p = Rebuild (p\<lparr>pl_groupsCfg := cfg\<rparr>)"

subsection \<open>Cumulative weights\<close>

text \<open>
  Weights as the builders produce them: positive \<^verbatim>\<open>int32\<close> values, at most \<open>2 ^ 32\<close> of them. Their
  sum fits into an \<^verbatim>\<open>int64\<close>, so the accumulators do not wrap.
\<close>

definition weights_ok :: "int list \<Rightarrow> bool" where
  "weights_ok ws \<longleftrightarrow> list_all (\<lambda>w. 1 \<le> w \<and> w \<le> MaxInt32) ws \<and> length ws \<le> 4294967296"

lemma weights_ok_sum: "weights_ok ws \<Longrightarrow> sum_list ws \<le> MaxInt64 \<and> int (length ws) \<le> sum_list ws"
proof -
  assume ok: "weights_ok ws"
  have "list_all (\<lambda>w. 1 \<le> w \<and> w \<le> MaxInt32) xs \<Longrightarrow>
      sum_list xs \<le> int (length xs) * MaxInt32 \<and> int (length xs) \<le> sum_list xs" for xs
    by (induction xs) (auto simp: algebra_simps)
  with ok have *: "sum_list ws \<le> int (length ws) * MaxInt32" "int (length ws) \<le> sum_list ws"
    by (auto simp: weights_ok_def)
  have "int (length ws) * MaxInt32 \<le> 4294967296 * MaxInt32"
    using ok by (simp add: weights_ok_def MaxInt32_def)
  with * show ?thesis by (simp add: MaxInt32_def MaxInt64_def)
qed

lemma sum_weights_acc:
  "0 \<le> acc \<Longrightarrow> list_all (\<lambda>w. 1 \<le> w) ws \<Longrightarrow> acc + sum_list ws \<le> MaxInt64 \<Longrightarrow>
     fold (\<lambda>w acc. i64 (acc + w)) ws acc = acc + sum_list ws"
proof (induction ws arbitrary: acc)
  case (Cons w ws)
  then have "0 \<le> sum_list ws" by (auto simp: list_all_iff intro!: sum_list_nonneg)
  with Cons.prems have "i64 (acc + w) = acc + w"
    by (intro i64_id) (auto simp: MinInt64_def)
  with Cons show ?case by (simp add: add.assoc)
qed simp

lemma cum_weights_acc:
  "0 \<le> acc \<Longrightarrow> list_all (\<lambda>w. 1 \<le> w) ws \<Longrightarrow> acc + sum_list ws \<le> MaxInt64 \<Longrightarrow>
     cum_weights acc ws = map (\<lambda>k. acc + sum_list (take (Suc k) ws)) [0..<length ws]"
proof (induction ws arbitrary: acc)
  case (Cons w ws)
  then have "0 \<le> sum_list ws" by (auto simp: list_all_iff intro!: sum_list_nonneg)
  with Cons.prems have "i64 (acc + w) = acc + w"
    by (intro i64_id) (auto simp: MinInt64_def)
  moreover have "[0..<length (w # ws)] = 0 # map Suc [0..<length ws]"
    by (simp add: map_Suc_upt upt_conv_Cons del: upt_Suc)
  ultimately show ?case
    using Cons by (simp add: add.assoc o_def del: upt_Suc)
qed simp

lemma length_cum_weights [simp]: "length (cum_weights acc ws) = length ws"
  by (induction ws arbitrary: acc) auto

lemma weights_ok_pos: "weights_ok ws \<Longrightarrow> list_all (\<lambda>w. 1 \<le> w) ws"
  by (auto simp: weights_ok_def list_all_iff)

lemma sum_weights_eq: "weights_ok ws \<Longrightarrow> sum_weights ws = sum_list ws"
  using sum_weights_acc [of 0 ws] weights_ok_sum weights_ok_pos by (simp add: sum_weights_def)

lemma nth_cum_weights:
  "weights_ok ws \<Longrightarrow> k < length ws \<Longrightarrow> cum_weights 0 ws ! k = sum_list (take (Suc k) ws)"
  using cum_weights_acc [of 0 ws] weights_ok_sum weights_ok_pos by simp

lemma sum_list_take_mono:
  "list_all (\<lambda>w. 1 \<le> w) ws \<Longrightarrow> i \<le> j \<Longrightarrow> sum_list (take i ws) \<le> sum_list (take j (ws :: int list))"
proof -
  assume pos: "list_all (\<lambda>w. 1 \<le> w) ws" and ij: "i \<le> j"
  have "take j ws = take i ws @ take (j - i) (drop i ws)"
    using ij by (metis le_add_diff_inverse take_add)
  moreover have "0 \<le> sum_list (take (j - i) (drop i ws))"
    using pos by (intro sum_list_nonneg) (force simp: list_all_iff dest!: in_set_takeD in_set_dropD)
  ultimately show ?thesis by simp
qed

lemma sorted_cum_weights: "weights_ok ws \<Longrightarrow> sorted (cum_weights 0 ws)"
  by (simp add: sorted_iff_nth_mono nth_cum_weights sum_list_take_mono weights_ok_pos)

lemma last_cum_weights: "weights_ok ws \<Longrightarrow> ws \<noteq> [] \<Longrightarrow> last (cum_weights 0 ws) = sum_list ws"
  by (subst last_conv_nth) (auto simp: nth_cum_weights dest: arg_cong [where f = length])

subsection \<open>Region filters and aggregates\<close>

lemma mget0_count_region:
  "mget0 0 (fold (count_region h R) as m) pn =
     mget0 0 m pn + int (length (filter (\<lambda>a. regionMatches R (px_Country (h a)) \<and> px_Provider (h a) = pn) as))"
  by (induction as arbitrary: m) (auto simp: count_region_def)

lemma mget0_collect_region:
  "mget0 [] (fold (collect_region h R) as m) pn =
     mget0 [] m pn @ filter (\<lambda>a. regionMatches R (px_Country (h a)) \<and> px_Provider (h a) = pn) as"
  by (induction as arbitrary: m) (auto simp: collect_region_def)

lemma mget0_Nil [simp]: "mget0 z [] k = z"
  by (simp add: mget0_def)

lemma regionMatches_domestic_overseas:
  "regionMatches [''domestic''] c \<longleftrightarrow> \<not> regionMatches [''overseas''] c"
  by (simp add: regionMatches_def region_case_def)

subsection \<open>Layers\<close>

text \<open>What the collecting loop keeps: the IDs seen are those of the proxies taken, each once.\<close>

definition layer_inv :: "heap \<Rightarrow> string list \<times> layerSnap \<Rightarrow> bool" where
  "layer_inv h s \<longleftrightarrow>
     (let (seen, l) = s
      in set seen = (\<lambda>a. px_ID (h a)) ` set (ly_proxies l) \<and>
         distinct (map (\<lambda>a. px_ID (h a)) (ly_proxies l)) \<and>
         ly_aliveCount l = int (length (ly_proxies l)) \<and>
         (ly_useSWRR l \<longleftrightarrow> (\<forall>a \<in> set (ly_proxies l). px_Kind (h a) \<noteq> KindTunnel)))"

lemma layer_visit_inv: "layer_inv h s \<Longrightarrow> layer_inv h (layer_visit h a s)"
  by (cases s) (auto simp: layer_inv_def layer_visit_def Let_def)

lemma layer_visits_inv: "layer_inv h s \<Longrightarrow> layer_inv h (fold (layer_visit h) as s)"
  by (induction as arbitrary: s) (simp_all add: layer_visit_inv)

lemma layer_visits_frame:
  "ly_aliveTotal (snd (fold (layer_visit h) as s)) = ly_aliveTotal (snd s)"
  "ly_minRatio (snd (fold (layer_visit h) as s)) = ly_minRatio (snd s)"
  "ly_name (snd (fold (layer_visit h) as s)) = ly_name (snd s)"
  by (induction as arbitrary: s) (auto simp: layer_visit_def Let_def split: prod.splits if_splits)

lemma layer_visits_proxies:
  assumes "layer_inv h s" "inj_on (\<lambda>a. px_ID (h a)) (set (ly_proxies (snd s)) \<union> set as)"
  shows "set (ly_proxies (snd (fold (layer_visit h) as s))) = set (ly_proxies (snd s)) \<union> set as"
  using assms
proof (induction as arbitrary: s)
  case (Cons a as)
  obtain seen l where s: "s = (seen, l)" by (cases s)
  have in_seen: "px_ID (h a) \<in> set seen \<longleftrightarrow> a \<in> set (ly_proxies l)"
    using Cons.prems by (auto simp: s layer_inv_def inj_on_def)
  have step: "set (ly_proxies (snd (layer_visit h a s))) = insert a (set (ly_proxies l))"
    using in_seen by (auto simp: layer_visit_def s Let_def)
  have "set (ly_proxies (snd (fold (layer_visit h) as (layer_visit h a s)))) =
      set (ly_proxies (snd (layer_visit h a s))) \<union> set as"
    using Cons.prems step by (intro Cons.IH layer_visit_inv) (simp_all add: s)
  then show ?case using step by (simp add: s)
qed simp

lemma layer_collect_inv: "layer_inv h s \<Longrightarrow> layer_inv h (layer_collect h A T pns s)"
proof (induction h A T pns s rule: layer_collect.induct)
  case (2 h A T pn pns seen l)
  have "layer_inv h (seen, l\<lparr>ly_aliveTotal := ly_aliveTotal l + mget0 0 T pn\<rparr>)"
    using 2(2) by (simp add: layer_inv_def)
  then show ?case
    using 2(1) by (simp add: layer_visits_inv)
qed simp

lemma layer_collect_frame:
  "ly_aliveTotal (snd (layer_collect h A T pns s)) =
     ly_aliveTotal (snd s) + (\<Sum>pn \<leftarrow> pns. mget0 0 T pn)"
  "ly_minRatio (snd (layer_collect h A T pns s)) = ly_minRatio (snd s)"
  "ly_name (snd (layer_collect h A T pns s)) = ly_name (snd s)"
  by (induction h A T pns s rule: layer_collect.induct) (auto simp: layer_visits_frame)

lemma layer_collect_proxies:
  assumes "layer_inv h s"
    and "inj_on (\<lambda>a. px_ID (h a)) (set (ly_proxies (snd s)) \<union> (\<Union>pn \<in> set pns. set (mget0 [] A pn)))"
  shows "set (ly_proxies (snd (layer_collect h A T pns s))) =
    set (ly_proxies (snd s)) \<union> (\<Union>pn \<in> set pns. set (mget0 [] A pn))"
  using assms
proof (induction h A T pns s rule: layer_collect.induct)
  case (2 h A T pn pns seen l)
  let ?s = "(seen, l\<lparr>ly_aliveTotal := ly_aliveTotal l + mget0 0 T pn\<rparr>)"
  have inv: "layer_inv h ?s" using 2(2) by (simp add: layer_inv_def)
  have *: "set (ly_proxies (snd (fold (layer_visit h) (mget0 [] A pn) ?s))) =
      set (ly_proxies l) \<union> set (mget0 [] A pn)"
    using 2(3) by (subst layer_visits_proxies [OF inv]) (auto intro: inj_on_subset)
  have "layer_inv h (fold (layer_visit h) (mget0 [] A pn) ?s)"
    using inv by (rule layer_visits_inv)
  from 2(1) [OF this] 2(3) show ?case
    by (simp add: * Un_assoc)
qed simp

text \<open>A layer as the selection code relies on it; \<open>idf\<close> gives the ID at an address.\<close>

definition layer_wf :: "(addr \<Rightarrow> string) \<Rightarrow> layerSnap \<Rightarrow> bool" where
  "layer_wf idf l \<longleftrightarrow>
     distinct (map idf (ly_proxies l)) \<and>
     ly_aliveCount l = int (length (ly_proxies l)) \<and> ly_aliveCount l \<le> ly_aliveTotal l \<and>
     length (ly_weight l) = length (ly_proxies l) \<and> weights_ok (ly_weight l) \<and>
     ly_cumW l = cum_weights 0 (ly_weight l) \<and> ly_totalW l = sum_weights (ly_weight l)"

lemma layer_weight_range:
  "px_Weight (h a) \<le> MaxInt32 \<Longrightarrow> 1 \<le> layer_weight h weights a \<and> layer_weight h weights a \<le> MaxInt32"
  using i32_range by (auto simp: layer_weight_def Let_def MaxInt32_def split: option.split)

lemma zero_layer_inv: "layer_inv h ([], zero_layer\<lparr>ly_name := n, ly_minRatio := m, ly_useSWRR := True\<rparr>)"
  by (simp add: layer_inv_def zero_layer_def)

lemma buildLayer_frame:
  fixes h n pns W m A T
  defines "l \<equiv> buildLayer h n pns W m A T"
  shows "ly_name l = n" "ly_minRatio l = m" "ly_aliveTotal l = (\<Sum>pn \<leftarrow> pns. mget0 0 T pn)"
    "ly_weight l = map (layer_weight h W) (ly_proxies l)"
    "ly_useSWRR l \<longleftrightarrow> (\<forall>a \<in> set (ly_proxies l). px_Kind (h a) \<noteq> KindTunnel)"
    "distinct (map (\<lambda>a. px_ID (h a)) (ly_proxies l))"
    "ly_aliveCount l = int (length (ly_proxies l))"
  using layer_collect_inv [OF zero_layer_inv [where h = h and n = n and m = m], where A = A and T = T and pns = pns]
  by (simp_all add: l_def buildLayer_def Let_def layer_collect_frame zero_layer_def layer_inv_def
      split: prod.splits)

lemma buildLayer_proxies:
  assumes "inj_on (\<lambda>a. px_ID (h a)) (\<Union>pn \<in> set pns. set (mget0 [] A pn))"
  shows "set (ly_proxies (buildLayer h n pns W m A T)) = (\<Union>pn \<in> set pns. set (mget0 [] A pn))"
  using layer_collect_proxies [OF zero_layer_inv [where h = h and n = n and m = m], where A = A and T = T and pns = pns] assms
  by (simp add: buildLayer_def Let_def zero_layer_def)

lemma buildLayer_wf:
  assumes inj: "inj_on (\<lambda>a. px_ID (h a)) (\<Union>pn \<in> set pns. set (mget0 [] A pn))"
    and w: "\<And>pn a. pn \<in> set pns \<Longrightarrow> a \<in> set (mget0 [] A pn) \<Longrightarrow> px_Weight (h a) \<le> MaxInt32"
    and total: "\<And>pn. pn \<in> set pns \<Longrightarrow> int (length (mget0 [] A pn)) \<le> mget0 0 T pn"
    and len: "length (ly_proxies (buildLayer h n pns W m A T)) \<le> 4294967296"
  shows "layer_wf (\<lambda>a. px_ID (h a)) (buildLayer h n pns W m A T)"
proof -
  let ?l = "buildLayer h n pns W m A T"
  have "list_all (\<lambda>w. 1 \<le> w \<and> w \<le> MaxInt32) (ly_weight ?l)"
    using buildLayer_proxies [OF inj, of n W m T] w layer_weight_range [of h]
    by (auto simp: list_all_iff buildLayer_frame(4))
  then have "weights_ok (ly_weight ?l)"
    using len by (simp add: weights_ok_def buildLayer_frame(4))
  moreover have "int (length (ly_proxies ?l)) \<le> ly_aliveTotal ?l"
  proof -
    have "distinct (ly_proxies ?l)"
      using buildLayer_frame(6) [of h n pns W m A T] by (simp add: distinct_map)
    then have "length (ly_proxies ?l) = card (set (concat (map (mget0 [] A) pns)))"
      using buildLayer_proxies [OF inj, of n W m T] by (simp flip: distinct_card)
    also have "\<dots> \<le> (\<Sum>pn \<leftarrow> pns. length (mget0 [] A pn))"
      using card_length [of "concat (map (mget0 [] A) pns)"] by (simp add: length_concat o_def)
    finally have "int (length (ly_proxies ?l)) \<le> int (\<Sum>pn \<leftarrow> pns. length (mget0 [] A pn))"
      by (simp only: of_nat_le_iff)
    also have "\<dots> = (\<Sum>pn \<leftarrow> pns. int (length (mget0 [] A pn)))"
      by (induction pns) simp_all
    also have "\<dots> \<le> (\<Sum>pn \<leftarrow> pns. mget0 0 T pn)"
      by (intro sum_list_mono total)
    finally show ?thesis by (simp add: buildLayer_frame(3))
  qed
  ultimately show ?thesis
    using buildLayer_frame(6,7) [of h n pns W m A T]
    by (simp add: layer_wf_def) (simp add: buildLayer_def Let_def)
qed

end
