(* ===== verification/Pool_Rebuild.thy ===== *)
theory Pool_Rebuild
  imports Pool_Snapshot
begin

section \<open>What a rebuild produces\<close>

text \<open>
  Facts on \<^verbatim>\<open>Pool.Rebuild\<close>: the statistics and the list of alive proxies it scans, the runs of
  equal priority of the legacy mode, the layers of the group mode, the absence of panics, and the
  well-formedness of the snapshot that the selection code relies on.
\<close>

subsection \<open>The scan\<close>

lemma scan_alive:
  "snd (fold (scan_proxy h) as s) = snd s @ filter (\<lambda>a. px_Alive (h a)) as"
  by (induction as arbitrary: s) (auto simp: scan_proxy_def Let_def split: prod.splits)

text \<open>The statistics of one priority, read off the list of all proxies.\<close>

definition gstat_of :: "heap \<Rightarrow> addr list \<Rightarrow> int \<Rightarrow> gStat option" where
  "gstat_of h as prio =
     (let xs = filter (\<lambda>a. px_Priority (h a) = prio) as
      in if xs = [] then None
         else Some \<lparr>gst_total = int (length xs),
                    gst_alive = int (length (filter (\<lambda>a. px_Alive (h a)) xs)),
                    gst_minRatio = fold min (map (\<lambda>a. px_MinAliveRatio (h a)) xs) 1\<rparr>)"

lemma gstat_of_snoc:
  "gstat_of h (as @ [a]) prio =
     (if px_Priority (h a) = prio then
        Some (case gstat_of h as prio of
                None \<Rightarrow> \<lparr>gst_total = 1, gst_alive = (if px_Alive (h a) then 1 else 0),
                          gst_minRatio = min (px_MinAliveRatio (h a)) 1\<rparr>
              | Some st \<Rightarrow> \<lparr>gst_total = gst_total st + 1,
                             gst_alive = (if px_Alive (h a) then gst_alive st + 1 else gst_alive st),
                             gst_minRatio = min (px_MinAliveRatio (h a)) (gst_minRatio st)\<rparr>)
      else gstat_of h as prio)"
  by (auto simp: gstat_of_def Let_def filter_empty_conv)

lemma scan_stats:
  "mget (fst (fold (scan_proxy h) as ([], []))) prio = gstat_of h as prio"
proof (induction as arbitrary: prio rule: rev_induct)
  case Nil
  then show ?case by (simp add: gstat_of_def)
next
  case (snoc a as)
  obtain stats alive where s: "fold (scan_proxy h) as ([], []) = (stats, alive)"
    by (cases "fold (scan_proxy h) as ([], [])")
  have st: "mget stats q = gstat_of h as q" for q
    using snoc.IH [of q] by (simp add: s)
  have step: "fold (scan_proxy h) (as @ [a]) ([], []) = scan_proxy h a (stats, alive)"
    by (simp add: s)
  show ?case
    unfolding step gstat_of_snoc
    by (cases "gstat_of h as (px_Priority (h a))")
      (auto simp: scan_proxy_def Let_def st min_def)
qed

subsection \<open>Runs of equal priority\<close>

text \<open>
  What one legacy group records: the run of the sorted list it covers, the cumulative weights of
  that run and the statistics of its priority.
\<close>

definition prio_spec :: "heap \<Rightarrow> (int, gStat) gomap \<Rightarrow> nat \<Rightarrow> addr list \<Rightarrow> prioGroup \<Rightarrow> bool" where
  "prio_spec h stats i as g \<longleftrightarrow>
     (let run = filter (\<lambda>a. px_Priority (h a) = pg_priority g) as; ws = map (\<lambda>a. px_Weight (h a)) run
      in run \<noteq> [] \<and> i \<le> pg_start g \<and> pg_end g = pg_start g + length run \<and>
         take (length run) (drop (pg_start g - i) as) = run \<and>
         pg_cumW g = cum_weights 0 ws \<and> pg_totalW g = sum_weights ws \<and>
         mget stats (pg_priority g) =
           Some \<lparr>gst_total = pg_aliveTotal g, gst_alive = pg_aliveCount g, gst_minRatio = pg_minRatio g\<rparr>)"

lemma takeWhile_run:
  assumes "sorted_wrt (\<lambda>a b. f b \<le> f a) (a # as)"
  shows "takeWhile (\<lambda>b. f b = f a) (a # as) = filter (\<lambda>b. f b = (f a :: int)) (a # as)"
proof -
  have "takeWhile (\<lambda>b. f b = c) xs = filter (\<lambda>b. f b = c) xs"
    if "sorted_wrt (\<lambda>a b. f b \<le> f a) xs" "\<forall>b \<in> set xs. f b \<le> c" for xs c
    using that
  proof (induction xs)
    case (Cons x xs)
    show ?case
    proof (cases "f x = c")
      case False
      with Cons.prems have "\<forall>b \<in> set xs. f b < c" by fastforce
      then have "filter (\<lambda>b. f b = c) xs = []" by (auto simp: filter_empty_conv)
      with False show ?thesis by simp
    qed (use Cons in simp)
  qed simp
  from this [OF assms, of "f a"] assms show ?thesis by simp
qed

lemma prio_spec_shift:
  assumes spec: "prio_spec h stats (i + n) rest g" and n: "length run = n"
    and out: "\<forall>b \<in> set run. px_Priority (h b) \<noteq> pg_priority g"
  shows "prio_spec h stats i (run @ rest) g"
proof -
  have "filter (\<lambda>a. px_Priority (h a) = pg_priority g) (run @ rest) =
      filter (\<lambda>a. px_Priority (h a) = pg_priority g) rest"
    using out by (simp add: filter_empty_conv)
  moreover have "drop (pg_start g - i) (run @ rest) = drop (pg_start g - (i + n)) rest" if "i + n \<le> pg_start g"
    using n that by simp
  ultimately show ?thesis
    using spec by (simp add: prio_spec_def Let_def)
qed

lemma prio_loop_spec:
  assumes "sorted_wrt (\<lambda>a b. px_Priority (h b) \<le> px_Priority (h a)) as"
    and "\<And>a. a \<in> set as \<Longrightarrow> mget stats (px_Priority (h a)) \<noteq> None"
  shows "\<exists>gs. prio_loop h stats i as = Inr gs \<and> list_all (prio_spec h stats i as) gs \<and>
    sorted_wrt (>) (map pg_priority gs) \<and> set (map pg_priority gs) = (\<lambda>a. px_Priority (h a)) ` set as"
  using assms
proof (induction h stats i as rule: prio_loop.induct)
  case (2 h stats i a as)
  let ?p = "px_Priority (h a)"
  let ?P = "\<lambda>b. px_Priority (h b) = ?p"
  define run rest where run: "run = takeWhile ?P (a # as)" and rest: "rest = dropWhile ?P (a # as)"
  have split: "a # as = run @ rest" by (simp only: run rest takeWhile_dropWhile_id)
  have run_f: "run = filter ?P (a # as)"
    using takeWhile_run [OF 2(2)] by (simp add: run)
  have run_ne: "run \<noteq> []" by (simp add: run)
  have all: "\<forall>b \<in> set run. px_Priority (h b) = ?p"
    unfolding run_f by simp
  have "filter ?P (run @ rest) = run"
    using run_f split by simp
  then have "filter ?P rest = []"
    using all by (simp add: filter_True)
  then have no: "\<forall>b \<in> set rest. px_Priority (h b) \<noteq> ?p"
    by (simp add: filter_empty_conv)
  have "\<forall>b \<in> set (run @ rest). px_Priority (h b) \<le> ?p"
    using 2(2) unfolding split [symmetric] by simp
  with no have less: "\<forall>b \<in> set rest. px_Priority (h b) < ?p"
    by (simp add: order.strict_iff_order)
  obtain st where st: "mget stats ?p = Some st"
    using 2(3) [of a] by auto
  have "sorted_wrt (\<lambda>a b. px_Priority (h b) \<le> px_Priority (h a)) rest"
    using 2(2) unfolding split by (simp add: sorted_wrt_append)
  moreover have "mget stats (px_Priority (h b)) \<noteq> None" if "b \<in> set rest" for b
    using 2(3) [of b] that unfolding split by simp
  ultimately obtain gs where gs: "prio_loop h stats (i + length run) rest = Inr gs"
    and spec: "list_all (prio_spec h stats (i + length run) rest) gs"
    and sorted: "sorted_wrt (>) (map pg_priority gs)"
    and prios: "set (map pg_priority gs) = (\<lambda>a. px_Priority (h a)) ` set rest"
    using 2(1) [OF refl run rest refl st] by auto
  define g where "g = \<lparr>pg_priority = ?p, pg_start = i, pg_end = i + length run,
      pg_aliveTotal = gst_total st, pg_aliveCount = gst_alive st, pg_minRatio = gst_minRatio st,
      pg_cumW = cum_weights 0 (map (\<lambda>b. px_Weight (h b)) run),
      pg_totalW = sum_weights (map (\<lambda>b. px_Weight (h b)) run)\<rparr>"
  have loop: "prio_loop h stats i (a # as) = Inr (g # gs)"
    unfolding g_def by (simp only: prio_loop.simps Let_def run [symmetric] rest [symmetric] st option.case gs bindE.simps)
  have "prio_spec h stats i (run @ rest) g"
    using run_ne st all no by (simp add: prio_spec_def g_def Let_def filter_True)
  moreover have "prio_spec h stats i (run @ rest) g'" if "g' \<in> set gs" for g'
  proof (rule prio_spec_shift [OF _ refl])
    show "prio_spec h stats (i + length run) rest g'" using spec that by (simp add: list_all_iff)
    have "pg_priority g' < ?p" using prios that less by force
    then show "\<forall>b \<in> set run. px_Priority (h b) \<noteq> pg_priority g'" using all by auto
  qed
  moreover have "sorted_wrt (>) (map pg_priority (g # gs))"
    using sorted prios less by (auto simp: g_def)
  moreover have "set (map pg_priority (g # gs)) = (\<lambda>a. px_Priority (h a)) ` set (run @ rest)"
    using prios all run_ne by (auto simp: g_def image_Un) (metis image_eqI list.set_sel(1))
  ultimately show ?case
    using loop unfolding split by (auto simp: list_all_iff)
qed simp

text \<open>The loop reads the statistics only through lookups.\<close>

lemma prio_loop_cong: "(\<And>q. mget s q = mget s' q) \<Longrightarrow> prio_loop h s i as = prio_loop h s' i as"
  by (induction h s i as rule: prio_loop.induct) (simp_all add: Let_def split: option.split)

subsection \<open>Order of iteration\<close>

lemma gstat_of_perm: "mset as = mset bs \<Longrightarrow> gstat_of h as prio = gstat_of h bs prio"
proof -
  assume eq: "mset as = mset bs"
  let ?f = "filter (\<lambda>a. px_Priority (h a) = prio)" and ?r = "\<lambda>a. px_MinAliveRatio (h a)"
  have m: "mset (?f as) = mset (?f bs)" using eq by simp
  then have s: "set (?f as) = set (?f bs)" by (metis set_mset_mset)
  have "length (?f as) = length (?f bs)" using m by (metis size_mset)
  moreover have "length (filter (\<lambda>a. px_Alive (h a)) (?f as)) = length (filter (\<lambda>a. px_Alive (h a)) (?f bs))"
    using m by (metis mset_filter size_mset)
  moreover have "fold min (map ?r (?f as)) 1 = fold min (map ?r (?f bs)) 1"
    using s by (simp only: Min.set_eq_fold [symmetric] list.set set_map)
  ultimately show ?thesis
    by (auto simp: gstat_of_def Let_def)
qed

lemma sort_prio_perm:
  assumes "mset as = mset bs" "distinct (map (\<lambda>a. px_ID (h a)) as)"
  shows "sort_key (prio_key h) as = sort_key (prio_key h) bs"
proof (rule map_sorted_distinct_set_unique [where f = "prio_key h"])
  have s: "set as = set bs" using assms(1) by (metis set_mset_mset)
  have inj: "inj_on (prio_key h) (set as)"
    using assms(2) by (auto simp: distinct_map inj_on_def prio_key_def)
  then show "inj_on (prio_key h) (set (sort_key (prio_key h) as) \<union> set (sort_key (prio_key h) bs))"
    using s by simp
  have "distinct as" using assms(2) by (simp add: distinct_map)
  moreover from this have "distinct bs" using assms(1) by (metis mset_eq_imp_distinct_iff)
  ultimately show "distinct (map (prio_key h) (sort_key (prio_key h) as))"
      "distinct (map (prio_key h) (sort_key (prio_key h) bs))"
    using inj s by (simp_all add: distinct_map)
  show "set (sort_key (prio_key h) as) = set (sort_key (prio_key h) bs)" using s by simp
qed (simp_all add: sorted_sort_key)

lemma sort_prio_sorted:
  "sorted_wrt (\<lambda>a b. px_Priority (h b) \<le> px_Priority (h a)) (sort_key (prio_key h) as)"
proof -
  have "sorted (map (prio_key h) (sort_key (prio_key h) as))" by (rule sorted_sort_key)
  then have "sorted_wrt (\<lambda>a b. prio_key h a \<le> prio_key h b) (sort_key (prio_key h) as)"
    by (simp add: sorted_map)
  then show ?thesis
    by (rule sorted_wrt_mono_rel [rotated]) (auto simp: prio_key_def)
qed

subsection \<open>The pool's registry\<close>

text \<open>
  The registered proxies and the invariant of the registry: distinct keys, every entry below the
  allocation mark, under its own ID, with a positive \<^verbatim>\<open>int32\<close> weight, and at most \<open>2 ^ 32\<close> entries.
\<close>

definition registered :: "Pool \<Rightarrow> addr list" where
  "registered p = map snd (pl_proxies p)"

definition id_of :: "Pool \<Rightarrow> addr \<Rightarrow> string" where
  "id_of p a = px_ID (pl_heap p a)"

definition registry_wf :: "Pool \<Rightarrow> bool" where
  "registry_wf p \<longleftrightarrow>
     mwf (pl_proxies p) \<and> length (pl_proxies p) \<le> 4294967296 \<and>
     list_all (\<lambda>(k, a). a < pl_brk p \<and> id_of p a = k \<and>
                 1 \<le> px_Weight (pl_heap p a) \<and> px_Weight (pl_heap p a) \<le> MaxInt32) (pl_proxies p)"

definition live :: "Pool \<Rightarrow> addr list" where
  "live p = filter (\<lambda>a. px_Alive (pl_heap p a)) (registered p)"

lemma registry_ids: "registry_wf p \<Longrightarrow> map (id_of p) (registered p) = mkeys (pl_proxies p)"
  by (auto simp: registry_wf_def registered_def mkeys_def list_all_iff)

lemma registry_distinct:
  "registry_wf p \<Longrightarrow> distinct (map (id_of p) (registered p))"
  using registry_ids [of p] by (simp add: registry_wf_def mwf_def)

lemma registry_inj: "registry_wf p \<Longrightarrow> inj_on (id_of p) (set (registered p))"
  using registry_distinct by (simp add: distinct_map)

lemma registry_mget:
  "registry_wf p \<Longrightarrow> mget (pl_proxies p) k = Some a \<longleftrightarrow> a \<in> set (registered p) \<and> id_of p a = k"
  by (force simp: registry_wf_def registered_def mwf_mget list_all_iff)

lemma registry_weight:
  "registry_wf p \<Longrightarrow> a \<in> set (registered p) \<Longrightarrow>
     1 \<le> px_Weight (pl_heap p a) \<and> px_Weight (pl_heap p a) \<le> MaxInt32 \<and> a < pl_brk p"
  by (auto simp: registry_wf_def registered_def list_all_iff)

lemma length_registered: "length (registered p) = length (pl_proxies p)"
  by (simp add: registered_def)

subsection \<open>Well-formed snapshots\<close>

definition prio_group_wf :: "nat \<Rightarrow> prioGroup \<Rightarrow> bool" where
  "prio_group_wf n g \<longleftrightarrow>
     pg_cumW g \<noteq> [] \<and> sorted (pg_cumW g) \<and> last (pg_cumW g) = pg_totalW g \<and> 0 < pg_totalW g \<and>
     pg_end g = pg_start g + length (pg_cumW g) \<and> pg_end g \<le> n \<and>
     pg_aliveCount g = int (length (pg_cumW g)) \<and> pg_aliveCount g \<le> pg_aliveTotal g"

definition snap_wf :: "(addr \<Rightarrow> string) \<Rightarrow> Snapshot \<Rightarrow> bool" where
  "snap_wf idf s \<longleftrightarrow>
     distinct (sn_proxies s) \<and>
     list_all (prio_group_wf (length (sn_proxies s))) (sn_prio s) \<and>
     list_all (\<lambda>g. list_all (\<lambda>l. layer_wf idf l \<and> set (ly_proxies l) \<subseteq> set (sn_proxies s)) (gs_layers g))
       (sn_groups s)"

lemma prio_spec_wf:
  assumes spec: "prio_spec h stats 0 as g"
    and w: "\<forall>a \<in> set as. 1 \<le> px_Weight (h a) \<and> px_Weight (h a) \<le> MaxInt32"
    and len: "length as \<le> 4294967296"
    and st: "\<And>st. mget stats (pg_priority g) = Some st \<Longrightarrow>
      gst_alive st = int (length (filter (\<lambda>a. px_Priority (h a) = pg_priority g) as)) \<and>
      gst_alive st \<le> gst_total st"
  shows "prio_group_wf (length as) g"
proof -
  define run where run: "run = filter (\<lambda>a. px_Priority (h a) = pg_priority g) as"
  define ws where ws: "ws = map (\<lambda>a. px_Weight (h a)) run"
  have "length ws \<le> length as" by (simp add: run ws)
  moreover have "list_all (\<lambda>w. 1 \<le> w \<and> w \<le> MaxInt32) ws"
    using w by (simp add: ws list_all_iff run)
  ultimately have ok: "weights_ok ws"
    using len by (simp add: weights_ok_def)
  have ne: "ws \<noteq> []" and e: "pg_end g = pg_start g + length ws"
    and cum: "pg_cumW g = cum_weights 0 ws" and tot: "pg_totalW g = sum_weights ws"
    and seg: "take (length ws) (drop (pg_start g) as) = run"
    using spec by (simp_all add: prio_spec_def Let_def ws run)
  have "length ws \<le> length as - pg_start g"
    using arg_cong [OF seg, of length] by (simp add: ws)
  with ne e have "pg_end g \<le> length as" by (cases ws) auto
  moreover have "0 < sum_list ws"
    using weights_ok_sum [OF ok] ne by (cases ws) auto
  moreover have "pg_aliveCount g = int (length ws)" "pg_aliveCount g \<le> pg_aliveTotal g"
    using spec st by (auto simp: prio_spec_def Let_def ws run)
  moreover have "cum_weights 0 ws \<noteq> []"
    using ne length_cum_weights [of 0 ws] by (metis length_0_conv)
  ultimately show ?thesis
    using ok ne by (simp add: prio_group_wf_def cum tot e sorted_cum_weights last_cum_weights sum_weights_eq)
qed

lemma gstat_of_alive:
  assumes "gstat_of h as q = Some st"
  shows "gst_alive st = int (length (filter (\<lambda>a. px_Priority (h a) = q) (filter (\<lambda>a. px_Alive (h a)) as)))"
    and "gst_alive st \<le> gst_total st"
proof -
  from assms have st: "gst_alive st = int (length (filter (\<lambda>a. px_Alive (h a)) (filter (\<lambda>a. px_Priority (h a) = q) as)))"
      "gst_total st = int (length (filter (\<lambda>a. px_Priority (h a) = q) as))"
    by (auto simp: gstat_of_def Let_def split: if_splits)
  then show "gst_alive st \<le> gst_total st"
    by (metis length_filter_le of_nat_le_iff)
  show "gst_alive st = int (length (filter (\<lambda>a. px_Priority (h a) = q) (filter (\<lambda>a. px_Alive (h a)) as)))"
    by (simp add: st(1) conj_commute)
qed

subsection \<open>Rebuild in the legacy mode\<close>

definition legacy_snapshot :: "Pool \<Rightarrow> prioGroup list \<Rightarrow> Snapshot" where
  "legacy_snapshot p gs =
     \<lparr>sn_proxies = sort_key (prio_key (pl_heap p)) (live p), sn_prio = gs, sn_groups = []\<rparr>"

text \<open>The groups as a function of the store and the registry alone.\<close>

definition stats_map :: "Pool \<Rightarrow> (int, gStat) gomap" where
  "stats_map p = fst (fold (scan_proxy (pl_heap p)) (registered p) ([], []))"

lemma mget_stats_map: "mget (stats_map p) q = gstat_of (pl_heap p) (registered p) q"
  by (simp add: stats_map_def scan_stats)

lemma live_priority_stats:
  "a \<in> set (sort_key (prio_key (pl_heap p)) (live p)) \<Longrightarrow> mget (stats_map p) (px_Priority (pl_heap p a)) \<noteq> None"
  by (auto simp: mget_stats_map gstat_of_def live_def filter_empty_conv Let_def)

lemma legacy_loop_spec:
  "\<exists>gs. prio_loop (pl_heap p) (stats_map p) 0 (sort_key (prio_key (pl_heap p)) (live p)) = Inr gs \<and>
     list_all (prio_spec (pl_heap p) (stats_map p) 0 (sort_key (prio_key (pl_heap p)) (live p))) gs \<and>
     sorted_wrt (>) (map pg_priority gs) \<and>
     set (map pg_priority gs) = (\<lambda>a. px_Priority (pl_heap p a)) ` set (live p)"
  using prio_loop_spec [OF sort_prio_sorted live_priority_stats [where p = p], where i = 0] by simp

lemma Rebuild_legacy:
  assumes wf: "registry_wf p" and mode: "pl_groupsCfg p = []"
  shows "\<exists>gs r. Rebuild p = Inr (p\<lparr>pl_snap := legacy_snapshot p gs, pl_seq := pl_seq p + 1, pl_rng := r\<rparr>) \<and>
    prio_loop (pl_heap p) (stats_map p) 0 (sn_proxies (legacy_snapshot p gs)) = Inr gs"
proof -
  let ?h = "pl_heap p"
  obtain es r where es: "range_order (pl_proxies p) (pl_rng p) = (es, r)"
    by (cases "range_order (pl_proxies p) (pl_rng p)")
  obtain stats alive where s: "fold (scan_proxy ?h) (map snd es) ([], []) = (stats, alive)"
    by (cases "fold (scan_proxy ?h) (map snd es) ([], [])")
  have perm: "mset (map snd es) = mset (registered p)"
    using range_order_perm [of "pl_proxies p" "pl_rng p"] es by (simp add: registered_def)
  have alive: "alive = filter (\<lambda>a. px_Alive (?h a)) (map snd es)"
    using scan_alive [of ?h "map snd es" "([], [])"] s by simp
  have "mset (live p) = mset alive"
    using perm by (simp add: alive live_def)
  moreover have "distinct (map (\<lambda>a. px_ID (?h a)) (live p))"
    using registry_distinct [OF wf] by (simp add: live_def distinct_map_filter flip: id_of_def)
  ultimately have srt: "sort_key (prio_key ?h) alive = sort_key (prio_key ?h) (live p)"
    by (rule sort_prio_perm [symmetric])
  have stats: "mget stats q = mget (stats_map p) q" for q
    using scan_stats [of ?h "map snd es" q] s gstat_of_perm [OF perm, of ?h q] by (simp add: mget_stats_map)
  obtain gs where gs: "prio_loop ?h (stats_map p) 0 (sort_key (prio_key ?h) (live p)) = Inr gs"
    using legacy_loop_spec by blast
  have "buildPrioGroups ?h alive stats = Inr (sort_key (prio_key ?h) (live p), gs)"
    using gs prio_loop_cong [OF stats] by (simp add: buildPrioGroups_def srt Let_def)
  then show ?thesis
    using gs mode by (auto simp: Rebuild_def es s legacy_snapshot_def)
qed

lemma sn_legacy_snapshot [simp]:
  "sn_proxies (legacy_snapshot p gs) = sort_key (prio_key (pl_heap p)) (live p)"
  "sn_prio (legacy_snapshot p gs) = gs" "sn_groups (legacy_snapshot p gs) = []"
  by (simp_all add: legacy_snapshot_def)

lemma live_facts:
  assumes "registry_wf p"
  shows "set (live p) \<subseteq> set (registered p)" "distinct (live p)" "length (live p) \<le> 4294967296"
proof -
  show "set (live p) \<subseteq> set (registered p)" by (auto simp: live_def)
  show "distinct (live p)"
    using registry_distinct [OF assms] by (simp add: live_def distinct_map)
  have "length (live p) \<le> length (registered p)" by (simp add: live_def)
  then show "length (live p) \<le> 4294967296"
    using assms by (simp add: registry_wf_def length_registered)
qed

lemma legacy_snapshot_wf:
  assumes wf: "registry_wf p"
    and gs: "prio_loop (pl_heap p) (stats_map p) 0 (sort_key (prio_key (pl_heap p)) (live p)) = Inr gs"
  shows "snap_wf (id_of p) (legacy_snapshot p gs)"
proof -
  let ?h = "pl_heap p"
  let ?as = "sort_key (prio_key ?h) (live p)"
  have spec: "list_all (prio_spec ?h (stats_map p) 0 ?as) gs"
    using legacy_loop_spec [of p] gs by auto
  have "prio_group_wf (length ?as) g" if "g \<in> set gs" for g
  proof (rule prio_spec_wf)
    show "prio_spec ?h (stats_map p) 0 ?as g" using spec that by (simp add: list_all_iff)
    show "\<forall>a \<in> set ?as. 1 \<le> px_Weight (?h a) \<and> px_Weight (?h a) \<le> MaxInt32"
      using live_facts(1) [OF wf] registry_weight [OF wf] by auto
    show "length ?as \<le> 4294967296" using live_facts(3) [OF wf] by simp
    fix st assume "mget (stats_map p) (pg_priority g) = Some st"
    note * = gstat_of_alive [OF this [unfolded mget_stats_map]]
    have "mset ?as = mset (live p)" by simp
    then have "mset (filter (\<lambda>a. px_Priority (?h a) = pg_priority g) ?as) =
        mset (filter (\<lambda>a. px_Priority (?h a) = pg_priority g) (live p))"
      by (metis mset_filter)
    then have "length (filter (\<lambda>a. px_Priority (?h a) = pg_priority g) ?as) =
        length (filter (\<lambda>a. px_Priority (?h a) = pg_priority g) (live p))"
      by (metis size_mset)
    with * show "gst_alive st = int (length (filter (\<lambda>a. px_Priority (?h a) = pg_priority g) ?as)) \<and>
        gst_alive st \<le> gst_total st"
      by (simp add: live_def)
  qed
  then show ?thesis
    using live_facts(2) [OF wf] by (simp add: snap_wf_def list_all_iff)
qed

subsection \<open>Rebuild in the group mode\<close>

definition group_snapshot :: "Pool \<Rightarrow> addr list \<Rightarrow> addr list \<Rightarrow> Snapshot" where
  "group_snapshot p all alive =
     \<lparr>sn_proxies = alive, sn_prio = [], sn_groups = map (buildGroup (pl_heap p) all alive) (pl_groupsCfg p)\<rparr>"

lemma Rebuild_groups:
  assumes mode: "pl_groupsCfg p \<noteq> []"
  shows "\<exists>all alive r. mset all = mset (registered p) \<and> mset alive = mset (live p) \<and>
    Rebuild p = Inr (p\<lparr>pl_snap := group_snapshot p all alive, pl_seq := pl_seq p + 1, pl_rng := r\<rparr>)"
proof -
  let ?h = "pl_heap p"
  obtain es r where es: "range_order (pl_proxies p) (pl_rng p) = (es, r)"
    by (cases "range_order (pl_proxies p) (pl_rng p)")
  obtain es' r' where es': "range_order (pl_proxies p) r = (es', r')"
    by (cases "range_order (pl_proxies p) r")
  obtain stats alive where s: "fold (scan_proxy ?h) (map snd es) ([], []) = (stats, alive)"
    by (cases "fold (scan_proxy ?h) (map snd es) ([], [])")
  have "mset (map snd es) = mset (registered p)"
    using range_order_perm [of "pl_proxies p" "pl_rng p"] es by (simp add: registered_def)
  moreover have "alive = filter (\<lambda>a. px_Alive (?h a)) (map snd es)"
    using scan_alive [of ?h "map snd es" "([], [])"] s by simp
  ultimately have "mset alive = mset (live p)" by (simp add: live_def)
  moreover have "mset (map snd es') = mset (registered p)"
    using range_order_perm [of "pl_proxies p" r] es' by (simp add: registered_def)
  moreover have "Rebuild p = Inr (p\<lparr>pl_snap := group_snapshot p (map snd es') alive,
      pl_seq := pl_seq p + 1, pl_rng := r'\<rparr>)"
    using mode by (simp add: Rebuild_def es es' s buildGroups_def group_snapshot_def)
  ultimately show ?thesis by blast
qed

text \<open>The lists the layers of a group are built from.\<close>

definition in_region :: "heap \<Rightarrow> GroupCfg \<Rightarrow> string \<Rightarrow> addr \<Rightarrow> bool" where
  "in_region h gc pn a \<longleftrightarrow> regionMatches (gc_Regions gc) (px_Country (h a)) \<and> px_Provider (h a) = pn"

lemma regionAggregates_get:
  assumes "regionAggregates h (gc_Regions gc) all alive = (T, A)"
  shows "mget0 0 T pn = int (length (filter (in_region h gc pn) all))"
    and "mget0 [] A pn = filter (in_region h gc pn) alive"
  using assms
  by (auto simp: regionAggregates_def mget0_count_region mget0_collect_region in_region_def [abs_def])

text \<open>One tier of a group: the alive proxies of its providers inside the group's regions, each once.\<close>

lemma region_layer:
  fixes n pns W m
  assumes agg: "regionAggregates h (gc_Regions gc) all alive = (T, A)"
    and inj: "inj_on (\<lambda>a. px_ID (h a)) (set alive)" and sub: "mset alive \<subseteq># mset all"
    and w: "\<forall>a \<in> set alive. px_Weight (h a) \<le> MaxInt32"
    and len: "length alive \<le> 4294967296"
  defines "l \<equiv> buildLayer h n pns W m A T"
  shows "set (ly_proxies l) = {a \<in> set alive. \<exists>pn \<in> set pns. in_region h gc pn a}"
    and "ly_aliveTotal l = (\<Sum>pn \<leftarrow> pns. int (length (filter (in_region h gc pn) all)))"
    and "layer_wf (\<lambda>a. px_ID (h a)) l"
proof -
  note get = regionAggregates_get [OF agg]
  have U: "(\<Union>pn \<in> set pns. set (mget0 [] A pn)) = {a \<in> set alive. \<exists>pn \<in> set pns. in_region h gc pn a}"
    by (auto simp: get)
  then have inj': "inj_on (\<lambda>a. px_ID (h a)) (\<Union>pn \<in> set pns. set (mget0 [] A pn))"
    using inj by (auto intro: inj_on_subset)
  show set: "set (ly_proxies l) = {a \<in> set alive. \<exists>pn \<in> set pns. in_region h gc pn a}"
    unfolding l_def U [symmetric] by (rule buildLayer_proxies [OF inj'])
  show "ly_aliveTotal l = (\<Sum>pn \<leftarrow> pns. int (length (filter (in_region h gc pn) all)))"
    by (simp add: l_def buildLayer_frame(3) get(1))
  have "distinct (ly_proxies l)"
    using buildLayer_frame(6) [of h n pns W m A T] by (simp add: l_def distinct_map)
  then have "length (ly_proxies l) = card (set (ly_proxies l))"
    by (simp add: distinct_card)
  also have "\<dots> \<le> card (set alive)"
    unfolding set by (intro card_mono) auto
  also have "\<dots> \<le> length alive" by (rule card_length)
  finally have "length (ly_proxies l) \<le> 4294967296" using len by simp
  moreover have "int (length (mget0 [] A pn)) \<le> mget0 0 T pn" for pn
    using size_mset_mono [OF multiset_filter_mono [OF sub, of "in_region h gc pn"]]
    by (simp add: get flip: size_mset)
  ultimately show "layer_wf (\<lambda>a. px_ID (h a)) l"
    unfolding l_def using w by (intro buildLayer_wf [OF inj']) (auto simp: get)
qed

lemma buildGroup_layers:
  assumes inj: "inj_on (\<lambda>a. px_ID (h a)) (set alive)" and sub: "mset alive \<subseteq># mset all"
    and w: "\<forall>a \<in> set alive. px_Weight (h a) \<le> MaxInt32"
    and len: "length alive \<le> 4294967296"
    and l: "l \<in> set (gs_layers (buildGroup h all alive gc))"
  shows "layer_wf (\<lambda>a. px_ID (h a)) l" and "set (ly_proxies l) \<subseteq> set alive"
proof -
  obtain T A where agg: "regionAggregates h (gc_Regions gc) all alive = (T, A)"
    by (cases "regionAggregates h (gc_Regions gc) all alive")
  obtain n pns W m where "l = buildLayer h n pns W m A T"
    using l by (auto simp: buildGroup_def agg Let_def split: if_splits)
  then show "layer_wf (\<lambda>a. px_ID (h a)) l" "set (ly_proxies l) \<subseteq> set alive"
    using region_layer [OF agg inj sub w len, of n pns W m] by auto
qed

lemma group_snapshot_wf:
  assumes wf: "registry_wf p" and all: "mset all = mset (registered p)" and alive: "mset alive = mset (live p)"
  shows "snap_wf (id_of p) (group_snapshot p all alive)"
proof -
  have set_alive: "set alive = set (live p)" using alive by (metis set_mset_mset)
  have idf: "id_of p = (\<lambda>a. px_ID (pl_heap p a))" by (simp add: id_of_def [abs_def])
  have inj: "inj_on (\<lambda>a. px_ID (pl_heap p a)) (set alive)"
    using registry_inj [OF wf] live_facts(1) [OF wf] unfolding set_alive idf by (rule inj_on_subset)
  have sub: "mset alive \<subseteq># mset all"
    by (simp add: all alive live_def)
  have w: "\<forall>a \<in> set alive. px_Weight (pl_heap p a) \<le> MaxInt32"
    using registry_weight [OF wf] live_facts(1) [OF wf] by (auto simp: set_alive)
  have "length alive = length (live p)" using alive by (metis size_mset)
  then have len: "length alive \<le> 4294967296" using live_facts(3) [OF wf] by simp
  note layers = buildGroup_layers [OF inj sub w len]
  have "distinct alive" using live_facts(2) [OF wf] alive by (metis mset_eq_imp_distinct_iff)
  then show ?thesis
    using layers unfolding snap_wf_def idf by (auto simp: group_snapshot_def list_all_iff)
qed

text \<open>The proxies of a list that a tier with the given providers may use, under the group's region filter.\<close>

definition tier_filter :: "heap \<Rightarrow> GroupCfg \<Rightarrow> string list \<Rightarrow> addr list \<Rightarrow> addr list" where
  "tier_filter h gc pns as =
     filter (\<lambda>a. regionMatches (gc_Regions gc) (px_Country (h a)) \<and> px_Provider (h a) \<in> set pns) as"

lemma sum_in_region:
  "distinct pns \<Longrightarrow> (\<Sum>pn \<leftarrow> pns. int (length (filter (in_region h gc pn) as))) = int (length (tier_filter h gc pns as))"
proof (induction pns)
  case (Cons pn pns)
  have "length (filter (in_region h gc pn) as) + length (tier_filter h gc pns as) = length (tier_filter h gc (pn # pns) as)"
    using Cons.prems by (induction as) (auto simp: tier_filter_def in_region_def)
  with Cons show ?case by (simp flip: of_nat_add)
qed (simp add: tier_filter_def)

text \<open>A tier of a rebuilt group.\<close>

definition tier_spec :: "Pool \<Rightarrow> GroupCfg \<Rightarrow> string list \<Rightarrow> (string, int) gomap \<Rightarrow> float64 \<Rightarrow> layerSnap \<Rightarrow> bool" where
  "tier_spec p gc pns W m l \<longleftrightarrow>
     distinct (ly_proxies l) \<and>
     set (ly_proxies l) = set (tier_filter (pl_heap p) gc pns (live p)) \<and>
     ly_aliveCount l = int (length (tier_filter (pl_heap p) gc pns (live p))) \<and>
     (distinct pns \<longrightarrow> ly_aliveTotal l = int (length (tier_filter (pl_heap p) gc pns (registered p)))) \<and>
     ly_minRatio l = m \<and> ly_weight l = map (layer_weight (pl_heap p) W) (ly_proxies l) \<and>
     (ly_useSWRR l \<longleftrightarrow> (\<forall>a \<in> set (ly_proxies l). px_Kind (pl_heap p a) \<noteq> KindTunnel))"

lemma perm_filter_length: "mset as = mset bs \<Longrightarrow> length (filter P as) = length (filter P bs)"
  by (metis mset_filter size_mset)

lemma buildLayer_tier:
  assumes wf: "registry_wf p" and all: "mset all = mset (registered p)" and alive: "mset alive = mset (live p)"
    and agg: "regionAggregates (pl_heap p) (gc_Regions gc) all alive = (T, A)"
  shows "tier_spec p gc pns W m (buildLayer (pl_heap p) n pns W m A T)"
proof -
  let ?h = "pl_heap p" and ?l = "buildLayer (pl_heap p) n pns W m A T"
  have set_alive: "set alive = set (live p)" using alive by (metis set_mset_mset)
  have inj: "inj_on (\<lambda>a. px_ID (?h a)) (set alive)"
    using registry_inj [OF wf] live_facts(1) [OF wf] unfolding set_alive id_of_def [abs_def] by (rule inj_on_subset)
  have sub: "mset alive \<subseteq># mset all" by (simp add: all alive live_def)
  have w: "\<forall>a \<in> set alive. px_Weight (?h a) \<le> MaxInt32"
    using registry_weight [OF wf] live_facts(1) [OF wf] by (auto simp: set_alive)
  have "length alive = length (live p)" using alive by (metis size_mset)
  then have len: "length alive \<le> 4294967296" using live_facts(3) [OF wf] by simp
  note layer = region_layer [OF agg inj sub w len, of n pns W m]
  have set: "set (ly_proxies ?l) = set (tier_filter ?h gc pns (live p))"
    by (auto simp: layer(1) set_alive tier_filter_def in_region_def)
  have dist: "distinct (ly_proxies ?l)"
    using buildLayer_frame(6) [of ?h n pns W m A T] by (simp add: distinct_map)
  have "distinct (tier_filter ?h gc pns (live p))"
    using live_facts(2) [OF wf] by (simp add: tier_filter_def)
  then have "length (ly_proxies ?l) = length (tier_filter ?h gc pns (live p))"
    using dist set by (metis distinct_card)
  moreover have "ly_aliveTotal ?l = int (length (tier_filter ?h gc pns (registered p)))" if "distinct pns"
    unfolding layer(2) sum_in_region [OF that]
    by (simp add: tier_filter_def perm_filter_length [OF all])
  ultimately show ?thesis
    using set dist by (simp add: tier_spec_def buildLayer_frame)
qed

lemma buildGroup_tiers:
  assumes "registry_wf p" "mset all = mset (registered p)" "mset alive = mset (live p)"
  defines "backups \<equiv> \<lambda>gc. concat (map bk_Providers (gc_Backups gc))"
  shows "gs_name (buildGroup (pl_heap p) all alive gc) = gc_Name gc \<and>
    (\<exists>l1. tier_spec p gc (gc_Primary gc) (gc_PrimaryWeights gc) (gc_MinAliveRatio gc) l1 \<and>
      (if backups gc = [] then gs_layers (buildGroup (pl_heap p) all alive gc) = [l1]
       else \<exists>l2. gs_layers (buildGroup (pl_heap p) all alive gc) = [l1, l2] \<and>
         tier_spec p gc (backups gc) (gc_BackupWeights gc) (bk_MinAliveRatio (hd (gc_Backups gc))) l2))"
proof -
  obtain T A where agg: "regionAggregates (pl_heap p) (gc_Regions gc) all alive = (T, A)"
    by (cases "regionAggregates (pl_heap p) (gc_Regions gc) all alive")
  note tier = buildLayer_tier [OF assms(1-3) agg]
  have hd: "(case gc_Backups gc of [] \<Rightarrow> 0 | b # _ \<Rightarrow> bk_MinAliveRatio b) = bk_MinAliveRatio (hd (gc_Backups gc))"
    if "backups gc \<noteq> []" using that by (auto simp: backups_def split: list.split)
  let ?l1 = "buildLayer (pl_heap p) ''primary'' (gc_Primary gc) (gc_PrimaryWeights gc) (gc_MinAliveRatio gc) A T"
  let ?l2 = "buildLayer (pl_heap p) ''backup'' (backups gc) (gc_BackupWeights gc) (bk_MinAliveRatio (hd (gc_Backups gc))) A T"
  have layers: "gs_layers (buildGroup (pl_heap p) all alive gc) = (if backups gc = [] then [?l1] else [?l1, ?l2])"
    using hd unfolding buildGroup_def agg Let_def backups_def by auto
  have "gs_name (buildGroup (pl_heap p) all alive gc) = gc_Name gc"
    by (simp add: buildGroup_def agg Let_def)
  then show ?thesis
    unfolding layers using tier by (intro conjI exI [of _ ?l1]) auto
qed

subsection \<open>Rebuild\<close>

lemma Rebuild_result:
  assumes wf: "registry_wf p"
  shows "\<exists>s r. Rebuild p = Inr (p\<lparr>pl_snap := s, pl_seq := pl_seq p + 1, pl_rng := r\<rparr>) \<and>
    snap_wf (id_of p) s \<and> set (sn_proxies s) = set (live p) \<and>
    map gs_name (sn_groups s) = map gc_Name (pl_groupsCfg p)"
proof (cases "pl_groupsCfg p = []")
  case True
  from Rebuild_legacy [OF wf True] obtain gs r
    where *: "Rebuild p = Inr (p\<lparr>pl_snap := legacy_snapshot p gs, pl_seq := pl_seq p + 1, pl_rng := r\<rparr>)"
      "prio_loop (pl_heap p) (stats_map p) 0 (sort_key (prio_key (pl_heap p)) (live p)) = Inr gs"
    by auto
  have "set (sn_proxies (legacy_snapshot p gs)) = set (live p)"
      "map gs_name (sn_groups (legacy_snapshot p gs)) = map gc_Name (pl_groupsCfg p)"
    using True by simp_all
  with legacy_snapshot_wf [OF wf *(2)] *(1) show ?thesis by blast
next
  case False
  from Rebuild_groups [OF False] obtain all alive r where
    *: "mset all = mset (registered p)" "mset alive = mset (live p)"
      "Rebuild p = Inr (p\<lparr>pl_snap := group_snapshot p all alive, pl_seq := pl_seq p + 1, pl_rng := r\<rparr>)"
    by blast
  have "set (sn_proxies (group_snapshot p all alive)) = set (live p)"
    using *(2) by (simp add: group_snapshot_def) (metis set_mset_mset)
  moreover have "map gs_name (sn_groups (group_snapshot p all alive)) = map gc_Name (pl_groupsCfg p)"
    by (simp add: group_snapshot_def buildGroup_def Let_def split: prod.split)
  ultimately show ?thesis
    using group_snapshot_wf [OF wf *(1,2)] *(3) by blast
qed

end
