(* ===== verification/Pool_Select.thy ===== *)
theory Pool_Select
  imports Pool_Rebuild
begin

section \<open>Selecting a proxy (internal/pool/pool.go)\<close>

text \<open>
  The scheduling half of the pool: smooth weighted round-robin with latency scaling, weighted
  random selection, the fallback chain of a group, the legacy priority chain, exclusions, and
  sticky sessions. A selection returns the address of the chosen proxy, or none, with the pool
  after it (SWRR weights, sticky sessions and random stream change); an index out of range, a
  nil dereference and \<^verbatim>\<open>rand.Int64N\<close> on a bound that is not positive are panics. The set
  \<^verbatim>\<open>exclude\<close> is the list of its keys. \<^verbatim>\<open>time.Now().UnixNano()\<close> is the argument \<open>now\<close>.
\<close>

subsection \<open>Smooth weighted round-robin\<close>

definition latencyScaledWeight :: "int \<Rightarrow> int \<Rightarrow> int \<Rightarrow> int" where
  "latencyScaledWeight ref base0 latencyMS =
     (let base = (if base0 \<le> 0 then 1 else base0)
      in if latencyMS \<le> 0 \<or> ref \<le> 0 then base
         else let factor0 = f64_div (f64_of_int ref) (f64_of_int latencyMS);
                  factor = (if factor0 > 2 then 2 else if factor0 < 1 / 2 then 1 / 2 else factor0);
                  w = f64_to_int (f64_mul (f64_of_int base) factor)
              in if w < 1 then 1 else w)"

text \<open>The effective weight of a proxy in one round.\<close>

definition eff_weight :: "heap \<Rightarrow> int \<Rightarrow> int \<Rightarrow> addr \<Rightarrow> int" where
  "eff_weight h ref w0 a =
     (let w = (if w0 \<le> 0 then 1 else w0) in latencyScaledWeight ref w (px_LatencyMS (h a)))"

fun swrr_loop ::
  "heap \<Rightarrow> int \<Rightarrow> addr list \<Rightarrow> int list \<Rightarrow> (string, int) gomap \<times> int \<times> addr option \<times> int \<Rightarrow>
   ((string, int) gomap \<times> int \<times> addr option \<times> int) go" where
  "swrr_loop h ref [] ws s = Inr s"
| "swrr_loop h ref (a # as) [] s = Inl PanicIndexOutOfRange"
| "swrr_loop h ref (a # as) (w0 # ws) (swrr, tot, best, bestCW) =
     (let w = eff_weight h ref w0 a;
          k = px_ID (h a);
          cw = i64 (mget0 0 swrr k + w)
      in swrr_loop h ref as ws
           (mput k cw swrr, i64 (tot + w),
            if cw > bestCW then Some a else best, if cw > bestCW then cw else bestCW))"

definition pickSWRR :: "layerSnap \<Rightarrow> Pool \<Rightarrow> (addr option \<times> Pool) go" where
  "pickSWRR l p =
     (let h = pl_heap p; ref = layerRefLatency h (ly_proxies l)
      in bindE (swrr_loop h ref (ly_proxies l) (ly_weight l) (pl_swrr p, 0, None, MinInt64))
           (\<lambda>(swrr, tot, best, bestCW).
             case best of
               None \<Rightarrow> Inr (None, p\<lparr>pl_swrr := swrr\<rparr>)
             | Some a \<Rightarrow>
                 if tot = 0 then Inr (None, p\<lparr>pl_swrr := swrr\<rparr>)
                 else let k = px_ID (h a)
                      in Inr (Some a, p\<lparr>pl_swrr := mput k (i64 (mget0 0 swrr k - tot)) swrr\<rparr>)))"

subsection \<open>Weighted random selection\<close>

text \<open>One draw: \<^verbatim>\<open>rand.Int64N\<close>, the binary search in the cumulative weights, the indexed read.\<close>

definition pick_random :: "addr list \<Rightarrow> nat \<Rightarrow> int list \<Rightarrow> int \<Rightarrow> Pool \<Rightarrow> (addr \<times> Pool) go" where
  "pick_random proxies start cumW totalW p =
     bindE (int64n totalW (pl_rng p)) (\<lambda>(target, r).
       let j = sort_search (length cumW) (\<lambda>i. target < cumW ! i)
       in if start + j < length proxies then Inr (proxies ! (start + j), p\<lparr>pl_rng := r\<rparr>)
          else Inl PanicIndexOutOfRange)"

subsection \<open>Choosing within a layer\<close>

fun swrr_rounds :: "nat \<Rightarrow> layerSnap \<Rightarrow> string list \<Rightarrow> Pool \<Rightarrow> (addr option \<times> Pool) go" where
  "swrr_rounds 0 l exclude p = Inr (None, p)"
| "swrr_rounds (Suc n) l exclude p =
     bindE (pickSWRR l p) (\<lambda>(best, p1).
       case best of
         None \<Rightarrow> Inl PanicNilDereference
       | Some a \<Rightarrow> if px_ID (pl_heap p1 a) \<notin> set exclude then Inr (Some a, p1)
                   else swrr_rounds n l exclude p1)"

fun random_rounds ::
  "nat \<Rightarrow> addr list \<Rightarrow> nat \<Rightarrow> int list \<Rightarrow> int \<Rightarrow> string list \<Rightarrow> Pool \<Rightarrow> (addr option \<times> Pool) go" where
  "random_rounds 0 proxies start cumW totalW exclude p = Inr (None, p)"
| "random_rounds (Suc n) proxies start cumW totalW exclude p =
     bindE (pick_random proxies start cumW totalW p) (\<lambda>(a, p1).
       if px_ID (pl_heap p1 a) \<notin> set exclude then Inr (Some a, p1)
       else random_rounds n proxies start cumW totalW exclude p1)"

definition pickLayer :: "layerSnap \<Rightarrow> string list \<Rightarrow> Pool \<Rightarrow> (addr option \<times> Pool) go" where
  "pickLayer l exclude p =
     (if ly_totalW l \<le> 0 \<or> length (ly_proxies l) = 0 then Inr (None, p)
      else if length exclude = 0 then
        if ly_useSWRR l then pickSWRR l p
        else bindE (pick_random (ly_proxies l) 0 (ly_cumW l) (ly_totalW l) p) (\<lambda>(a, p1). Inr (Some a, p1))
      else if ly_useSWRR l then swrr_rounds (length (ly_proxies l)) l exclude p
      else random_rounds 1000 (ly_proxies l) 0 (ly_cumW l) (ly_totalW l) exclude p)"

subsection \<open>The fallback chain of a group\<close>

fun next_layers :: "layerSnap list \<Rightarrow> string list \<Rightarrow> Pool \<Rightarrow> (addr option \<times> Pool) go" where
  "next_layers [] exclude p = Inr (None, p)"
| "next_layers (l # ls) exclude p =
     (if ly_aliveCount l = 0 then next_layers ls exclude p
      else if ratio_below (ly_aliveCount l) (ly_aliveTotal l) (ly_minRatio l) then next_layers ls exclude p
      else bindE (pickLayer l exclude p) (\<lambda>(pr, p1).
             case pr of Some a \<Rightarrow> Inr (Some a, p1) | None \<Rightarrow> next_layers ls exclude p1))"

definition nextFromGroup :: "groupSnap \<Rightarrow> string list \<Rightarrow> Pool \<Rightarrow> (addr option \<times> Pool) go" where
  "nextFromGroup g exclude p = next_layers (gs_layers g) exclude p"

definition NextInGroup :: "string \<Rightarrow> Pool \<Rightarrow> (addr option \<times> Pool) go" where
  "NextInGroup gname p =
     (case find (\<lambda>g. gs_name g = gname) (sn_groups (pl_snap p)) of
        Some g \<Rightarrow> nextFromGroup g [] p
      | None \<Rightarrow> Inr (None, p))"

text \<open>The loop of \<^verbatim>\<open>NextInGroupExcluding\<close> over the layers is the loop of \<^verbatim>\<open>nextFromGroup\<close>.\<close>

definition NextInGroupExcluding :: "string \<Rightarrow> string list \<Rightarrow> Pool \<Rightarrow> (addr option \<times> Pool) go" where
  "NextInGroupExcluding gname exclude p =
     (if length exclude = 0 then NextInGroup gname p
      else case find (\<lambda>g. gs_name g = gname) (sn_groups (pl_snap p)) of
             Some g \<Rightarrow> next_layers (gs_layers g) exclude p
           | None \<Rightarrow> Inr (None, p))"

subsection \<open>The legacy priority chain\<close>

fun next_prios :: "addr list \<Rightarrow> prioGroup list \<Rightarrow> string list \<Rightarrow> Pool \<Rightarrow> (addr option \<times> Pool) go" where
  "next_prios proxies [] exclude p = Inr (None, p)"
| "next_prios proxies (g # gs) exclude p =
     (if pg_aliveCount g = 0 then next_prios proxies gs exclude p
      else if ratio_below (pg_aliveCount g) (pg_aliveTotal g) (pg_minRatio g) then next_prios proxies gs exclude p
      else bindE (random_rounds 1000 proxies (pg_start g) (pg_cumW g) (pg_totalW g) exclude p) (\<lambda>(pr, p1).
             case pr of Some a \<Rightarrow> Inr (Some a, p1) | None \<Rightarrow> next_prios proxies gs exclude p1))"

definition nextPrio :: "Snapshot \<Rightarrow> string list \<Rightarrow> Pool \<Rightarrow> (addr option \<times> Pool) go" where
  "nextPrio snap exclude p = next_prios (sn_proxies snap) (sn_prio snap) exclude p"

definition Next :: "Pool \<Rightarrow> (addr option \<times> Pool) go" where
  "Next p =
     (case sn_groups (pl_snap p) of
        g # _ \<Rightarrow> nextFromGroup g [] p
      | [] \<Rightarrow> nextPrio (pl_snap p) [] p)"

definition NextExcluding :: "string list \<Rightarrow> Pool \<Rightarrow> (addr option \<times> Pool) go" where
  "NextExcluding exclude p =
     (if length exclude = 0 then Next p
      else case sn_groups (pl_snap p) of
             g # _ \<Rightarrow> NextInGroupExcluding (gs_name g) exclude p
           | [] \<Rightarrow> nextPrio (pl_snap p) exclude p)"

subsection \<open>Sticky sessions\<close>

definition Get :: "string \<Rightarrow> Pool \<Rightarrow> addr option" where
  "Get k p = mget (pl_proxies p) k"

definition next_or_group :: "string \<Rightarrow> Pool \<Rightarrow> (addr option \<times> Pool) go" where
  "next_or_group gname p = (if gname \<noteq> [] then NextInGroup gname p else Next p)"

text \<open>The first critical section: the session to reuse, or none, with a stale session dropped.\<close>

definition sticky_lookup :: "int \<Rightarrow> string \<Rightarrow> Pool \<Rightarrow> addr option \<times> Pool" where
  "sticky_lookup now clientKey p =
     (case mget (pl_sticky p) clientKey of
        None \<Rightarrow> (None, p)
      | Some e \<Rightarrow>
          if se_expireAt e > now then
            (case Get (se_proxyID e) p of
               Some a \<Rightarrow> if px_Alive (pl_heap p a) then (Some a, p)
                         else (None, p\<lparr>pl_sticky := mdel clientKey (pl_sticky p)\<rparr>)
             | None \<Rightarrow> (None, p\<lparr>pl_sticky := mdel clientKey (pl_sticky p)\<rparr>))
          else (None, p))"

text \<open>The second one: record the session, and drop the expired ones when there are more than 4096.\<close>

definition sticky_record :: "int \<Rightarrow> int \<Rightarrow> string \<Rightarrow> addr \<Rightarrow> Pool \<Rightarrow> Pool" where
  "sticky_record now window clientKey a p =
     (let m = mput clientKey \<lparr>se_proxyID = px_ID (pl_heap p a), se_expireAt = i64 (now + window)\<rparr> (pl_sticky p)
      in p\<lparr>pl_sticky := (if length m > 4096 then mfilter (\<lambda>k e. \<not> se_expireAt e \<le> now) m else m)\<rparr>)"

definition StickyNext :: "int \<Rightarrow> string \<Rightarrow> int \<Rightarrow> string \<Rightarrow> Pool \<Rightarrow> (addr option \<times> Pool) go" where
  "StickyNext now clientKey stickySeconds gname p =
     (if clientKey = [] \<or> stickySeconds \<le> 0 then next_or_group gname p
      else let window = i64 (stickySeconds * 1000000000)
           in case sticky_lookup now clientKey p of
                (Some a, p1) \<Rightarrow> Inr (Some a, p1)
              | (None, p1) \<Rightarrow>
                  bindE (next_or_group gname p1) (\<lambda>(pr, p2).
                    case pr of
                      None \<Rightarrow> Inr (None, p2)
                    | Some a \<Rightarrow> Inr (Some a, sticky_record now window clientKey a p2)))"

end
