(* ===== verification/Pool_Ops.thy ===== *)
theory Pool_Ops
  imports Pool_Select
begin

section \<open>The operations of the pool (internal/pool/pool.go)\<close>

text \<open>
  Registration, removal, state changes and statistics. An operation that rebuilds the snapshot
  returns the new pool as a \<^typ>\<open>Pool go\<close>, since \<^verbatim>\<open>Rebuild\<close> dereferences pointers. The caller's fresh
  \<^verbatim>\<open>*model.Proxy\<close> passed to \<^verbatim>\<open>Add\<close> is a \<^typ>\<open>Proxy\<close> value that gets an address when it is registered.
\<close>

subsection \<open>Registration and removal\<close>

definition update_proxy :: "Proxy \<Rightarrow> Proxy \<Rightarrow> Proxy" where
  "update_proxy old pr =
     old\<lparr>px_Host := px_Host pr, px_Port := px_Port pr, px_Username := px_Username pr,
         px_Password := px_Password pr, px_Scheme := px_Scheme pr, px_Provider := px_Provider pr,
         px_Kind := px_Kind pr, px_Weight := px_Weight pr, px_CheckURL := px_CheckURL pr,
         px_CheckURLs := px_CheckURLs pr, px_Free := px_Free pr, px_Priority := px_Priority pr,
         px_MinAliveRatio := px_MinAliveRatio pr, px_StickySeconds := px_StickySeconds pr\<rparr>"

definition heap_upd :: "addr \<Rightarrow> Proxy \<Rightarrow> Pool \<Rightarrow> Pool" where
  "heap_upd a q p = p\<lparr>pl_heap := (pl_heap p)(a := q)\<rparr>"

definition Add :: "Proxy \<Rightarrow> Pool \<Rightarrow> Pool go" where
  "Add pr0 p =
     (let pr = (if px_Weight pr0 \<le> 0 then pr0\<lparr>px_Weight := 1\<rparr> else pr0)
      in case mget (pl_proxies p) (px_ID pr) of
           Some a \<Rightarrow> Inr (notifyState a False (heap_upd a (update_proxy (pl_heap p a) pr) p))
         | None \<Rightarrow>
             let a = pl_brk p;
                 p1 = heap_upd a pr p;
                 p2 = p1\<lparr>pl_brk := Suc a, pl_proxies := mput (px_ID pr) a (pl_proxies p1)\<rparr>
             in bindE (Rebuild p2) (\<lambda>p3. Inr (notifyState a False p3)))"

definition clearSWRR :: "string \<Rightarrow> Pool \<Rightarrow> Pool" where
  "clearSWRR k p = p\<lparr>pl_swrr := mdel k (pl_swrr p)\<rparr>"

definition ClearSticky :: "string \<Rightarrow> Pool \<Rightarrow> Pool" where
  "ClearSticky proxyID p = p\<lparr>pl_sticky := mfilter (\<lambda>k e. se_proxyID e \<noteq> proxyID) (pl_sticky p)\<rparr>"

definition Remove :: "string \<Rightarrow> Pool \<Rightarrow> (bool \<times> Pool) go" where
  "Remove k p =
     (case mget (pl_proxies p) k of
        Some a \<Rightarrow>
          let p1 = p\<lparr>pl_proxies := mdel k (pl_proxies p)\<rparr>;
              p2 = clearSWRR k (ClearSticky k p1)
          in bindE (Rebuild p2) (\<lambda>p3. Inr (True, notifyState a True p3))
      | None \<Rightarrow> Inr (False, p))"

definition expired :: "int \<Rightarrow> Proxy \<Rightarrow> bool" where
  "expired now pr \<longleftrightarrow> px_ExpireAt pr > 0 \<and> px_ExpireAt pr < now"

definition RemoveExpired :: "int \<Rightarrow> Pool \<Rightarrow> (nat \<times> Pool) go" where
  "RemoveExpired now p =
     (let h = pl_heap p;
          removed = length (filter (\<lambda>(k, a). expired now (h a)) (pl_proxies p));
          p1 = p\<lparr>pl_proxies := mfilter (\<lambda>k a. \<not> expired now (h a)) (pl_proxies p)\<rparr>
      in if removed > 0 then bindE (Rebuild p1) (\<lambda>p2. Inr (removed, p2)) else Inr (removed, p1))"

definition RemoveByProvider :: "string \<Rightarrow> Pool \<Rightarrow> (nat \<times> Pool) go" where
  "RemoveByProvider provider p =
     (let (entries, r) = range_order (pl_proxies p) (pl_rng p);
          ids = map fst (filter (\<lambda>(k, a). px_Provider (pl_heap p a) = provider) entries);
          p1 = p\<lparr>pl_proxies := fold mdel ids (pl_proxies p), pl_rng := r\<rparr>
      in if length ids > 0 then
           let p2 = p1\<lparr>pl_swrr := fold mdel ids (pl_swrr p1)\<rparr>;
               p3 = fold ClearSticky ids p2
           in bindE (Rebuild p3) (\<lambda>p4. Inr (length ids, p4))
         else Inr (length ids, p1))"

subsection \<open>State changes\<close>

definition SetCountry :: "string \<Rightarrow> string \<Rightarrow> Pool \<Rightarrow> Pool go" where
  "SetCountry k country p =
     (case mget (pl_proxies p) k of
        Some a \<Rightarrow>
          if px_Country (pl_heap p a) \<noteq> country then
            bindE (Rebuild (heap_upd a ((pl_heap p a)\<lparr>px_Country := country\<rparr>) p)) (\<lambda>p1.
              Inr (notifyState a False p1))
          else Inr p
      | None \<Rightarrow> Inr p)"

definition store_latency :: "int \<Rightarrow> Proxy \<Rightarrow> Proxy" where
  "store_latency latencyMS pr = (if latencyMS > 0 then pr\<lparr>px_LatencyMS := latencyMS\<rparr> else pr)"

definition MarkFailed :: "string \<Rightarrow> int \<Rightarrow> Pool \<Rightarrow> Pool go" where
  "MarkFailed k latencyMS p =
     (case Get k p of
        None \<Rightarrow> Inr p
      | Some a \<Rightarrow>
          let pr = pl_heap p a;
              f = i32 (px_Fails pr + 1);
              pr1 = store_latency latencyMS (pr\<lparr>px_Fails := f\<rparr>)
          in if f \<ge> 3 \<or> px_LastUsed pr1 = 0 then
               bindE (Rebuild (heap_upd a (pr1\<lparr>px_Alive := False\<rparr>) p)) (\<lambda>p1. Inr (notifyState a False p1))
             else Inr (notifyState a False (heap_upd a pr1 p)))"

definition MarkSuccess :: "int \<Rightarrow> string \<Rightarrow> int \<Rightarrow> Pool \<Rightarrow> Pool go" where
  "MarkSuccess now k latencyMS p =
     (case Get k p of
        None \<Rightarrow> Inr p
      | Some a \<Rightarrow>
          let pr1 = (store_latency latencyMS ((pl_heap p a)\<lparr>px_Fails := 0\<rparr>))\<lparr>px_LastUsed := now\<rparr>
          in if \<not> px_Alive pr1 then
               bindE (Rebuild (heap_upd a (pr1\<lparr>px_Alive := True\<rparr>) p)) (\<lambda>p1. Inr (notifyState a False p1))
             else Inr (notifyState a False (heap_upd a pr1 p)))"

definition SetAlive :: "string \<Rightarrow> bool \<Rightarrow> Pool \<Rightarrow> Pool go" where
  "SetAlive k alive p =
     (case Get k p of
        None \<Rightarrow> Inr p
      | Some a \<Rightarrow>
          bindE (Rebuild (heap_upd a ((pl_heap p a)\<lparr>px_Alive := alive\<rparr>) p)) (\<lambda>p1.
            Inr (notifyState a False p1)))"

subsection \<open>Queries\<close>

text \<open>Queries that range over the map return the rest of the random stream with the answer.\<close>

definition All :: "Pool \<Rightarrow> addr list \<times> Pool" where
  "All p = (let (entries, r) = range_order (pl_proxies p) (pl_rng p) in (map snd entries, p\<lparr>pl_rng := r\<rparr>))"

definition UnresolvedCountries :: "Pool \<Rightarrow> (string, string list) gomap \<times> Pool" where
  "UnresolvedCountries p =
     (let (entries, r) = range_order (pl_proxies p) (pl_rng p)
      in (fold (\<lambda>(k, a) out. let pr = pl_heap p a
                 in if px_Country pr = [] then mput (px_Host pr) (mget0 [] out (px_Host pr) @ [k]) out else out)
            entries [],
          p\<lparr>pl_rng := r\<rparr>))"

definition Stats :: "Pool \<Rightarrow> nat \<times> nat" where
  "Stats p = (length (pl_proxies p), length (sn_proxies (pl_snap p)))"

record TierStat =
  ts_Name :: string
  ts_AliveTotal :: int
  ts_AliveCount :: int
  ts_MinRatio :: float64
  ts_Usable :: bool

record GroupStat =
  gt_Group :: string
  gt_Type :: string
  gt_Tiers :: "TierStat list"

definition groupType :: "GroupCfg list \<Rightarrow> string \<Rightarrow> string" where
  "groupType cfgs name = (case find (\<lambda>c. gc_Name c = name) cfgs of Some c \<Rightarrow> gc_Type c | None \<Rightarrow> [])"

text \<open>A positive count over a zero total is \<open>+Inf\<close>, which is at least any threshold.\<close>

definition tier_usable :: "layerSnap \<Rightarrow> bool" where
  "tier_usable l \<longleftrightarrow>
     ly_aliveCount l > 0 \<and>
     (if ly_aliveTotal l = 0 then True
      else f64_div (f64_of_int (ly_aliveCount l)) (f64_of_int (ly_aliveTotal l)) \<ge> ly_minRatio l)"

definition tierStat :: "layerSnap \<Rightarrow> TierStat" where
  "tierStat l = \<lparr>ts_Name = ly_name l, ts_AliveTotal = ly_aliveTotal l, ts_AliveCount = ly_aliveCount l,
                 ts_MinRatio = ly_minRatio l, ts_Usable = tier_usable l\<rparr>"

definition GroupStats :: "Pool \<Rightarrow> GroupStat list" where
  "GroupStats p =
     map (\<lambda>g. \<lparr>gt_Group = gs_name g, gt_Type = groupType (pl_groupsCfg p) (gs_name g),
               gt_Tiers = map tierStat (gs_layers g)\<rparr>) (sn_groups (pl_snap p))"

record ProviderStat =
  ps_Provider :: string
  ps_Total :: int
  ps_Alive :: int

definition stat_total :: "heap \<Rightarrow> addr \<Rightarrow> (string, ProviderStat) gomap \<Rightarrow> (string, ProviderStat) gomap" where
  "stat_total h a m =
     (let pn = px_Provider (h a);
          st = (case mget m pn of None \<Rightarrow> \<lparr>ps_Provider = pn, ps_Total = 0, ps_Alive = 0\<rparr> | Some st \<Rightarrow> st)
      in mput pn (st\<lparr>ps_Total := ps_Total st + 1\<rparr>) m)"

definition stat_alive :: "heap \<Rightarrow> addr \<Rightarrow> (string, ProviderStat) gomap \<Rightarrow> (string, ProviderStat) gomap" where
  "stat_alive h a m =
     (let pn = px_Provider (h a)
      in case mget m pn of None \<Rightarrow> m | Some st \<Rightarrow> mput pn (st\<lparr>ps_Alive := ps_Alive st + 1\<rparr>) m)"

definition StatsByProvider :: "Pool \<Rightarrow> ProviderStat list \<times> Pool" where
  "StatsByProvider p =
     (let h = pl_heap p;
          (entries, r1) = range_order (pl_proxies p) (pl_rng p);
          byProv = fold (stat_alive h) (sn_proxies (pl_snap p)) (fold (stat_total h) (map snd entries) []);
          (out, r2) = range_order byProv r1
      in (map snd out, p\<lparr>pl_rng := r2\<rparr>))"

record ProxyDetail =
  pd_ID :: string
  pd_Provider :: string
  pd_Kind :: string
  pd_Scheme :: string
  pd_Addr :: string
  pd_Username :: string
  pd_Alive :: bool
  pd_Fails :: int
  pd_LatencyMS :: int
  pd_Weight :: int
  pd_Priority :: int
  pd_MinAliveRatio :: float64
  pd_StickySeconds :: int
  pd_Free :: bool
  pd_Country :: string
  pd_ExpireAt :: int

definition proxyDetail :: "Proxy \<Rightarrow> ProxyDetail" where
  "proxyDetail pr =
     \<lparr>pd_ID = px_ID pr, pd_Provider = px_Provider pr, pd_Kind = Kind_String (px_Kind pr),
      pd_Scheme = px_Scheme pr, pd_Addr = Proxy_Addr pr, pd_Username = px_Username pr,
      pd_Alive = px_Alive pr, pd_Fails = px_Fails pr, pd_LatencyMS = px_LatencyMS pr,
      pd_Weight = px_Weight pr, pd_Priority = px_Priority pr, pd_MinAliveRatio = px_MinAliveRatio pr,
      pd_StickySeconds = px_StickySeconds pr, pd_Free = px_Free pr, pd_Country = px_Country pr,
      pd_ExpireAt = px_ExpireAt pr\<rparr>"

definition ProxyList :: "Pool \<Rightarrow> ProxyDetail list \<times> Pool" where
  "ProxyList p =
     (let (entries, r) = range_order (pl_proxies p) (pl_rng p)
      in (map (\<lambda>(k, a). proxyDetail (pl_heap p a)) entries, p\<lparr>pl_rng := r\<rparr>))"

end
