(* ===== verification/Pool_Inv.thy ===== *)
theory Pool_Inv
  imports Pool_Ops
begin

section \<open>The invariant of the pool\<close>

text \<open>
  \<open>pool_wf\<close> ties the registry, the snapshot and the session tables together: the registry is well
  formed, the snapshot is well formed and lists exactly the registered proxies that are alive, the
  groups of the snapshot are those of the configuration, and the tables have distinct keys. Every
  operation returns without a panic and keeps it.
\<close>

definition pool_wf :: "Pool \<Rightarrow> bool" where
  "pool_wf p \<longleftrightarrow>
     registry_wf p \<and> snap_wf (id_of p) (pl_snap p) \<and> set (sn_proxies (pl_snap p)) = set (live p) \<and>
     map gs_name (sn_groups (pl_snap p)) = map gc_Name (pl_groupsCfg p) \<and>
     mwf (pl_sticky p) \<and> mwf (pl_swrr p)"

text \<open>What an operation must bring about before it rebuilds.\<close>

definition pre_wf :: "Pool \<Rightarrow> bool" where
  "pre_wf p \<longleftrightarrow> registry_wf p \<and> mwf (pl_sticky p) \<and> mwf (pl_swrr p)"

lemma pool_pre: "pool_wf p \<Longrightarrow> pre_wf p"
  by (simp add: pool_wf_def pre_wf_def)

lemma NewPool_wf: "pool_wf (NewPool r)"
  by (simp add: pool_wf_def NewPool_def registry_wf_def snap_wf_def empty_snapshot_def live_def registered_def)

text \<open>The invariant does not look at the log, the sink, the counter and the random stream.\<close>

lemma registry_wf_cong:
  "pl_heap q = pl_heap p \<Longrightarrow> pl_brk q = pl_brk p \<Longrightarrow> pl_proxies q = pl_proxies p \<Longrightarrow>
     registry_wf q = registry_wf p"
  by (simp add: registry_wf_def id_of_def)

lemma live_cong:
  "pl_heap q = pl_heap p \<Longrightarrow> pl_proxies q = pl_proxies p \<Longrightarrow> live q = live p"
  by (simp add: live_def registered_def)

lemma id_of_cong: "pl_heap q = pl_heap p \<Longrightarrow> id_of q = id_of p"
  by (simp add: id_of_def [abs_def])

lemma pool_wf_frame [simp]:
  "pool_wf (p\<lparr>pl_sunk := x\<rparr>) = pool_wf p" "pool_wf (p\<lparr>pl_rng := r\<rparr>) = pool_wf p"
  "pool_wf (p\<lparr>pl_stateSink := b\<rparr>) = pool_wf p" "pool_wf (p\<lparr>pl_seq := n\<rparr>) = pool_wf p"
  by (simp_all add: pool_wf_def registry_wf_def id_of_def [abs_def] live_def registered_def)

lemma pool_wf_notify [simp]: "pool_wf (notifyState a b p) = pool_wf p"
  by (simp add: notifyState_def)

lemma pool_wf_sticky: "pool_wf p \<Longrightarrow> mwf m \<Longrightarrow> pool_wf (p\<lparr>pl_sticky := m\<rparr>)"
  by (simp add: pool_wf_def registry_wf_def id_of_def [abs_def] live_def registered_def)

lemma pool_wf_swrr: "pool_wf p \<Longrightarrow> mwf m \<Longrightarrow> pool_wf (p\<lparr>pl_swrr := m\<rparr>)"
  by (simp add: pool_wf_def registry_wf_def id_of_def [abs_def] live_def registered_def)

lemma pre_wf_frame [simp]:
  "pre_wf (p\<lparr>pl_rng := r\<rparr>) = pre_wf p" "pre_wf (p\<lparr>pl_groupsCfg := g\<rparr>) = pre_wf p"
  by (simp_all add: pre_wf_def registry_wf_def id_of_def [abs_def])

text \<open>Rebuilding turns the precondition into the invariant.\<close>

lemma Rebuild_wf:
  assumes "pre_wf p"
  shows "\<exists>q. Rebuild p = Inr q \<and> pool_wf q \<and>
    (\<exists>s r. q = p\<lparr>pl_snap := s, pl_seq := pl_seq p + 1, pl_rng := r\<rparr>)"
proof -
  from assms have reg: "registry_wf p" by (simp add: pre_wf_def)
  obtain s r where *: "Rebuild p = Inr (p\<lparr>pl_snap := s, pl_seq := pl_seq p + 1, pl_rng := r\<rparr>)"
    "snap_wf (id_of p) s" "set (sn_proxies s) = set (live p)"
    "map gs_name (sn_groups s) = map gc_Name (pl_groupsCfg p)"
    using Rebuild_result [OF reg] by blast
  let ?q = "p\<lparr>pl_snap := s, pl_seq := pl_seq p + 1, pl_rng := r\<rparr>"
  have "registry_wf ?q = registry_wf p" "live ?q = live p" "id_of ?q = id_of p"
    by (rule registry_wf_cong live_cong id_of_cong; simp)+
  then have "pool_wf ?q"
    using assms * by (simp add: pool_wf_def pre_wf_def)
  with *(1) show ?thesis by blast
qed

text \<open>Updating a proxy in place, with its ID kept and a legal weight.\<close>

lemma registry_upd:
  assumes "registry_wf p" "px_ID q = id_of p a" "1 \<le> px_Weight q" "px_Weight q \<le> MaxInt32"
  shows "registry_wf (heap_upd a q p)"
  using assms by (auto simp: registry_wf_def heap_upd_def id_of_def list_all_iff)

lemma heap_upd_frame [simp]:
  "pl_sticky (heap_upd a q p) = pl_sticky p" "pl_swrr (heap_upd a q p) = pl_swrr p"
  "pl_proxies (heap_upd a q p) = pl_proxies p" "pl_snap (heap_upd a q p) = pl_snap p"
  "pl_groupsCfg (heap_upd a q p) = pl_groupsCfg p" "pl_brk (heap_upd a q p) = pl_brk p"
  "pl_heap (heap_upd a q p) = (pl_heap p)(a := q)" "pl_stateSink (heap_upd a q p) = pl_stateSink p"
  "pl_sunk (heap_upd a q p) = pl_sunk p" "pl_seq (heap_upd a q p) = pl_seq p"
  "registered (heap_upd a q p) = registered p"
  by (simp_all add: heap_upd_def registered_def)

lemma heap_upd_pre:
  assumes "pool_wf p" "px_ID q = id_of p a" "1 \<le> px_Weight q" "px_Weight q \<le> MaxInt32"
  shows "pre_wf (heap_upd a q p)"
  using assms registry_upd by (simp add: pool_wf_def pre_wf_def)

lemma heap_upd_wf:
  assumes wf: "pool_wf p" and q: "px_ID q = id_of p a" "1 \<le> px_Weight q" "px_Weight q \<le> MaxInt32"
    and alive: "px_Alive q = px_Alive (pl_heap p a)"
  shows "pool_wf (heap_upd a q p)"
proof -
  have "id_of (heap_upd a q p) = id_of p"
    using q(1) by (auto simp: id_of_def fun_eq_iff)
  moreover have "live (heap_upd a q p) = live p"
    using alive by (auto simp: live_def intro: filter_cong)
  ultimately show ?thesis
    using wf registry_upd [OF _ q] by (simp add: pool_wf_def)
qed

text \<open>The proxy found under a key.\<close>

lemma pool_get:
  assumes "pool_wf p" "mget (pl_proxies p) k = Some a"
  shows "a \<in> set (registered p)" "px_ID (pl_heap p a) = k"
    "1 \<le> px_Weight (pl_heap p a)" "px_Weight (pl_heap p a) \<le> MaxInt32"
proof -
  have wf: "registry_wf p" using assms(1) by (simp add: pool_wf_def)
  show a: "a \<in> set (registered p)" and "px_ID (pl_heap p a) = k"
    using registry_mget [OF wf] assms(2) by (auto simp: id_of_def)
  show "1 \<le> px_Weight (pl_heap p a)" "px_Weight (pl_heap p a) \<le> MaxInt32"
    using registry_weight [OF wf a] by auto
qed

subsection \<open>Each operation\<close>

text \<open>
  Updating the proxy under a key in place: the update is \<open>legal\<close> when it keeps the ID and a legal
  weight. With a rebuild after it anything else may change; without one, not the alive flag.
\<close>

definition legal_upd :: "Proxy \<Rightarrow> Proxy \<Rightarrow> bool" where
  "legal_upd old new \<longleftrightarrow> px_ID new = px_ID old \<and>
     (px_Weight new = px_Weight old \<or> 1 \<le> px_Weight new \<and> px_Weight new \<le> MaxInt32)"

lemma upd_rebuild:
  assumes wf: "pool_wf p" and get: "mget (pl_proxies p) k = Some a" and q: "legal_upd (pl_heap p a) q"
  shows "\<exists>p'. bindE (Rebuild (heap_upd a q p)) (\<lambda>p1. Inr (notifyState a b p1)) = Inr p' \<and> pool_wf p'"
proof -
  have "pre_wf (heap_upd a q p)"
    using pool_get [OF wf get] q by (intro heap_upd_pre [OF wf]) (auto simp: legal_upd_def id_of_def)
  from Rebuild_wf [OF this] show ?thesis by auto
qed

lemma upd_in_place:
  assumes wf: "pool_wf p" and get: "mget (pl_proxies p) k = Some a" and q: "legal_upd (pl_heap p a) q"
    and "px_Alive q = px_Alive (pl_heap p a)"
  shows "pool_wf (notifyState a b (heap_upd a q p))"
  using pool_get [OF wf get] q assms(4)
  by (auto simp: legal_upd_def id_of_def intro!: heap_upd_wf [OF wf])

lemma SetGroups_wf: "pool_wf p \<Longrightarrow> \<exists>q. SetGroups cfg p = Inr q \<and> pool_wf q"
  using Rebuild_wf [of "p\<lparr>pl_groupsCfg := cfg\<rparr>"] pool_pre [of p] by (auto simp: SetGroups_def)

lemma SetAlive_wf:
  assumes "pool_wf p" shows "\<exists>q. SetAlive k b p = Inr q \<and> pool_wf q"
proof (cases "mget (pl_proxies p) k")
  case (Some a)
  then show ?thesis
    using upd_rebuild [OF assms Some, of "(pl_heap p a)\<lparr>px_Alive := b\<rparr>"]
    by (simp add: SetAlive_def Get_def legal_upd_def)
qed (use assms in \<open>simp add: SetAlive_def Get_def\<close>)

lemma SetCountry_wf:
  assumes "pool_wf p" shows "\<exists>q. SetCountry k c p = Inr q \<and> pool_wf q"
proof (cases "mget (pl_proxies p) k")
  case (Some a)
  then show ?thesis
    using upd_rebuild [OF assms Some, of "(pl_heap p a)\<lparr>px_Country := c\<rparr>"] assms
    by (simp add: SetCountry_def legal_upd_def)
qed (use assms in \<open>simp add: SetCountry_def\<close>)

lemma store_latency_simps [simp]:
  "px_ID (store_latency l pr) = px_ID pr" "px_Weight (store_latency l pr) = px_Weight pr"
  "px_Alive (store_latency l pr) = px_Alive pr" "px_LastUsed (store_latency l pr) = px_LastUsed pr"
  "px_Fails (store_latency l pr) = px_Fails pr" "px_Country (store_latency l pr) = px_Country pr"
  by (simp_all add: store_latency_def)

lemma MarkFailed_wf:
  assumes "pool_wf p" shows "\<exists>q. MarkFailed k l p = Inr q \<and> pool_wf q"
proof (cases "mget (pl_proxies p) k")
  case (Some a)
  let ?q = "store_latency l ((pl_heap p a)\<lparr>px_Fails := i32 (px_Fails (pl_heap p a) + 1)\<rparr>)"
  have "\<exists>q. bindE (Rebuild (heap_upd a (?q\<lparr>px_Alive := False\<rparr>) p)) (\<lambda>p1. Inr (notifyState a False p1)) = Inr q \<and> pool_wf q"
    by (rule upd_rebuild [OF assms Some]) (simp add: legal_upd_def)
  moreover have "pool_wf (notifyState a False (heap_upd a ?q p))"
    by (rule upd_in_place [OF assms Some]) (simp_all add: legal_upd_def)
  ultimately show ?thesis
    by (simp only: MarkFailed_def Get_def Some option.case Let_def) (cases "px_LastUsed ?q = 0"; simp)
qed (use assms in \<open>simp add: MarkFailed_def Get_def\<close>)

lemma MarkSuccess_wf:
  assumes "pool_wf p" shows "\<exists>q. MarkSuccess now k l p = Inr q \<and> pool_wf q"
proof (cases "mget (pl_proxies p) k")
  case (Some a)
  let ?q = "(store_latency l ((pl_heap p a)\<lparr>px_Fails := 0\<rparr>))\<lparr>px_LastUsed := now\<rparr>"
  have "\<exists>q. bindE (Rebuild (heap_upd a (?q\<lparr>px_Alive := True\<rparr>) p)) (\<lambda>p1. Inr (notifyState a False p1)) = Inr q \<and> pool_wf q"
    by (rule upd_rebuild [OF assms Some]) (simp add: legal_upd_def)
  moreover have "pool_wf (notifyState a False (heap_upd a ?q p))"
    by (rule upd_in_place [OF assms Some]) (simp_all add: legal_upd_def)
  ultimately show ?thesis
    by (simp only: MarkSuccess_def Get_def Some option.case Let_def) (cases "px_Alive ?q"; simp)
qed (use assms in \<open>simp add: MarkSuccess_def Get_def\<close>)

text \<open>Removing entries from the registry.\<close>

lemma registry_sub:
  assumes "registry_wf p" "mwf m" "set m \<subseteq> set (pl_proxies p)" "length m \<le> length (pl_proxies p)"
  shows "registry_wf (p\<lparr>pl_proxies := m\<rparr>)"
  using assms by (auto simp: registry_wf_def id_of_def list_all_iff)

lemma set_mdel: "set (mdel k m) \<subseteq> set m" "length (mdel k m) \<le> length m"
  by (auto simp: mdel_def AList.delete_eq length_filter_le)

lemma Remove_wf:
  assumes wf: "pool_wf p" shows "\<exists>b q. Remove k p = Inr (b, q) \<and> pool_wf q"
proof (cases "mget (pl_proxies p) k")
  case (Some a)
  let ?p = "clearSWRR k (ClearSticky k (p\<lparr>pl_proxies := mdel k (pl_proxies p)\<rparr>))"
  have "registry_wf (p\<lparr>pl_proxies := mdel k (pl_proxies p)\<rparr>)"
    using wf set_mdel [of k "pl_proxies p"]
    by (intro registry_sub) (simp_all add: pool_wf_def registry_wf_def wf_intros)
  then have "pre_wf ?p"
    using wf by (auto simp: pre_wf_def pool_wf_def clearSWRR_def ClearSticky_def registry_wf_def id_of_def
        intro: wf_intros)
  from Rebuild_wf [OF this] show ?thesis
    by (auto simp: Remove_def Some Let_def)
qed (use wf in \<open>auto simp: Remove_def\<close>)

lemma mfilter_sub: "set (mfilter P m) \<subseteq> set m" "length (mfilter P m) \<le> length m"
  by (auto simp: mfilter_def)

lemma RemoveExpired_wf:
  assumes wf: "pool_wf p" shows "\<exists>n q. RemoveExpired now p = Inr (n, q) \<and> pool_wf q"
proof -
  let ?m = "mfilter (\<lambda>k a. \<not> expired now (pl_heap p a)) (pl_proxies p)"
  have "registry_wf (p\<lparr>pl_proxies := ?m\<rparr>)"
    using wf mfilter_sub [of _ "pl_proxies p"]
    by (intro registry_sub) (simp_all add: pool_wf_def registry_wf_def wf_intros)
  then have pre: "pre_wf (p\<lparr>pl_proxies := ?m\<rparr>)"
    using wf by (simp add: pre_wf_def pool_wf_def)
  have same: "p\<lparr>pl_proxies := ?m\<rparr> = p" if "filter (\<lambda>(k, a). expired now (pl_heap p a)) (pl_proxies p) = []"
  proof -
    have "?m = pl_proxies p" using that by (auto simp: mfilter_def filter_empty_conv intro: filter_True)
    then show ?thesis by simp
  qed
  show ?thesis
    using Rebuild_wf [OF pre] same wf by (auto simp: RemoveExpired_def Let_def)
qed

lemma fold_mdel:
  "mwf m \<Longrightarrow> mwf (fold mdel ks m)" "set (fold mdel ks m) \<subseteq> set m" "length (fold mdel ks m) \<le> length m"
proof (induction ks arbitrary: m)
  case (Cons k ks)
  {
    case 1
    then show ?case using Cons(1) by (simp add: wf_intros)
  next
    case 2
    then show ?case using Cons(2) [of "mdel k m"] set_mdel(1) [of k m] by auto
  next
    case 3
    then show ?case using Cons(3) [of "mdel k m"] set_mdel(2) [of k m] by simp
  }
qed simp_all

lemma fold_ClearSticky:
  "fold ClearSticky ks p = p\<lparr>pl_sticky := mfilter (\<lambda>k e. se_proxyID e \<notin> set ks) (pl_sticky p)\<rparr>"
  by (induction ks arbitrary: p) (simp_all add: ClearSticky_def mfilter_def case_prod_unfold conj_commute)

lemma RemoveByProvider_wf:
  assumes wf: "pool_wf p" shows "\<exists>n q. RemoveByProvider pn p = Inr (n, q) \<and> pool_wf q"
proof -
  obtain es r where es: "range_order (pl_proxies p) (pl_rng p) = (es, r)"
    by (cases "range_order (pl_proxies p) (pl_rng p)")
  define ids where "ids = map fst (filter (\<lambda>(k, a). px_Provider (pl_heap p a) = pn) es)"
  let ?p = "p\<lparr>pl_proxies := fold mdel ids (pl_proxies p)\<rparr>"
  have "registry_wf ?p"
    using wf fold_mdel [where m = "pl_proxies p" and ks = ids]
    by (intro registry_sub) (simp_all add: pool_wf_def registry_wf_def)
  then have "pre_wf (fold ClearSticky ids (?p\<lparr>pl_rng := r, pl_swrr := fold mdel ids (pl_swrr p)\<rparr>))"
    using wf fold_mdel(1) [of "pl_swrr p" ids]
    by (simp add: fold_ClearSticky pre_wf_def pool_wf_def registry_wf_def id_of_def wf_intros)
  from Rebuild_wf [OF this] wf show ?thesis
    by (cases "ids = []") (auto simp: RemoveByProvider_def es Let_def ids_def [symmetric])
qed

text \<open>Registering a proxy; the table must have room and the weight must be an \<^verbatim>\<open>int32\<close>.\<close>

lemma registry_fresh:
  assumes wf: "registry_wf p" and new: "mget (pl_proxies p) (px_ID q) = None"
    and w: "1 \<le> px_Weight q" "px_Weight q \<le> MaxInt32" and len: "length (pl_proxies p) < 4294967296"
  shows "registry_wf (p\<lparr>pl_heap := (pl_heap p)(pl_brk p := q), pl_brk := Suc (pl_brk p),
      pl_proxies := mput (px_ID q) (pl_brk p) (pl_proxies p)\<rparr>)"
proof -
  have "a \<noteq> pl_brk p" if "(k, a) \<in> set (pl_proxies p)" for k a
    using wf that by (auto simp: registry_wf_def list_all_iff)
  moreover have "mwf (pl_proxies p @ [(px_ID q, pl_brk p)])"
    using wf mwf_mput [of "pl_proxies p" "px_ID q" "pl_brk p"] mput_new [OF new] by (simp add: registry_wf_def)
  ultimately show ?thesis
    using assms mput_new [OF new]
    by (auto simp: registry_wf_def list_all_iff id_of_def length_mput wf_intros less_SucI)
qed

lemma update_proxy_simps [simp]:
  "px_ID (update_proxy old pr) = px_ID old" "px_Alive (update_proxy old pr) = px_Alive old"
  "px_Weight (update_proxy old pr) = px_Weight pr" "px_Country (update_proxy old pr) = px_Country old"
  by (simp_all add: update_proxy_def)

lemma Add_wf:
  assumes wf: "pool_wf p" and w: "px_Weight pr \<le> MaxInt32" and len: "length (pl_proxies p) < 4294967296"
  shows "\<exists>q. Add pr p = Inr q \<and> pool_wf q"
proof -
  define pr' where "pr' = (if px_Weight pr \<le> 0 then pr\<lparr>px_Weight := 1\<rparr> else pr)"
  have w': "1 \<le> px_Weight pr'" "px_Weight pr' \<le> MaxInt32"
    using w by (auto simp: pr'_def MaxInt32_def)
  show ?thesis
  proof (cases "mget (pl_proxies p) (px_ID pr')")
    case (Some a)
    then show ?thesis
      using upd_in_place [OF wf Some, of "update_proxy (pl_heap p a) pr'" False] w'
      by (simp add: Add_def Let_def pr'_def [symmetric] legal_upd_def)
  next
    case None
    let ?p = "p\<lparr>pl_heap := (pl_heap p)(pl_brk p := pr'), pl_brk := Suc (pl_brk p),
      pl_proxies := mput (px_ID pr') (pl_brk p) (pl_proxies p)\<rparr>"
    have "registry_wf ?p"
      using wf by (intro registry_fresh None w' len) (simp add: pool_wf_def)
    then have "pre_wf ?p" using wf by (simp add: pre_wf_def pool_wf_def)
    from Rebuild_wf [OF this] None show ?thesis
      by (auto simp: Add_def Let_def pr'_def [symmetric] heap_upd_def)
  qed
qed

end
