(* ===== verification/Swrr_Fair.thy ===== *)
theory Swrr_Fair
  imports Go_Prelude
begin

section \<open>Smooth weighted round-robin, abstractly\<close>

text \<open>
  The algorithm behind \<^verbatim>\<open>pickSWRR\<close>, on plain lists of integers: every round adds each weight to
  its current value, picks an index of maximal value, and takes the sum of the weights off it.
  The locale \<open>max_picker\<close> is the contract of the choice, and everything else follows from it:
  the values keep their sum, stay within bounds that depend only on the weights, and one period
  of as many rounds as the sum of the weights picks every index exactly as often as its weight.
  The choice of the code, the first maximum in the order of the layer, is \<open>argmax_first\<close>.
\<close>

definition add_weights :: "int list \<Rightarrow> int list \<Rightarrow> int list" where
  "add_weights ws cs = map (\<lambda>(w, c). c + w) (zip ws cs)"

fun argmax_loop :: "int list \<Rightarrow> nat \<Rightarrow> nat \<Rightarrow> int \<Rightarrow> nat" where
  "argmax_loop [] i best bestv = best"
| "argmax_loop (x # xs) i best bestv =
     (if x > bestv then argmax_loop xs (Suc i) i x else argmax_loop xs (Suc i) best bestv)"

definition argmax_first :: "int list \<Rightarrow> nat" where
  "argmax_first xs = (case xs of [] \<Rightarrow> 0 | x # xs' \<Rightarrow> argmax_loop xs' 1 0 x)"

lemma argmax_loop_max:
  assumes "length pre = i" "best < i" "pre ! best = bestv" "\<forall>v \<in> set pre. v \<le> bestv"
  shows "argmax_loop xs i best bestv < length (pre @ xs) \<and>
    (\<forall>v \<in> set (pre @ xs). v \<le> (pre @ xs) ! argmax_loop xs i best bestv)"
  using assms
proof (induction xs arbitrary: pre i best bestv)
  case Nil
  then show ?case by simp
next
  case (Cons x xs)
  show ?case
  proof (cases "x > bestv")
    case True
    then have "\<forall>v \<in> set (pre @ [x]). v \<le> x" using Cons.prems by auto
    then show ?thesis
      using Cons.IH [of "pre @ [x]" "Suc i" i x] Cons.prems True by (simp add: nth_append)
  next
    case False
    then show ?thesis
      using Cons.IH [of "pre @ [x]" "Suc i" best bestv] Cons.prems by (auto simp: nth_append)
  qed
qed

lemma argmax_first_max:
  assumes "xs \<noteq> []"
  shows "argmax_first xs < length xs" and "v \<in> set xs \<Longrightarrow> v \<le> xs ! argmax_first xs"
proof -
  obtain y ys where xs: "xs = y # ys" using assms by (cases xs) auto
  have "argmax_first xs < length xs \<and> (\<forall>v \<in> set xs. v \<le> xs ! argmax_first xs)"
    using argmax_loop_max [of "[y]" 1 0 y ys] by (simp add: xs argmax_first_def)
  then show "argmax_first xs < length xs" "v \<in> set xs \<Longrightarrow> v \<le> xs ! argmax_first xs" by auto
qed

subsection \<open>The contract of the choice and its consequences\<close>

locale max_picker =
  fixes pick :: "int list \<Rightarrow> nat"
  assumes pick_less: "xs \<noteq> [] \<Longrightarrow> pick xs < length xs"
    and pick_max: "xs \<noteq> [] \<Longrightarrow> v \<in> set xs \<Longrightarrow> v \<le> xs ! pick xs"
begin

definition step :: "int list \<Rightarrow> int list \<Rightarrow> nat \<times> int list" where
  "step ws cs = (let ds = add_weights ws cs; j = pick ds in (j, ds[j := ds ! j - sum_list ws]))"

fun run :: "nat \<Rightarrow> int list \<Rightarrow> int list \<Rightarrow> nat list \<times> int list" where
  "run 0 ws cs = ([], cs)"
| "run (Suc t) ws cs =
     (let (j, cs') = step ws cs; (js, cs'') = run t ws cs' in (j # js, cs''))"

lemma total_pos: "ws \<noteq> [] \<Longrightarrow> \<forall>w \<in> set ws. 1 \<le> w \<Longrightarrow> 0 < sum_list (ws :: int list)"
  by (cases ws) (auto intro!: add_pos_nonneg sum_list_nonneg)

lemma length_add_weights [simp]: "length ws = length cs \<Longrightarrow> length (add_weights ws cs) = length ws"
  by (simp add: add_weights_def)

lemma nth_add_weights:
  "length ws = length cs \<Longrightarrow> i < length ws \<Longrightarrow> add_weights ws cs ! i = cs ! i + ws ! i"
  by (simp add: add_weights_def)

lemma sum_add_weights: "length ws = length cs \<Longrightarrow> sum_list (add_weights ws cs) = sum_list cs + sum_list ws"
  unfolding add_weights_def by (induction ws cs rule: list_induct2) auto

lemma sum_list_update_int: "k < length xs \<Longrightarrow> sum_list (xs[k := v]) = sum_list xs + v - (xs ! k :: int)"
  by (induction xs arbitrary: k) (auto split: nat.split)

text \<open>The values of a round that starts balanced: the pick is above zero before it pays.\<close>

lemma sum_le_max: "xs \<noteq> [] \<Longrightarrow> sum_list xs \<le> int (length xs) * xs ! pick xs"
proof -
  assume ne: "xs \<noteq> []"
  have "sum_list xs \<le> (\<Sum>v \<leftarrow> xs. xs ! pick xs)"
    using sum_list_mono [of xs "\<lambda>v. v" "\<lambda>_. xs ! pick xs"] pick_max [OF ne] by simp
  then show ?thesis by (simp add: sum_list_triv)
qed

lemma step_facts:
  assumes len: "length ws = length cs" "ws \<noteq> []" and step: "step ws cs = (j, cs')"
  shows "j < length ws" "length cs' = length ws" "sum_list cs' = sum_list cs"
    "\<And>i. i < length ws \<Longrightarrow> cs' ! i = cs ! i + ws ! i - (if i = j then sum_list ws else 0)"
proof -
  let ?ds = "add_weights ws cs"
  have ds: "length ?ds = length ws" using len by simp
  then have ds: "length ?ds = length ws" "?ds \<noteq> []"
    using len(2) by auto
  have j: "j = pick ?ds" and cs': "cs' = ?ds[j := ?ds ! j - sum_list ws]"
    using step by (auto simp: step_def Let_def)
  show jl: "j < length ws" using pick_less [OF ds(2)] ds j by simp
  show "length cs' = length ws" using ds cs' by simp
  show "sum_list cs' = sum_list cs"
    using jl ds sum_add_weights [OF len(1)] by (simp add: cs' sum_list_update_int)
  show "cs' ! i = cs ! i + ws ! i - (if i = j then sum_list ws else 0)" if "i < length ws" for i
    using that ds jl by (simp add: cs' nth_list_update nth_add_weights len)
qed

lemma step_lower:
  assumes len: "length ws = length cs" "ws \<noteq> []" and step: "step ws cs = (j, cs')"
    and pos: "\<forall>w \<in> set ws. 1 \<le> w" and bal: "sum_list cs = 0"
    and low: "\<forall>i < length ws. - sum_list ws < cs ! i"
  shows "\<forall>i < length ws. - sum_list ws < cs' ! i"
proof (intro allI impI)
  fix i assume i: "i < length ws"
  note f = step_facts [OF len step]
  have wpos: "1 \<le> ws ! i" using pos i by simp
  have total: "0 < sum_list ws"
    using total_pos [OF len(2) pos] .
  show "- sum_list ws < cs' ! i"
  proof (cases "i = j")
    case False
    have "- sum_list ws < cs ! i" using low i by blast
    then show ?thesis using False f(4) [OF i] wpos by simp
  next
    case True
    let ?ds = "add_weights ws cs"
    have ne: "?ds \<noteq> []" using length_add_weights [OF len(1)] len(2) by auto
    have "0 < sum_list ?ds" using sum_add_weights [OF len(1)] bal total by simp
    with sum_le_max [OF ne] have "0 < int (length ?ds) * ?ds ! pick ?ds" by linarith
    then have "0 < ?ds ! pick ?ds" by (simp add: zero_less_mult_iff)
    then have "0 < cs ! j + ws ! j"
      using step f(1) len by (auto simp: step_def Let_def nth_add_weights)
    then show ?thesis using f(4) [OF i] True by simp
  qed
qed

text \<open>After any number of rounds: the value of an index is its entitlement minus what it was served.\<close>

lemma run_facts:
  assumes "length ws = length cs" "ws \<noteq> []" "run t ws cs = (js, cs')"
  shows "length js = t \<and> set js \<subseteq> {..<length ws} \<and> length cs' = length ws \<and> sum_list cs' = sum_list cs \<and>
    (\<forall>i < length ws. cs' ! i = cs ! i + int t * ws ! i - int (count_list js i) * sum_list ws)"
  using assms
proof (induction t arbitrary: cs js)
  case (Suc t)
  obtain j c1 js' where s: "step ws cs = (j, c1)" and r: "run t ws c1 = (js', cs')" and js: "js = j # js'"
    using Suc.prems(3) by (auto simp: Let_def split: prod.splits)
  note f = step_facts [OF Suc.prems(1,2) s]
  note ih = Suc.IH [OF f(2) [symmetric] Suc.prems(2) r]
  have "cs' ! i = cs ! i + int (Suc t) * ws ! i - int (count_list js i) * sum_list ws" if "i < length ws" for i
    using ih f(4) [OF that] that by (cases "i = j") (simp_all add: js algebra_simps)
  with ih f show ?case by (simp add: js)
qed simp

lemma run_lower:
  assumes "length ws = length cs" "ws \<noteq> []" "run t ws cs = (js, cs')"
    and "\<forall>w \<in> set ws. 1 \<le> w" "sum_list cs = 0" "\<forall>i < length ws. - sum_list ws < cs ! i"
  shows "\<forall>i < length ws. - sum_list ws < cs' ! i"
  using assms
proof (induction t arbitrary: cs js)
  case (Suc t)
  obtain j c1 js' where s: "step ws cs = (j, c1)" and r: "run t ws c1 = (js', cs')"
    using Suc.prems(3) by (auto simp: Let_def split: prod.splits)
  note f = step_facts [OF Suc.prems(1,2) s]
  show ?case
    using Suc.IH [OF f(2) [symmetric] Suc.prems(2) r Suc.prems(4)] f(3) Suc.prems(5)
      step_lower [OF Suc.prems(1,2) s Suc.prems(4,5,6)] by simp
qed simp

text \<open>Nobody gets ahead of its share by a full turn, whatever the number of rounds.\<close>

lemma run_share:
  assumes "ws \<noteq> []" "run t ws (replicate (length ws) 0) = (js, cs')" "\<forall>w \<in> set ws. 1 \<le> w" "i < length ws"
  shows "int (count_list js i) * sum_list ws < int t * ws ! i + sum_list ws"
proof -
  have total: "0 < sum_list ws"
    using total_pos [OF assms(1,3)] .
  note pre = assms(1,2)
  have "- sum_list ws < cs' ! i"
    using run_lower [OF _ pre assms(3)] total assms(4) by (simp add: sum_list_replicate)
  then show ?thesis
    using run_facts [OF _ pre] assms(4) by simp
qed

lemma sum_count_list:
  "set js \<subseteq> {..<n :: nat} \<Longrightarrow> (\<Sum>i < n. int (count_list js i)) = int (length js)"
proof (induction js)
  case (Cons j js)
  have "(\<Sum>i < n. int (count_list (j # js) i)) = (\<Sum>i < n. int (count_list js i) + (if i = j then 1 else 0))"
    by (intro sum.cong) auto
  also have "\<dots> = int (length js) + 1"
    using Cons by (simp add: sum.distrib)
  finally show ?case by simp
qed simp

text \<open>One period serves every index exactly as often as its weight says and ends where it began.\<close>

lemma run_period:
  assumes ne: "ws \<noteq> []" and pos: "\<forall>w \<in> set ws. 1 \<le> w"
    and run: "run (nat (sum_list ws)) ws (replicate (length ws) 0) = (js, cs')"
  shows "\<forall>i < length ws. int (count_list js i) = ws ! i" and "cs' = replicate (length ws) 0"
proof -
  let ?W = "sum_list ws" and ?n = "length ws"
  have total: "0 < ?W"
    using total_pos [OF ne pos] .
  note f = run_facts [OF _ ne run]
  have le: "int (count_list js i) \<le> ws ! i" if "i < ?n" for i
  proof -
    have "int (count_list js i) * ?W < ?W * ws ! i + ?W"
      using run_share [OF ne run pos that] total by simp
    then have "int (count_list js i) * ?W < (ws ! i + 1) * ?W" by (simp add: algebra_simps)
    then show ?thesis using total by (simp add: mult_less_cancel_right)
  qed
  have "(\<Sum>i < ?n. ws ! i - int (count_list js i)) = 0"
    using f total sum_count_list [of js ?n] by (simp add: sum_subtractf sum_list_sum_nth atLeast0LessThan)
  moreover have "0 \<le> ws ! i - int (count_list js i)" if "i \<in> {..<?n}" for i
    using le that by simp
  ultimately have "\<forall>i \<in> {..<?n}. ws ! i - int (count_list js i) = 0"
    by (subst (asm) sum_nonneg_eq_0_iff) auto
  then show eq: "\<forall>i < ?n. int (count_list js i) = ws ! i" by simp
  have "cs' ! i = 0" if "i < ?n" for i
    using f eq that total by simp
  then show "cs' = replicate ?n 0"
    using f by (intro nth_equalityI) simp_all
qed

text \<open>The states a run goes through, and the bounds they imply.\<close>

definition balanced :: "int list \<Rightarrow> int list \<Rightarrow> bool" where
  "balanced ws cs \<longleftrightarrow> length ws = length cs \<and> sum_list cs = 0 \<and> (\<forall>i < length ws. - sum_list ws < cs ! i)"

lemma balanced_zero: "ws \<noteq> [] \<Longrightarrow> \<forall>w \<in> set ws. 1 \<le> w \<Longrightarrow> balanced ws (replicate (length ws) 0)"
  using total_pos [of ws] by (simp add: balanced_def sum_list_replicate)

lemma balanced_step:
  "balanced ws cs \<Longrightarrow> ws \<noteq> [] \<Longrightarrow> \<forall>w \<in> set ws. 1 \<le> w \<Longrightarrow> step ws cs = (j, cs') \<Longrightarrow> balanced ws cs'"
  using step_facts [of ws cs j cs'] step_lower [of ws cs j cs'] by (simp add: balanced_def)

lemma balanced_upper:
  assumes bal: "balanced ws cs" and pos: "\<forall>w \<in> set ws. 1 \<le> w" and i: "i < length ws"
  shows "cs ! i \<le> int (length ws - 1) * sum_list ws"
proof -
  let ?W = "sum_list ws" and ?R = "{..<length ws} - {i}"
  have f: "length cs = length ws" "sum_list cs = 0" "\<forall>i < length ws. - ?W < cs ! i"
    using bal by (auto simp: balanced_def)
  have "cs ! i + (\<Sum>k \<in> ?R. cs ! k) = 0"
    using f i sum.remove [of "{..<length ws}" i "\<lambda>k. cs ! k"] by (simp add: sum_list_sum_nth atLeast0LessThan)
  moreover have "(\<Sum>k \<in> ?R. - ?W) \<le> (\<Sum>k \<in> ?R. cs ! k)"
    using f by (intro sum_mono) (auto intro: less_imp_le)
  moreover have "(\<Sum>k \<in> ?R. - ?W) = - (int (length ws - 1) * ?W)"
    using i by (simp add: card_Diff_singleton)
  ultimately show ?thesis by linarith
qed

end

interpretation first_max: max_picker argmax_first
  by unfold_locales (auto intro: argmax_first_max)

end
