(* ===== verification/Pool_Swrr.thy ===== *)
theory Pool_Swrr
  imports Pool_Select Swrr_Fair
begin

section \<open>The round-robin of the pool refines the abstract one\<close>

text \<open>
  Bounds on the latency-scaled weights, and the simulation between \<^verbatim>\<open>pickSWRR\<close>, which works on
  64-bit weights kept in a map under proxy IDs, and the abstract round on lists: as long as no
  weight can reach the limits of \<^verbatim>\<open>int64\<close>, a pick chooses the first maximum in layer order and
  leaves the values of the abstract step. The fairness of the abstract rounds carries over.
\<close>

subsection \<open>Latency scaling\<close>

lemma f64_to_int_mono: "0 \<le> x \<Longrightarrow> x \<le> y \<Longrightarrow> f64_to_int x \<le> f64_to_int y"
  by (simp add: f64_to_int_def floor_mono)

lemma clamp_range:
  fixes x :: rat
  defines "c \<equiv> (if x > 2 then 2 else if x < 1 / 2 then 1 / 2 else x)"
  shows "1 / 2 \<le> c" "c \<le> 2"
  by (auto simp: c_def)

lemma f64_half_exact: "0 \<le> m \<Longrightarrow> m < 2 ^ 53 \<Longrightarrow> f64_mul (of_int m) (1 / 2) = of_int m / 2"
  using f64_rnd_exact [of m "-1"] by (simp add: f64_mul_def)

lemma f64_double_exact: "0 \<le> m \<Longrightarrow> m < 2 ^ 53 \<Longrightarrow> f64_mul (of_int m) 2 = of_int (2 * m)"
  using f64_rnd_exact [of m 1] by (simp add: f64_mul_def mult.commute)

lemma f64_mul_mono: "0 \<le> a \<Longrightarrow> b \<le> c \<Longrightarrow> f64_mul a b \<le> f64_mul a c"
  by (simp add: f64_mul_def f64_rnd_mono mult_left_mono)

lemma scaled_range:
  assumes b: "1 \<le> base" "base < 2 ^ 53" and f: "1 / 2 \<le> f" "f \<le> (2 :: rat)"
  shows "base div 2 \<le> f64_to_int (f64_mul (f64_of_int base) f)"
    and "f64_to_int (f64_mul (f64_of_int base) f) \<le> 2 * base"
proof -
  have e: "f64_of_int base = of_int base" using b by (intro f64_of_int_exact) auto
  have nn: "0 \<le> (of_int base :: rat)" using b by simp
  have lo: "(of_int base / 2 :: rat) \<le> f64_mul (of_int base) f"
    using f64_mul_mono [OF nn f(1)] f64_half_exact [of base] b by simp
  have hi: "f64_mul (of_int base) f \<le> of_int (2 * base)"
    using f64_mul_mono [OF nn f(2)] f64_double_exact [of base] b by simp
  have "f64_to_int (of_int base / 2) \<le> f64_to_int (f64_mul (of_int base) f)"
    using lo nn by (intro f64_to_int_mono) auto
  moreover have "f64_to_int (of_int base / 2) = base div 2"
    using b floor_divide_of_int_eq [of base 2, where 'a = rat] by (simp add: f64_to_int_def)
  ultimately show "base div 2 \<le> f64_to_int (f64_mul (f64_of_int base) f)"
    by (simp add: e)
  have "f64_to_int (f64_mul (of_int base) f) \<le> f64_to_int (of_int (2 * base))"
    using lo hi nn by (intro f64_to_int_mono) auto
  also have "f64_to_int (of_int (2 * base)) = 2 * base"
    unfolding f64_to_int_def floor_of_int ceiling_of_int by simp
  finally show "f64_to_int (f64_mul (f64_of_int base) f) \<le> 2 * base"
    by (simp only: e)
qed

lemma latencyScaledWeight_range:
  assumes "1 \<le> base" "base < 2 ^ 53"
  shows "1 \<le> latencyScaledWeight ref base lat" "base div 2 \<le> latencyScaledWeight ref base lat"
    "latencyScaledWeight ref base lat \<le> 2 * base"
proof -
  let ?c = "\<lambda>x :: rat. if x > 2 then 2 else if x < 1 / 2 then 1 / 2 else x"
  define w where "w = f64_to_int (f64_mul (f64_of_int base) (?c (f64_div (f64_of_int ref) (f64_of_int lat))))"
  have w: "base div 2 \<le> w" "w \<le> 2 * base"
    unfolding w_def using scaled_range [OF assms clamp_range] by blast+
  have "latencyScaledWeight ref base lat = (if lat \<le> 0 \<or> ref \<le> 0 then base else max 1 w)"
    using assms(1) by (simp add: latencyScaledWeight_def Let_def max_def w_def)
  then show "1 \<le> latencyScaledWeight ref base lat" "base div 2 \<le> latencyScaledWeight ref base lat"
      "latencyScaledWeight ref base lat \<le> 2 * base"
    using w assms(1) by auto
qed

lemma f64_div_anti:
  assumes "0 < ref" "0 < a" "a \<le> b"
  shows "f64_div (f64_of_int ref) (f64_of_int b) \<le> f64_div (f64_of_int ref) (f64_of_int a)"
  using f64_of_int_pos [of a] f64_of_int_pos [of b] f64_of_int_pos [of ref] f64_of_int_mono [OF assms(3)] assms
  by (auto simp: f64_div_def intro!: f64_rnd_mono divide_left_mono mult_pos_pos)

lemma latencyScaledWeight_anti:
  assumes b: "1 \<le> base" and lat: "0 < lat" "lat \<le> lat'"
  shows "latencyScaledWeight ref base lat' \<le> latencyScaledWeight ref base lat"
proof (cases "ref \<le> 0")
  case False
  let ?c = "\<lambda>x :: rat. if x > 2 then 2 else if x < 1 / 2 then 1 / 2 else x"
  let ?f = "\<lambda>l. f64_div (f64_of_int ref) (f64_of_int l)"
  have "?f lat' \<le> ?f lat" using False lat by (intro f64_div_anti) auto
  then have c: "?c (?f lat') \<le> ?c (?f lat)" by auto
  have nn: "0 \<le> f64_of_int base" using b by (intro f64_of_int_nonneg) auto
  have "0 \<le> f64_mul (f64_of_int base) (?c (?f lat'))"
    using nn by (auto simp: f64_mul_def intro!: f64_rnd_nonneg mult_nonneg_nonneg)
  then have "f64_to_int (f64_mul (f64_of_int base) (?c (?f lat'))) \<le> f64_to_int (f64_mul (f64_of_int base) (?c (?f lat)))"
    using f64_mul_mono [OF nn c] by (rule f64_to_int_mono)
  then show ?thesis
    using False lat b by (simp add: latencyScaledWeight_def Let_def)
qed (simp add: latencyScaledWeight_def)

lemma eff_weight_range:
  assumes "1 \<le> w" "w \<le> MaxInt32"
  shows "1 \<le> eff_weight h ref w a" "eff_weight h ref w a \<le> 2 * w"
  using latencyScaledWeight_range [of w ref "px_LatencyMS (h a)"] assms
  by (simp_all add: eff_weight_def MaxInt32_def)

subsection \<open>One round\<close>

text \<open>The effective weights of a round and the stored values, as lists in layer order.\<close>

definition eff_weights :: "heap \<Rightarrow> layerSnap \<Rightarrow> int list" where
  "eff_weights h l =
     map (\<lambda>(w, a). eff_weight h (layerRefLatency h (ly_proxies l)) w a) (zip (ly_weight l) (ly_proxies l))"

definition cur_weights :: "heap \<Rightarrow> (string, int) gomap \<Rightarrow> addr list \<Rightarrow> int list" where
  "cur_weights h swrr as = map (\<lambda>a. mget0 0 swrr (px_ID (h a))) as"

lemma cur_weights_mput:
  "px_ID (h a) \<notin> (\<lambda>a. px_ID (h a)) ` set as \<Longrightarrow> cur_weights h (mput (px_ID (h a)) v m) as = cur_weights h m as"
  by (induction as) (auto simp: cur_weights_def)

lemma cur_weights_update:
  assumes "distinct (map (\<lambda>a. px_ID (h a)) as)" "j < length as"
  shows "cur_weights h (mput (px_ID (h (as ! j))) v m) as = (cur_weights h m as)[j := v]"
proof (rule nth_equalityI)
  fix i assume "i < length (cur_weights h (mput (px_ID (h (as ! j))) v m) as)"
  then have i: "i < length as" by (simp add: cur_weights_def)
  then have "px_ID (h (as ! i)) = px_ID (h (as ! j)) \<longleftrightarrow> i = j"
    using assms nth_eq_iff_index_eq [OF assms(1), of i j] by simp
  then show "cur_weights h (mput (px_ID (h (as ! j))) v m) as ! i = (cur_weights h m as)[j := v] ! i"
    using i by (simp add: cur_weights_def nth_list_update)
qed (simp add: cur_weights_def)

text \<open>
  The loop, where no sum leaves the range: it adds the weights to the stored values, sums them up
  and ends at the first maximum. \<open>pre\<close> are the proxies already visited.
\<close>

lemma swrr_loop_exact:
  fixes h ref as ws swrr
  defines "es \<equiv> map (\<lambda>(w, a). eff_weight h ref w a) (zip ws as)"
  assumes "length ws = length as" "distinct (map (\<lambda>a. px_ID (h a)) as)"
    and "\<forall>v \<in> set (add_weights es (cur_weights h swrr as)). MinInt64 < v \<and> v \<le> MaxInt64"
    and "\<forall>e \<in> set es. 1 \<le> e" "0 \<le> tot" "tot + sum_list es \<le> MaxInt64"
    and "b < length pre"
  shows "\<exists>swrr' bc. swrr_loop h ref as ws (swrr, tot, Some (pre ! b), bestCW) =
      Inr (swrr', tot + sum_list es,
           Some ((pre @ as) ! argmax_loop (add_weights es (cur_weights h swrr as)) (length pre) b bestCW), bc) \<and>
    cur_weights h swrr' as = add_weights es (cur_weights h swrr as) \<and>
    (\<forall>k. k \<notin> (\<lambda>a. px_ID (h a)) ` set as \<longrightarrow> mget0 0 swrr' k = mget0 0 swrr k)"
  using assms(2-) unfolding es_def
proof (induction as arbitrary: ws swrr tot pre b bestCW)
  case Nil
  then show ?case by (simp add: add_weights_def cur_weights_def nth_append)
next
  case (Cons a as)
  obtain w ws' where ws: "ws = w # ws'" using Cons.prems(1) by (cases ws) auto
  let ?e = "eff_weight h ref w a" and ?k = "px_ID (h a)"
  let ?cw = "mget0 0 swrr ?k + ?e"
  let ?es = "map (\<lambda>(w, a). eff_weight h ref w a) (zip ws' as)"
  let ?m = "mput ?k ?cw swrr"
  have len: "length ws' = length as" and dist: "distinct (map (\<lambda>a. px_ID (h a)) as)"
    and new: "?k \<notin> (\<lambda>a. px_ID (h a)) ` set as"
    using Cons.prems(1,2) ws by auto
  have ds: "add_weights (map (\<lambda>(w, a). eff_weight h ref w a) (zip ws (a # as))) (cur_weights h swrr (a # as)) =
      ?cw # add_weights ?es (cur_weights h ?m as)"
    using new by (simp add: ws add_weights_def cur_weights_mput) (simp add: cur_weights_def)
  have cw: "i64 ?cw = ?cw"
    using Cons.prems(3) unfolding ds by (intro i64_id) auto
  have pos: "\<forall>e \<in> set ?es. 1 \<le> e" and e1: "1 \<le> ?e"
    using Cons.prems(4) by (simp_all add: ws)
  have "0 \<le> sum_list ?es" using pos by (intro sum_list_nonneg) force
  then have tot: "i64 (tot + ?e) = tot + ?e" "0 \<le> tot + ?e"
    using Cons.prems(5,6) e1 by (auto simp: ws MinInt64_def intro!: i64_id)
  have sums: "tot + ?e + sum_list ?es \<le> MaxInt64"
    using Cons.prems(6) by (simp add: ws add.assoc)
  have range: "\<forall>v \<in> set (add_weights ?es (cur_weights h ?m as)). MinInt64 < v \<and> v \<le> MaxInt64"
    using Cons.prems(3) unfolding ds by simp
  let ?b = "if ?cw > bestCW then length pre else b"
  have b: "?b < length (pre @ [a])" "(pre @ [a]) ! ?b = (if ?cw > bestCW then a else pre ! b)"
    using Cons.prems(7) by (simp_all add: nth_append)
  from Cons.IH [OF len dist range pos tot(2) sums b(1), where bestCW = "if ?cw > bestCW then ?cw else bestCW"]
  obtain swrr' bc where
    loop: "swrr_loop h ref as ws' (?m, tot + ?e, Some ((pre @ [a]) ! ?b), if ?cw > bestCW then ?cw else bestCW) =
      Inr (swrr', tot + ?e + sum_list ?es,
        Some (((pre @ [a]) @ as) ! argmax_loop (add_weights ?es (cur_weights h ?m as)) (length (pre @ [a])) ?b
               (if ?cw > bestCW then ?cw else bestCW)), bc)"
    and cur: "cur_weights h swrr' as = add_weights ?es (cur_weights h ?m as)"
    and other: "\<forall>k. k \<notin> (\<lambda>a. px_ID (h a)) ` set as \<longrightarrow> mget0 0 swrr' k = mget0 0 ?m k"
    by blast
  have "swrr_loop h ref (a # as) ws (swrr, tot, Some (pre ! b), bestCW) =
      swrr_loop h ref as ws' (?m, tot + ?e, Some ((pre @ [a]) ! ?b), if ?cw > bestCW then ?cw else bestCW)"
    using b(2) by (simp add: ws Let_def cw tot(1))
  also note loop
  finally have "swrr_loop h ref (a # as) ws (swrr, tot, Some (pre ! b), bestCW) =
      Inr (swrr', tot + sum_list (map (\<lambda>(w, a). eff_weight h ref w a) (zip ws (a # as))),
        Some ((pre @ a # as) ! argmax_loop (?cw # add_weights ?es (cur_weights h ?m as)) (length pre) b bestCW), bc)"
    by (simp add: ws add.assoc)
  moreover have "cur_weights h swrr' (a # as) = ?cw # add_weights ?es (cur_weights h ?m as)"
    using cur other new by (simp add: cur_weights_def)
  moreover have "mget0 0 swrr' k = mget0 0 swrr k" if "k \<notin> (\<lambda>a. px_ID (h a)) ` set (a # as)" for k
    using other that by simp
  ultimately show ?case unfolding ds by blast
qed

lemma swrr_loop_start:
  fixes h ref as ws swrr
  defines "es \<equiv> map (\<lambda>(w, a). eff_weight h ref w a) (zip ws as)"
  defines "ds \<equiv> add_weights es (cur_weights h swrr as)"
  assumes ne: "as \<noteq> []" and len: "length ws = length as" and dist: "distinct (map (\<lambda>a. px_ID (h a)) as)"
    and range: "\<forall>v \<in> set ds. MinInt64 < v \<and> v \<le> MaxInt64"
    and pos: "\<forall>e \<in> set es. 1 \<le> e" and total: "sum_list es \<le> MaxInt64"
  shows "\<exists>m bc. swrr_loop h ref as ws (swrr, 0, None, MinInt64) =
      Inr (m, sum_list es, Some (as ! argmax_first ds), bc) \<and> cur_weights h m as = ds \<and>
    (\<forall>k. k \<notin> (\<lambda>a. px_ID (h a)) ` set as \<longrightarrow> mget0 0 m k = mget0 0 swrr k)"
proof -
  obtain a as' where as: "as = a # as'" using ne by (cases as) auto
  obtain w ws' where ws: "ws = w # ws'" using len as by (cases ws) auto
  let ?e = "eff_weight h ref w a"
  let ?cw = "mget0 0 swrr (px_ID (h a)) + ?e"
  let ?es = "map (\<lambda>(w, a). eff_weight h ref w a) (zip ws' as')"
  let ?m = "mput (px_ID (h a)) ?cw swrr"
  have new: "px_ID (h a) \<notin> (\<lambda>a. px_ID (h a)) ` set as'" and dist': "distinct (map (\<lambda>a. px_ID (h a)) as')"
    using dist as by auto
  have es: "es = ?e # ?es" by (simp add: es_def as ws)
  have ds: "ds = ?cw # add_weights ?es (cur_weights h ?m as')"
    using new by (simp add: ds_def es as add_weights_def cur_weights_mput) (simp add: cur_weights_def)
  have cw: "MinInt64 < ?cw" "i64 ?cw = ?cw" using range ds by (auto intro: i64_id)
  have e: "1 \<le> ?e" "\<forall>e \<in> set ?es. 1 \<le> e" using pos es by auto
  then have "0 \<le> sum_list ?es" by (intro sum_list_nonneg) force
  then have e': "i64 ?e = ?e" "?e + sum_list ?es \<le> MaxInt64"
    using e total es by (auto intro!: i64_id simp: MinInt64_def)
  have first: "swrr_loop h ref as ws (swrr, 0, None, MinInt64) =
      swrr_loop h ref as' ws' (?m, ?e, Some ([a] ! 0), ?cw)"
    using cw e' by (simp add: as ws Let_def)
  have "length ws' = length as'" using len as ws by simp
  moreover have "\<forall>v \<in> set (add_weights ?es (cur_weights h ?m as')). MinInt64 < v \<and> v \<le> MaxInt64"
    using range ds by simp
  ultimately obtain m bc where loop: "swrr_loop h ref as' ws' (?m, ?e, Some ([a] ! 0), ?cw) =
      Inr (m, ?e + sum_list ?es,
        Some (([a] @ as') ! argmax_loop (add_weights ?es (cur_weights h ?m as')) (length [a]) 0 ?cw), bc)"
    and cur: "cur_weights h m as' = add_weights ?es (cur_weights h ?m as')"
    and other: "\<forall>k. k \<notin> (\<lambda>a. px_ID (h a)) ` set as' \<longrightarrow> mget0 0 m k = mget0 0 ?m k"
    using swrr_loop_exact [of ws' as' h ref ?m ?e 0 "[a]" ?cw] dist' e e' by auto
  have "swrr_loop h ref as ws (swrr, 0, None, MinInt64) = Inr (m, sum_list es, Some (as ! argmax_first ds), bc)"
    using first loop by (simp add: es ds as argmax_first_def)
  moreover have "cur_weights h m as = ds"
    using cur other new by (simp add: ds as cur_weights_def)
  moreover have "mget0 0 m k = mget0 0 swrr k" if "k \<notin> (\<lambda>a. px_ID (h a)) ` set as" for k
    using other that by (simp add: as)
  ultimately show ?thesis by blast
qed

text \<open>The layers whose rounds cannot overflow.\<close>

definition swrr_room :: "heap \<Rightarrow> layerSnap \<Rightarrow> int \<Rightarrow> bool" where
  "swrr_room h l B \<longleftrightarrow> B + sum_list (eff_weights h l) \<le> MaxInt64"

lemma eff_weights_facts:
  assumes wf: "layer_wf idf l"
  shows "length (eff_weights h l) = length (ly_proxies l)" "\<forall>e \<in> set (eff_weights h l). 1 \<le> e"
    "sum_list (eff_weights h l) \<le> 2 * ly_totalW l"
proof -
  let ?f = "\<lambda>(w, a). eff_weight h (layerRefLatency h (ly_proxies l)) w a"
  have len: "length (ly_weight l) = length (ly_proxies l)" and ok: "weights_ok (ly_weight l)"
    and tot: "ly_totalW l = sum_list (ly_weight l)"
    using wf by (auto simp: layer_wf_def sum_weights_eq)
  have w: "1 \<le> w \<and> w \<le> MaxInt32" if "w \<in> set (ly_weight l)" for w
    using ok that by (simp add: weights_ok_def list_all_iff)
  show "length (eff_weights h l) = length (ly_proxies l)"
    using len by (simp add: eff_weights_def)
  show "\<forall>e \<in> set (eff_weights h l). 1 \<le> e"
    using w by (auto simp: eff_weights_def intro!: eff_weight_range(1) dest: set_zip_leftD)
  have "sum_list (eff_weights h l) \<le> (\<Sum>(w, a) \<leftarrow> zip (ly_weight l) (ly_proxies l). 2 * w)"
    unfolding eff_weights_def using w
    by (intro sum_list_mono) (auto intro!: eff_weight_range(2) dest: set_zip_leftD)
  also have "\<dots> = (\<Sum>w \<leftarrow> map fst (zip (ly_weight l) (ly_proxies l)). 2 * w)"
    by (simp add: o_def case_prod_unfold)
  also have "\<dots> = 2 * ly_totalW l"
    using len by (simp add: tot sum_list_const_mult)
  finally show "sum_list (eff_weights h l) \<le> 2 * ly_totalW l" .
qed

text \<open>A pick is one step of the abstract round-robin on the values of the layer.\<close>

lemma pickSWRR_exact:
  assumes wf: "layer_wf (id_of p) l" and ne: "ly_proxies l \<noteq> []"
    and bound: "\<forall>c \<in> set (cur_weights (pl_heap p) (pl_swrr p) (ly_proxies l)). - B \<le> c \<and> c \<le> B"
    and B: "0 \<le> B" and room: "swrr_room (pl_heap p) l B"
    and step: "first_max.step (eff_weights (pl_heap p) l) (cur_weights (pl_heap p) (pl_swrr p) (ly_proxies l)) = (j, cs')"
  shows "\<exists>m. pickSWRR l p = Inr (Some (ly_proxies l ! j), p\<lparr>pl_swrr := m\<rparr>) \<and>
    cur_weights (pl_heap p) m (ly_proxies l) = cs' \<and> j < length (ly_proxies l) \<and>
    (\<forall>k. k \<notin> id_of p ` set (ly_proxies l) \<longrightarrow> mget0 0 m k = mget0 0 (pl_swrr p) k)"
proof -
  let ?h = "pl_heap p" and ?as = "ly_proxies l" and ?ws = "ly_weight l"
  let ?ref = "layerRefLatency ?h ?as" and ?cs = "cur_weights ?h (pl_swrr p) ?as" and ?es = "eff_weights ?h l"
  let ?ds = "add_weights ?es ?cs"
  have idf: "id_of p = (\<lambda>a. px_ID (?h a))" by (simp add: id_of_def [abs_def])
  note eff = eff_weights_facts [OF wf, of ?h]
  have len: "length ?ws = length ?as" and dist: "distinct (map (\<lambda>a. px_ID (?h a)) ?as)"
    using wf by (auto simp: layer_wf_def idf)
  have lens: "length ?es = length ?cs" "?es \<noteq> []" using eff(1) ne by (auto simp: cur_weights_def)
  have total: "0 < sum_list ?es" using eff(2) lens by (intro first_max.total_pos)
  have total': "sum_list ?es \<le> MaxInt64" using room B by (simp add: swrr_room_def)
  have e_le: "e \<le> sum_list ?es" if "e \<in> set ?es" for e
    using that eff(2) by (intro member_le_sum_list) force+
  have range: "\<forall>v \<in> set ?ds. MinInt64 < v \<and> v \<le> MaxInt64"
  proof
    fix v assume "v \<in> set ?ds"
    then obtain e c where v: "v = c + e" "e \<in> set ?es" "c \<in> set ?cs"
      by (auto simp: add_weights_def dest: set_zip_leftD set_zip_rightD)
    then have "1 \<le> e" "e \<le> sum_list ?es" "- B \<le> c" "c \<le> B" using eff(2) e_le bound by auto
    then show "MinInt64 < v \<and> v \<le> MaxInt64"
      using room v(1) total unfolding swrr_room_def MinInt64_def MaxInt64_def by linarith
  qed
  from swrr_loop_start [OF ne len dist, of ?ref "pl_swrr p"] range eff(2) total'
  obtain m bc where loop: "swrr_loop ?h ?ref ?as ?ws (pl_swrr p, 0, None, MinInt64) =
      Inr (m, sum_list ?es, Some (?as ! argmax_first ?ds), bc)"
    and cur: "cur_weights ?h m ?as = ?ds"
    and other: "\<forall>k. k \<notin> (\<lambda>a. px_ID (?h a)) ` set ?as \<longrightarrow> mget0 0 m k = mget0 0 (pl_swrr p) k"
    unfolding eff_weights_def by blast
  have j: "j = argmax_first ?ds" and cs': "cs' = ?ds[j := ?ds ! j - sum_list ?es]"
    using step by (auto simp: first_max.step_def Let_def)
  have jl: "j < length ?as" using first_max.step_facts(1) [OF lens step] eff(1) by simp
  let ?k = "px_ID (?h (?as ! j))"
  have at: "mget0 0 m ?k = ?ds ! j"
    using jl arg_cong [OF cur, of "\<lambda>xs. xs ! j"] by (simp add: cur_weights_def)
  have dj: "?ds ! j = ?cs ! j + ?es ! j"
    using first_max.nth_add_weights [OF lens(1)] jl eff(1) by simp
  moreover have "?es ! j \<in> set ?es" "?cs ! j \<in> set ?cs" using jl lens eff(1) by (intro nth_mem, simp)+
  ultimately have "1 - B \<le> ?ds ! j" "?ds ! j \<le> B + sum_list ?es"
    using eff(2) e_le bound by fastforce+
  then have i64: "i64 (?ds ! j - sum_list ?es) = ?ds ! j - sum_list ?es"
    using room total B by (intro i64_id) (auto simp: swrr_room_def MinInt64_def MaxInt64_def)
  let ?m = "mput ?k (?ds ! j - sum_list ?es) m"
  have "pickSWRR l p = Inr (Some (?as ! j), p\<lparr>pl_swrr := ?m\<rparr>)"
    using total by (simp add: pickSWRR_def Let_def loop j [symmetric] at i64)
  moreover have "cur_weights ?h ?m ?as = cs'"
    using cur_weights_update [OF dist jl] by (simp add: cur cs')
  moreover have "mget0 0 ?m k = mget0 0 (pl_swrr p) k" if "k \<notin> id_of p ` set ?as" for k
    using other that jl by (auto simp: idf)
  ultimately show ?thesis using jl by blast
qed

subsection \<open>Many rounds\<close>

text \<open>A client that picks \<open>n\<close> times from the layer, and what it gets.\<close>

fun pick_rounds :: "nat \<Rightarrow> layerSnap \<Rightarrow> Pool \<Rightarrow> (addr option list \<times> Pool) go" where
  "pick_rounds 0 l p = Inr ([], p)"
| "pick_rounds (Suc n) l p =
     bindE (pickSWRR l p) (\<lambda>(r, p1). bindE (pick_rounds n l p1) (\<lambda>(rs, p2). Inr (r # rs, p2)))"

text \<open>Room for the values of a whole run: the number of proxies times the sum of the weights.\<close>

definition layer_room :: "layerSnap \<Rightarrow> bool" where
  "layer_room l \<longleftrightarrow> (int (length (ly_proxies l)) + 1) * (2 * ly_totalW l) \<le> MaxInt64"

lemma balanced_bound:
  assumes wf: "layer_wf idf l" and ne: "ly_proxies l \<noteq> []" and room: "layer_room l"
    and bal: "first_max.balanced (eff_weights h l) cs"
  defines "B \<equiv> int (length (ly_proxies l)) * sum_list (eff_weights h l)"
  shows "\<forall>c \<in> set cs. - B \<le> c \<and> c \<le> B" "0 \<le> B" "swrr_room h l B"
proof -
  let ?es = "eff_weights h l" and ?n = "int (length (ly_proxies l))"
  note eff = eff_weights_facts [OF wf, of h]
  have total: "0 < sum_list ?es" using eff(1,2) ne by (intro first_max.total_pos) auto
  have n: "1 \<le> ?n" using ne by (cases "ly_proxies l") auto
  show B: "0 \<le> B" using total by (simp add: B_def)
  have len: "length cs = length ?es" using bal by (simp add: first_max.balanced_def)
  have WB: "sum_list ?es \<le> B" using total n mult_right_mono [of 1 ?n "sum_list ?es"] by (simp add: B_def)
  have up: "int (length ?es - 1) * sum_list ?es \<le> B"
    using total eff(1) by (auto simp: B_def intro!: mult_right_mono)
  show "\<forall>c \<in> set cs. - B \<le> c \<and> c \<le> B"
  proof
    fix c assume "c \<in> set cs"
    then obtain i where i: "i < length ?es" "c = cs ! i" by (auto simp: in_set_conv_nth len)
    have "- sum_list ?es < c" using bal i by (simp add: first_max.balanced_def)
    moreover have "c \<le> int (length ?es - 1) * sum_list ?es"
      unfolding i(2) by (rule first_max.balanced_upper [OF bal eff(2) i(1)])
    ultimately show "- B \<le> c \<and> c \<le> B" using WB up by linarith
  qed
  have "B + sum_list ?es = (?n + 1) * sum_list ?es" by (simp add: B_def algebra_simps)
  also have "\<dots> \<le> (?n + 1) * (2 * ly_totalW l)" using eff(3) by (intro mult_left_mono) auto
  finally show "swrr_room h l B" using room by (simp add: swrr_room_def layer_room_def)
qed

lemma pick_rounds_exact:
  assumes wf: "layer_wf (id_of p) l" and ne: "ly_proxies l \<noteq> []" and room: "layer_room l"
    and bal: "first_max.balanced (eff_weights (pl_heap p) l) (cur_weights (pl_heap p) (pl_swrr p) (ly_proxies l))"
    and run: "first_max.run t (eff_weights (pl_heap p) l)
        (cur_weights (pl_heap p) (pl_swrr p) (ly_proxies l)) = (js, cs')"
  shows "\<exists>m. pick_rounds t l p = Inr (map (\<lambda>j. Some (ly_proxies l ! j)) js, p\<lparr>pl_swrr := m\<rparr>) \<and>
    cur_weights (pl_heap p) m (ly_proxies l) = cs' \<and>
    (\<forall>k. k \<notin> id_of p ` set (ly_proxies l) \<longrightarrow> mget0 0 m k = mget0 0 (pl_swrr p) k)"
  using wf bal run
proof (induction t arbitrary: p js)
  case 0
  then show ?case by (intro exI [of _ "pl_swrr p"]) simp
next
  case (Suc t)
  let ?h = "pl_heap p" and ?as = "ly_proxies l"
  let ?es = "eff_weights ?h l" and ?cs = "cur_weights ?h (pl_swrr p) ?as"
  obtain j c1 js' where st: "first_max.step ?es ?cs = (j, c1)" and r: "first_max.run t ?es c1 = (js', cs')"
    and js: "js = j # js'"
    using Suc.prems(3) by (auto simp: Let_def split: prod.splits)
  obtain m where pick: "pickSWRR l p = Inr (Some (?as ! j), p\<lparr>pl_swrr := m\<rparr>)"
    and cur: "cur_weights ?h m ?as = c1"
    and other: "\<forall>k. k \<notin> id_of p ` set ?as \<longrightarrow> mget0 0 m k = mget0 0 (pl_swrr p) k"
    using pickSWRR_exact [OF Suc.prems(1) ne balanced_bound [OF Suc.prems(1) ne room Suc.prems(2)] st] by blast
  let ?p = "p\<lparr>pl_swrr := m\<rparr>"
  have idf: "id_of ?p = id_of p" by (simp add: id_of_def [abs_def])
  note eff = eff_weights_facts [OF Suc.prems(1), of ?h]
  have "?es \<noteq> []" using eff(1) ne by auto
  then have bal': "first_max.balanced ?es c1"
    using first_max.balanced_step [OF Suc.prems(2) _ eff(2) st] by blast
  obtain m' where "pick_rounds t l ?p = Inr (map (\<lambda>j. Some (?as ! j)) js', ?p\<lparr>pl_swrr := m'\<rparr>)"
    "cur_weights ?h m' ?as = cs'" "\<forall>k. k \<notin> id_of p ` set ?as \<longrightarrow> mget0 0 m' k = mget0 0 m k"
    using Suc.IH [of ?p js'] Suc.prems(1) bal' r by (auto simp: idf cur)
  then show ?case
    using pick other by (auto simp: js)
qed

lemma count_list_map_inj:
  "inj_on f (insert x (set xs)) \<Longrightarrow> count_list (map f xs) (f x) = count_list xs x"
proof (induction xs)
  case (Cons y ys)
  then have "inj_on f (insert x (set ys))" "f y = f x \<longleftrightarrow> y = x"
    by (auto simp: inj_on_def)
  with Cons.IH show ?case by simp
qed simp

lemma count_picks:
  assumes "distinct as" "set js \<subseteq> {..<length as}" "i < length as"
  shows "count_list (map (\<lambda>j. Some (as ! j)) js) (Some (as ! i)) = count_list js i"
proof (rule count_list_map_inj)
  show "inj_on (\<lambda>j. Some (as ! j)) (insert i (set js))"
    using assms by (intro inj_onI) (auto simp: nth_eq_iff_index_eq subset_iff)
qed

lemma cur_weights_zero:
  "\<forall>a \<in> set as. mget0 0 m (px_ID (h a)) = 0 \<Longrightarrow> cur_weights h m as = replicate (length as) 0"
  by (induction as) (auto simp: cur_weights_def)

lemma cur_weights_zeroD:
  "cur_weights h m as = replicate (length as) 0 \<Longrightarrow> a \<in> set as \<Longrightarrow> mget0 0 m (px_ID (h a)) = 0"
  by (induction as) (auto simp: cur_weights_def)

lemma layer_wf_distinct: "layer_wf idf l \<Longrightarrow> distinct (ly_proxies l)"
  by (simp add: layer_wf_def distinct_map)

text \<open>The rounds of the model from a fresh state, in terms of the abstract run.\<close>

lemma fresh_rounds:
  assumes wf: "layer_wf (id_of p) l" and ne: "ly_proxies l \<noteq> []" and room: "layer_room l"
    and fresh: "\<forall>a \<in> set (ly_proxies l). mget0 0 (pl_swrr p) (id_of p a) = 0"
  shows "\<exists>js cs' m. first_max.run t (eff_weights (pl_heap p) l) (replicate (length (eff_weights (pl_heap p) l)) 0) = (js, cs') \<and>
    pick_rounds t l p = Inr (map (\<lambda>j. Some (ly_proxies l ! j)) js, p\<lparr>pl_swrr := m\<rparr>) \<and>
    cur_weights (pl_heap p) m (ly_proxies l) = cs' \<and>
    (\<forall>i < length (ly_proxies l).
       count_list (map (\<lambda>j. Some (ly_proxies l ! j)) js) (Some (ly_proxies l ! i)) = count_list js i)"
proof -
  let ?es = "eff_weights (pl_heap p) l" and ?as = "ly_proxies l"
  note eff = eff_weights_facts [OF wf, of "pl_heap p"]
  have es: "?es \<noteq> []" using eff(1) ne by auto
  have cur: "cur_weights (pl_heap p) (pl_swrr p) ?as = replicate (length ?es) 0"
    using fresh eff(1) by (simp add: id_of_def cur_weights_zero)
  have bal: "first_max.balanced ?es (cur_weights (pl_heap p) (pl_swrr p) ?as)"
    unfolding cur by (rule first_max.balanced_zero [OF es eff(2)])
  obtain js cs' where run: "first_max.run t ?es (replicate (length ?es) 0) = (js, cs')"
    by (cases "first_max.run t ?es (replicate (length ?es) 0)")
  have "set js \<subseteq> {..<length ?as}"
    using first_max.run_facts [OF _ es run] eff(1) by simp
  then have "\<forall>i < length ?as. count_list (map (\<lambda>j. Some (?as ! j)) js) (Some (?as ! i)) = count_list js i"
    using count_picks [OF layer_wf_distinct [OF wf]] by blast
  moreover obtain m where "pick_rounds t l p = Inr (map (\<lambda>j. Some (?as ! j)) js, p\<lparr>pl_swrr := m\<rparr>)"
      "cur_weights (pl_heap p) m ?as = cs'"
    using pick_rounds_exact [OF wf ne room bal] run unfolding cur by blast
  ultimately show ?thesis using run by blast
qed

end
