(* ===== verification/Pool_Next.thy ===== *)
theory Pool_Next
  imports Pool_Inv Pool_Swrr
begin

section \<open>Selections are safe\<close>

text \<open>
  Facts on the selection code in well-formed pools: what a pick returns, what it leaves unchanged,
  when it can panic. \<open>sel_post\<close> is the contract shared by every selection.
\<close>

definition sel_frame :: "Pool \<Rightarrow> Pool \<Rightarrow> bool" where
  "sel_frame p q \<longleftrightarrow> (\<exists>m r. q = p\<lparr>pl_swrr := m, pl_rng := r\<rparr> \<and> (mwf (pl_swrr p) \<longrightarrow> mwf m))"

text \<open>The outcome \<open>r\<close> of a selection that may only return members of \<open>S\<close> outside \<open>exclude\<close>.\<close>

definition sel_post :: "Pool \<Rightarrow> addr set \<Rightarrow> string list \<Rightarrow> (addr option \<times> Pool) go \<Rightarrow> bool" where
  "sel_post p S exclude r \<longleftrightarrow>
     (\<forall>pr q. r = Inr (pr, q) \<longrightarrow> sel_frame p q \<and> (\<forall>a. pr = Some a \<longrightarrow> a \<in> S \<and> id_of p a \<notin> set exclude))"

lemma sel_frame_refl [simp]: "sel_frame p p"
  unfolding sel_frame_def by (intro exI [of _ "pl_swrr p"] exI [of _ "pl_rng p"]) simp

lemma sel_frame_trans: "sel_frame p q \<Longrightarrow> sel_frame q t \<Longrightarrow> sel_frame p t"
proof -
  assume "sel_frame p q" "sel_frame q t"
  then obtain m r m' r' where q: "q = p\<lparr>pl_swrr := m, pl_rng := r\<rparr>" "mwf (pl_swrr p) \<longrightarrow> mwf m"
    and t: "t = q\<lparr>pl_swrr := m', pl_rng := r'\<rparr>" "mwf (pl_swrr q) \<longrightarrow> mwf m'"
    unfolding sel_frame_def by blast
  then have "t = p\<lparr>pl_swrr := m', pl_rng := r'\<rparr>" "mwf (pl_swrr p) \<longrightarrow> mwf m'" by simp_all
  then show ?thesis unfolding sel_frame_def by blast
qed

lemma sel_frame_upd [simp]:
  "sel_frame p (p\<lparr>pl_rng := r\<rparr>)" "mwf m \<Longrightarrow> sel_frame p (p\<lparr>pl_swrr := m\<rparr>)"
  unfolding sel_frame_def
  by (intro exI [of _ "pl_swrr p"] exI [of _ r], simp) (intro exI [of _ m] exI [of _ "pl_rng p"], simp)

lemma sel_frame_fields:
  assumes "sel_frame p q"
  shows "pl_heap q = pl_heap p" "pl_proxies q = pl_proxies p" "pl_snap q = pl_snap p"
    "pl_sticky q = pl_sticky p" "id_of q = id_of p" "pl_groupsCfg q = pl_groupsCfg p" "live q = live p"
proof -
  obtain m r where q: "q = p\<lparr>pl_swrr := m, pl_rng := r\<rparr>" using assms unfolding sel_frame_def by blast
  show "pl_heap q = pl_heap p" "pl_proxies q = pl_proxies p" "pl_snap q = pl_snap p"
    "pl_sticky q = pl_sticky p" "id_of q = id_of p" "pl_groupsCfg q = pl_groupsCfg p" "live q = live p"
    by (simp_all add: q id_of_def [abs_def] live_def registered_def)
qed

lemma sel_frame_wf: "sel_frame p q \<Longrightarrow> pool_wf p \<Longrightarrow> pool_wf q"
proof -
  assume f: "sel_frame p q" and wf: "pool_wf p"
  then obtain m r where q: "q = p\<lparr>pl_swrr := m, pl_rng := r\<rparr>" "mwf m"
    by (auto simp: sel_frame_def pool_wf_def)
  then show "pool_wf q" using pool_wf_swrr [OF wf q(2)] by simp
qed

lemma sel_post_None: "sel_post p S ex (Inr (None, p))"
  by (simp add: sel_post_def)

lemma sel_post_mono: "sel_post p S ex r \<Longrightarrow> S \<subseteq> T \<Longrightarrow> sel_post p T ex r"
  by (fastforce simp: sel_post_def)

text \<open>Trying the next alternative after one that found nothing.\<close>

lemma sel_post_orelse:
  assumes first: "sel_post p S ex r" and next_: "\<And>q. sel_frame p q \<Longrightarrow> sel_post q S ex (f q)"
  shows "sel_post p S ex (bindE r (\<lambda>(pr, q). case pr of Some a \<Rightarrow> Inr (Some a, q) | None \<Rightarrow> f q))"
proof (cases r)
  case (Inl e)
  then show ?thesis by (simp add: sel_post_def)
next
  case (Inr x)
  obtain pr q where x: "x = (pr, q)" by (cases x)
  have fr: "sel_frame p q" using first by (simp add: sel_post_def Inr x)
  show ?thesis
  proof (cases pr)
    case None
    then show ?thesis
      using next_ [OF fr] sel_frame_trans [OF fr] sel_frame_fields(5) [OF fr]
      by (auto simp: sel_post_def Inr x)
  next
    case (Some a)
    then show ?thesis using first by (simp add: sel_post_def Inr x)
  qed
qed

subsection \<open>Smooth weighted round-robin\<close>

lemma swrr_loop_total:
  "length as \<le> length ws \<Longrightarrow>
     \<exists>m' tot' best' bc'. swrr_loop h ref as ws (m, tot, best, bc) = Inr (m', tot', best', bc') \<and>
       (mwf m \<longrightarrow> mwf m') \<and> (best' = best \<or> (\<exists>a \<in> set as. best' = Some a))"
proof (induction as arbitrary: ws m tot best bc)
  case (Cons a as)
  obtain w ws' where ws: "ws = w # ws'" and len: "length as \<le> length ws'"
    using Cons.prems by (cases ws) auto
  let ?cw = "i64 (mget0 0 m (px_ID (h a)) + eff_weight h ref w a)"
  let ?best = "if ?cw > bc then Some a else best"
  obtain m' tot' best' bc' where
    "swrr_loop h ref as ws' (mput (px_ID (h a)) ?cw m, i64 (tot + eff_weight h ref w a), ?best,
       if ?cw > bc then ?cw else bc) = Inr (m', tot', best', bc')"
    "mwf (mput (px_ID (h a)) ?cw m) \<longrightarrow> mwf m'" "best' = ?best \<or> (\<exists>a \<in> set as. best' = Some a)"
    using Cons.IH [OF len] by blast
  then show ?case
    by (auto simp: ws Let_def wf_intros split: if_splits)
qed simp

lemma pickSWRR_total:
  assumes "layer_wf idf l"
  shows "\<exists>pr m. pickSWRR l p = Inr (pr, p\<lparr>pl_swrr := m\<rparr>) \<and> (mwf (pl_swrr p) \<longrightarrow> mwf m) \<and>
    (\<forall>a. pr = Some a \<longrightarrow> a \<in> set (ly_proxies l))"
proof -
  let ?ref = "layerRefLatency (pl_heap p) (ly_proxies l)"
  have "length (ly_proxies l) \<le> length (ly_weight l)" using assms by (simp add: layer_wf_def)
  from swrr_loop_total [OF this, of "pl_heap p" ?ref "pl_swrr p" 0 None MinInt64]
  obtain m tot best bc where
    "swrr_loop (pl_heap p) ?ref (ly_proxies l) (ly_weight l) (pl_swrr p, 0, None, MinInt64) = Inr (m, tot, best, bc)"
    "mwf (pl_swrr p) \<longrightarrow> mwf m" "best = None \<or> (\<exists>a \<in> set (ly_proxies l). best = Some a)"
    by blast
  then show ?thesis
    by (auto simp: pickSWRR_def Let_def wf_intros split: option.split)
qed

lemma pickSWRR_post:
  assumes "layer_wf idf l" "mwf (pl_swrr p)" shows "sel_post p (set (ly_proxies l)) [] (pickSWRR l p)"
  using pickSWRR_total [OF assms(1), of p] assms(2) by (auto simp: sel_post_def)

lemma swrr_rounds_post:
  assumes wf: "layer_wf idf l" and m: "mwf (pl_swrr p)"
  shows "sel_post p (set (ly_proxies l)) ex (swrr_rounds n l ex p)"
  using m
proof (induction n arbitrary: p)
  case 0
  then show ?case by (simp add: sel_post_None)
next
  case (Suc n)
  obtain pr m where pick: "pickSWRR l p = Inr (pr, p\<lparr>pl_swrr := m\<rparr>)" and m: "mwf m"
    and mem: "\<forall>a. pr = Some a \<longrightarrow> a \<in> set (ly_proxies l)"
    using pickSWRR_total [OF wf, of p] Suc.prems by blast
  let ?p = "p\<lparr>pl_swrr := m\<rparr>"
  have fr: "sel_frame p ?p" using m by simp
  have ih: "sel_post ?p (set (ly_proxies l)) ex (swrr_rounds n l ex ?p)" using Suc.IH [of ?p] m by simp
  show ?case
  proof (cases pr)
    case None
    then show ?thesis by (simp add: pick sel_post_def)
  next
    case (Some a)
    show ?thesis
    proof (cases "px_ID (pl_heap p a) \<in> set ex")
      case True
      then show ?thesis
        using ih sel_frame_trans [OF fr] sel_frame_fields(5) [OF fr] by (auto simp: pick Some sel_post_def)
    next
      case False
      then show ?thesis using mem fr by (simp add: pick Some sel_post_def id_of_def)
    qed
  qed
qed

subsection \<open>Weighted random\<close>

lemma pick_random_ok:
  assumes "cumW \<noteq> []" "sorted cumW" "last cumW = totalW" "0 < totalW" "start + length cumW \<le> length proxies"
  shows "\<exists>a r. pick_random proxies start cumW totalW p = Inr (a, p\<lparr>pl_rng := r\<rparr>) \<and> a \<in> set proxies"
proof -
  obtain t r where t: "int64n totalW (pl_rng p) = Inr (t, r)"
    using assms(4) by (simp add: int64n_def)
  have "t < last cumW" using int64n_range [OF t] assms(3) by simp
  from bsearch.search_above(1) [OF assms(2,1) this]
  have "start + sort_search (length cumW) (\<lambda>i. t < cumW ! i) < length proxies"
    using assms(5) by simp
  then show ?thesis
    by (auto simp: pick_random_def t Let_def)
qed

lemma random_rounds_ok:
  assumes "cumW \<noteq> []" "sorted cumW" "last cumW = totalW" "0 < totalW" "start + length cumW \<le> length proxies"
  shows "\<exists>pr r. random_rounds n proxies start cumW totalW ex p = Inr (pr, p\<lparr>pl_rng := r\<rparr>) \<and>
    (\<forall>a. pr = Some a \<longrightarrow> a \<in> set proxies \<and> id_of p a \<notin> set ex) \<and> (ex = [] \<and> 0 < n \<longrightarrow> pr \<noteq> None)"
proof (induction n arbitrary: p)
  case 0
  show ?case by (intro exI [of _ None] exI [of _ "pl_rng p"]) simp
next
  case (Suc n)
  obtain a r where pick: "pick_random proxies start cumW totalW p = Inr (a, p\<lparr>pl_rng := r\<rparr>)" "a \<in> set proxies"
    using pick_random_ok [OF assms] by blast
  obtain pr r' where "random_rounds n proxies start cumW totalW ex (p\<lparr>pl_rng := r\<rparr>) = Inr (pr, p\<lparr>pl_rng := r'\<rparr>)"
    "\<forall>a. pr = Some a \<longrightarrow> a \<in> set proxies \<and> id_of p a \<notin> set ex"
    using Suc.IH [of "p\<lparr>pl_rng := r\<rparr>"] by (auto simp: id_of_def)
  with pick show ?case
    by (cases "id_of p a \<in> set ex") (auto simp: id_of_def)
qed

text \<open>Layers and priority groups meet the conditions of the draw.\<close>

lemma layer_draw:
  assumes wf: "layer_wf idf l" and ne: "ly_proxies l \<noteq> []"
  shows "ly_cumW l \<noteq> []" "sorted (ly_cumW l)" "last (ly_cumW l) = ly_totalW l" "0 < ly_totalW l"
    "0 + length (ly_cumW l) \<le> length (ly_proxies l)"
proof -
  have ok: "weights_ok (ly_weight l)" and len: "length (ly_weight l) = length (ly_proxies l)"
    and cum: "ly_cumW l = cum_weights 0 (ly_weight l)" and tot: "ly_totalW l = sum_list (ly_weight l)"
    using wf by (auto simp: layer_wf_def sum_weights_eq)
  have w: "ly_weight l \<noteq> []" using len ne by auto
  then show "ly_cumW l \<noteq> []" using length_cum_weights [of 0 "ly_weight l"] cum by (metis length_0_conv)
  show "sorted (ly_cumW l)" using ok by (simp add: cum sorted_cum_weights)
  show "last (ly_cumW l) = ly_totalW l" using ok w by (simp add: cum tot last_cum_weights)
  show "0 < ly_totalW l" using weights_ok_sum [OF ok] w by (cases "ly_weight l") (auto simp: tot)
  show "0 + length (ly_cumW l) \<le> length (ly_proxies l)" by (simp add: cum len)
qed

lemma prio_draw:
  assumes "prio_group_wf n g"
  shows "pg_cumW g \<noteq> []" "sorted (pg_cumW g)" "last (pg_cumW g) = pg_totalW g" "0 < pg_totalW g"
    "pg_start g + length (pg_cumW g) \<le> n"
  using assms by (auto simp: prio_group_wf_def)

subsection \<open>Layers, groups and priorities\<close>

lemma sel_frame_mwf: "sel_frame p q \<Longrightarrow> mwf (pl_swrr p) \<Longrightarrow> mwf (pl_swrr q)"
  by (auto simp: sel_frame_def)

lemma pickLayer_post:
  assumes wf: "layer_wf idf l" and m: "mwf (pl_swrr p)"
  shows "sel_post p (set (ly_proxies l)) ex (pickLayer l ex p)"
proof (cases "ly_totalW l \<le> 0 \<or> length (ly_proxies l) = 0")
  case True
  then show ?thesis by (simp add: pickLayer_def sel_post_None)
next
  case False
  then have ne: "ly_proxies l \<noteq> []" by auto
  note draw = layer_draw [OF wf ne]
  from pick_random_ok [OF draw, of p] random_rounds_ok [OF draw, of 1000 ex p]
  have "sel_post p (set (ly_proxies l)) []
      (bindE (pick_random (ly_proxies l) 0 (ly_cumW l) (ly_totalW l) p) (\<lambda>(a, p1). Inr (Some a, p1)))"
    "sel_post p (set (ly_proxies l)) ex (random_rounds 1000 (ly_proxies l) 0 (ly_cumW l) (ly_totalW l) ex p)"
    by (auto simp: sel_post_def)
  then show ?thesis
    using False pickSWRR_post [OF wf m] swrr_rounds_post [OF wf m, of ex] by (simp add: pickLayer_def)
qed

lemma next_layers_post:
  assumes "\<forall>l \<in> set ls. layer_wf idf l \<and> set (ly_proxies l) \<subseteq> S" "mwf (pl_swrr p)"
  shows "sel_post p S ex (next_layers ls ex p)"
  using assms
proof (induction ls arbitrary: p)
  case Nil
  then show ?case by (simp add: sel_post_None)
next
  case (Cons l ls)
  have "sel_post p S ex (pickLayer l ex p)"
    using Cons.prems by (auto intro: sel_post_mono [OF pickLayer_post])
  then have "sel_post p S ex (bindE (pickLayer l ex p) (\<lambda>(pr, p1).
      case pr of Some a \<Rightarrow> Inr (Some a, p1) | None \<Rightarrow> next_layers ls ex p1))"
    using Cons sel_frame_mwf by (intro sel_post_orelse) auto
  moreover have "sel_post p S ex (next_layers ls ex p)" using Cons by simp
  ultimately show ?case by simp
qed

lemma next_prios_total:
  assumes "\<forall>g \<in> set gs. prio_group_wf (length proxies) g"
  shows "\<exists>pr r. next_prios proxies gs ex p = Inr (pr, p\<lparr>pl_rng := r\<rparr>) \<and>
    (\<forall>a. pr = Some a \<longrightarrow> a \<in> set proxies \<and> id_of p a \<notin> set ex)"
  using assms
proof (induction gs arbitrary: p)
  case Nil
  show ?case by (intro exI [of _ None] exI [of _ "pl_rng p"]) simp
next
  case (Cons g gs)
  then have "prio_group_wf (length proxies) g" by simp
  note draw = prio_draw [OF this]
  obtain pr r where r: "random_rounds 1000 proxies (pg_start g) (pg_cumW g) (pg_totalW g) ex p = Inr (pr, p\<lparr>pl_rng := r\<rparr>)"
    "\<forall>a. pr = Some a \<longrightarrow> a \<in> set proxies \<and> id_of p a \<notin> set ex"
    using random_rounds_ok [OF draw, of 1000 ex p] by blast
  have ih: "\<exists>pr r. next_prios proxies gs ex q = Inr (pr, q\<lparr>pl_rng := r\<rparr>) \<and>
    (\<forall>a. pr = Some a \<longrightarrow> a \<in> set proxies \<and> id_of q a \<notin> set ex)" for q
    using Cons by simp
  show ?case
    using ih [of p] ih [of "p\<lparr>pl_rng := r\<rparr>"] r by (auto simp: id_of_def split: option.split)
qed

lemma snap_layers:
  "snap_wf idf s \<Longrightarrow> g \<in> set (sn_groups s) \<Longrightarrow>
     \<forall>l \<in> set (gs_layers g). layer_wf idf l \<and> set (ly_proxies l) \<subseteq> set (sn_proxies s)"
  by (auto simp: snap_wf_def list_all_iff)

lemma nextPrio_post:
  assumes "pool_wf p" shows "sel_post p (set (live p)) ex (nextPrio (pl_snap p) ex p)"
proof -
  have "\<forall>g \<in> set (sn_prio (pl_snap p)). prio_group_wf (length (sn_proxies (pl_snap p))) g"
    using assms by (auto simp: pool_wf_def snap_wf_def list_all_iff)
  from next_prios_total [OF this, of ex p] show ?thesis
    using assms by (auto simp: nextPrio_def sel_post_def pool_wf_def)
qed

lemma group_post:
  assumes wf: "pool_wf p" and g: "g \<in> set (sn_groups (pl_snap p))"
  shows "sel_post p (set (live p)) ex (next_layers (gs_layers g) ex p)"
proof -
  have "snap_wf (id_of p) (pl_snap p)" "set (sn_proxies (pl_snap p)) = set (live p)" "mwf (pl_swrr p)"
    using wf by (auto simp: pool_wf_def)
  with snap_layers [OF this(1) g] show ?thesis by (intro next_layers_post) auto
qed

text \<open>Every selection returns only proxies that are registered, alive and not excluded.\<close>

lemma Next_post: "pool_wf p \<Longrightarrow> sel_post p (set (live p)) [] (Next p)"
  by (auto simp: Next_def nextFromGroup_def split: list.split intro: nextPrio_post group_post)

lemma NextInGroup_post: "pool_wf p \<Longrightarrow> sel_post p (set (live p)) [] (NextInGroup gname p)"
  by (auto simp: NextInGroup_def nextFromGroup_def find_Some_iff sel_post_None split: option.split intro!: group_post)

lemma NextInGroupExcluding_post:
  "pool_wf p \<Longrightarrow> sel_post p (set (live p)) ex (NextInGroupExcluding gname ex p)"
  using NextInGroup_post
  by (auto simp: NextInGroupExcluding_def find_Some_iff sel_post_None split: option.split intro!: group_post)

lemma NextExcluding_post: "pool_wf p \<Longrightarrow> sel_post p (set (live p)) ex (NextExcluding ex p)"
  using Next_post
  by (auto simp: NextExcluding_def split: list.split intro: nextPrio_post NextInGroupExcluding_post)

subsection \<open>No panic without exclusions\<close>

lemma pickLayer_total:
  assumes wf: "layer_wf idf l"
  shows "\<exists>pr q. pickLayer l [] p = Inr (pr, q)"
proof (cases "ly_proxies l = []")
  case False
  from pick_random_ok [OF layer_draw [OF wf False], of p] pickSWRR_total [OF wf, of p] show ?thesis
    by (auto simp: pickLayer_def)
qed (simp add: pickLayer_def)

lemma next_layers_total:
  "\<forall>l \<in> set ls. layer_wf idf l \<Longrightarrow> \<exists>pr q. next_layers ls [] p = Inr (pr, q)"
proof (induction ls arbitrary: p)
  case (Cons l ls)
  obtain pr q where pick: "pickLayer l [] p = Inr (pr, q)"
    using pickLayer_total [of idf l p] Cons.prems by auto
  show ?case
    using Cons.IH [of p] Cons.IH [of q] Cons.prems by (auto simp: pick split: option.split)
qed simp

lemma group_total:
  assumes "pool_wf p" "g \<in> set (sn_groups (pl_snap p))"
  shows "\<exists>pr q. next_layers (gs_layers g) [] p = Inr (pr, q)"
  using assms snap_layers [of "id_of p" "pl_snap p" g]
  by (intro next_layers_total [of _ "id_of p"]) (auto simp: pool_wf_def)

lemma nextPrio_total:
  assumes "pool_wf p" shows "\<exists>pr q. nextPrio (pl_snap p) ex p = Inr (pr, q)"
proof -
  have "\<forall>g \<in> set (sn_prio (pl_snap p)). prio_group_wf (length (sn_proxies (pl_snap p))) g"
    using assms by (auto simp: pool_wf_def snap_wf_def list_all_iff)
  from next_prios_total [OF this, of ex p] show ?thesis by (auto simp: nextPrio_def)
qed

lemma Next_total: "pool_wf p \<Longrightarrow> \<exists>pr q. Next p = Inr (pr, q)"
  using nextPrio_total group_total by (auto simp: Next_def nextFromGroup_def split: list.split)

lemma NextInGroup_total: "pool_wf p \<Longrightarrow> \<exists>pr q. NextInGroup gname p = Inr (pr, q)"
  using group_total
  by (auto simp: NextInGroup_def nextFromGroup_def find_Some_iff split: option.split)

subsection \<open>No panic with exclusions\<close>

text \<open>
  With exclusions the result of \<^verbatim>\<open>pickSWRR\<close> is dereferenced, so it must not be nil. It is not as
  long as the current weights stay inside \<^verbatim>\<open>int64\<close>: \<open>swrr_within B\<close> bounds them by \<open>B\<close>, and \<open>layer_cost\<close>
  is the most that the rounds of one call can add.
\<close>

definition swrr_within :: "int \<Rightarrow> Pool \<Rightarrow> bool" where
  "swrr_within B p \<longleftrightarrow> 0 \<le> B \<and> list_all (\<lambda>(k, v). - B \<le> v \<and> v \<le> B) (pl_swrr p)"

definition layer_cost :: "layerSnap \<Rightarrow> int" where
  "layer_cost l = int (length (ly_proxies l)) * (2 * ly_totalW l)"

lemma swrr_within_get: "swrr_within B p \<Longrightarrow> - B \<le> mget0 0 (pl_swrr p) k \<and> mget0 0 (pl_swrr p) k \<le> B"
  by (auto simp: swrr_within_def mget0_def list_all_iff dest!: mget_SomeD split: option.split)

lemma swrr_withinI:
  assumes "mwf (pl_swrr p)" "0 \<le> B" "\<And>k. - B \<le> mget0 0 (pl_swrr p) k \<and> mget0 0 (pl_swrr p) k \<le> B"
  shows "swrr_within B p"
proof -
  have "- B \<le> v \<and> v \<le> B" if "(k, v) \<in> set (pl_swrr p)" for k v
    using assms(1,3) that mwf_mget [OF assms(1), of k v] by (metis mget0_def option.simps(5))
  then show ?thesis using assms(2) by (auto simp: swrr_within_def list_all_iff)
qed

lemma swrr_within_mono: "swrr_within B p \<Longrightarrow> B \<le> C \<Longrightarrow> swrr_within C p"
  by (fastforce simp: swrr_within_def list_all_iff)

lemma pickSWRR_within:
  assumes wf: "layer_wf (id_of p) l" and ne: "ly_proxies l \<noteq> []" and m: "mwf (pl_swrr p)"
    and B: "swrr_within B p" and room: "B + 2 * ly_totalW l \<le> MaxInt64"
  shows "\<exists>a m. pickSWRR l p = Inr (Some a, p\<lparr>pl_swrr := m\<rparr>) \<and> mwf m \<and>
    swrr_within (B + 2 * ly_totalW l) (p\<lparr>pl_swrr := m\<rparr>)"
proof -
  let ?h = "pl_heap p" and ?as = "ly_proxies l"
  let ?es = "eff_weights ?h l" and ?cs = "cur_weights ?h (pl_swrr p) ?as"
  note eff = eff_weights_facts [OF wf, of ?h]
  have B0: "0 \<le> B" using B by (simp add: swrr_within_def)
  have es: "?es \<noteq> []" "length ?es = length ?cs" using eff(1) ne by (auto simp: cur_weights_def)
  have total: "0 < sum_list ?es" by (rule first_max.total_pos [OF es(1) eff(2)])
  obtain j cs' where st: "first_max.step ?es ?cs = (j, cs')" by (cases "first_max.step ?es ?cs")
  have "swrr_room ?h l B" using eff(3) room by (simp add: swrr_room_def)
  moreover have bound: "\<forall>c \<in> set ?cs. - B \<le> c \<and> c \<le> B"
    using swrr_within_get [OF B] by (auto simp: cur_weights_def)
  ultimately obtain m' where pick: "pickSWRR l p = Inr (Some (?as ! j), p\<lparr>pl_swrr := m'\<rparr>)"
    and cur: "cur_weights ?h m' ?as = cs'"
    and other: "\<forall>k. k \<notin> id_of p ` set ?as \<longrightarrow> mget0 0 m' k = mget0 0 (pl_swrr p) k"
    using pickSWRR_exact [OF wf ne _ B0 _ st] by blast
  have m': "mwf m'" using pickSWRR_total [OF wf, of p] pick m by (auto dest: arg_cong [where f = pl_swrr])
  have "- (B + 2 * ly_totalW l) \<le> mget0 0 m' k \<and> mget0 0 m' k \<le> B + 2 * ly_totalW l" for k
  proof (cases "k \<in> id_of p ` set ?as")
    case True
    then obtain i where i: "i < length ?es" "k = id_of p (?as ! i)"
      using eff(1) by (auto simp: in_set_conv_nth)
    have "mget0 0 m' k = cs' ! i" using i eff(1) by (simp add: cur [symmetric] cur_weights_def id_of_def)
    also have "\<dots> = ?cs ! i + ?es ! i - (if i = j then sum_list ?es else 0)"
      by (rule first_max.step_facts(4) [OF es(2,1) st i(1)])
    finally have "mget0 0 m' k = ?cs ! i + ?es ! i - (if i = j then sum_list ?es else 0)" .
    moreover have "1 \<le> ?es ! i" "?es ! i \<le> sum_list ?es"
      using eff(2) i(1) member_le_sum_list [of "?es ! i" ?es] by force+
    moreover have "- B \<le> ?cs ! i \<and> ?cs ! i \<le> B" using bound es(2) i(1) by simp
    ultimately show ?thesis using eff(3) total by (auto split: if_splits)
  next
    case False
    then show ?thesis using other swrr_within_get [OF B, of k] eff(3) total by auto
  qed
  then have "swrr_within (B + 2 * ly_totalW l) (p\<lparr>pl_swrr := m'\<rparr>)"
    using m' B0 eff(3) total by (intro swrr_withinI) simp_all
  then show ?thesis using pick m' by blast
qed

lemma swrr_rounds_total:
  assumes ne: "ly_proxies l \<noteq> []" and tot: "0 \<le> ly_totalW l"
    and "layer_wf (id_of p) l" "mwf (pl_swrr p)" "swrr_within B p" "B + int n * (2 * ly_totalW l) \<le> MaxInt64"
  shows "\<exists>pr q. swrr_rounds n l ex p = Inr (pr, q) \<and> swrr_within (B + int n * (2 * ly_totalW l)) q"
  using assms(3-)
proof (induction n arbitrary: p B)
  case (Suc n)
  have step: "B + int (Suc n) * (2 * ly_totalW l) = (B + 2 * ly_totalW l) + int n * (2 * ly_totalW l)"
    by (simp add: algebra_simps)
  have le: "0 \<le> int n * (2 * ly_totalW l)" using tot by simp
  with Suc.prems(4) have "B + 2 * ly_totalW l \<le> MaxInt64" unfolding step by linarith
  from pickSWRR_within [OF Suc.prems(1) ne Suc.prems(2,3) this] obtain a m where
    pick: "pickSWRR l p = Inr (Some a, p\<lparr>pl_swrr := m\<rparr>)" and m: "mwf m"
    and B: "swrr_within (B + 2 * ly_totalW l) (p\<lparr>pl_swrr := m\<rparr>)" by blast
  let ?p = "p\<lparr>pl_swrr := m\<rparr>"
  have "id_of ?p = id_of p" by (simp add: id_of_def [abs_def])
  then have ih: "\<exists>pr q. swrr_rounds n l ex ?p = Inr (pr, q) \<and> swrr_within (B + int (Suc n) * (2 * ly_totalW l)) q"
    using Suc.IH [of ?p "B + 2 * ly_totalW l"] Suc.prems m B unfolding step by simp
  have "swrr_within (B + int (Suc n) * (2 * ly_totalW l)) ?p"
    unfolding step by (rule swrr_within_mono [OF B]) (use le in simp)
  with ih show ?case by (auto simp: pick)
qed simp

lemma pickLayer_excl_total:
  assumes wf: "layer_wf (id_of p) l" and m: "mwf (pl_swrr p)" and ex: "ex \<noteq> []"
    and B: "swrr_within B p" "B + layer_cost l \<le> MaxInt64"
  shows "\<exists>pr q. pickLayer l ex p = Inr (pr, q) \<and> swrr_within (B + layer_cost l) q"
proof (cases "ly_proxies l = [] \<or> ly_totalW l \<le> 0")
  case True
  have "0 \<le> ly_totalW l"
    using wf weights_ok_sum by (force simp: layer_wf_def sum_weights_eq)
  then have "0 \<le> layer_cost l" by (simp add: layer_cost_def)
  then show ?thesis
    using True swrr_within_mono [OF B(1)] by (auto simp: pickLayer_def)
next
  case False
  then have ne: "ly_proxies l \<noteq> []" and tot: "0 \<le> ly_totalW l" by auto
  have "0 \<le> layer_cost l" using tot by (simp add: layer_cost_def)
  then have B': "swrr_within (B + layer_cost l) p" using swrr_within_mono [OF B(1)] by simp
  obtain pr r where "random_rounds 1000 (ly_proxies l) 0 (ly_cumW l) (ly_totalW l) ex p = Inr (pr, p\<lparr>pl_rng := r\<rparr>)"
    using random_rounds_ok [OF layer_draw [OF wf ne], of 1000 ex p] by blast
  moreover have "swrr_within (B + layer_cost l) (p\<lparr>pl_rng := r\<rparr>)" using B' by (simp add: swrr_within_def)
  moreover have "\<exists>pr q. swrr_rounds (length (ly_proxies l)) l ex p = Inr (pr, q) \<and> swrr_within (B + layer_cost l) q"
    using swrr_rounds_total [OF ne tot wf m B(1), of "length (ly_proxies l)" ex] B(2) by (simp add: layer_cost_def)
  ultimately show ?thesis using False ex by (auto simp: pickLayer_def)
qed

lemma next_layers_excl_total:
  assumes "\<forall>l \<in> set ls. layer_wf (id_of p) l" "mwf (pl_swrr p)" "ex \<noteq> []"
    and "swrr_within B p" "B + (\<Sum>l \<leftarrow> ls. layer_cost l) \<le> MaxInt64"
  shows "\<exists>pr q. next_layers ls ex p = Inr (pr, q)"
  using assms
proof (induction ls arbitrary: p B)
  case (Cons l ls)
  have cost: "0 \<le> layer_cost l" if "layer_wf idf l" for idf l
    using that weights_ok_sum [of "ly_weight l"] by (auto simp: layer_wf_def sum_weights_eq layer_cost_def)
  have "0 \<le> (\<Sum>l \<leftarrow> ls. layer_cost l)"
    using Cons.prems(1) cost by (intro sum_list_nonneg) auto
  then have "B + layer_cost l \<le> MaxInt64" using Cons.prems(5) by simp
  then obtain pr q where pick: "pickLayer l ex p = Inr (pr, q)" and q: "swrr_within (B + layer_cost l) q"
    using pickLayer_excl_total [of p l ex B] Cons.prems by auto
  have fr: "sel_frame p q"
    using pickLayer_post [of "id_of p" l p ex] Cons.prems pick by (simp add: sel_post_def)
  have "\<exists>pr q'. next_layers ls ex q = Inr (pr, q')"
    using Cons.prems q sel_frame_fields(5) [OF fr] sel_frame_mwf [OF fr]
    by (intro Cons.IH [of q "B + layer_cost l"]) (simp_all add: add.assoc)
  moreover have "\<exists>pr q'. next_layers ls ex p = Inr (pr, q')"
    using Cons.prems cost [of "id_of p" l] by (intro Cons.IH [of p B]) simp_all
  ultimately show ?case by (auto simp: pick split: option.split)
qed simp

text \<open>Room for every group of the snapshot.\<close>

definition groups_room :: "int \<Rightarrow> Pool \<Rightarrow> bool" where
  "groups_room B p \<longleftrightarrow> swrr_within B p \<and>
     list_all (\<lambda>g. B + (\<Sum>l \<leftarrow> gs_layers g. layer_cost l) \<le> MaxInt64) (sn_groups (pl_snap p))"

lemma NextInGroupExcluding_total:
  assumes wf: "pool_wf p" and room: "groups_room B p"
  shows "\<exists>pr q. NextInGroupExcluding gname ex p = Inr (pr, q)"
proof (cases "ex = []")
  case True
  then show ?thesis using NextInGroup_total [OF wf] by (simp add: NextInGroupExcluding_def)
next
  case False
  have snap: "snap_wf (id_of p) (pl_snap p)" and m: "mwf (pl_swrr p)" using wf by (auto simp: pool_wf_def)
  have "\<exists>pr q. next_layers (gs_layers g) ex p = Inr (pr, q)" if "g \<in> set (sn_groups (pl_snap p))" for g
    using snap_layers [OF snap that] m False room that
    by (intro next_layers_excl_total [where B = B]) (auto simp: groups_room_def list_all_iff)
  then show ?thesis
    using False by (auto simp: NextInGroupExcluding_def find_Some_iff split: option.split)
qed

lemma NextExcluding_total:
  assumes "pool_wf p" "groups_room B p" shows "\<exists>pr q. NextExcluding ex p = Inr (pr, q)"
  using Next_total [OF assms(1)] nextPrio_total [OF assms(1), of ex] NextInGroupExcluding_total [OF assms]
  by (auto simp: NextExcluding_def split: list.split)

subsection \<open>Sticky sessions\<close>

lemma next_or_group_post: "pool_wf p \<Longrightarrow> sel_post p (set (live p)) [] (next_or_group gname p)"
  using Next_post NextInGroup_post by (simp add: next_or_group_def)

lemma next_or_group_total: "pool_wf p \<Longrightarrow> \<exists>pr q. next_or_group gname p = Inr (pr, q)"
  using Next_total NextInGroup_total by (simp add: next_or_group_def)

lemma sticky_lookup_cases:
  "sticky_lookup now ck p = (pr, q) \<Longrightarrow>
     (\<exists>a e. pr = Some a \<and> q = p \<and> mget (pl_sticky p) ck = Some e \<and> now < se_expireAt e \<and>
        mget (pl_proxies p) (se_proxyID e) = Some a \<and> px_Alive (pl_heap p a)) \<or>
     (pr = None \<and> (q = p \<or> q = p\<lparr>pl_sticky := mdel ck (pl_sticky p)\<rparr>))"
  by (auto simp: sticky_lookup_def Get_def split: option.splits if_splits)

lemma sticky_lookup_wf: "sticky_lookup now ck p = (pr, q) \<Longrightarrow> pool_wf p \<Longrightarrow> pool_wf q"
proof -
  assume l: "sticky_lookup now ck p = (pr, q)" and wf: "pool_wf p"
  have "mwf (mdel ck (pl_sticky p))" using wf by (simp add: pool_wf_def wf_intros)
  with sticky_lookup_cases [OF l] show "pool_wf q"
    using wf pool_wf_sticky [OF wf] by auto
qed

lemma sticky_record_wf: "pool_wf p \<Longrightarrow> pool_wf (sticky_record now w ck a p)"
proof -
  assume wf: "pool_wf p"
  then have "mwf (pl_sticky p)" by (simp add: pool_wf_def)
  then show ?thesis
    unfolding sticky_record_def Let_def by (intro pool_wf_sticky [OF wf]) (simp add: wf_intros)
qed

text \<open>The cases of \<^verbatim>\<open>StickyNext\<close> with a client key and a positive window.\<close>

lemma StickyNext_cases:
  assumes wf: "pool_wf p" and key: "ck \<noteq> []" "0 < secs" and r: "StickyNext now ck secs gname p = Inr (pr, q)"
  obtains (reuse) a e where "pr = Some a" "q = p" "mget (pl_sticky p) ck = Some e" "now < se_expireAt e"
      "mget (pl_proxies p) (se_proxyID e) = Some a" "px_Alive (pl_heap p a)"
  | (empty) "pr = None"
  | (fresh) a p2 where "pr = Some a" "q = sticky_record now (i64 (secs * 1000000000)) ck a p2" "pool_wf p2"
      "pl_heap p2 = pl_heap p" "pl_proxies p2 = pl_proxies p" "a \<in> set (live p)" 
proof -
  obtain o1 p1 where l: "sticky_lookup now ck p = (o1, p1)" by (cases "sticky_lookup now ck p")
  note wf1 = sticky_lookup_wf [OF l wf]
  show thesis
  proof (cases o1)
    case (Some a)
    then have "pr = Some a" "q = p1" using r key l by (auto simp: StickyNext_def Let_def)
    with sticky_lookup_cases [OF l] Some show thesis using reuse by blast
  next
    case None
    obtain pr' p2 where n: "next_or_group gname p1 = Inr (pr', p2)" using next_or_group_total [OF wf1] by blast
    have fr: "sel_frame p1 p2" and mem: "\<forall>a. pr' = Some a \<longrightarrow> a \<in> set (live p1)"
      using next_or_group_post [OF wf1, of gname] n by (auto simp: sel_post_def)
    have p1: "pl_heap p1 = pl_heap p" "pl_proxies p1 = pl_proxies p"
      using sticky_lookup_cases [OF l] None by auto
    show thesis
    proof (cases pr')
      case None': None
      then have "pr = None" using r key l None n by (auto simp: StickyNext_def Let_def)
      then show thesis by (rule empty)
    next
      case (Some a)
      then have "pr = Some a" "q = sticky_record now (i64 (secs * 1000000000)) ck a p2"
        using r key l None n by (auto simp: StickyNext_def Let_def)
      moreover have "a \<in> set (live p)" using mem Some live_cong [OF p1] by simp
      ultimately show thesis
        using sel_frame_wf [OF fr wf1] sel_frame_fields(1,2) [OF fr] p1 by (intro fresh [of a p2]) auto
    qed
  qed
qed

lemma StickyNext_total: "pool_wf p \<Longrightarrow> \<exists>pr q. StickyNext now ck secs gname p = Inr (pr, q)"
proof -
  assume wf: "pool_wf p"
  obtain o1 p1 where l: "sticky_lookup now ck p = (o1, p1)" by (cases "sticky_lookup now ck p")
  note wf1 = sticky_lookup_wf [OF l wf]
  from next_or_group_total [OF wf, of gname] next_or_group_total [OF wf1, of gname] show ?thesis
    by (auto simp: StickyNext_def l Let_def split: option.split)
qed

lemma StickyNext_live:
  assumes wf: "pool_wf p" and r: "StickyNext now ck secs gname p = Inr (Some a, q)"
  shows "a \<in> set (live p)"
proof (cases "ck = [] \<or> secs \<le> 0")
  case True
  then show ?thesis
    using r next_or_group_post [OF wf, of gname] by (auto simp: StickyNext_def sel_post_def)
next
  case False
  then have key: "ck \<noteq> []" "0 < secs" by auto
  from wf key r show ?thesis
  proof (cases rule: StickyNext_cases)
    case (reuse b e)
    then show ?thesis using pool_get(1) [OF wf reuse(5)] by (simp add: live_def)
  qed auto
qed

lemma StickyNext_wf:
  assumes wf: "pool_wf p" and r: "StickyNext now ck secs gname p = Inr (pr, q)"
  shows "pool_wf q"
proof (cases "ck = [] \<or> secs \<le> 0")
  case True
  then show ?thesis
    using r next_or_group_post [OF wf, of gname] sel_frame_wf [OF _ wf] by (auto simp: StickyNext_def sel_post_def)
next
  case False
  obtain o1 p1 where l: "sticky_lookup now ck p = (o1, p1)" by (cases "sticky_lookup now ck p")
  note wf1 = sticky_lookup_wf [OF l wf]
  obtain pr' p2 where n: "next_or_group gname p1 = Inr (pr', p2)" using next_or_group_total [OF wf1] by blast
  have "pool_wf p2"
    using next_or_group_post [OF wf1, of gname] n sel_frame_wf [OF _ wf1] by (auto simp: sel_post_def)
  then show ?thesis
    using False r wf1 n sticky_record_wf by (auto simp: StickyNext_def l Let_def split: option.splits)
qed

subsection \<open>The first usable tier\<close>

lemma tier_usable_gate:
  "0 \<le> ly_aliveCount l \<Longrightarrow>
     tier_usable l \<longleftrightarrow> ly_aliveCount l \<noteq> 0 \<and> \<not> ratio_below (ly_aliveCount l) (ly_aliveTotal l) (ly_minRatio l)"
  by (auto simp: tier_usable_def ratio_below_def)

lemma layer_count: "layer_wf idf l \<Longrightarrow> ly_aliveCount l = int (length (ly_proxies l))"
  by (simp add: layer_wf_def)

lemma layer_cost_ge:
  assumes "layer_wf idf l" "ly_proxies l \<noteq> []" shows "2 * ly_totalW l \<le> layer_cost l"
proof -
  have "0 < ly_totalW l" by (rule layer_draw(4) [OF assms])
  moreover have "1 \<le> int (length (ly_proxies l))" using assms(2) by (cases "ly_proxies l") auto
  ultimately show ?thesis
    using mult_right_mono [of 1 "int (length (ly_proxies l))" "2 * ly_totalW l"] by (simp add: layer_cost_def)
qed

lemma pickLayer_some:
  assumes wf: "layer_wf (id_of p) l" and ne: "ly_proxies l \<noteq> []" and m: "mwf (pl_swrr p)"
    and B: "swrr_within B p" and room: "B + layer_cost l \<le> MaxInt64"
  shows "\<exists>a q. pickLayer l [] p = Inr (Some a, q) \<and> a \<in> set (ly_proxies l)"
proof -
  have "B + 2 * ly_totalW l \<le> MaxInt64" using layer_cost_ge [OF wf ne] room by simp
  from pickSWRR_within [OF wf ne m B this] obtain a m' where
    swrr: "pickSWRR l p = Inr (Some a, p\<lparr>pl_swrr := m'\<rparr>)" by blast
  have "a \<in> set (ly_proxies l)" using pickSWRR_post [OF wf m] swrr by (simp add: sel_post_def)
  moreover obtain b r where "pick_random (ly_proxies l) 0 (ly_cumW l) (ly_totalW l) p = Inr (b, p\<lparr>pl_rng := r\<rparr>)"
      "b \<in> set (ly_proxies l)"
    using pick_random_ok [OF layer_draw [OF wf ne], of p] by blast
  ultimately show ?thesis
    using layer_draw(4) [OF wf ne] ne swrr by (auto simp: pickLayer_def)
qed

lemma next_layers_first:
  assumes "\<forall>l \<in> set ls. layer_wf (id_of p) l" "mwf (pl_swrr p)" "swrr_within B p"
    and "B + (\<Sum>l \<leftarrow> ls. layer_cost l) \<le> MaxInt64"
  shows "case find tier_usable ls of
      None \<Rightarrow> next_layers ls [] p = Inr (None, p)
    | Some l \<Rightarrow> \<exists>a q. next_layers ls [] p = Inr (Some a, q) \<and> a \<in> set (ly_proxies l)"
  using assms
proof (induction ls)
  case (Cons l ls)
  have wf: "layer_wf (id_of p) l" using Cons.prems by simp
  have cost: "0 \<le> layer_cost l" if "layer_wf (id_of p) l" for l
    using that weights_ok_sum [of "ly_weight l"] by (auto simp: layer_wf_def sum_weights_eq layer_cost_def)
  have "0 \<le> (\<Sum>l \<leftarrow> ls. layer_cost l)" using Cons.prems(1) cost by (intro sum_list_nonneg) auto
  with Cons.prems(4) have le: "B + layer_cost l \<le> MaxInt64" "B + (\<Sum>l \<leftarrow> ls. layer_cost l) \<le> MaxInt64"
    using cost [OF wf] by simp_all
  have gate: "tier_usable l \<longleftrightarrow> ly_aliveCount l \<noteq> 0 \<and> \<not> ratio_below (ly_aliveCount l) (ly_aliveTotal l) (ly_minRatio l)"
    by (rule tier_usable_gate) (simp add: layer_count [OF wf])
  show ?case
  proof (cases "tier_usable l")
    case True
    then have "ly_proxies l \<noteq> []" using gate layer_count [OF wf] by auto
    then show ?thesis
      using True gate pickLayer_some [OF wf _ Cons.prems(2,3) le(1)] by auto
  next
    case False
    then have eqs: "next_layers (l # ls) [] p = next_layers ls [] p" "find tier_usable (l # ls) = find tier_usable ls"
      using gate by auto
    show ?thesis unfolding eqs using Cons.prems le(2) by (intro Cons.IH) simp_all
  qed
qed simp

subsection \<open>The distribution of the weighted draw\<close>

lemma draw_index:
  assumes ok: "weights_ok ws" and j: "j < length ws" and t: "0 \<le> t" "t < sum_list ws"
  shows "sort_search (length (cum_weights 0 ws)) (\<lambda>i. t < cum_weights 0 ws ! i) = j \<longleftrightarrow>
    sum_list (take j ws) \<le> t \<and> t < sum_list (take (Suc j) ws)"
    (is "?s = j \<longleftrightarrow> _")
proof -
  let ?cum = "cum_weights 0 ws"
  have ne: "?cum \<noteq> []" using j length_cum_weights [of 0 ws] by (metis length_0_conv not_less0)
  have sorted: "sorted ?cum" by (rule sorted_cum_weights [OF ok])
  have "t < last ?cum" using t j ok by (subst last_cum_weights) auto
  note s = bsearch.search_above [OF sorted ne this]
  show ?thesis
  proof
    assume eq: "?s = j"
    have "t < ?cum ! j" using s(2) eq by simp
    moreover have "?cum ! (j - 1) \<le> t" if "j \<noteq> 0" using s(3) [of "j - 1"] eq that by simp
    ultimately show "sum_list (take j ws) \<le> t \<and> t < sum_list (take (Suc j) ws)"
      using ok j t by (cases j) (auto simp: nth_cum_weights)
  next
    assume *: "sum_list (take j ws) \<le> t \<and> t < sum_list (take (Suc j) ws)"
    show "?s = j"
    proof (rule bsearch.search_above_unique [OF sorted])
      show "j < length ?cum" using j by simp
      show "t < ?cum ! j" using * ok j by (simp add: nth_cum_weights)
      fix k assume k: "k < j"
      then have "sum_list (take (Suc k) ws) \<le> sum_list (take j ws)"
        using weights_ok_pos [OF ok] by (intro sum_list_take_mono) auto
      then show "?cum ! k \<le> t" using * ok j k by (simp add: nth_cum_weights)
    qed
  qed
qed

lemma draw_card:
  assumes ok: "weights_ok ws" and j: "j < length ws"
  shows "card {t. 0 \<le> t \<and> t < sum_list ws \<and>
      sort_search (length (cum_weights 0 ws)) (\<lambda>i. t < cum_weights 0 ws ! i) = j} = nat (ws ! j)"
proof -
  have mono: "0 \<le> sum_list (take j ws)" "sum_list (take (Suc j) ws) \<le> sum_list ws"
    using sum_list_take_mono [OF weights_ok_pos [OF ok], of 0 j]
      sum_list_take_mono [OF weights_ok_pos [OF ok], of "Suc j" "length ws"] j by simp_all
  have "{t. 0 \<le> t \<and> t < sum_list ws \<and>
      sort_search (length (cum_weights 0 ws)) (\<lambda>i. t < cum_weights 0 ws ! i) = j} =
      {sum_list (take j ws)..<sum_list (take (Suc j) ws)}" (is "?L = ?R")
  proof (rule set_eqI)
    fix t
    show "t \<in> ?L \<longleftrightarrow> t \<in> ?R"
    proof (cases "0 \<le> t \<and> t < sum_list ws")
      case True
      then show ?thesis using draw_index [OF ok j, of t] by simp
    next
      case False
      then show ?thesis using mono by auto
    qed
  qed
  then show ?thesis by (simp add: take_Suc_conv_app_nth [OF j])
qed

lemma pick_random_at:
  assumes wf: "layer_wf idf l" and j: "j < length (ly_proxies l)" and t: "0 \<le> t" "t < ly_totalW l"
  shows "(\<exists>q. pick_random (ly_proxies l) 0 (ly_cumW l) (ly_totalW l) (p\<lparr>pl_rng := \<lambda>_. nat t\<rparr>) = Inr (ly_proxies l ! j, q)) \<longleftrightarrow>
    sort_search (length (ly_cumW l)) (\<lambda>i. t < ly_cumW l ! i) = j"
    (is "_ \<longleftrightarrow> ?s = j")
proof -
  have ne: "ly_proxies l \<noteq> []" using j by auto
  note d = layer_draw [OF wf ne]
  have "?s < length (ly_cumW l)"
    using t d by (intro bsearch.search_above(1)) auto
  then have s: "?s < length (ly_proxies l)" using d(5) by simp
  have "int64n (ly_totalW l) (\<lambda>_. nat t) = Inr (t, \<lambda>n. nat t)"
    using t by (simp add: int64n_def rng_next_def)
  then have "(\<exists>q. pick_random (ly_proxies l) 0 (ly_cumW l) (ly_totalW l) (p\<lparr>pl_rng := \<lambda>_. nat t\<rparr>) = Inr (ly_proxies l ! j, q)) \<longleftrightarrow>
      ly_proxies l ! ?s = ly_proxies l ! j"
    using s by (simp add: pick_random_def Let_def)
  then show ?thesis
    using nth_eq_iff_index_eq [OF layer_wf_distinct [OF wf] s j] by simp
qed

end
