(* ===== verification/Pool_Machine.thy ===== *)
theory Pool_Machine
  imports Pool_Next
begin

section \<open>The pool as a state machine\<close>

text \<open>
  The calls a client can make to the pool, as one datatype; \<open>run_op\<close> dispatches a call to the model of
  the method and keeps the pool it leaves. A history is a sequence of calls from a new pool, in any
  order: the critical sections of the methods make each call one step. \<open>op_ok\<close> is what the caller owes:
  weights that are \<^verbatim>\<open>int32\<close> values, at most \<open>2 ^ 32\<close> registered proxies, and, for the selections with
  exclusions, current weights that are not within reach of the limits of \<^verbatim>\<open>int64\<close>.
\<close>

datatype pool_op =
    OpSetStateSink bool
  | OpSetGroups "GroupCfg list"
  | OpAdd Proxy
  | OpRemove string
  | OpSetCountry string string
  | OpMarkFailed string int
  | OpMarkSuccess int string int
  | OpSetAlive string bool
  | OpRemoveExpired int
  | OpRemoveByProvider string
  | OpClearSticky string
  | OpRebuild
  | OpAll
  | OpNext
  | OpNextInGroup string
  | OpNextExcluding "string list"
  | OpNextInGroupExcluding string "string list"
  | OpStickyNext int string int string

fun run_op :: "pool_op \<Rightarrow> Pool \<Rightarrow> Pool go" where
  "run_op (OpSetStateSink fn) p = Inr (SetStateSink fn p)"
| "run_op (OpSetGroups cfg) p = SetGroups cfg p"
| "run_op (OpAdd pr) p = Add pr p"
| "run_op (OpRemove k) p = bindE (Remove k p) (\<lambda>(_, q). Inr q)"
| "run_op (OpSetCountry k c) p = SetCountry k c p"
| "run_op (OpMarkFailed k l) p = MarkFailed k l p"
| "run_op (OpMarkSuccess now k l) p = MarkSuccess now k l p"
| "run_op (OpSetAlive k b) p = SetAlive k b p"
| "run_op (OpRemoveExpired now) p = bindE (RemoveExpired now p) (\<lambda>(_, q). Inr q)"
| "run_op (OpRemoveByProvider pn) p = bindE (RemoveByProvider pn p) (\<lambda>(_, q). Inr q)"
| "run_op (OpClearSticky k) p = Inr (ClearSticky k p)"
| "run_op OpRebuild p = Rebuild p"
| "run_op OpAll p = Inr (snd (All p))"
| "run_op OpNext p = bindE (Next p) (\<lambda>(_, q). Inr q)"
| "run_op (OpNextInGroup g) p = bindE (NextInGroup g p) (\<lambda>(_, q). Inr q)"
| "run_op (OpNextExcluding ex) p = bindE (NextExcluding ex p) (\<lambda>(_, q). Inr q)"
| "run_op (OpNextInGroupExcluding g ex) p = bindE (NextInGroupExcluding g ex p) (\<lambda>(_, q). Inr q)"
| "run_op (OpStickyNext now ck s g) p = bindE (StickyNext now ck s g p) (\<lambda>(_, q). Inr q)"

definition swrr_limit :: int where
  "swrr_limit = 4611686018427387904"

fun op_ok :: "pool_op \<Rightarrow> Pool \<Rightarrow> bool" where
  "op_ok (OpAdd pr) p = (px_Weight pr \<le> MaxInt32 \<and> length (pl_proxies p) < 4294967296)"
| "op_ok (OpNextExcluding ex) p = groups_room swrr_limit p"
| "op_ok (OpNextInGroupExcluding g ex) p = groups_room swrr_limit p"
| "op_ok _ p = True"

inductive reachable :: "Pool \<Rightarrow> bool" where
  init: "reachable (NewPool r)"
| step: "reachable p \<Longrightarrow> op_ok op p \<Longrightarrow> run_op op p = Inr q \<Longrightarrow> reachable q"

inductive_cases reachableE: "reachable p"

lemma All_wf: "pool_wf p \<Longrightarrow> pool_wf (snd (All p))"
  by (simp add: All_def split: prod.split)

lemma ClearSticky_wf: "pool_wf p \<Longrightarrow> pool_wf (ClearSticky k p)"
proof -
  assume wf: "pool_wf p"
  then have "mwf (pl_sticky p)" by (simp add: pool_wf_def)
  then show ?thesis unfolding ClearSticky_def by (intro pool_wf_sticky [OF wf] mwf_mfilter)
qed

text \<open>The contract of a selection gives the step: it succeeds and keeps the invariant.\<close>

lemma sel_step:
  assumes "pool_wf p" "sel_post p S ex r" "\<exists>pr q. r = Inr (pr, q)"
  shows "\<exists>q. bindE r (\<lambda>(_, q). Inr q) = Inr q \<and> pool_wf q"
  using assms sel_frame_wf [OF _ assms(1)] by (fastforce simp: sel_post_def)

lemma run_op_wf:
  assumes wf: "pool_wf p" and ok: "op_ok op p"
  shows "\<exists>q. run_op op p = Inr q \<and> pool_wf q"
proof (cases op)
  case (OpSetStateSink fn)
  then show ?thesis using wf by (simp add: SetStateSink_def)
next
  case (OpSetGroups cfg)
  then show ?thesis using SetGroups_wf [OF wf] by simp
next
  case (OpAdd pr)
  then show ?thesis using Add_wf [OF wf] ok by simp
next
  case (OpRemove k)
  then show ?thesis using Remove_wf [OF wf, of k] by auto
next
  case (OpSetCountry k c)
  then show ?thesis using SetCountry_wf [OF wf] by simp
next
  case (OpMarkFailed k l)
  then show ?thesis using MarkFailed_wf [OF wf] by simp
next
  case (OpMarkSuccess now k l)
  then show ?thesis using MarkSuccess_wf [OF wf] by simp
next
  case (OpSetAlive k b)
  then show ?thesis using SetAlive_wf [OF wf] by simp
next
  case (OpRemoveExpired now)
  then show ?thesis using RemoveExpired_wf [OF wf, of now] by auto
next
  case (OpRemoveByProvider pn)
  then show ?thesis using RemoveByProvider_wf [OF wf, of pn] by auto
next
  case (OpClearSticky k)
  then show ?thesis using ClearSticky_wf [OF wf] by simp
next
  case OpRebuild
  then show ?thesis using Rebuild_wf [OF pool_pre [OF wf]] by auto
next
  case OpAll
  then show ?thesis using All_wf [OF wf] by simp
next
  case OpNext
  then show ?thesis using sel_step [OF wf Next_post [OF wf] Next_total [OF wf]] by simp
next
  case (OpNextInGroup g)
  then show ?thesis using sel_step [OF wf NextInGroup_post [OF wf] NextInGroup_total [OF wf]] by simp
next
  case (OpNextExcluding ex)
  then have "groups_room swrr_limit p" using ok by simp
  then show ?thesis
    using sel_step [OF wf NextExcluding_post [OF wf] NextExcluding_total [OF wf]] by (simp add: OpNextExcluding)
next
  case (OpNextInGroupExcluding g ex)
  then have "groups_room swrr_limit p" using ok by simp
  then show ?thesis
    using sel_step [OF wf NextInGroupExcluding_post [OF wf] NextInGroupExcluding_total [OF wf]]
    by (simp add: OpNextInGroupExcluding)
next
  case (OpStickyNext now ck s g)
  then show ?thesis
    using StickyNext_total [OF wf, of now ck s g] StickyNext_wf [OF wf, of now ck s g] by auto
qed

lemma reachable_wf: "reachable p \<Longrightarrow> pool_wf p"
proof (induction rule: reachable.induct)
  case (init r)
  show ?case by (rule NewPool_wf)
next
  case (step p op q)
  then show ?case using run_op_wf [of p op] by auto
qed

end
