(* ===== verification/Pool_Demo.thy ===== *)
theory Pool_Demo
  imports Pool_Machine
begin

section \<open>A small pool for the witnesses\<close>

text \<open>
  Two live proxies of weights 2 and 1 from one IP-pool provider, one group with that provider as its
  primary pool, and the snapshot a rebuild makes of them. The witnesses evaluate the properties here.
\<close>

definition demo_proxy :: "string \<Rightarrow> int \<Rightarrow> Proxy" where
  "demo_proxy k w = zero_proxy\<lparr>px_ID := k, px_Provider := ''p'', px_Kind := KindIPPool, px_Scheme := ''http'',
     px_Host := ''h'', px_Port := 80, px_Weight := w, px_Alive := True, px_LastUsed := 1\<rparr>"

definition demo_group :: GroupCfg where
  "demo_group = \<lparr>gc_Name = ''g'', gc_Type = [], gc_MinAliveRatio = 0, gc_Primary = [''p''],
     gc_PrimaryWeights = [], gc_Backups = [], gc_BackupWeights = [], gc_Regions = [],
     gc_Username = [], gc_Password = [], gc_Owner = []\<rparr>"

definition demo_layer :: layerSnap where
  "demo_layer = \<lparr>ly_name = ''primary'', ly_proxies = [0, 1], ly_aliveTotal = 2, ly_aliveCount = 2,
     ly_minRatio = 0, ly_useSWRR = True, ly_weight = [2, 1], ly_cumW = [2, 3], ly_totalW = 3, ly_refLatency = 0\<rparr>"

definition demo_pool :: Pool where
  "demo_pool = \<lparr>pl_heap = (\<lambda>_. zero_proxy)(0 := demo_proxy ''a'' 2, 1 := demo_proxy ''b'' 1), pl_brk = 2,
     pl_proxies = [(''a'', 0), (''b'', 1)],
     pl_snap = \<lparr>sn_proxies = [0, 1], sn_prio = [], sn_groups = [\<lparr>gs_name = ''g'', gs_layers = [demo_layer]\<rparr>]\<rparr>,
     pl_seq = 0, pl_sticky = [], pl_groupsCfg = [demo_group], pl_swrr = [], pl_stateSink = False, pl_sunk = [],
     pl_rng = (\<lambda>_. 0)\<rparr>"

text \<open>The same proxies without groups, as the legacy mode schedules them.\<close>

definition demo_prio :: prioGroup where
  "demo_prio = \<lparr>pg_priority = 0, pg_start = 0, pg_end = 2, pg_aliveTotal = 2, pg_aliveCount = 2, pg_minRatio = 0,
     pg_cumW = [2, 3], pg_totalW = 3\<rparr>"

definition demo_legacy :: Pool where
  "demo_legacy = demo_pool\<lparr>pl_snap := \<lparr>sn_proxies = [0, 1], sn_prio = [demo_prio], sn_groups = []\<rparr>, pl_groupsCfg := []\<rparr>"

lemmas demo_defs = demo_pool_def demo_proxy_def demo_group_def demo_layer_def demo_prio_def demo_legacy_def zero_proxy_def

lemma demo_weights: "weights_ok [2, 1]"
  by (simp add: weights_ok_def MaxInt32_def)

lemma demo_layer_wf: "layer_wf (id_of demo_pool) demo_layer"
proof -
  have "cum_weights 0 [2, 1] = [2, 3]" "sum_weights [2, 1] = 3"
    by (simp_all add: sum_weights_def i64_def)
  then show ?thesis
    using demo_weights
    by (simp add: layer_wf_def demo_layer_def id_of_def demo_pool_def demo_proxy_def del: cum_weights.simps)
qed

lemma demo_pool_wf: "pool_wf demo_pool"
proof -
  have "registry_wf demo_pool"
    by (simp add: registry_wf_def demo_pool_def demo_proxy_def mwf_def mkeys_def id_of_def MaxInt32_def)
  moreover have "snap_wf (id_of demo_pool) (pl_snap demo_pool)"
    using demo_layer_wf by (simp add: snap_wf_def) (simp add: demo_pool_def demo_layer_def)
  ultimately show ?thesis
    by (simp add: pool_wf_def) (simp add: demo_pool_def demo_group_def live_def registered_def demo_proxy_def)
qed

lemma demo_layer_room: "layer_room demo_layer" "ly_proxies demo_layer \<noteq> []"
  by (simp_all add: layer_room_def demo_layer_def MaxInt64_def)

lemma demo_fresh: "\<forall>a \<in> set (ly_proxies demo_layer). mget0 0 (pl_swrr demo_pool) (id_of demo_pool a) = 0"
  by (simp add: demo_layer_def demo_pool_def)

lemma demo_eff: "eff_weights (pl_heap demo_pool) demo_layer = [2, 1]"
  by (simp add: eff_weights_def demo_layer_def demo_pool_def demo_proxy_def zero_proxy_def eff_weight_def
      latencyScaledWeight_def layerRefLatency_def)

lemma demo_room: "groups_room 0 demo_pool"
  by (simp add: groups_room_def swrr_within_def demo_pool_def layer_cost_def demo_layer_def MaxInt64_def)

lemma demo_layer_proxies: "ly_proxies demo_layer = [0, 1]"
  by (simp add: demo_layer_def)

lemma demo_layer_usable: "tier_usable demo_layer"
  using f64_div_nonneg [of 2 2] by (simp add: tier_usable_def demo_layer_def)

lemma demo_next_excluding: "\<exists>a q. NextExcluding [''b''] demo_pool = Inr (Some a, q)"
proof -
  let ?p = "demo_pool\<lparr>pl_swrr := [(''a'', -1), (''b'', 1)]\<rparr>"
  have pick: "pickSWRR demo_layer demo_pool = Inr (Some 0, ?p)"
  proof -
    have ref: "layerRefLatency (pl_heap demo_pool) [0, Suc 0] = 0"
      by (simp add: layerRefLatency_def demo_pool_def demo_proxy_def zero_proxy_def)
    have e: "eff_weight (pl_heap demo_pool) 0 w a = (if w \<le> 0 then 1 else w)" for w a
      by (simp add: eff_weight_def latencyScaledWeight_def)
    have k: "px_ID (pl_heap demo_pool 0) = ''a''" "px_ID (pl_heap demo_pool (Suc 0)) = ''b''" "pl_swrr demo_pool = []"
      by (simp_all add: demo_pool_def demo_proxy_def)
    have l: "ly_proxies demo_layer = [0, Suc 0]" "ly_weight demo_layer = [2, 1]" by (simp_all add: demo_layer_def)
    show ?thesis
      by (simp add: pickSWRR_def Let_def l ref e k i64_def MinInt64_def mget0_def mput_def)
  qed
  have "px_ID (pl_heap ?p 0) \<noteq> ''b''" by (simp add: demo_pool_def demo_proxy_def)
  then have "swrr_rounds 2 demo_layer [''b''] demo_pool = Inr (Some 0, ?p)"
    by (simp add: numeral_2_eq_2 pick)
  moreover have "ly_totalW demo_layer = 3" "length (ly_proxies demo_layer) = 2" "ly_useSWRR demo_layer"
    by (simp_all add: demo_layer_def)
  ultimately have "pickLayer demo_layer [''b''] demo_pool = Inr (Some 0, ?p)"
    by (simp add: pickLayer_def)
  moreover have "\<not> ratio_below (ly_aliveCount demo_layer) (ly_aliveTotal demo_layer) (ly_minRatio demo_layer)"
      "ly_aliveCount demo_layer \<noteq> 0"
    using demo_layer_usable by (simp_all add: tier_usable_gate demo_layer_def)
  ultimately have "next_layers [demo_layer] [''b''] demo_pool = Inr (Some 0, ?p)" by simp
  moreover have "sn_groups (pl_snap demo_pool) = [\<lparr>gs_name = ''g'', gs_layers = [demo_layer]\<rparr>]"
    by (simp add: demo_pool_def)
  ultimately show ?thesis by (simp add: NextExcluding_def NextInGroupExcluding_def)
qed

lemma demo_next_in_group: "\<exists>a q. NextInGroup ''g'' demo_pool = Inr (Some a, q)"
proof -
  have "mwf (pl_swrr demo_pool)" using demo_pool_wf by (simp add: pool_wf_def)
  moreover have "swrr_within 0 demo_pool" "0 + (\<Sum>l \<leftarrow> [demo_layer]. layer_cost l) \<le> MaxInt64"
    using demo_room by (simp_all add: groups_room_def) (simp add: demo_pool_def)
  moreover have "find tier_usable [demo_layer] = Some demo_layer" using demo_layer_usable by simp
  ultimately have "\<exists>a q. next_layers [demo_layer] [] demo_pool = Inr (Some a, q)"
    using next_layers_first [of "[demo_layer]" demo_pool 0] demo_layer_wf by (simp del: find.simps next_layers.simps) blast
  moreover have "sn_groups (pl_snap demo_pool) = [\<lparr>gs_name = ''g'', gs_layers = [demo_layer]\<rparr>]"
    by (simp add: demo_pool_def)
  ultimately show ?thesis by (simp add: NextInGroup_def nextFromGroup_def del: next_layers.simps)
qed

end
