(* ===== verification/Pool_Props.thy ===== *)
theory Pool_Props
  imports Pool_Demo
begin

text \<open>
  The properties of the pool: fairness of the scheduler, the invariant and the absence of panics over
  every sequence of operations, safety of every selection, and the behaviour of each operation.
\<close>

lemma all_less_two:
  "(\<forall>i < 2. P i) \<longleftrightarrow> P 0 \<and> P (1 :: nat)" "(\<forall>i < Suc (Suc 0). P i) \<longleftrightarrow> P 0 \<and> P (Suc 0)"
  by (auto simp: less_Suc_eq numeral_2_eq_2)

section \<open>Fair scheduling\<close>

text \<open>
  C1. Exact fairness of the smooth weighted round-robin. From a fresh state of a well-formed layer
  whose weights leave room in \<^verbatim>\<open>int64\<close>, as many picks as the sum of the effective weights select
  every proxy of the layer exactly as often as its effective weight, and leave every current
  weight of the layer at zero, so the schedule is periodic.
\<close>

theorem swrr_period:
  assumes "layer_wf (id_of p) l" "ly_proxies l \<noteq> []" "layer_room l"
    and "\<forall>a \<in> set (ly_proxies l). mget0 0 (pl_swrr p) (id_of p a) = 0"
  shows "\<exists>rs m. pick_rounds (nat (sum_list (eff_weights (pl_heap p) l))) l p = Inr (rs, p\<lparr>pl_swrr := m\<rparr>) \<and>
    (\<forall>i < length (ly_proxies l).
       int (count_list rs (Some (ly_proxies l ! i))) = eff_weights (pl_heap p) l ! i) \<and>
    (\<forall>a \<in> set (ly_proxies l). mget0 0 m (id_of p a) = 0)"
proof -
  let ?es = "eff_weights (pl_heap p) l" and ?as = "ly_proxies l"
  note eff = eff_weights_facts [OF assms(1), of "pl_heap p"]
  have es: "?es \<noteq> []" using eff(1) assms(2) by auto
  obtain js cs' m where run: "first_max.run (nat (sum_list ?es)) ?es (replicate (length ?es) 0) = (js, cs')"
    and picks: "pick_rounds (nat (sum_list ?es)) l p = Inr (map (\<lambda>j. Some (?as ! j)) js, p\<lparr>pl_swrr := m\<rparr>)"
    and cur: "cur_weights (pl_heap p) m ?as = cs'"
    and cnt: "\<forall>i < length ?as. count_list (map (\<lambda>j. Some (?as ! j)) js) (Some (?as ! i)) = count_list js i"
    using fresh_rounds [OF assms] by blast
  have period: "\<forall>i < length ?es. int (count_list js i) = ?es ! i" "cs' = replicate (length ?es) 0"
    using first_max.run_period [OF es eff(2) run] by auto
  have "mget0 0 m (id_of p a) = 0" if "a \<in> set ?as" for a
    unfolding id_of_def using cur period(2) eff(1) that by (intro cur_weights_zeroD [of "pl_heap p" m ?as]) simp_all
  then show ?thesis
    using picks cnt period(1) eff(1) by auto
qed

theorem swrr_period_witness:
  "\<exists>rs m. pick_rounds 3 demo_layer demo_pool = Inr (rs, demo_pool\<lparr>pl_swrr := m\<rparr>) \<and>
     count_list rs (Some 0) = 2 \<and> count_list rs (Some 1) = 1"
proof -
  obtain rs m where "pick_rounds 3 demo_layer demo_pool = Inr (rs, demo_pool\<lparr>pl_swrr := m\<rparr>)"
    and "\<forall>i < 2. int (count_list rs (Some ([0, 1] ! i))) = [2, 1] ! i"
    using swrr_period [OF demo_layer_wf demo_layer_room(2,1) demo_fresh]
    by (auto simp: demo_eff demo_layer_proxies numeral_2_eq_2)
  then show ?thesis by (auto simp: all_less_two)
qed

text \<open>
  C11. Bounded unfairness at any time: after any number \<open>t\<close> of picks from a fresh state, no proxy of
  the layer was selected a full turn or more ahead of its share \<open>t \<cdot> w / W\<close>.
\<close>

theorem swrr_share:
  assumes "layer_wf (id_of p) l" "ly_proxies l \<noteq> []" "layer_room l"
    and "\<forall>a \<in> set (ly_proxies l). mget0 0 (pl_swrr p) (id_of p a) = 0"
  shows "\<exists>rs m. pick_rounds t l p = Inr (rs, p\<lparr>pl_swrr := m\<rparr>) \<and> length rs = t \<and>
    (\<forall>i < length (ly_proxies l).
       int (count_list rs (Some (ly_proxies l ! i))) * sum_list (eff_weights (pl_heap p) l) <
       int t * eff_weights (pl_heap p) l ! i + sum_list (eff_weights (pl_heap p) l))"
proof -
  let ?es = "eff_weights (pl_heap p) l" and ?as = "ly_proxies l"
  note eff = eff_weights_facts [OF assms(1), of "pl_heap p"]
  have es: "?es \<noteq> []" using eff(1) assms(2) by auto
  obtain js cs' m where run: "first_max.run t ?es (replicate (length ?es) 0) = (js, cs')"
    and picks: "pick_rounds t l p = Inr (map (\<lambda>j. Some (?as ! j)) js, p\<lparr>pl_swrr := m\<rparr>)"
    and cnt: "\<forall>i < length ?as. count_list (map (\<lambda>j. Some (?as ! j)) js) (Some (?as ! i)) = count_list js i"
    using fresh_rounds [OF assms] by blast
  have "length js = t" using first_max.run_facts [OF _ es run] by simp
  moreover have "int (count_list js i) * sum_list ?es < int t * ?es ! i + sum_list ?es" if "i < length ?as" for i
    using first_max.run_share [OF es run eff(2)] that eff(1) by simp
  ultimately show ?thesis using picks cnt by auto
qed

theorem swrr_share_witness:
  "\<exists>rs m. pick_rounds 2 demo_layer demo_pool = Inr (rs, demo_pool\<lparr>pl_swrr := m\<rparr>) \<and> length rs = 2 \<and>
     int (count_list rs (Some 1)) * 3 < 2 * 1 + 3"
  using swrr_share [OF demo_layer_wf demo_layer_room(2,1) demo_fresh, of 2]
  by (auto simp: demo_eff demo_layer_proxies all_less_two)

section \<open>Histories of calls\<close>

text \<open>
  C4. In every state that a sequence of calls can reach from a new pool, the invariant \<open>pool_wf\<close> holds
  (distinct keys, each proxy under its own ID, a snapshot that is well formed and lists exactly the
  registered live proxies), and every further call returns without a panic into such a state.
\<close>

theorem pool_never_panics:
  assumes "reachable p" "op_ok op p"
  shows "pool_wf p \<and> (\<exists>q. run_op op p = Inr q \<and> reachable q)"
  using assms reachable_wf [OF assms(1)] run_op_wf [OF _ assms(2)] reachable.step [OF assms] by blast

theorem pool_never_panics_witness:
  "\<exists>q. run_op (OpAdd (demo_proxy ''a'' 2)) (NewPool (\<lambda>_. 0)) = Inr q \<and> reachable q"
  using pool_never_panics [OF reachable.init [of "\<lambda>_. 0"], of "OpAdd (demo_proxy ''a'' 2)"]
  by (simp add: NewPool_def demo_proxy_def MaxInt32_def)

section \<open>Selection\<close>

text \<open>
  C10. A selection only ever hands out a proxy that is registered under its ID, alive, and not among
  the excluded IDs, and it changes nothing but the round-robin weights and the random stream.
\<close>

theorem selection_safe:
  assumes "pool_wf p" "NextExcluding ex p = Inr (Some a, q)"
  shows "Get (id_of p a) p = Some a \<and> px_Alive (pl_heap p a) \<and> id_of p a \<notin> set ex \<and>
    q = p\<lparr>pl_swrr := pl_swrr q, pl_rng := pl_rng q\<rparr>"
proof -
  have a: "a \<in> set (live p)" "id_of p a \<notin> set ex" and fr: "sel_frame p q"
    using NextExcluding_post [OF assms(1), of ex] assms(2) by (auto simp: sel_post_def)
  have "registry_wf p" using assms(1) by (simp add: pool_wf_def)
  then have "Get (id_of p a) p = Some a" "px_Alive (pl_heap p a)"
    using a(1) registry_mget [of p "id_of p a" a] by (auto simp: Get_def live_def)
  moreover have "q = p\<lparr>pl_swrr := pl_swrr q, pl_rng := pl_rng q\<rparr>" using fr by (auto simp: sel_frame_def)
  ultimately show ?thesis using a(2) by blast
qed

theorem selection_safe_witness:
  "\<exists>a q. NextExcluding [''b''] demo_pool = Inr (Some a, q) \<and> Get (id_of demo_pool a) demo_pool = Some a \<and>
     id_of demo_pool a \<noteq> ''b''"
proof -
  obtain a q where r: "NextExcluding [''b''] demo_pool = Inr (Some a, q)"
    using demo_next_excluding by blast
  from selection_safe [OF demo_pool_wf r] r show ?thesis by auto
qed

text \<open>
  C7. The group scheduler serves the first usable tier: with tier order as configured, if some tier
  has live proxies and is not below its minimum alive ratio, \<^verbatim>\<open>NextInGroup\<close> returns a proxy of the
  first such tier; if none is, it returns nil and leaves the pool as it is.
\<close>

theorem group_first_usable_tier:
  assumes "pool_wf p" "groups_room B p"
    and "find (\<lambda>g. gs_name g = gname) (sn_groups (pl_snap p)) = Some g"
  shows "case find tier_usable (gs_layers g) of
      None \<Rightarrow> NextInGroup gname p = Inr (None, p)
    | Some l \<Rightarrow> \<exists>a q. NextInGroup gname p = Inr (Some a, q) \<and> a \<in> set (ly_proxies l)"
proof -
  have g: "g \<in> set (sn_groups (pl_snap p))" using assms(3) by (auto simp: find_Some_iff)
  have snap: "snap_wf (id_of p) (pl_snap p)" and m: "mwf (pl_swrr p)" using assms(1) by (auto simp: pool_wf_def)
  have room: "swrr_within B p" "B + (\<Sum>l \<leftarrow> gs_layers g. layer_cost l) \<le> MaxInt64"
    using assms(2) g by (auto simp: groups_room_def list_all_iff)
  have eq: "NextInGroup gname p = next_layers (gs_layers g) [] p"
    by (simp add: NextInGroup_def nextFromGroup_def assms(3))
  show ?thesis
    unfolding eq using snap_layers [OF snap g] by (intro next_layers_first [OF _ m room]) blast
qed

theorem group_first_usable_tier_witness:
  "\<exists>a q. NextInGroup ''g'' demo_pool = Inr (Some a, q) \<and> a \<in> {0, 1}"
proof -
  have f: "find (\<lambda>g. gs_name g = ''g'') (sn_groups (pl_snap demo_pool)) = Some \<lparr>gs_name = ''g'', gs_layers = [demo_layer]\<rparr>"
    by (simp add: demo_pool_def)
  show ?thesis
    using group_first_usable_tier [OF demo_pool_wf demo_room f] demo_layer_usable by (simp add: demo_layer_proxies)
qed

text \<open>
  C17. The weighted random draw is exact: of the \<open>totalW\<close> equally likely outcomes of \<^verbatim>\<open>rand.Int64N\<close>,
  exactly as many select the \<open>j\<close>-th proxy of a layer as its weight.
\<close>

theorem weighted_random_exact:
  assumes "layer_wf idf l" "j < length (ly_proxies l)"
  shows "card {t. 0 \<le> t \<and> t < ly_totalW l \<and>
      (\<exists>q. pick_random (ly_proxies l) 0 (ly_cumW l) (ly_totalW l) (p\<lparr>pl_rng := \<lambda>_. nat t\<rparr>) = Inr (ly_proxies l ! j, q))} =
    nat (ly_weight l ! j)"
proof -
  have l: "weights_ok (ly_weight l)" "j < length (ly_weight l)" "ly_totalW l = sum_list (ly_weight l)"
      "ly_cumW l = cum_weights 0 (ly_weight l)"
    using assms by (auto simp: layer_wf_def sum_weights_eq)
  have "{t. 0 \<le> t \<and> t < ly_totalW l \<and>
      (\<exists>q. pick_random (ly_proxies l) 0 (ly_cumW l) (ly_totalW l) (p\<lparr>pl_rng := \<lambda>_. nat t\<rparr>) = Inr (ly_proxies l ! j, q))} =
    {t. 0 \<le> t \<and> t < sum_list (ly_weight l) \<and>
      sort_search (length (cum_weights 0 (ly_weight l))) (\<lambda>i. t < cum_weights 0 (ly_weight l) ! i) = j}"
    using pick_random_at [OF assms] l(3,4) by auto
  then show ?thesis using draw_card [OF l(1,2)] by simp
qed

theorem weighted_random_exact_witness:
  "card {t. 0 \<le> t \<and> t < (3 :: int) \<and>
      (\<exists>q. pick_random [0, 1] 0 [2, 3] 3 (demo_pool\<lparr>pl_rng := \<lambda>_. nat t\<rparr>) = Inr (0, q))} = 2"
  using weighted_random_exact [OF demo_layer_wf, of 0 demo_pool] by (simp add: demo_layer_def)

section \<open>What a rebuild makes\<close>



text \<open>
  The legacy mode. A rebuild without groups lists the live proxies by descending priority, then
  ID, whatever the iteration order of the map; it makes one group per priority present, in strictly
  descending order, that covers exactly the run of its proxies, with cumulative weights, the number
  of live and of all proxies of that priority and the smallest threshold among them.
\<close>

theorem rebuild_legacy:
  assumes "registry_wf p" "pl_groupsCfg p = []" "Rebuild p = Inr q"
  shows "sn_proxies (pl_snap q) = sort_key (prio_key (pl_heap p)) (live p) \<and>
    sorted_wrt (>) (map pg_priority (sn_prio (pl_snap q))) \<and>
    set (map pg_priority (sn_prio (pl_snap q))) = (\<lambda>a. px_Priority (pl_heap p a)) ` set (live p) \<and>
    (\<forall>g \<in> set (sn_prio (pl_snap q)).
       let run = filter (\<lambda>a. px_Priority (pl_heap p a) = pg_priority g) (sn_proxies (pl_snap q))
       in take (length run) (drop (pg_start g) (sn_proxies (pl_snap q))) = run \<and>
          pg_end g = pg_start g + length run \<and>
          pg_cumW g = cum_weights 0 (map (\<lambda>a. px_Weight (pl_heap p a)) run) \<and>
          gstat_of (pl_heap p) (registered p) (pg_priority g) =
            Some \<lparr>gst_total = pg_aliveTotal g, gst_alive = pg_aliveCount g, gst_minRatio = pg_minRatio g\<rparr>)"
proof -
  obtain gs r where q: "q = p\<lparr>pl_snap := legacy_snapshot p gs, pl_seq := pl_seq p + 1, pl_rng := r\<rparr>"
    and gs: "prio_loop (pl_heap p) (stats_map p) 0 (sort_key (prio_key (pl_heap p)) (live p)) = Inr gs"
    using Rebuild_legacy [OF assms(1,2)] assms(3) by auto
  from legacy_loop_spec [of p] gs
  have spec: "list_all (prio_spec (pl_heap p) (stats_map p) 0 (sort_key (prio_key (pl_heap p)) (live p))) gs"
    and rest: "sorted_wrt (>) (map pg_priority gs)"
      "set (map pg_priority gs) = (\<lambda>a. px_Priority (pl_heap p a)) ` set (live p)" by auto
  have *: "sn_proxies (pl_snap q) = sort_key (prio_key (pl_heap p)) (live p)" "sn_prio (pl_snap q) = gs"
    by (simp_all add: q)
  show ?thesis
    unfolding * using spec rest by (simp add: list_all_iff prio_spec_def mget_stats_map Let_def)
qed

theorem rebuild_legacy_witness:
  "\<exists>q. Rebuild demo_legacy = Inr q \<and> set (sn_proxies (pl_snap q)) = {0, 1} \<and>
     set (map pg_priority (sn_prio (pl_snap q))) = {0}"
proof -
  have reg: "registry_wf demo_legacy" "pl_groupsCfg demo_legacy = []"
    using demo_pool_wf by (simp_all add: demo_legacy_def pool_wf_def registry_wf_def id_of_def)
  obtain q where q: "Rebuild demo_legacy = Inr q" using Rebuild_result [OF reg(1)] by blast
  have "set (live demo_legacy) = {0, 1}" "\<forall>a \<in> {0, 1}. px_Priority (pl_heap demo_legacy a) = 0"
    by (auto simp: live_def registered_def demo_legacy_def demo_pool_def demo_proxy_def zero_proxy_def)
  then show ?thesis
    using rebuild_legacy [OF reg q] q by auto
qed

end
