(* ===== verification/Pool_Effects.thy ===== *)
theory Pool_Effects
  imports Pool_Demo
begin

section \<open>Effects of the operations of the pool\<close>

text \<open>
  The functional behaviour of the operations: health accounting, registration and removal, sticky
  sessions, latency scaling and statistics, each on all of its branches.
\<close>

text \<open>What the operations that rebuild leave in place.\<close>

lemma rebuild_frame:
  assumes "pre_wf p" "bindE (Rebuild p) (\<lambda>q. Inr (notifyState a b q)) = Inr t"
  shows "pl_heap t = pl_heap p \<and> pl_proxies t = pl_proxies p \<and> pl_sticky t = pl_sticky p \<and> pl_swrr t = pl_swrr p \<and>
    pool_wf t"
proof -
  obtain q s r where "Rebuild p = Inr q" "pool_wf q" "q = p\<lparr>pl_snap := s, pl_seq := pl_seq p + 1, pl_rng := r\<rparr>"
    using Rebuild_wf [OF assms(1)] by blast
  then show ?thesis using assms(2) by (auto simp: notifyState_def split: if_splits)
qed

lemma snap_alive:
  assumes "pool_wf p" "mget (pl_proxies p) k = Some a"
  shows "a \<in> set (sn_proxies (pl_snap p)) \<longleftrightarrow> px_Alive (pl_heap p a)"
  using assms pool_get(1) [OF assms] by (auto simp: pool_wf_def live_def)

lemma get_pre:
  assumes "pool_wf p" "mget (pl_proxies p) k = Some a" "legal_upd (pl_heap p a) q"
  shows "pre_wf (heap_upd a q p)"
  using pool_get [OF assms(1,2)] assms(3)
  by (intro heap_upd_pre [OF assms(1)]) (auto simp: legal_upd_def id_of_def)

subsection \<open>Health accounting\<close>

lemma MarkFailed_effect:
  assumes wf: "pool_wf p" and get: "Get k p = Some a"
  defines "f \<equiv> i32 (px_Fails (pl_heap p a) + 1)"
  shows "\<exists>q. MarkFailed k lat p = Inr q \<and> pool_wf q \<and> pl_proxies q = pl_proxies p \<and>
    pl_heap q = (pl_heap p)(a := (store_latency lat ((pl_heap p a)\<lparr>px_Fails := f\<rparr>))
      \<lparr>px_Alive := px_Alive (pl_heap p a) \<and> f < 3 \<and> px_LastUsed (pl_heap p a) \<noteq> 0\<rparr>)"
proof -
  let ?pr = "store_latency lat ((pl_heap p a)\<lparr>px_Fails := f\<rparr>)"
  have g: "mget (pl_proxies p) k = Some a" using get by (simp add: Get_def)
  show ?thesis
  proof (cases "f \<ge> 3 \<or> px_LastUsed (pl_heap p a) = 0")
    case True
    have pre: "pre_wf (heap_upd a (?pr\<lparr>px_Alive := False\<rparr>) p)"
      by (rule get_pre [OF wf g]) (simp add: legal_upd_def)
    have eq: "MarkFailed k lat p =
        bindE (Rebuild (heap_upd a (?pr\<lparr>px_Alive := False\<rparr>) p)) (\<lambda>p1. Inr (notifyState a False p1))"
      using True get by (auto simp: MarkFailed_def Let_def f_def)
    obtain q where q: "MarkFailed k lat p = Inr q" using MarkFailed_wf [OF wf] by blast
    from rebuild_frame [OF pre] q eq True show ?thesis by auto
  next
    case False
    have "?pr\<lparr>px_Alive := px_Alive (pl_heap p a)\<rparr> = ?pr" by (simp add: store_latency_def)
    moreover have "MarkFailed k lat p = Inr (notifyState a False (heap_upd a ?pr p))"
      using False get by (auto simp: MarkFailed_def Let_def f_def)
    moreover have "pool_wf (notifyState a False (heap_upd a ?pr p))"
      by (rule upd_in_place [OF wf g]) (simp_all add: legal_upd_def)
    ultimately show ?thesis using False by (auto simp: notifyState_def)
  qed
qed

lemma MarkSuccess_effect:
  assumes wf: "pool_wf p" and get: "Get k p = Some a"
  shows "\<exists>q. MarkSuccess now k lat p = Inr q \<and> pool_wf q \<and> pl_proxies q = pl_proxies p \<and>
    pl_heap q = (pl_heap p)(a := (store_latency lat ((pl_heap p a)\<lparr>px_Fails := 0\<rparr>))\<lparr>px_LastUsed := now, px_Alive := True\<rparr>)"
proof -
  let ?pr = "(store_latency lat ((pl_heap p a)\<lparr>px_Fails := 0\<rparr>))\<lparr>px_LastUsed := now\<rparr>"
  have g: "mget (pl_proxies p) k = Some a" using get by (simp add: Get_def)
  show ?thesis
  proof (cases "px_Alive (pl_heap p a)")
    case False
    have pre: "pre_wf (heap_upd a (?pr\<lparr>px_Alive := True\<rparr>) p)"
      by (rule get_pre [OF wf g]) (simp add: legal_upd_def)
    have eq: "MarkSuccess now k lat p =
        bindE (Rebuild (heap_upd a (?pr\<lparr>px_Alive := True\<rparr>) p)) (\<lambda>p1. Inr (notifyState a False p1))"
      using False get by (simp add: MarkSuccess_def Let_def)
    obtain q where q: "MarkSuccess now k lat p = Inr q" using MarkSuccess_wf [OF wf] by blast
    from rebuild_frame [OF pre] q eq show ?thesis by auto
  next
    case True
    have "?pr\<lparr>px_Alive := True\<rparr> = ?pr" using True by (simp add: store_latency_def)
    moreover have "MarkSuccess now k lat p = Inr (notifyState a False (heap_upd a ?pr p))"
      using True get by (simp add: MarkSuccess_def Let_def)
    moreover have "pool_wf (notifyState a False (heap_upd a ?pr p))"
      by (rule upd_in_place [OF wf g]) (simp_all add: legal_upd_def)
    ultimately show ?thesis by (auto simp: notifyState_def)
  qed
qed

text \<open>
  A failed health check. It counts the failure; the proxy is alive afterwards iff it was alive,
  has fewer than three consecutive failures and has succeeded before; the snapshot lists it iff it is
  alive; the measured latency is stored when positive; no other proxy changes.
\<close>

theorem mark_failed:
  assumes "pool_wf p" "Get k p = Some a"
  shows "\<exists>q. MarkFailed k lat p = Inr q \<and> Get k q = Some a \<and>
    px_Fails (pl_heap q a) = i32 (px_Fails (pl_heap p a) + 1) \<and>
    (px_Alive (pl_heap q a) \<longleftrightarrow>
       px_Alive (pl_heap p a) \<and> i32 (px_Fails (pl_heap p a) + 1) < 3 \<and> px_LastUsed (pl_heap p a) \<noteq> 0) \<and>
    (a \<in> set (sn_proxies (pl_snap q)) \<longleftrightarrow> px_Alive (pl_heap q a)) \<and>
    px_LatencyMS (pl_heap q a) = (if lat > 0 then lat else px_LatencyMS (pl_heap p a)) \<and>
    (\<forall>b. b \<noteq> a \<longrightarrow> pl_heap q b = pl_heap p b)"
proof -
  obtain q where q: "MarkFailed k lat p = Inr q" "pool_wf q" "pl_proxies q = pl_proxies p"
    "pl_heap q = (pl_heap p)(a := (store_latency lat ((pl_heap p a)\<lparr>px_Fails := i32 (px_Fails (pl_heap p a) + 1)\<rparr>))
      \<lparr>px_Alive := px_Alive (pl_heap p a) \<and> i32 (px_Fails (pl_heap p a) + 1) < 3 \<and> px_LastUsed (pl_heap p a) \<noteq> 0\<rparr>)"
    using MarkFailed_effect [OF assms] by blast
  have get: "mget (pl_proxies q) k = Some a" using assms(2) q(3) by (simp add: Get_def)
  show ?thesis
    using q(1) get snap_alive [OF q(2) get] by (auto simp: q(4) Get_def store_latency_def)
qed

theorem mark_failed_witness:
  "\<exists>q. MarkFailed ''a'' 7 demo_pool = Inr q \<and> px_Fails (pl_heap q 0) = 1 \<and> px_Alive (pl_heap q 0) \<and>
     0 \<in> set (sn_proxies (pl_snap q))"
proof -
  have "Get ''a'' demo_pool = Some 0" by (simp add: Get_def demo_pool_def)
  from mark_failed [OF demo_pool_wf this, of 7] show ?thesis
    by (auto simp: demo_pool_def demo_proxy_def zero_proxy_def i32_def)
qed

text \<open>
  C19. Flap protection and revival. A live proxy with a clean record that has succeeded before stays
  schedulable through two failed checks in a row, leaves the snapshot with the third, and is back,
  with its failures cleared, after one successful check.
\<close>

theorem fail_thrice_then_revive:
  assumes "pool_wf p" "Get k p = Some a"
    and "px_Alive (pl_heap p a)" "px_Fails (pl_heap p a) = 0" "px_LastUsed (pl_heap p a) \<noteq> 0"
  shows "\<exists>p1 p2 p3 p4. MarkFailed k l1 p = Inr p1 \<and> MarkFailed k l2 p1 = Inr p2 \<and> MarkFailed k l3 p2 = Inr p3 \<and>
    MarkSuccess now k l4 p3 = Inr p4 \<and>
    a \<in> set (sn_proxies (pl_snap p1)) \<and> a \<in> set (sn_proxies (pl_snap p2)) \<and>
    a \<notin> set (sn_proxies (pl_snap p3)) \<and> a \<in> set (sn_proxies (pl_snap p4)) \<and> px_Fails (pl_heap p4 a) = 0"
proof -
  have i: "i32 1 = 1" "i32 2 = 2" "i32 3 = 3" by (simp_all add: i32_def)
  have g0: "mget (pl_proxies p) k = Some a" using assms(2) by (simp add: Get_def)
  obtain p1 where p1: "MarkFailed k l1 p = Inr p1" "pool_wf p1" "pl_proxies p1 = pl_proxies p"
    "px_Alive (pl_heap p1 a)" "px_Fails (pl_heap p1 a) = 1" "px_LastUsed (pl_heap p1 a) \<noteq> 0"
    using MarkFailed_effect [OF assms(1,2), of l1] assms(3-5) i by auto
  then have g1: "Get k p1 = Some a" using assms(2) by (simp add: Get_def)
  obtain p2 where p2: "MarkFailed k l2 p1 = Inr p2" "pool_wf p2" "pl_proxies p2 = pl_proxies p"
    "px_Alive (pl_heap p2 a)" "px_Fails (pl_heap p2 a) = 2" "px_LastUsed (pl_heap p2 a) \<noteq> 0"
    using MarkFailed_effect [OF p1(2) g1, of l2] p1(3-6) i by auto
  then have g2: "Get k p2 = Some a" using assms(2) by (simp add: Get_def)
  obtain p3 where p3: "MarkFailed k l3 p2 = Inr p3" "pool_wf p3" "pl_proxies p3 = pl_proxies p" "\<not> px_Alive (pl_heap p3 a)"
    using MarkFailed_effect [OF p2(2) g2, of l3] p2(3-6) i by auto
  then have g3: "Get k p3 = Some a" using assms(2) by (simp add: Get_def)
  obtain p4 where p4: "MarkSuccess now k l4 p3 = Inr p4" "pool_wf p4" "pl_proxies p4 = pl_proxies p"
    "px_Alive (pl_heap p4 a)" "px_Fails (pl_heap p4 a) = 0"
    using MarkSuccess_effect [OF p3(2) g3, of now l4] p3(3) by auto
  have snap: "a \<in> set (sn_proxies (pl_snap q)) \<longleftrightarrow> px_Alive (pl_heap q a)"
    if "pool_wf q" "pl_proxies q = pl_proxies p" for q
    using snap_alive [OF that(1)] that(2) g0 by simp
  show ?thesis
    using p1 p2 p3 p4 snap by blast
qed

theorem fail_thrice_then_revive_witness:
  "\<exists>p1 p2 p3 p4. MarkFailed ''a'' 1 demo_pool = Inr p1 \<and> MarkFailed ''a'' 1 p1 = Inr p2 \<and>
     MarkFailed ''a'' 1 p2 = Inr p3 \<and> MarkSuccess 9 ''a'' 1 p3 = Inr p4 \<and>
     0 \<in> set (sn_proxies (pl_snap p2)) \<and> 0 \<notin> set (sn_proxies (pl_snap p3)) \<and> 0 \<in> set (sn_proxies (pl_snap p4))"
proof -
  have g: "Get ''a'' demo_pool = Some 0" by (simp add: Get_def demo_pool_def)
  have "px_Alive (pl_heap demo_pool 0)" "px_Fails (pl_heap demo_pool 0) = 0" "px_LastUsed (pl_heap demo_pool 0) \<noteq> 0"
    by (simp_all add: demo_pool_def demo_proxy_def zero_proxy_def)
  from fail_thrice_then_revive [OF demo_pool_wf g this, of 1 1 1 9 1] show ?thesis by blast
qed

subsection \<open>Registration and removal\<close>

lemma Remove_effect:
  assumes wf: "pool_wf p" and get: "mget (pl_proxies p) k = Some a"
  shows "\<exists>q. Remove k p = Inr (True, q) \<and> pool_wf q \<and> pl_proxies q = mdel k (pl_proxies p) \<and> pl_heap q = pl_heap p \<and>
    pl_swrr q = mdel k (pl_swrr p) \<and> pl_sticky q = mfilter (\<lambda>c e. se_proxyID e \<noteq> k) (pl_sticky p)"
proof -
  let ?p = "clearSWRR k (ClearSticky k (p\<lparr>pl_proxies := mdel k (pl_proxies p)\<rparr>))"
  have "registry_wf (p\<lparr>pl_proxies := mdel k (pl_proxies p)\<rparr>)"
    using wf set_mdel [of k "pl_proxies p"]
    by (intro registry_sub) (simp_all add: pool_wf_def registry_wf_def wf_intros)
  then have pre: "pre_wf ?p"
    using wf by (auto simp: pre_wf_def pool_wf_def clearSWRR_def ClearSticky_def registry_wf_def id_of_def
        intro: wf_intros)
  obtain q s r where q: "Rebuild ?p = Inr q" "pool_wf q" "q = ?p\<lparr>pl_snap := s, pl_seq := pl_seq ?p + 1, pl_rng := r\<rparr>"
    using Rebuild_wf [OF pre] by blast
  then have "Remove k p = Inr (True, notifyState a True q)" by (simp add: Remove_def get Let_def)
  then show ?thesis
    using q(2) by (auto simp: notifyState_def q(3) clearSWRR_def ClearSticky_def)
qed

text \<open>
  Removal is complete: after \<^verbatim>\<open>Remove\<close> the ID is not registered, no sticky session refers to it,
  it has no round-robin weight, the snapshot does not list the proxy, and every other ID is
  registered as before; removing an unknown ID changes nothing.
\<close>

theorem remove_complete:
  assumes "pool_wf p"
  shows "\<exists>b q. Remove k p = Inr (b, q) \<and> (b \<longleftrightarrow> Get k p \<noteq> None) \<and> Get k q = None \<and>
    (b \<longrightarrow> (\<forall>c e. mget (pl_sticky q) c = Some e \<longrightarrow> se_proxyID e \<noteq> k) \<and> mget (pl_swrr q) k = None) \<and>
    (\<forall>a. Get k p = Some a \<longrightarrow> a \<notin> set (sn_proxies (pl_snap q))) \<and>
    (\<forall>k'. k' \<noteq> k \<longrightarrow> Get k' q = Get k' p) \<and> (\<not> b \<longrightarrow> q = p)"
proof (cases "mget (pl_proxies p) k")
  case None
  then show ?thesis by (auto simp: Remove_def Get_def)
next
  case (Some a)
  obtain q where q: "Remove k p = Inr (True, q)" "pool_wf q" "pl_proxies q = mdel k (pl_proxies p)" "pl_heap q = pl_heap p"
    "pl_swrr q = mdel k (pl_swrr p)" "pl_sticky q = mfilter (\<lambda>c e. se_proxyID e \<noteq> k) (pl_sticky p)"
    using Remove_effect [OF assms Some] by blast
  have sticky: "mwf (pl_sticky p)" using assms by (simp add: pool_wf_def)
  have reg: "registry_wf q" using q(2) by (simp add: pool_wf_def)
  have "id_of q a = k" using pool_get(2) [OF assms Some] q(4) by (simp add: id_of_def)
  then have "a \<notin> set (registered q)" using registry_mget [OF reg, of k a] q(3) by auto
  then have "a \<notin> set (sn_proxies (pl_snap q))" using q(2) by (simp add: pool_wf_def live_def)
  then show ?thesis
    using q Some sticky by (auto simp: Get_def mget_mfilter split: option.splits if_splits)
qed

theorem remove_complete_witness:
  "\<exists>q. Remove ''a'' demo_pool = Inr (True, q) \<and> Get ''a'' q = None \<and> 0 \<notin> set (sn_proxies (pl_snap q)) \<and> Get ''b'' q = Some 1"
proof -
  have g: "Get ''a'' demo_pool = Some 0" "Get ''b'' demo_pool = Some 1" by (simp_all add: Get_def demo_pool_def)
  obtain b q where r: "Remove ''a'' demo_pool = Inr (b, q)" "b \<longleftrightarrow> Get ''a'' demo_pool \<noteq> None" "Get ''a'' q = None"
      "\<forall>a. Get ''a'' demo_pool = Some a \<longrightarrow> a \<notin> set (sn_proxies (pl_snap q))"
      "\<forall>k'. k' \<noteq> ''a'' \<longrightarrow> Get k' q = Get k' demo_pool"
    using remove_complete [OF demo_pool_wf, of "''a''"] by (elim exE conjE) (rule that)
  have "b = True" using r(2) g(1) by simp
  moreover have "0 \<notin> set (sn_proxies (pl_snap q))" using r(4) g(1) by blast
  moreover have "''b'' \<noteq> ''a''" by simp
  then have "Get ''b'' q = Some 1" using r(5) g(2) by presburger
  ultimately show ?thesis using r(1,3) by blast
qed

lemma Add_new_effect:
  assumes wf: "pool_wf p" and w: "px_Weight pr \<le> MaxInt32" and len: "length (pl_proxies p) < 4294967296"
    and new: "mget (pl_proxies p) (px_ID pr) = None"
  defines "pr' \<equiv> (if px_Weight pr \<le> 0 then pr\<lparr>px_Weight := 1\<rparr> else pr)"
  shows "\<exists>q. Add pr p = Inr q \<and> pool_wf q \<and> pl_proxies q = mput (px_ID pr) (pl_brk p) (pl_proxies p) \<and>
    pl_heap q = (pl_heap p)(pl_brk p := pr') \<and> pl_sticky q = pl_sticky p \<and> pl_swrr q = pl_swrr p"
proof -
  have w': "1 \<le> px_Weight pr'" "px_Weight pr' \<le> MaxInt32" and k: "px_ID pr' = px_ID pr"
    using w by (auto simp: pr'_def MaxInt32_def)
  let ?p = "p\<lparr>pl_heap := (pl_heap p)(pl_brk p := pr'), pl_brk := Suc (pl_brk p),
      pl_proxies := mput (px_ID pr') (pl_brk p) (pl_proxies p)\<rparr>"
  have "registry_wf ?p" using wf new by (intro registry_fresh w' len) (simp_all add: pool_wf_def k)
  then have pre: "pre_wf ?p" using wf by (simp add: pre_wf_def pool_wf_def)
  have eq: "Add pr p = bindE (Rebuild ?p) (\<lambda>q. Inr (notifyState (pl_brk p) False q))"
    using new k by (simp add: Add_def Let_def pr'_def [symmetric] heap_upd_def)
  obtain q where q: "Add pr p = Inr q" using Add_wf [OF wf w len] by blast
  have "bindE (Rebuild ?p) (\<lambda>q. Inr (notifyState (pl_brk p) False q)) = Inr q" using q eq by simp
  from rebuild_frame [OF pre this] show ?thesis
    by (intro exI [of _ q]) (simp add: q k)
qed

text \<open>
  Registration. Adding a proxy under a new ID makes it retrievable as it was given (a weight that
  is not positive becomes 1) and schedulable iff it is alive; adding under a known ID keeps the
  object, its alive flag, counters, country and expiry, and takes the connection and scheduling data
  of the argument. Every other registration stays.
\<close>

theorem add_registers:
  assumes "pool_wf p" "px_Weight pr \<le> MaxInt32" "length (pl_proxies p) < 4294967296"
  shows "\<exists>q a. Add pr p = Inr q \<and> Get (px_ID pr) q = Some a \<and>
    pl_heap q a = (case Get (px_ID pr) p of
        None \<Rightarrow> if px_Weight pr \<le> 0 then pr\<lparr>px_Weight := 1\<rparr> else pr
      | Some b \<Rightarrow> update_proxy (pl_heap p b) (if px_Weight pr \<le> 0 then pr\<lparr>px_Weight := 1\<rparr> else pr)) \<and>
    (\<forall>b. Get (px_ID pr) p = Some b \<longrightarrow> a = b) \<and>
    (a \<in> set (sn_proxies (pl_snap q)) \<longleftrightarrow> px_Alive (pl_heap q a)) \<and>
    (\<forall>k. k \<noteq> px_ID pr \<longrightarrow> Get k q = Get k p \<and> (\<forall>b. Get k p = Some b \<longrightarrow> pl_heap q b = pl_heap p b))"
proof (cases "mget (pl_proxies p) (px_ID pr)")
  case None
  obtain q where q: "Add pr p = Inr q" "pool_wf q" "pl_proxies q = mput (px_ID pr) (pl_brk p) (pl_proxies p)"
    "pl_heap q = (pl_heap p)(pl_brk p := (if px_Weight pr \<le> 0 then pr\<lparr>px_Weight := 1\<rparr> else pr))"
    using Add_new_effect [OF assms None] by blast
  have get: "mget (pl_proxies q) (px_ID pr) = Some (pl_brk p)" by (simp add: q(3))
  have "b \<noteq> pl_brk p" if "mget (pl_proxies p) k = Some b" for k b
    using pool_get(1) [OF assms(1) that] assms(1) registry_weight [of p b] by (auto simp: pool_wf_def)
  then show ?thesis
    using q get None snap_alive [OF q(2) get] by (auto simp: Get_def)
next
  case (Some b)
  let ?pr = "if px_Weight pr \<le> 0 then pr\<lparr>px_Weight := 1\<rparr> else pr"
  let ?q = "notifyState b False (heap_upd b (update_proxy (pl_heap p b) ?pr) p)"
  have q: "Add pr p = Inr ?q" using Some by (simp add: Add_def Let_def)
  have wf: "pool_wf ?q" using Add_wf [OF assms] q by auto
  have f: "pl_proxies ?q = pl_proxies p" "pl_heap ?q = (pl_heap p)(b := update_proxy (pl_heap p b) ?pr)"
    by (simp_all add: notifyState_def)
  have get: "mget (pl_proxies ?q) (px_ID pr) = Some b" using Some f(1) by simp
  have other: "c \<noteq> b" if "k \<noteq> px_ID pr" "mget (pl_proxies p) k = Some c" for k c
    using pool_get(2) [OF assms(1) Some] pool_get(2) [OF assms(1) that(2)] that(1) by auto
  show ?thesis
  proof (intro exI conjI)
    show "Add pr p = Inr ?q" by (rule q)
    show "Get (px_ID pr) ?q = Some b" using get by (simp add: Get_def)
    show "b \<in> set (sn_proxies (pl_snap ?q)) \<longleftrightarrow> px_Alive (pl_heap ?q b)" by (rule snap_alive [OF wf get])
  qed (use Some other f in \<open>auto simp: Get_def\<close>)
qed

theorem add_registers_witness:
  "\<exists>q a. Add (demo_proxy ''c'' 0) demo_pool = Inr q \<and> Get ''c'' q = Some a \<and> px_Weight (pl_heap q a) = 1 \<and>
     a \<in> set (sn_proxies (pl_snap q)) \<and> Get ''a'' q = Some 0"
proof -
  have g: "Get ''c'' demo_pool = None" "Get ''a'' demo_pool = Some 0" by (simp_all add: Get_def demo_pool_def)
  have d: "px_ID (demo_proxy ''c'' 0) = ''c''" "px_Weight (demo_proxy ''c'' 0) = 0" "px_Alive (demo_proxy ''c'' 0)"
    by (simp_all add: demo_proxy_def)
  have "px_Weight (demo_proxy ''c'' 0) \<le> MaxInt32" "length (pl_proxies demo_pool) < 4294967296"
    by (simp_all add: d MaxInt32_def demo_pool_def)
  from add_registers [OF demo_pool_wf this] show ?thesis by (auto simp: d g)
qed

subsection \<open>Bulk removal\<close>

lemma mget_fold_mdel: "mget (fold mdel ks m) k = (if k \<in> set ks then None else mget m k)"
  by (induction ks arbitrary: m) auto

lemma Rebuild_fields:
  assumes "Rebuild p = Inr t"
  shows "pl_heap t = pl_heap p" "pl_proxies t = pl_proxies p" "pl_swrr t = pl_swrr p" "pl_sticky t = pl_sticky p"
  using assms by (auto simp: Rebuild_def Let_def bindE_Inr_iff split: prod.splits if_splits)

lemma RemoveByProvider_fields:
  assumes r: "RemoveByProvider pn p = Inr (m, q)" and es: "range_order (pl_proxies p) (pl_rng p) = (es, r)"
    and ids: "ids = map fst (filter (\<lambda>(k, a). px_Provider (pl_heap p a) = pn) es)"
  shows "m = length ids \<and> pl_proxies q = fold mdel ids (pl_proxies p) \<and> pl_heap q = pl_heap p \<and>
    pl_swrr q = fold mdel ids (pl_swrr p) \<and> pl_sticky q = mfilter (\<lambda>c e. se_proxyID e \<notin> set ids) (pl_sticky p)"
proof (cases "ids = []")
  case True
  have "m = 0 \<and> q = p\<lparr>pl_rng := r\<rparr>"
    using r unfolding RemoveByProvider_def es Let_def prod.case ids [symmetric] True by simp
  moreover have "mfilter (\<lambda>c e. se_proxyID e \<notin> set []) (pl_sticky p) = pl_sticky p"
    by (simp add: mfilter_def)
  ultimately show ?thesis using True by simp
next
  case False
  let ?p = "fold ClearSticky ids (p\<lparr>pl_proxies := fold mdel ids (pl_proxies p), pl_rng := r,
      pl_swrr := fold mdel ids (pl_swrr p)\<rparr>)"
  have "bindE (Rebuild ?p) (\<lambda>t. Inr (length ids, t)) = Inr (m, q)"
    using False r unfolding RemoveByProvider_def es Let_def prod.case ids [symmetric] by simp
  then have "Rebuild ?p = Inr q" "m = length ids" unfolding bindE_Inr_iff by auto
  from Rebuild_fields [OF this(1)] this(2) show ?thesis by (simp add: fold_ClearSticky)
qed

text \<open>
  \<^verbatim>\<open>RemoveByProvider\<close> removes exactly the proxies of the provider: it returns their number, the
  other registrations stay, the snapshot lists none of the removed ones, and no session and no
  round-robin weight of a removed proxy is left.
\<close>

theorem remove_by_provider:
  assumes "pool_wf p"
  shows "\<exists>n q. RemoveByProvider pn p = Inr (n, q) \<and>
    n = length (filter (\<lambda>a. px_Provider (pl_heap p a) = pn) (registered p)) \<and>
    (\<forall>k a. Get k q = Some a \<longleftrightarrow> Get k p = Some a \<and> px_Provider (pl_heap p a) \<noteq> pn) \<and>
    (\<forall>a \<in> set (sn_proxies (pl_snap q)). px_Provider (pl_heap q a) \<noteq> pn) \<and>
    (\<forall>k a. Get k p = Some a \<and> px_Provider (pl_heap p a) = pn \<longrightarrow>
       mget (pl_swrr q) k = None \<and> (\<forall>c e. mget (pl_sticky q) c = Some e \<longrightarrow> se_proxyID e \<noteq> k))"
proof -
  obtain es r where es: "range_order (pl_proxies p) (pl_rng p) = (es, r)"
    by (cases "range_order (pl_proxies p) (pl_rng p)")
  have perm: "mset es = mset (pl_proxies p)" using range_order_perm [of "pl_proxies p" "pl_rng p"] es by simp
  then have set_es: "set es = set (pl_proxies p)" by (metis set_mset_mset)
  define ids where "ids = map fst (filter (\<lambda>(k, a). px_Provider (pl_heap p a) = pn) es)"
  have wf: "mwf (pl_proxies p)" "mwf (pl_sticky p)" using assms by (auto simp: pool_wf_def registry_wf_def)
  have ids_mem: "k \<in> set ids \<longleftrightarrow> (\<exists>a. mget (pl_proxies p) k = Some a \<and> px_Provider (pl_heap p a) = pn)" for k
    by (auto simp: ids_def set_es mwf_mget [OF wf(1)] image_iff)
  have n: "length ids = length (filter (\<lambda>a. px_Provider (pl_heap p a) = pn) (registered p))"
  proof -
    have "length ids = length (filter (\<lambda>(k, a). px_Provider (pl_heap p a) = pn) (pl_proxies p))"
      unfolding ids_def length_map by (rule perm_filter_length [OF perm])
    then show ?thesis by (simp add: registered_def filter_map o_def case_prod_unfold)
  qed
  obtain m q where mq: "RemoveByProvider pn p = Inr (m, q)" and wfq: "pool_wf q"
    using RemoveByProvider_wf [OF assms] by blast
  have q: "m = length ids" "pl_proxies q = fold mdel ids (pl_proxies p)" "pl_heap q = pl_heap p"
      "pl_swrr q = fold mdel ids (pl_swrr p)" "pl_sticky q = mfilter (\<lambda>c e. se_proxyID e \<notin> set ids) (pl_sticky p)"
    using RemoveByProvider_fields [OF mq es ids_def] by simp_all
  have get: "Get k q = Some a \<longleftrightarrow> Get k p = Some a \<and> px_Provider (pl_heap p a) \<noteq> pn" for k a
    using ids_mem [of k] by (auto simp: Get_def q(2) mget_fold_mdel)
  have snap: "px_Provider (pl_heap q a) \<noteq> pn" if "a \<in> set (sn_proxies (pl_snap q))" for a
  proof -
    have "a \<in> set (registered q)" "registry_wf q" using wfq that by (auto simp: pool_wf_def live_def)
    then have "Get (id_of q a) q = Some a" using registry_mget [of q "id_of q a" a] by (simp add: Get_def)
    then show ?thesis using get q(3) by simp
  qed
  have gone: "mget (pl_swrr q) k = None \<and> (\<forall>c e. mget (pl_sticky q) c = Some e \<longrightarrow> se_proxyID e \<noteq> k)"
    if "Get k p = Some a \<and> px_Provider (pl_heap p a) = pn" for k a
    using that ids_mem [of k] wf(2)
    by (auto simp: Get_def q(4,5) mget_fold_mdel mget_mfilter split: option.splits if_splits)
  show ?thesis using mq n q(1) get snap gone by blast
qed

theorem remove_by_provider_witness:
  "\<exists>q. RemoveByProvider ''p'' demo_pool = Inr (2, q) \<and> (\<forall>k a. Get k q \<noteq> Some a)"
proof -
  obtain n q where r: "RemoveByProvider ''p'' demo_pool = Inr (n, q)"
      "n = length (filter (\<lambda>a. px_Provider (pl_heap demo_pool a) = ''p'') (registered demo_pool))"
      "\<forall>k a. Get k q = Some a \<longleftrightarrow> Get k demo_pool = Some a \<and> px_Provider (pl_heap demo_pool a) \<noteq> ''p''"
    using remove_by_provider [OF demo_pool_wf, of "''p''"] by (elim exE conjE) (rule that)
  have "n = 2" using r(2) by (simp add: registered_def demo_pool_def demo_proxy_def)
  moreover have "Get k q \<noteq> Some a" for k a
    using r(3) by (auto simp: Get_def demo_pool_def demo_proxy_def split: if_splits)
  ultimately show ?thesis using r(1) by blast
qed

subsection \<open>Facts for the clients of the pool\<close>

lemma SetCountry_effect:
  assumes wf: "pool_wf p" and get: "Get k p = Some a"
  shows "\<exists>q. SetCountry k c p = Inr q \<and> pool_wf q \<and> pl_proxies q = pl_proxies p \<and>
    pl_heap q = (pl_heap p)(a := (pl_heap p a)\<lparr>px_Country := c\<rparr>)"
proof -
  have g: "mget (pl_proxies p) k = Some a" using get by (simp add: Get_def)
  obtain q where q: "SetCountry k c p = Inr q" "pool_wf q" using SetCountry_wf [OF wf] by blast
  show ?thesis
  proof (cases "px_Country (pl_heap p a) = c")
    case True
    then show ?thesis using q g wf by (auto simp: SetCountry_def)
  next
    case False
    have pre: "pre_wf (heap_upd a ((pl_heap p a)\<lparr>px_Country := c\<rparr>) p)"
      by (rule get_pre [OF wf g]) (simp add: legal_upd_def)
    have eq: "SetCountry k c p = bindE (Rebuild (heap_upd a ((pl_heap p a)\<lparr>px_Country := c\<rparr>) p)) (\<lambda>p1. Inr (notifyState a False p1))"
      using False g by (simp add: SetCountry_def)
    from rebuild_frame [OF pre] q eq show ?thesis by auto
  qed
qed

lemma Remove_gone:
  assumes wf: "pool_wf p" and get: "Get k p = Some a"
  shows "\<exists>q. bindE (Remove k p) (\<lambda>(_, q). Inr q) = Inr q \<and> pool_wf q \<and> pl_proxies q = mdel k (pl_proxies p) \<and>
    pl_heap q = pl_heap p \<and> a \<notin> set (sn_proxies (pl_snap q))"
proof -
  have g: "mget (pl_proxies p) k = Some a" using get by (simp add: Get_def)
  obtain q where q: "Remove k p = Inr (True, q)" "pool_wf q" "pl_proxies q = mdel k (pl_proxies p)" "pl_heap q = pl_heap p"
    using Remove_effect [OF wf g] by blast
  have "a \<notin> set (registered q)"
  proof
    assume "a \<in> set (registered q)"
    then obtain k' where "(k', a) \<in> set (mdel k (pl_proxies p))" using q(3) by (auto simp: registered_def)
    moreover have "mwf (mdel k (pl_proxies p))" using wf by (auto simp: pool_wf_def registry_wf_def intro: wf_intros)
    ultimately have "mget (mdel k (pl_proxies p)) k' = Some a"
      by (simp add: mwf_mget del: mget_mdel)
    then have "k' \<noteq> k" "mget (pl_proxies p) k' = Some a" by (auto split: if_splits)
    with pool_get(2) [OF wf this(2)] pool_get(2) [OF wf g] show False by simp
  qed
  then have "a \<notin> set (sn_proxies (pl_snap q))" using q(2) by (auto simp: pool_wf_def live_def)
  with q show ?thesis by auto
qed

text \<open>The addresses \<^verbatim>\<open>All\<close> returns are the registered ones, each once.\<close>

lemma All_addrs:
  assumes "pool_wf p" "All p = (as, q)"
  shows "set as = set (registered p)" "distinct (map (\<lambda>a. px_ID (pl_heap p a)) as)"
    "pl_heap q = pl_heap p" "pl_proxies q = pl_proxies p" "pool_wf q"
proof -
  have as: "as = map snd (fst (range_order (pl_proxies p) (pl_rng p)))" and q: "q = p\<lparr>pl_rng := snd (range_order (pl_proxies p) (pl_rng p))\<rparr>"
    using assms(2) by (simp_all add: All_def case_prod_unfold Let_def)
  have perm: "mset as = mset (registered p)"
    unfolding as registered_def using range_order_perm [of "pl_proxies p" "pl_rng p"] by (metis mset_map)
  then show "set as = set (registered p)" by (metis set_mset_mset)
  have "mset (map (\<lambda>a. px_ID (pl_heap p a)) as) = mset (map (\<lambda>a. px_ID (pl_heap p a)) (registered p))"
    using perm by simp
  moreover have "distinct (map (\<lambda>a. px_ID (pl_heap p a)) (registered p))"
    using assms(1) registry_distinct [of p] by (simp add: pool_wf_def id_of_def [abs_def])
  ultimately show "distinct (map (\<lambda>a. px_ID (pl_heap p a)) as)"
    by (metis mset_eq_imp_distinct_iff)
  show "pl_heap q = pl_heap p" "pl_proxies q = pl_proxies p" "pool_wf q" using assms(1) by (simp_all add: q)
qed

end
