(* ===== verification/Pool_Sessions.thy ===== *)
theory Pool_Sessions
  imports Pool_Demo
begin

section \<open>Sticky sessions, latency scaling and the edges of the scheduler\<close>

text \<open>
  Session affinity, the range and monotonicity of the latency-aware weights, the agreement of the
  status report with the scheduler's gate, and three behaviours at the edges: the bounded number of
  round-robin rounds with exclusions, the wrap-around of very long sticky windows, and the
  statistics of a rebuild that races with a change of priorities.
\<close>

lemma sticky_reuse:
  assumes "mget (pl_sticky q) ck = Some e" "now < se_expireAt e" "mget (pl_proxies q) (se_proxyID e) = Some a"
    "px_Alive (pl_heap q a)" "ck \<noteq> []" "0 < secs"
  shows "StickyNext now ck secs gname q = Inr (Some a, q)"
  using assms by (simp add: StickyNext_def sticky_lookup_def Get_def)

lemma sticky_record_get:
  assumes "mwf (pl_sticky p)" "now < i64 (now + w)"
  shows "mget (pl_sticky (sticky_record now w ck a p)) ck =
    Some \<lparr>se_proxyID = px_ID (pl_heap p a), se_expireAt = i64 (now + w)\<rparr>"
proof -
  let ?m = "mput ck \<lparr>se_proxyID = px_ID (pl_heap p a), se_expireAt = i64 (now + w)\<rparr> (pl_sticky p)"
  have "mwf ?m" using assms(1) by (rule mwf_mput)
  from mget_mfilter [OF this, of "\<lambda>k e. \<not> se_expireAt e \<le> now" ck] assms(2) show ?thesis
    by (simp add: sticky_record_def Let_def)
qed



text \<open>
  Latency-aware weights stay in bounds and are monotone: for a base weight between 1 and \<open>2 ^ 31 - 1\<close>
  the effective weight is at least 1 and half the base weight, at most twice it, equal to it when no
  latency is known, and never larger for a slower proxy.
\<close>

theorem latency_weight_bounds:
  assumes "1 \<le> base" "base \<le> MaxInt32"
  shows "1 \<le> latencyScaledWeight ref base lat \<and> base div 2 \<le> latencyScaledWeight ref base lat \<and>
    latencyScaledWeight ref base lat \<le> 2 * base \<and>
    (lat \<le> 0 \<or> ref \<le> 0 \<longrightarrow> latencyScaledWeight ref base lat = base) \<and>
    (\<forall>lat'. 0 < lat \<and> lat \<le> lat' \<longrightarrow> latencyScaledWeight ref base lat' \<le> latencyScaledWeight ref base lat)"
proof -
  have b: "base < 2 ^ 53" using assms(2) by (simp add: MaxInt32_def)
  have "latencyScaledWeight ref base lat = base" if "lat \<le> 0 \<or> ref \<le> 0"
    using that assms(1) by (auto simp: latencyScaledWeight_def)
  then show ?thesis
    using latencyScaledWeight_range [OF assms(1) b, of ref lat] latencyScaledWeight_anti [OF assms(1)] by blast
qed

theorem latency_weight_bounds_witness:
  "1 \<le> latencyScaledWeight 100 10 400 \<and> latencyScaledWeight 100 10 400 \<le> 20 \<and>
   latencyScaledWeight 100 10 800 \<le> latencyScaledWeight 100 10 400"
proof -
  have "(1 :: int) \<le> 10" "10 \<le> MaxInt32" by (simp_all add: MaxInt32_def)
  from latency_weight_bounds [OF this, of 100 400] show ?thesis by simp
qed

text \<open>
  The status report agrees with the scheduler: in a well-formed pool, a tier is reported usable by
  \<^verbatim>\<open>GroupStats\<close> iff the fallback loop does not skip it.
\<close>

theorem group_stats_gate:
  assumes "pool_wf p" "g \<in> set (sn_groups (pl_snap p))" "l \<in> set (gs_layers g)"
  shows "ts_Usable (tierStat l) \<longleftrightarrow>
    ly_aliveCount l \<noteq> 0 \<and> \<not> ratio_below (ly_aliveCount l) (ly_aliveTotal l) (ly_minRatio l)"
proof -
  have "layer_wf (id_of p) l"
    using snap_layers [of "id_of p" "pl_snap p" g] assms by (auto simp: pool_wf_def)
  then show ?thesis
    using tier_usable_gate [of l] layer_count by (simp add: tierStat_def)
qed

theorem group_stats_gate_witness: "ts_Usable (tierStat demo_layer)"
proof -
  have "\<lparr>gs_name = ''g'', gs_layers = [demo_layer]\<rparr> \<in> set (sn_groups (pl_snap demo_pool))"
    by (simp add: demo_pool_def)
  from group_stats_gate [OF demo_pool_wf this, of demo_layer] show ?thesis
    using demo_layer_usable tier_usable_gate [of demo_layer] layer_count [OF demo_layer_wf] by simp
qed

subsection \<open>Edges\<close>

text \<open>
  With exclusions, round-robin is tried as many times as the layer has proxies, and skewed weights can
  spend all the rounds on an excluded proxy: with weights 3 and 1 and the first one excluded, nothing is
  found, although the second proxy is in the layer, alive and not excluded.
\<close>

definition skew_layer :: layerSnap where
  "skew_layer = demo_layer\<lparr>ly_weight := [3, 1], ly_cumW := [3, 4], ly_totalW := 4\<rparr>"

lemma skew_layer_wf: "layer_wf (id_of demo_pool) skew_layer"
proof -
  have "cum_weights 0 [3, 1] = [3, 4]" "sum_weights [3, 1] = 4" "weights_ok [3, 1]"
    by (simp_all add: sum_weights_def i64_def weights_ok_def MaxInt32_def)
  then show ?thesis
    by (simp add: layer_wf_def skew_layer_def demo_layer_def id_of_def demo_pool_def demo_proxy_def
        del: cum_weights.simps)
qed

lemma skew_pick:
  assumes cs: "cur_weights (pl_heap demo_pool) m [0, 1] = cs" and "cs = [0, 0] \<or> cs = [-1, 1]"
  shows "\<exists>m'. pickSWRR skew_layer (demo_pool\<lparr>pl_swrr := m\<rparr>) = Inr (Some 0, demo_pool\<lparr>pl_swrr := m'\<rparr>) \<and>
    cur_weights (pl_heap demo_pool) m' [0, 1] = [hd cs - 1, cs ! 1 + 1]"
proof -
  let ?p = "demo_pool\<lparr>pl_swrr := m\<rparr>"
  have wf: "layer_wf (id_of ?p) skew_layer" using skew_layer_wf by (simp add: id_of_def [abs_def])
  have l: "ly_proxies skew_layer = [0, 1]" "ly_weight skew_layer = [3, 1]"
    by (simp_all add: skew_layer_def demo_layer_def)
  have es: "eff_weights (pl_heap demo_pool) skew_layer = [3, 1]"
    by (simp add: eff_weights_def l demo_pool_def demo_proxy_def zero_proxy_def eff_weight_def
        latencyScaledWeight_def layerRefLatency_def)
  have step: "first_max.step [3, 1] cs = (0, [hd cs - 1, cs ! 1 + 1])"
    using assms(2) by (auto simp: first_max.step_def add_weights_def argmax_first_def Let_def)
  have "\<forall>c \<in> set cs. - 1 \<le> c \<and> c \<le> 1" "swrr_room (pl_heap demo_pool) skew_layer 1"
    using assms(2) by (auto simp: swrr_room_def es MaxInt64_def)
  with pickSWRR_exact [OF wf, of 1 0 "[hd cs - 1, cs ! 1 + 1]"] show ?thesis
    using step by (auto simp: l es cs [unfolded One_nat_def])
qed

theorem excluding_misses_live_proxy:
  "\<exists>l q. layer_wf (id_of demo_pool) l \<and> ly_useSWRR l \<and> 1 \<in> set (ly_proxies l) \<and> px_Alive (pl_heap demo_pool 1) \<and>
     id_of demo_pool 1 \<notin> set [''a''] \<and> pickLayer l [''a''] demo_pool = Inr (None, q)"
proof -
  have p0: "demo_pool\<lparr>pl_swrr := []\<rparr> = demo_pool" by (simp add: demo_pool_def)
  have k: "px_ID (pl_heap demo_pool 0) = ''a''" by (simp add: demo_pool_def demo_proxy_def)
  have "cur_weights (pl_heap demo_pool) [] [0, 1] = [0, 0]" by (simp add: cur_weights_def)
  from skew_pick [OF this] obtain m1 where r1: "pickSWRR skew_layer demo_pool = Inr (Some 0, demo_pool\<lparr>pl_swrr := m1\<rparr>)"
    and c1: "cur_weights (pl_heap demo_pool) m1 [0, 1] = [-1, 1]" by (auto simp: p0)
  from skew_pick [OF c1] obtain m2 where
    r2: "pickSWRR skew_layer (demo_pool\<lparr>pl_swrr := m1\<rparr>) = Inr (Some 0, demo_pool\<lparr>pl_swrr := m2\<rparr>)" by auto
  have "swrr_rounds 2 skew_layer [''a''] demo_pool = Inr (None, demo_pool\<lparr>pl_swrr := m2\<rparr>)"
    by (simp add: numeral_2_eq_2 r1 r2 k)
  moreover have l: "ly_totalW skew_layer = 4" "length (ly_proxies skew_layer) = 2" "ly_useSWRR skew_layer"
      "1 \<in> set (ly_proxies skew_layer)"
    by (simp_all add: skew_layer_def demo_layer_def)
  ultimately have "pickLayer skew_layer [''a''] demo_pool = Inr (None, demo_pool\<lparr>pl_swrr := m2\<rparr>)"
    by (simp add: pickLayer_def)
  moreover have "px_Alive (pl_heap demo_pool 1)" "id_of demo_pool 1 \<notin> set [''a'']"
    by (simp_all add: demo_pool_def demo_proxy_def id_of_def)
  ultimately show ?thesis using skew_layer_wf l(3,4) by blast
qed

text \<open>
  The window of a sticky session is computed in \<^verbatim>\<open>int64\<close> nanoseconds and wraps: a window of ten billion
  seconds makes a session that has expired before it starts, at any time.
\<close>

theorem sticky_window_wraps:
  assumes "0 \<le> now" "now \<le> MaxInt64" "mwf (pl_sticky p)" "length (pl_sticky p) < 4096"
  shows "\<exists>e. mget (pl_sticky (sticky_record now (i64 (10000000000 * 1000000000)) ck a p)) ck = Some e \<and> se_expireAt e < now"
proof -
  have w: "i64 (10000000000 * 1000000000) = - 8446744073709551616" by (simp add: i64_def)
  have "i64 (now + - 8446744073709551616) = now + - 8446744073709551616"
    using assms(1,2) by (intro i64_id) (auto simp: MinInt64_def)
  moreover have "\<not> 4096 < length (mput ck e (pl_sticky p))" for e
    using assms(4) by (simp add: length_mput)
  ultimately show ?thesis
    unfolding w by (simp add: sticky_record_def Let_def)
qed

text \<open>
  A rebuild scans the proxies under the read lock and groups them after it has released it, while
  \<^verbatim>\<open>SetProviderPriority\<close> writes priorities without the lock. If the priority of a live proxy changes in
  between to one that the scan has not seen, the rebuild dereferences a nil statistics entry.
\<close>

theorem rebuild_race_panics:
  "\<exists>h h' as. (\<forall>a. h' a = (h a)\<lparr>px_Priority := px_Priority (h' a)\<rparr>) \<and>
     (case fold (scan_proxy h) as ([], []) of (stats, alive) \<Rightarrow> buildPrioGroups h' alive stats) = Inl PanicNilDereference"
proof -
  let ?h = "\<lambda>_ :: addr. demo_proxy ''a'' 1" and ?h' = "\<lambda>_ :: addr. (demo_proxy ''a'' 1)\<lparr>px_Priority := 5\<rparr>"
  have "fold (scan_proxy ?h) [0] ([], []) = ([(0, \<lparr>gst_total = 1, gst_alive = 1, gst_minRatio = 0\<rparr>)], [0])"
    by (simp add: scan_proxy_def demo_proxy_def zero_proxy_def mput_def Let_def)
  then have "(case fold (scan_proxy ?h) [0] ([], []) of (stats, alive) \<Rightarrow> buildPrioGroups ?h' alive stats) = Inl PanicNilDereference"
    by (simp add: buildPrioGroups_def Let_def)
  moreover have "\<forall>a. ?h' a = (?h a)\<lparr>px_Priority := px_Priority (?h' a)\<rparr>" by simp
  ultimately show ?thesis by (intro exI conjI)
qed

end
