(* ===== verification/Health_Checker.thy ===== *)
theory Health_Checker
  imports Pool_Machine
begin

section \<open>The health checker (internal/health)\<close>

text \<open>
  The checker of \<^verbatim>\<open>internal/health/checker.go\<close>: which proxies are due, which URLs are asked, what an
  answer says, and what a verdict does to the pool. The answers of the probed endpoints, in the order
  in which they arrive, the measured latency, the clock and the JSON decoder are arguments. The
  goroutines of a round each perform a sequence of calls to the pool, and every call is one step
  under the pool's lock: \<open>checkOne_ops\<close> is that sequence, \<open>interleaving\<close> any order in which the
  scheduler may merge the sequences of a round.
\<close>

record Checker =
  ck_cfg :: HealthConfig
  ck_timeout :: int
  ck_lastCheck :: "(string, int) gomap"

definition NewChecker :: "HealthConfig \<Rightarrow> Checker" where
  "NewChecker cfg = \<lparr>ck_cfg = cfg, ck_timeout = i64 (hc_TimeoutMs cfg * 1000000), ck_lastCheck = []\<rparr>"

definition SetConfig :: "HealthConfig \<Rightarrow> Checker \<Rightarrow> Checker" where
  "SetConfig cfg c =
     (let c = c\<lparr>ck_cfg := cfg\<rparr>
      in if hc_TimeoutMs cfg > 0 then c\<lparr>ck_timeout := i64 (hc_TimeoutMs cfg * 1000000)\<rparr> else c)"

subsection \<open>Scheduling\<close>

fun min_interval_loop :: "heap \<Rightarrow> int \<Rightarrow> addr list \<Rightarrow> int" where
  "min_interval_loop h m [] = m"
| "min_interval_loop h m (a # as) =
     min_interval_loop h
       (if px_CheckIntervalMS (h a) > 0 \<and> px_CheckIntervalMS (h a) < m then px_CheckIntervalMS (h a) else m) as"

definition minInterval :: "Checker \<Rightarrow> Pool \<Rightarrow> int \<times> Pool" where
  "minInterval c p =
     (let m = i64 (hc_IntervalSeconds (ck_cfg c) * 1000);
          m = (if m \<le> 0 then 60000 else m);
          (proxies, p) = All p;
          m = min_interval_loop (pl_heap p) m proxies;
          m = (if m < 1000 then 1000 else m)
      in (i64 (m * 1000000), p))"

definition check_interval :: "HealthConfig \<Rightarrow> Proxy \<Rightarrow> int" where
  "check_interval cfg pr =
     (let i = px_CheckIntervalMS pr;
          i = (if i \<le> 0 then i64 (hc_IntervalSeconds cfg * 1000) else i)
      in if i \<le> 0 then 60000 else i)"

definition is_due :: "int \<Rightarrow> HealthConfig \<Rightarrow> (string, int) gomap \<Rightarrow> Proxy \<Rightarrow> bool" where
  "is_due now cfg lst pr \<longleftrightarrow>
     (case mget lst (px_ID pr) of
        None \<Rightarrow> True
      | Some t \<Rightarrow> time_sub now t \<ge> i64 (check_interval cfg pr * 1000000))"

fun due_loop :: "int \<Rightarrow> HealthConfig \<Rightarrow> heap \<Rightarrow> (string, int) gomap \<Rightarrow> addr list \<Rightarrow> addr list \<times> (string, int) gomap" where
  "due_loop now cfg h lst [] = ([], lst)"
| "due_loop now cfg h lst (a # as) =
     (if is_due now cfg lst (h a)
      then let (due, lst') = due_loop now cfg h (mput (px_ID (h a)) now lst) as in (a # due, lst')
      else due_loop now cfg h lst as)"

subsection \<open>What an answer says\<close>

definition isAlpha2 :: "string \<Rightarrow> bool" where
  "isAlpha2 s = (if length s \<noteq> 2 then False else is_letter (s ! 0) \<and> is_letter (s ! 1))"

definition parseCountry :: "(string \<Rightarrow> string option) \<Rightarrow> string \<Rightarrow> string" where
  "parseCountry json body =
     (let trimmed = trim_space body
      in if length trimmed = 0 then []
         else if length trimmed > 2 \<and> trimmed ! 0 = CHR 0x7B then
           (case json trimmed of
              None \<Rightarrow> []
            | Some cc \<Rightarrow> if cc \<noteq> [] \<and> isAlpha2 cc then to_upper cc else [])
         else if isAlpha2 trimmed then to_upper trimmed
         else [])"

datatype reply = NoReply | Reply int string

definition probeOne :: "(string \<Rightarrow> string option) \<Rightarrow> reply \<Rightarrow> bool \<times> string" where
  "probeOne json r =
     (case r of
        NoReply \<Rightarrow> (False, [])
      | Reply status body \<Rightarrow>
         if status < 200 \<or> status \<ge> 400 then (False, []) else (True, parseCountry json (take 1024 body)))"

fun collect :: "bool \<times> string \<Rightarrow> (bool \<times> string) list \<Rightarrow> bool \<times> string" where
  "collect acc [] = acc"
| "collect (anyOK, country) ((ok, c) # rs) =
     (if \<not> ok then collect (anyOK, country) rs
      else collect (True, if country = [] \<and> c \<noteq> [] then c else country) rs)"

definition probe :: "(string \<Rightarrow> string option) \<Rightarrow> reply list \<Rightarrow> bool \<times> string" where
  "probe json replies = collect (False, []) (filter fst (map (probeOne json) replies))"

definition resolveCheckURLs :: "HealthConfig \<Rightarrow> Proxy \<Rightarrow> string list" where
  "resolveCheckURLs cfg pr =
     (if length (px_CheckURLs pr) > 0 then px_CheckURLs pr
      else if px_CheckURL pr \<noteq> [] then [px_CheckURL pr]
      else let urls = HealthConfig_EnabledCheckURLs cfg
           in if length urls > 0 then urls
              else if hc_CheckURL cfg \<noteq> [] then [hc_CheckURL cfg]
              else [])"

definition deleteThreshold :: "Proxy \<Rightarrow> int" where
  "deleteThreshold pr = (if px_DeleteLatencyMS pr > 0 then px_DeleteLatencyMS pr else 3000)"

subsection \<open>One check\<close>

text \<open>The probe of one proxy as the outside world determines it: the answers in order of arrival, the
  latency in milliseconds and the time at which a success is recorded.\<close>

record trial =
  tr_replies :: "reply list"
  tr_latency :: int
  tr_now :: int

definition checkOne :: "(string \<Rightarrow> string option) \<Rightarrow> HealthConfig \<Rightarrow> trial \<Rightarrow> addr \<Rightarrow> Pool \<Rightarrow> Pool go" where
  "checkOne json cfg t a p =
     (let pr = pl_heap p a
      in if length (resolveCheckURLs cfg pr) = 0 then Inr p
         else
           let (ok, country) = probe json (tr_replies t); lat = tr_latency t
           in if ok then
                bindE (if country \<noteq> [] \<and> \<not> isAlpha2 (px_Country pr) then SetCountry (px_ID pr) country p else Inr p) (\<lambda>p1.
                bindE (MarkSuccess (tr_now t) (px_ID pr) lat p1) (\<lambda>p2.
                  if px_Free pr \<and> lat > deleteThreshold pr then bindE (Remove (px_ID pr) p2) (\<lambda>(_, p3). Inr p3)
                  else Inr p2))
              else if px_Free pr then bindE (Remove (px_ID pr) p) (\<lambda>(_, p1). Inr p1)
              else MarkFailed (px_ID pr) lat p)"

text \<open>The same as the sequence of calls the goroutine makes.\<close>

definition checkOne_ops :: "(string \<Rightarrow> string option) \<Rightarrow> HealthConfig \<Rightarrow> trial \<Rightarrow> Proxy \<Rightarrow> pool_op list" where
  "checkOne_ops json cfg t pr =
     (if length (resolveCheckURLs cfg pr) = 0 then []
      else
        let (ok, country) = probe json (tr_replies t); lat = tr_latency t
        in if ok then
             (if country \<noteq> [] \<and> \<not> isAlpha2 (px_Country pr) then [OpSetCountry (px_ID pr) country] else []) @
             [OpMarkSuccess (tr_now t) (px_ID pr) lat] @
             (if px_Free pr \<and> lat > deleteThreshold pr then [OpRemove (px_ID pr)] else [])
           else if px_Free pr then [OpRemove (px_ID pr)]
           else [OpMarkFailed (px_ID pr) lat])"

subsection \<open>Rounds\<close>

text \<open>\<open>None\<close> is a round that blocks for ever: a semaphore without capacity lets no goroutine start. A
  negative capacity is a panic. The proxies are checked one after the other here; \<open>interleaving\<close>
  below covers every other schedule.\<close>

fun check_list :: "(string \<Rightarrow> string option) \<Rightarrow> HealthConfig \<Rightarrow> (addr \<Rightarrow> trial) \<Rightarrow> addr list \<Rightarrow> Pool \<Rightarrow> Pool go" where
  "check_list json cfg tr [] p = Inr p"
| "check_list json cfg tr (a # as) p = bindE (checkOne json cfg (tr a) a p) (check_list json cfg tr as)"

definition run_checks :: "(string \<Rightarrow> string option) \<Rightarrow> HealthConfig \<Rightarrow> (addr \<Rightarrow> trial) \<Rightarrow> addr list \<Rightarrow> Pool \<Rightarrow> Pool go option" where
  "run_checks json cfg tr as p =
     (if hc_Concurrency cfg < 0 then Some (Inl PanicInvalidArgument)
      else if hc_Concurrency cfg = 0 \<and> as \<noteq> [] then None
      else Some (check_list json cfg tr as p))"

definition checkDue ::
  "(string \<Rightarrow> string option) \<Rightarrow> int \<Rightarrow> (addr \<Rightarrow> trial) \<Rightarrow> Checker \<Rightarrow> Pool \<Rightarrow> (Checker \<times> Pool) go option" where
  "checkDue json now tr c p =
     (let (proxies, p) = All p
      in if length proxies = 0 then Some (Inr (c, p))
         else
           let cfg = ck_cfg c;
               (due, lst) = due_loop now cfg (pl_heap p) (ck_lastCheck c) proxies
           in map_option (\<lambda>r. bindE r (\<lambda>p. Inr (c\<lparr>ck_lastCheck := lst\<rparr>, p))) (run_checks json cfg tr due p))"

definition checkAll ::
  "(string \<Rightarrow> string option) \<Rightarrow> (addr \<Rightarrow> int) \<Rightarrow> (addr \<Rightarrow> trial) \<Rightarrow> Checker \<Rightarrow> Pool \<Rightarrow> (Checker \<times> Pool) go option" where
  "checkAll json now tr c p =
     (let (proxies, p) = All p
      in if length proxies = 0 then Some (Inr (c, p))
         else
           let lst = fold (\<lambda>a lst. mput (px_ID (pl_heap p a)) (now a) lst) proxies (ck_lastCheck c)
           in map_option (\<lambda>r. bindE r (\<lambda>p. Inr (c\<lparr>ck_lastCheck := lst\<rparr>, p))) (run_checks json (ck_cfg c) tr proxies p))"

text \<open>Any merge of the goroutines' sequences that keeps the order within each.\<close>

inductive interleaving :: "'a list list \<Rightarrow> 'a list \<Rightarrow> bool" where
  finished: "list_all (\<lambda>xs. xs = []) xss \<Longrightarrow> interleaving xss []"
| pick: "i < length xss \<Longrightarrow> xss ! i = x # xs \<Longrightarrow> interleaving (xss[i := xs]) zs \<Longrightarrow> interleaving xss (x # zs)"

fun run_ops :: "pool_op list \<Rightarrow> Pool \<Rightarrow> Pool go" where
  "run_ops [] p = Inr p"
| "run_ops (op # ops) p = bindE (run_op op p) (run_ops ops)"

end
