(* ===== verification/Health_Props.thy ===== *)
theory Health_Props
  imports Health_Checker Pool_Effects
begin

section \<open>Properties of the health checker\<close>

text \<open>
  The verdict of a check and what it does to the pool, the spacing of checks, and the safety of a
  round under every schedule of its goroutines.
\<close>

subsection \<open>The verdict\<close>

text \<open>Some endpoint answered through the proxy with a status of 2xx or 3xx.\<close>

definition answered :: "trial \<Rightarrow> bool" where
  "answered t \<longleftrightarrow> (\<exists>st body. Reply st body \<in> set (tr_replies t) \<and> 200 \<le> st \<and> st < 400)"

lemma collect_ok: "list_all fst rs \<Longrightarrow> fst (collect (b, c) rs) \<longleftrightarrow> b \<or> rs \<noteq> []"
  by (induction rs arbitrary: b c) auto

lemma collect_country:
  "snd (collect (b, c) rs) = c \<or> (\<exists>r \<in> set rs. snd (collect (b, c) rs) = snd r)"
  by (induction rs arbitrary: b c) (auto, (metis snd_conv)+)

lemma probeOne_ok: "fst (probeOne json r) \<longleftrightarrow> (\<exists>st body. r = Reply st body \<and> 200 \<le> st \<and> st < 400)"
  by (cases r) (auto simp: probeOne_def)

lemma probe_ok: "fst (probe json (tr_replies t)) \<longleftrightarrow> answered t"
proof -
  have "fst (probe json (tr_replies t)) \<longleftrightarrow> filter fst (map (probeOne json) (tr_replies t)) \<noteq> []"
    unfolding probe_def by (subst collect_ok) (simp_all add: list_all_iff)
  also have "\<dots> \<longleftrightarrow> (\<exists>r \<in> set (tr_replies t). fst (probeOne json r))"
    by (auto simp: filter_empty_conv)
  finally show ?thesis by (auto simp: probeOne_ok answered_def)
qed

lemma is_letter_upper: "is_letter c \<Longrightarrow> is_letter (ascii_upper c)"
  by (auto simp: ascii_upper_def is_letter_def Let_def)

lemma isAlpha2_upper: "isAlpha2 s \<Longrightarrow> isAlpha2 (to_upper s)"
  by (auto simp: isAlpha2_def to_upper_def is_letter_upper split: if_splits)

lemma probe_country: "snd (probe json rs) = [] \<or> isAlpha2 (snd (probe json rs))"
proof -
  have *: "snd (probeOne json r) = [] \<or> isAlpha2 (snd (probeOne json r))" for r
    by (auto simp: probeOne_def parseCountry_def Let_def isAlpha2_upper split: reply.split option.split)
  from collect_country [of False "[]" "filter fst (map (probeOne json) rs)"]
  show ?thesis
  proof
    assume "\<exists>r \<in> set (filter fst (map (probeOne json) rs)).
        snd (collect (False, []) (filter fst (map (probeOne json) rs))) = snd r"
    then obtain r where "snd (probe json rs) = snd (probeOne json r)" by (auto simp: probe_def)
    with * [of r] show ?thesis by simp
  qed (simp add: probe_def)
qed

lemma mark_success_country:
  assumes wf: "pool_wf p" and get: "Get k p = Some a"
  shows "\<exists>q. bindE (if b then SetCountry k c p else Inr p) (\<lambda>p1. MarkSuccess now k lat p1) = Inr q \<and> pool_wf q \<and>
    pl_proxies q = pl_proxies p \<and> px_Alive (pl_heap q a) \<and> px_Fails (pl_heap q a) = 0 \<and>
    px_Country (pl_heap q a) = (if b then c else px_Country (pl_heap p a)) \<and> (\<forall>x. x \<noteq> a \<longrightarrow> pl_heap q x = pl_heap p x)"
proof (cases b)
  case True
  obtain p1 where p1: "SetCountry k c p = Inr p1" "pool_wf p1" "pl_proxies p1 = pl_proxies p"
    "pl_heap p1 = (pl_heap p)(a := (pl_heap p a)\<lparr>px_Country := c\<rparr>)" using SetCountry_effect [OF wf get] by blast
  have "Get k p1 = Some a" using get p1(3) by (simp add: Get_def)
  from MarkSuccess_effect [OF p1(2) this, of now lat] True p1 show ?thesis by auto
next
  case False
  from MarkSuccess_effect [OF wf get, of now lat] False show ?thesis by auto
qed

text \<open>The two branches of a check, with the test for a URL and the probe resolved.\<close>

lemma checkOne_pass:
  assumes "resolveCheckURLs cfg (pl_heap p a) \<noteq> []" "probe json (tr_replies t) = (True, country)" "px_ID (pl_heap p a) = k"
    and "bindE (if country \<noteq> [] \<and> \<not> isAlpha2 (px_Country (pl_heap p a)) then SetCountry k country p else Inr p)
      (\<lambda>p1. MarkSuccess (tr_now t) k (tr_latency t) p1) = Inr p2"
  shows "checkOne json cfg t a p =
    (if px_Free (pl_heap p a) \<and> tr_latency t > deleteThreshold (pl_heap p a) then bindE (Remove k p2) (\<lambda>(_, p3). Inr p3) else Inr p2)"
proof -
  obtain p1 where p1: "(if country \<noteq> [] \<and> \<not> isAlpha2 (px_Country (pl_heap p a)) then SetCountry k country p else Inr p) = Inr p1"
      "MarkSuccess (tr_now t) k (tr_latency t) p1 = Inr p2"
    using assms(4) unfolding bindE_Inr_iff by blast
  show ?thesis
    unfolding checkOne_def Let_def assms(2,3) prod.case p1 bindE.simps using assms(1) by simp
qed

lemma checkOne_fail:
  assumes "resolveCheckURLs cfg (pl_heap p a) \<noteq> []" "probe json (tr_replies t) = (False, country)" "px_ID (pl_heap p a) = k"
  shows "checkOne json cfg t a p =
    (if px_Free (pl_heap p a) then bindE (Remove k p) (\<lambda>(_, p1). Inr p1) else MarkFailed k (tr_latency t) p)"
  unfolding checkOne_def Let_def assms(2,3) prod.case using assms(1) by simp


definition free_pool :: Pool where
  "free_pool = heap_upd 0 ((demo_proxy ''a'' 2)\<lparr>px_Free := True, px_CheckURL := ''http://c''\<rparr>) demo_pool"

definition demo_hc :: HealthConfig where
  "demo_hc = \<lparr>hc_IntervalSeconds = 30, hc_TimeoutMs = 5000, hc_Concurrency = 4, hc_CheckURL = ''http://c'', hc_CheckURLs = [],
     hc_MaxFails = 3, hc_RebuildIntervalMs = 200\<rparr>"


subsection \<open>The spacing of checks\<close>

lemma due_loop_spec:
  assumes "distinct (map (\<lambda>a. px_ID (h a)) as)"
  shows "set (fst (due_loop now cfg h lst as)) = {a \<in> set as. is_due now cfg lst (h a)} \<and>
    (\<forall>k. mget (snd (due_loop now cfg h lst as)) k =
       (if \<exists>a \<in> set as. px_ID (h a) = k \<and> is_due now cfg lst (h a) then Some now else mget lst k))"
  using assms
proof (induction as arbitrary: lst)
  case (Cons a as)
  let ?l = "mput (px_ID (h a)) now lst"
  have same: "is_due now cfg ?l (h b) = is_due now cfg lst (h b)" if "b \<in> set as" for b
  proof -
    have "px_ID (h b) \<in> set (map (\<lambda>a. px_ID (h a)) as)" using that by simp
    then have "px_ID (h b) \<noteq> px_ID (h a)" using Cons.prems by auto
    then show ?thesis by (simp add: is_due_def)
  qed
  have IH: "set (fst (due_loop now cfg h l as)) = {b \<in> set as. is_due now cfg l (h b)}"
    "mget (snd (due_loop now cfg h l as)) k =
       (if \<exists>b \<in> set as. px_ID (h b) = k \<and> is_due now cfg l (h b) then Some now else mget l k)" for l k
    using Cons by auto
  show ?case
  proof (cases "is_due now cfg lst (h a)")
    case True
    then show ?thesis using IH [of ?l] same by (auto simp: case_prod_unfold Let_def)
  next
    case False
    then show ?thesis using IH [of lst] by auto
  qed
qed simp

text \<open>
  The spacing of checks. A tick probes exactly the registered proxies that are due and notes the
  time for them and for no other; a proxy that was probed is due again exactly when its interval has
  passed since, for intervals up to the range of a duration.
\<close>

theorem check_spacing:
  assumes wf: "pool_wf p" and all: "All p = (as, q)" and due: "due_loop now cfg (pl_heap p) lst as = (due, lst')"
    and get: "Get k p = Some a" and pr: "pr = pl_heap p a" and bound: "check_interval cfg pr * 1000000 \<le> MaxInt64"
  shows "(a \<in> set due \<longleftrightarrow> is_due now cfg lst pr) \<and> set due \<subseteq> set (registered p) \<and>
    (a \<notin> set due \<longrightarrow> mget lst' k = mget lst k) \<and>
    (a \<in> set due \<longrightarrow> (\<forall>later. now \<le> later \<and> later - now \<le> MaxInt64 \<longrightarrow>
       (is_due later cfg lst' pr \<longleftrightarrow> check_interval cfg pr * 1000000 \<le> later - now)))"
proof -
  note A = All_addrs [OF wf all]
  have g: "mget (pl_proxies p) k = Some a" using get by (simp add: Get_def)
  have a: "a \<in> set as" "px_ID pr = k" using A(1) pool_get(1,2) [OF wf g] pr by simp_all
  have inj: "inj_on (\<lambda>a. px_ID (pl_heap p a)) (set as)" using A(2) by (simp add: distinct_map)
  have uniq: "b = a" if "b \<in> set as" "px_ID (pl_heap p b) = k" for b
    using inj_onD [OF inj _ that(1) a(1)] that(2) a(2) pr by simp
  have spec: "set due = {b \<in> set as. is_due now cfg lst (pl_heap p b)}"
    "mget lst' k = (if \<exists>b \<in> set as. px_ID (pl_heap p b) = k \<and> is_due now cfg lst (pl_heap p b) then Some now else mget lst k)"
    using due_loop_spec [OF A(2), of now cfg lst] due by auto
  have l: "mget lst' k = (if a \<in> set due then Some now else mget lst k)"
  proof -
    have "(\<exists>b \<in> set as. px_ID (pl_heap p b) = k \<and> is_due now cfg lst (pl_heap p b)) \<longleftrightarrow> a \<in> set due"
      unfolding spec(1) using uniq a pr by blast
    then show ?thesis by (simp only: spec(2))
  qed
  have pos: "0 < check_interval cfg pr" by (simp add: check_interval_def Let_def)
  then have i: "i64 (check_interval cfg pr * 1000000) = check_interval cfg pr * 1000000"
    using bound by (intro i64_id) (simp_all add: MinInt64_def)
  have "time_sub later now = later - now" if "now \<le> later" "later - now \<le> MaxInt64" for later
    using that by (simp add: time_sub_def MinInt64_def)
  then show ?thesis
    using spec(1) l a A(1) i pr by (auto simp: is_due_def)
qed

theorem check_spacing_witness:
  "\<exists>as q due lst'. All demo_pool = (as, q) \<and> due_loop 0 demo_hc (pl_heap demo_pool) [] as = (due, lst') \<and> 0 \<in> set due \<and>
     \<not> is_due 1000000000 demo_hc lst' (pl_heap demo_pool 0) \<and> is_due 30000000000 demo_hc lst' (pl_heap demo_pool 0)"
proof -
  obtain as q where as: "All demo_pool = (as, q)" by (cases "All demo_pool")
  obtain due lst' where d: "due_loop 0 demo_hc (pl_heap demo_pool) [] as = (due, lst')"
    by (cases "due_loop 0 demo_hc (pl_heap demo_pool) [] as")
  have g: "Get ''a'' demo_pool = Some 0" by (simp add: Get_def demo_pool_def)
  have c: "check_interval demo_hc (pl_heap demo_pool 0) = 30000"
    by (simp add: check_interval_def demo_hc_def demo_pool_def demo_proxy_def zero_proxy_def i64_def)
  then have b: "check_interval demo_hc (pl_heap demo_pool 0) * 1000000 \<le> MaxInt64" by (simp add: MaxInt64_def)
  note s = check_spacing [OF demo_pool_wf as d g refl b, unfolded c]
  have "is_due 0 demo_hc [] (pl_heap demo_pool 0)" by (simp add: is_due_def)
  with s have "0 \<in> set due" by blast
  with s have "\<forall>later. 0 \<le> later \<and> later - 0 \<le> MaxInt64 \<longrightarrow>
      (is_due later demo_hc lst' (pl_heap demo_pool 0) \<longleftrightarrow> 30000 * 1000000 \<le> later - (0 :: int))" by blast
  from this [rule_format, of 1000000000] this [rule_format, of 30000000000] \<open>0 \<in> set due\<close> as d show ?thesis
    by (auto simp: MaxInt64_def)
qed

subsection \<open>Rounds under every schedule\<close>

text \<open>The calls of a check need nothing from the pool but its invariant.\<close>

definition calm :: "pool_op \<Rightarrow> bool" where
  "calm op \<longleftrightarrow> (\<forall>p. op_ok op p)"

lemma checkOne_ops_calm: "list_all calm (checkOne_ops json cfg t pr)"
  by (auto simp: checkOne_ops_def calm_def Let_def case_prod_unfold)

lemma run_ops_calm:
  assumes "list_all calm ops" "pool_wf p"
  shows "\<exists>q. run_ops ops p = Inr q \<and> pool_wf q"
  using assms
proof (induction ops arbitrary: p)
  case (Cons op ops)
  then obtain q where "run_op op p = Inr q" "pool_wf q" using run_op_wf [of p op] by (auto simp: calm_def)
  with Cons show ?case by simp
qed simp

lemma interleaving_set: "interleaving xss zs \<Longrightarrow> set zs \<subseteq> (\<Union>xs \<in> set xss. set xs)"
proof (induction rule: interleaving.induct)
  case (pick i xss x xs zs)
  have "set (xss[i := xs]) \<subseteq> insert xs (set xss)" by (rule set_update_subset_insert)
  moreover have "xss ! i \<in> set xss" using pick(1) by simp
  moreover have "set xs \<subseteq> set (xss ! i)" "x \<in> set (xss ! i)" using pick(2) by auto
  ultimately show ?case using pick(4) by fastforce
qed simp

text \<open>A check is its sequence of calls.\<close>

lemma checkOne_run: "checkOne json cfg t a p = run_ops (checkOne_ops json cfg t (pl_heap p a)) p"
proof -
  have inr: "bindE r Inr = r" for r :: "Pool go" by (cases r) auto
  have assoc: "bindE (bindE r f) g = bindE r (\<lambda>x. bindE (f x) g)" for r :: "'e + 'x" and f :: "'x \<Rightarrow> 'e + 'y" and g :: "'y \<Rightarrow> 'e + 'z"
    by (cases r) auto
  have r: "run_ops [] = Inr" "run_ops (op # ops) = (\<lambda>p. bindE (run_op op p) (run_ops ops))" for op ops
    by (simp_all add: fun_eq_iff)
  show ?thesis
    by (simp add: checkOne_def checkOne_ops_def Let_def case_prod_unfold inr assoc r)
qed

text \<open>
  A round of checks is safe under every schedule: however the calls of its goroutines interleave,
  none panics and the pool's invariant holds at the end; each goroutine's calls are those of
  \<^verbatim>\<open>checkOne\<close>.
\<close>

theorem check_round_any_schedule:
  assumes wf: "pool_wf p"
    and sched: "interleaving (map (\<lambda>a. checkOne_ops json cfg (tr a) (pl_heap p a)) as) ops"
  shows "\<exists>q. run_ops ops p = Inr q \<and> pool_wf q \<and>
    (\<forall>a. as = [a] \<longrightarrow> checkOne json cfg (tr a) a p = Inr q)"
proof -
  have "list_all calm ops"
    using interleaving_set [OF sched] checkOne_ops_calm unfolding list_all_iff by fastforce
  then obtain q where q: "run_ops ops p = Inr q" "pool_wf q" using run_ops_calm [OF _ wf] by blast
  have one: "interleaving [xs] zs \<Longrightarrow> zs = xs" for xs zs :: "pool_op list"
  proof (induction zs arbitrary: xs)
    case Nil
    then show ?case by (cases rule: interleaving.cases) auto
  next
    case (Cons z zs)
    from Cons.prems show ?case
    proof (cases rule: interleaving.cases)
      case (pick i ys)
      then have "i = 0" by simp
      with pick Cons.IH show ?thesis by simp
    qed
  qed
  have "checkOne json cfg (tr a) a p = Inr q" if "as = [a]" for a
    using one [of "checkOne_ops json cfg (tr a) (pl_heap p a)" ops] sched q that by (simp add: checkOne_run)
  with q show ?thesis by blast
qed

theorem check_round_any_schedule_witness:
  "\<exists>q. run_ops [OpMarkFailed ''b'' 7, OpMarkFailed ''a'' 7] demo_pool = Inr q \<and> pool_wf q"
proof -
  let ?t = "\<lparr>tr_replies = [NoReply], tr_latency = 7, tr_now = 5\<rparr>"
  have ops: "checkOne_ops (\<lambda>_. None) demo_hc ?t (pl_heap demo_pool 0) = [OpMarkFailed ''a'' 7]"
    "checkOne_ops (\<lambda>_. None) demo_hc ?t (pl_heap demo_pool 1) = [OpMarkFailed ''b'' 7]"
    by (simp_all add: checkOne_ops_def resolveCheckURLs_def demo_hc_def HealthConfig_EnabledCheckURLs_def probe_def
        probeOne_def demo_pool_def demo_proxy_def zero_proxy_def)
  have "interleaving [[OpMarkFailed ''a'' 7], [OpMarkFailed ''b'' 7]] [OpMarkFailed ''b'' 7, OpMarkFailed ''a'' 7]"
    by (rule interleaving.pick [of 1], simp, simp, rule interleaving.pick [of 0], simp, simp, rule interleaving.finished, simp)
  then have "interleaving (map (\<lambda>a. checkOne_ops (\<lambda>_. None) demo_hc ?t (pl_heap demo_pool a)) [0, 1])
      [OpMarkFailed ''b'' 7, OpMarkFailed ''a'' 7]" by (simp add: ops [unfolded One_nat_def])
  from check_round_any_schedule [OF demo_pool_wf this] show ?thesis by blast
qed

end
