(* ===== verification/Pool_Manager.thy ===== *)
theory Pool_Manager
  imports Pool_Ops Provider_Sources Persist_File
begin

section \<open>The provider manager (internal/pool/manager.go)\<close>

text \<open>
  The manager owns the pool, the registered providers and the provider file, and runs the life cycle
  of a provider: adding, loading, refreshing, reconfiguring, enabling and removing it. What a provider's
  methods return comes from \<open>Provider_Sources\<close> with the outside world as argument (\<^typ>\<open>env\<close>); the
  geolocation service (\<^verbatim>\<open>geo.Client.Lookup\<close>) is a function argument; the outcome of a file write is an
  argument. Errors of the file are only logged by this component and have no further effect. A panic
  inside a provider is a panic of the operation. The alert hook is the list of events it is called with.
\<close>

record managedProvider =
  mp_provider :: Provider
  mp_cfg :: ProviderCfg
  mp_enabled :: bool
  mp_weight :: int
  mp_lastErr :: "prov_error option"
  mp_lastOK :: int

record Manager =
  mg_pool :: Pool
  mg_provs :: "(string, managedProvider) gomap"
  mg_persist :: "File option"
  mg_AlertEmit :: bool
  mg_events :: "(string \<times> string \<times> prov_error) list"

datatype mgr_error =
    ProviderNameRequired | ProviderFailed prov_error | ProviderExists string | ProviderNotFound string
  | DuplicateProviderName string | RatioOutOfRange

definition emit :: "string \<Rightarrow> string \<Rightarrow> prov_error \<Rightarrow> Manager \<Rightarrow> Manager" where
  "emit eventType provider err m =
     (if mg_AlertEmit m then m\<lparr>mg_events := mg_events m @ [(eventType, provider, err)]\<rparr> else m)"

definition new_managed :: "Provider \<Rightarrow> ProviderCfg \<Rightarrow> managedProvider" where
  "new_managed p pc =
     \<lparr>mp_provider = p, mp_cfg = pc, mp_enabled = pc_Enabled pc, mp_weight = i32 (pc_Weight pc),
      mp_lastErr = None, mp_lastOK = 0\<rparr>"

fun new_manager_loop :: "ProviderCfg list \<Rightarrow> Manager \<Rightarrow> mgr_error + Manager" where
  "new_manager_loop [] m = Inr m"
| "new_manager_loop (pc # pcs) m =
     (if mget (mg_provs m) (pc_Name pc) \<noteq> None then Inl (DuplicateProviderName (pc_Name pc))
      else case New_provider pc of
             Inl e \<Rightarrow> Inl (ProviderFailed e)
           | Inr p \<Rightarrow> new_manager_loop pcs (m\<lparr>mg_provs := mput (pc_Name pc) (new_managed p pc) (mg_provs m)\<rparr>))"

definition NewManager :: "rng \<Rightarrow> Config \<Rightarrow> mgr_error + Manager" where
  "NewManager r cfg =
     new_manager_loop (cf_Providers cfg)
       \<lparr>mg_pool = NewPool r, mg_provs = [], mg_persist = None, mg_AlertEmit = False, mg_events = []\<rparr>"

definition Manager_AttachStore :: "File option \<Rightarrow> Manager \<Rightarrow> Manager" where
  "Manager_AttachStore p m = m\<lparr>mg_persist := p\<rparr>"

definition SyncProvidersToStore :: "rng \<Rightarrow> write_outcome \<Rightarrow> Manager \<Rightarrow> io_error option \<times> Manager" where
  "SyncProvidersToStore r w m =
     (let ps = map (\<lambda>(n, mp). mp_cfg mp) (fst (range_order (mg_provs m) r))
      in if mg_persist m = None then (None, m)
         else let (f, e) = ReplaceProviders w ps (mg_persist m) in (e, m\<lparr>mg_persist := f\<rparr>))"

text \<open>\<^verbatim>\<open>if m.persist != nil { SaveProvider(cfg) }\<close>; the error is logged.\<close>

definition persist_provider :: "write_outcome \<Rightarrow> ProviderCfg \<Rightarrow> Manager \<Rightarrow> Manager" where
  "persist_provider w cfg m =
     (if mg_persist m \<noteq> None then m\<lparr>mg_persist := fst (SaveProvider w cfg (mg_persist m))\<rparr> else m)"

subsection \<open>Proxies of a provider\<close>

fun addProxies :: "ProviderCfg \<Rightarrow> Proxy list \<Rightarrow> Pool \<Rightarrow> Pool go" where
  "addProxies cfg [] p = Inr p"
| "addProxies cfg (pr # prs) p =
     (let pr = (if pc_Country cfg \<noteq> [] then pr\<lparr>px_Country := pc_Country cfg\<rparr> else pr)
      in bindE (Add pr p) (addProxies cfg prs))"

text \<open>\<^verbatim>\<open>for _, pr := range m.pool.All() { if pr.Provider == name { m.pool.Remove(pr.ID) } }\<close>.\<close>

fun remove_loop :: "string \<Rightarrow> addr list \<Rightarrow> Pool \<Rightarrow> Pool go" where
  "remove_loop name [] p = Inr p"
| "remove_loop name (a # as) p =
     (if px_Provider (pl_heap p a) = name
      then bindE (Remove (px_ID (pl_heap p a)) p) (\<lambda>(_, p). remove_loop name as p)
      else remove_loop name as p)"

definition drop_proxies :: "string \<Rightarrow> Pool \<Rightarrow> Pool go" where
  "drop_proxies name p = (let (as, p) = All p in remove_loop name as p)"

text \<open>The same loop with an assignment to the proxy instead.\<close>

fun update_loop :: "string \<Rightarrow> (Proxy \<Rightarrow> Proxy) \<Rightarrow> addr list \<Rightarrow> Pool \<Rightarrow> Pool" where
  "update_loop name f [] p = p"
| "update_loop name f (a # as) p =
     (if px_Provider (pl_heap p a) = name then update_loop name f as (heap_upd a (f (pl_heap p a)) p)
      else update_loop name f as p)"

subsection \<open>Countries\<close>

fun set_countries :: "string list \<Rightarrow> string \<Rightarrow> Pool \<Rightarrow> Pool go" where
  "set_countries [] country p = Inr p"
| "set_countries (i # ids) country p = bindE (SetCountry i country p) (set_countries ids country)"

fun enrich_loop :: "(string, string) gomap \<Rightarrow> (string \<times> string list) list \<Rightarrow> Pool \<Rightarrow> Pool go" where
  "enrich_loop resolved [] p = Inr p"
| "enrich_loop resolved ((ip, ids) # rest) p =
     (let country = mget0 [] resolved ip
      in if country = [] then enrich_loop resolved rest p
         else bindE (set_countries ids country p) (enrich_loop resolved rest))"

definition enrichOnce :: "(string list \<Rightarrow> (string, string) gomap) \<Rightarrow> Manager \<Rightarrow> Manager go" where
  "enrichOnce lookup m =
     (let (unresolved, p) = UnresolvedCountries (mg_pool m)
      in if length unresolved = 0 then Inr (m\<lparr>mg_pool := p\<rparr>)
         else
           let (e1, r1) = range_order unresolved (pl_rng p);
               resolved = lookup (map fst e1);
               (e2, r2) = range_order unresolved r1
           in bindE (enrich_loop resolved e2 (p\<lparr>pl_rng := r2\<rparr>)) (\<lambda>p. Inr (m\<lparr>mg_pool := p\<rparr>)))"

definition count_country :: "string \<Rightarrow> Proxy \<Rightarrow> (string, int) gomap \<Rightarrow> (string, int) gomap" where
  "count_country provider pr out =
     (if px_Provider pr \<noteq> provider then out
      else if px_Country pr = [] then mput ''unknown'' (mget0 0 out ''unknown'' + 1) out
      else mput (px_Country pr) (mget0 0 out (px_Country pr) + 1) out)"

definition countryDistribution :: "string \<Rightarrow> Pool \<Rightarrow> (string, int) gomap \<times> Pool" where
  "countryDistribution provider p =
     (let (as, p) = All p in (fold (\<lambda>a. count_country provider (pl_heap p a)) as [], p))"

subsection \<open>Queries\<close>

record ProviderInfo =
  pi_Name :: string
  pi_Type :: string
  pi_ProviderType :: string
  pi_Enabled :: bool
  pi_Weight :: int
  pi_Priority :: int
  pi_CheckInterval :: int
  pi_MinAliveRatio :: float64
  pi_StickySeconds :: int
  pi_Total :: int
  pi_Alive :: int
  pi_Countries :: "(string, int) gomap"
  pi_LastErr :: "prov_error option"
  pi_LastOK :: int
  pi_Config :: ProviderCfg

fun provider_infos :: "(string, int) gomap \<Rightarrow> (string, int) gomap \<Rightarrow> (string \<times> managedProvider) list \<Rightarrow> Pool \<Rightarrow> ProviderInfo list \<times> Pool" where
  "provider_infos alv tot [] p = ([], p)"
| "provider_infos alv tot ((name, mp) # rest) p =
     (let (countries, p) = countryDistribution name p;
          info = \<lparr>pi_Name = name, pi_Type = Kind_String (Provider_Kind (mp_provider mp)), pi_ProviderType = pc_Type (mp_cfg mp),
                  pi_Enabled = mp_enabled mp, pi_Weight = mp_weight mp, pi_Priority = pc_Priority (mp_cfg mp),
                  pi_CheckInterval = pc_CheckIntervalS (mp_cfg mp), pi_MinAliveRatio = pc_MinAliveRatio (mp_cfg mp),
                  pi_StickySeconds = pc_StickySeconds (mp_cfg mp), pi_Total = mget0 0 tot name, pi_Alive = mget0 0 alv name,
                  pi_Countries = countries, pi_LastErr = mp_lastErr mp, pi_LastOK = mp_lastOK mp, pi_Config = mp_cfg mp\<rparr>;
          (infos, p) = provider_infos alv tot rest p
      in (info # infos, p))"

definition ProviderList :: "rng \<Rightarrow> Manager \<Rightarrow> ProviderInfo list \<times> Manager" where
  "ProviderList r m =
     (let (stats, p) = StatsByProvider (mg_pool m);
          alv = fold (\<lambda>st. mput (ps_Provider st) (ps_Alive st)) stats [];
          tot = fold (\<lambda>st. mput (ps_Provider st) (ps_Total st)) stats [];
          (infos, p) = provider_infos alv tot (fst (range_order (mg_provs m) r)) p
      in (infos, m\<lparr>mg_pool := p\<rparr>))"

definition GetProvider :: "string \<Rightarrow> Manager \<Rightarrow> Provider option" where
  "GetProvider name m = map_option mp_provider (mget (mg_provs m) name)"

definition ProviderConfig :: "string \<Rightarrow> Manager \<Rightarrow> ProviderCfg option" where
  "ProviderConfig name m = map_option mp_cfg (mget (mg_provs m) name)"

subsection \<open>The life cycle\<close>

definition AddProvider :: "env \<Rightarrow> write_outcome \<Rightarrow> ProviderCfg \<Rightarrow> Manager \<Rightarrow> (mgr_error option \<times> Manager) go" where
  "AddProvider ev w cfg m =
     (if pc_Name cfg = [] then Inr (Some ProviderNameRequired, m)
      else
        case New_provider cfg of
          Inl e \<Rightarrow> Inr (Some (ProviderFailed e), m)
        | Inr p \<Rightarrow>
           if mget (mg_provs m) (pc_Name cfg) \<noteq> None then Inr (Some (ProviderExists (pc_Name cfg)), m)
           else
             let mp = new_managed p cfg;
                 mp = (if mp_weight mp \<le> 0 then mp\<lparr>mp_weight := 1\<rparr> else mp);
                 m = m\<lparr>mg_provs := mput (pc_Name cfg) mp (mg_provs m)\<rparr>
             in bindE
                  (if pc_Enabled cfg then
                     bindE (Provider_Initial ev p) (\<lambda>r.
                       case r of
                         Inl e \<Rightarrow> Inr m
                       | Inr prs \<Rightarrow> bindE (addProxies cfg (slice_of prs) (mg_pool m)) (\<lambda>q. Inr (m\<lparr>mg_pool := q\<rparr>)))
                   else Inr m)
                  (\<lambda>m. Inr (None, persist_provider w cfg m)))"

definition RemoveProvider :: "write_outcome \<Rightarrow> string \<Rightarrow> Manager \<Rightarrow> (mgr_error option \<times> Manager) go" where
  "RemoveProvider w name m =
     (case mget (mg_provs m) name of
        None \<Rightarrow> Inr (Some (ProviderNotFound name), m)
      | Some mp \<Rightarrow>
         let m = m\<lparr>mg_provs := mdel name (mg_provs m)\<rparr>
         in bindE (drop_proxies name (mg_pool m)) (\<lambda>q.
              let m = m\<lparr>mg_pool := q\<rparr>
              in Inr (None, if mg_persist m \<noteq> None
                            then m\<lparr>mg_persist := fst (DeleteProvider w name (mg_persist m))\<rparr> else m)))"

definition UpdateProvider :: "env \<Rightarrow> write_outcome \<Rightarrow> string \<Rightarrow> ProviderCfg \<Rightarrow> Manager \<Rightarrow> (mgr_error option \<times> Manager) go" where
  "UpdateProvider ev w name cfg m =
     (if name = [] then Inr (Some ProviderNameRequired, m)
      else
        let cfg = cfg\<lparr>pc_Name := name\<rparr>
        in case New_provider cfg of
             Inl e \<Rightarrow> Inr (Some (ProviderFailed e), m)
           | Inr p \<Rightarrow>
              (case mget (mg_provs m) name of
                 None \<Rightarrow> Inr (Some (ProviderNotFound name), m)
               | Some mp \<Rightarrow>
                  let wasEnabled = mp_enabled mp;
                      mp = mp\<lparr>mp_provider := p, mp_cfg := cfg, mp_weight := i32 (pc_Weight cfg)\<rparr>;
                      mp = (if mp_weight mp \<le> 0 then mp\<lparr>mp_weight := 1\<rparr> else mp);
                      m = m\<lparr>mg_provs := mput name mp (mg_provs m)\<rparr>
                  in bindE (drop_proxies name (mg_pool m)) (\<lambda>q.
                       let m = m\<lparr>mg_pool := q\<rparr>
                       in if wasEnabled then
                            bindE (Provider_Initial ev p) (\<lambda>r.
                              case r of
                                Inl e \<Rightarrow> Inr (Some (ProviderFailed e), m)
                              | Inr prs \<Rightarrow>
                                 bindE (addProxies cfg (slice_of prs) (mg_pool m)) (\<lambda>q.
                                   Inr (None, persist_provider w cfg (m\<lparr>mg_pool := q\<rparr>))))
                          else Inr (None, persist_provider w cfg m))))"

definition SetProviderEnabled :: "env \<Rightarrow> write_outcome \<Rightarrow> string \<Rightarrow> bool \<Rightarrow> Manager \<Rightarrow> (mgr_error option \<times> Manager) go" where
  "SetProviderEnabled ev w name enabled m =
     (case mget (mg_provs m) name of
        None \<Rightarrow> Inr (Some (ProviderNotFound name), m)
      | Some mp \<Rightarrow>
         if mp_enabled mp = enabled then Inr (None, m)
         else
           let cfg = (mp_cfg mp)\<lparr>pc_Enabled := enabled\<rparr>;
               m = m\<lparr>mg_provs := mput name (mp\<lparr>mp_enabled := enabled, mp_cfg := cfg\<rparr>) (mg_provs m)\<rparr>
           in if enabled then
                bindE (Provider_Initial ev (mp_provider mp)) (\<lambda>r.
                  case r of
                    Inl e \<Rightarrow> Inr (Some (ProviderFailed e), m)
                  | Inr prs \<Rightarrow>
                     bindE (addProxies cfg (slice_of prs) (mg_pool m)) (\<lambda>q.
                       Inr (None, persist_provider w cfg (m\<lparr>mg_pool := q\<rparr>))))
              else
                bindE (drop_proxies name (mg_pool m)) (\<lambda>q.
                  Inr (None, persist_provider w cfg (m\<lparr>mg_pool := q\<rparr>))))"

definition SetProviderPublic :: "write_outcome \<Rightarrow> string \<Rightarrow> bool \<Rightarrow> Manager \<Rightarrow> mgr_error option \<times> Manager" where
  "SetProviderPublic w name public m =
     (case mget (mg_provs m) name of
        None \<Rightarrow> (Some (ProviderNotFound name), m)
      | Some mp \<Rightarrow>
         if pc_Public (mp_cfg mp) = public then (None, m)
         else let cfg = (mp_cfg mp)\<lparr>pc_Public := public\<rparr>
              in (None, persist_provider w cfg (m\<lparr>mg_provs := mput name (mp\<lparr>mp_cfg := cfg\<rparr>) (mg_provs m)\<rparr>)))"

definition SetProviderWeight :: "write_outcome \<Rightarrow> string \<Rightarrow> int \<Rightarrow> Manager \<Rightarrow> (mgr_error option \<times> Manager) go" where
  "SetProviderWeight w name weight0 m =
     (let weight = (if weight0 \<le> 0 then 1 else weight0)
      in case mget (mg_provs m) name of
           None \<Rightarrow> Inr (Some (ProviderNotFound name), m)
         | Some mp \<Rightarrow>
            let cfg = (mp_cfg mp)\<lparr>pc_Weight := weight\<rparr>;
                m = m\<lparr>mg_provs := mput name (mp\<lparr>mp_weight := weight, mp_cfg := cfg\<rparr>) (mg_provs m)\<rparr>;
                (as, q) = All (mg_pool m);
                q = update_loop name (\<lambda>pr. pr\<lparr>px_Weight := weight\<rparr>) as q
            in bindE (Rebuild q) (\<lambda>q. Inr (None, persist_provider w cfg (m\<lparr>mg_pool := q\<rparr>))))"

definition SetProviderPriority :: "write_outcome \<Rightarrow> string \<Rightarrow> int \<Rightarrow> float64 \<Rightarrow> Manager \<Rightarrow> (mgr_error option \<times> Manager) go" where
  "SetProviderPriority w name priority minRatio m =
     (if minRatio < 0 \<or> minRatio > 1 then Inr (Some RatioOutOfRange, m)
      else
        case mget (mg_provs m) name of
          None \<Rightarrow> Inr (Some (ProviderNotFound name), m)
        | Some mp \<Rightarrow>
           let cfg = (mp_cfg mp)\<lparr>pc_Priority := priority, pc_MinAliveRatio := minRatio\<rparr>;
               m = m\<lparr>mg_provs := mput name (mp\<lparr>mp_cfg := cfg\<rparr>) (mg_provs m)\<rparr>;
               (as, q) = All (mg_pool m);
               q = update_loop name (\<lambda>pr. pr\<lparr>px_Priority := priority, px_MinAliveRatio := minRatio\<rparr>) as q
           in bindE (Rebuild q) (\<lambda>q. Inr (None, persist_provider w cfg (m\<lparr>mg_pool := q\<rparr>))))"

definition RefreshProvider :: "env \<Rightarrow> string \<Rightarrow> Manager \<Rightarrow> (mgr_error option \<times> Manager) go" where
  "RefreshProvider ev name m =
     (case mget (mg_provs m) name of
        None \<Rightarrow> Inr (Some (ProviderNotFound name), m)
      | Some mp \<Rightarrow>
         bindE (Provider_Refresh ev (mp_provider mp)) (\<lambda>r.
           case r of
             Inl e \<Rightarrow>
               let m = m\<lparr>mg_provs := mput name (mp\<lparr>mp_lastErr := Some e\<rparr>) (mg_provs m)\<rparr>
               in Inr (Some (ProviderFailed e), emit ''refresh_failed'' name e m)
           | Inr None \<Rightarrow> Inr (None, m)
           | Inr (Some prs) \<Rightarrow>
               bindE (addProxies (mp_cfg mp) prs (mg_pool m)) (\<lambda>q.
               bindE (RemoveExpired (ev_now ev) q) (\<lambda>(removed, q).
                 Inr (None, m\<lparr>mg_pool := q,
                              mg_provs := mput name (mp\<lparr>mp_lastErr := None, mp_lastOK := ev_now ev\<rparr>) (mg_provs m)\<rparr>)))))"

text \<open>The goroutine of \<^verbatim>\<open>LoadInitial\<close> for one provider, and the providers one after the other.\<close>

definition load_one :: "env \<Rightarrow> string \<Rightarrow> Manager \<Rightarrow> Manager go" where
  "load_one ev name m =
     (case mget (mg_provs m) name of
        None \<Rightarrow> Inr m
      | Some mp \<Rightarrow>
         bindE (Provider_Initial ev (mp_provider mp)) (\<lambda>r.
           case r of
             Inl e \<Rightarrow> Inr (m\<lparr>mg_provs := mput name (mp\<lparr>mp_lastErr := Some e\<rparr>) (mg_provs m)\<rparr>)
           | Inr prs \<Rightarrow>
               bindE (addProxies (mp_cfg mp) (slice_of prs) (mg_pool m)) (\<lambda>q.
                 Inr (m\<lparr>mg_pool := q, mg_provs := mput name (mp\<lparr>mp_lastOK := ev_now ev\<rparr>) (mg_provs m)\<rparr>))))"

fun load_list_of :: "(string \<Rightarrow> env) \<Rightarrow> string list \<Rightarrow> Manager \<Rightarrow> Manager go" where
  "load_list_of ev [] m = Inr m"
| "load_list_of ev (n # ns) m = bindE (load_one (ev n) n m) (load_list_of ev ns)"

definition LoadInitial :: "(string \<Rightarrow> env) \<Rightarrow> rng \<Rightarrow> Manager \<Rightarrow> Manager go" where
  "LoadInitial ev r m =
     (let entries = filter (\<lambda>(n, mp). mp_enabled mp) (fst (range_order (mg_provs m) r))
      in load_list_of ev (map fst entries) m)"

definition providerRefreshInterval :: "ProviderCfg \<Rightarrow> int" where
  "providerRefreshInterval cfg =
     (if (case pc_IPPool cfg of None \<Rightarrow> False | Some c \<Rightarrow> ip_RefreshSeconds c > 0)
      then i64 (ip_RefreshSeconds (the (pc_IPPool cfg)) * 1000000000)
      else if (case pc_Free cfg of None \<Rightarrow> False | Some c \<Rightarrow> fp_RefreshSeconds c > 0)
      then i64 (fp_RefreshSeconds (the (pc_Free cfg)) * 1000000000)
      else 0)"

text \<open>The tickers \<^verbatim>\<open>RefreshLoop\<close> starts: the enabled providers with a positive interval.\<close>

definition refresh_tickers :: "rng \<Rightarrow> Manager \<Rightarrow> (string \<times> int) list" where
  "refresh_tickers r m =
     map (\<lambda>(n, mp). (n, providerRefreshInterval (mp_cfg mp)))
       (filter (\<lambda>(n, mp). mp_enabled mp \<and> providerRefreshInterval (mp_cfg mp) > 0) (fst (range_order (mg_provs m) r)))"

end
