(* ===== verification/Manager_Inv.thy ===== *)
theory Manager_Inv
  imports Pool_Manager Provider_Props Pool_Effects
begin

section \<open>The manager's invariant\<close>

text \<open>
  \<open>mgr_wf\<close>: the pool's invariant holds, every provider is registered under its own name, and every
  proxy of the pool belongs to a registered provider. Each operation of the manager keeps it and does
  not panic, if the provider's method does not and the pool has room for what it returns (\<open>fits\<close>).
\<close>

definition owned :: "(string, managedProvider) gomap \<Rightarrow> Pool \<Rightarrow> bool" where
  "owned provs p \<longleftrightarrow> (\<forall>k a. Get k p = Some a \<longrightarrow> mget provs (px_Provider (pl_heap p a)) \<noteq> None)"

definition named :: "(string, managedProvider) gomap \<Rightarrow> bool" where
  "named provs \<longleftrightarrow> mwf provs \<and>
     (\<forall>n mp. mget provs n = Some mp \<longrightarrow> pc_Name (mp_cfg mp) = n \<and> pc_Name (prov_cfg (mp_provider mp)) = n)"

definition mgr_wf :: "Manager \<Rightarrow> bool" where
  "mgr_wf m \<longleftrightarrow> pool_wf (mg_pool m) \<and> named (mg_provs m) \<and> owned (mg_provs m) (mg_pool m)"

definition fits :: "(prov_error + Proxy list option) go \<Rightarrow> Pool \<Rightarrow> bool" where
  "fits r p \<longleftrightarrow> (case r of Inl _ \<Rightarrow> False | Inr (Inl _) \<Rightarrow> True
     | Inr (Inr prs) \<Rightarrow> length (pl_proxies p) + length (slice_of prs) \<le> 4294967296)"

subsection \<open>Proxies of providers\<close>

lemma New_provider_cfg: "New_provider cfg = Inr pv \<Longrightarrow> prov_cfg pv = cfg"
  by (auto simp: New_provider_def split: if_splits)

lemma provider_results_built:
  assumes "Provider_Initial ev pv = Inr (Inr r) \<or> Provider_Refresh ev pv = Inr (Inr r)" "pr \<in> set (slice_of r)"
  shows "built_by (prov_cfg pv) pr"
proof (cases pv)
  case (StaticURLs cfg)
  then show ?thesis using assms static_loop_built by (auto simp: StaticURLs_Refresh_def)
next
  case (Tunnel cfg)
  then show ?thesis
    using assms by (auto simp: Tunnel_Initial_def Tunnel_Refresh_def split: option.splits)
next
  case (IPPool cfg)
  then show ?thesis
    using assms pool_loop_built
    by (auto simp: IPPool_Refresh_def IPPool_parse_def bindE_Inr_iff Let_def split: option.splits)
next
  case (FreePool cfg)
  then show ?thesis
    using assms free_loop_built
    by (auto simp: FreePool_Refresh_def FreePool_parse_def bindE_Inr_iff Let_def split: option.splits)
qed

lemma built_weight: "built_by cfg pr \<Longrightarrow> px_Weight pr \<le> MaxInt32 \<and> px_Provider pr = pc_Name cfg"
  using i32_range [of "pc_Weight cfg"] by (simp add: built_by_def)

subsection \<open>Adding\<close>

lemma Add_effect:
  assumes wf: "pool_wf p" and w: "px_Weight pr \<le> MaxInt32" and len: "length (pl_proxies p) < 4294967296"
  shows "\<exists>q a. Add pr p = Inr q \<and> pool_wf q \<and> pl_proxies q = mput (px_ID pr) a (pl_proxies p) \<and>
    px_Provider (pl_heap q a) = px_Provider pr \<and>
    (\<forall>k b. Get k p = Some b \<and> k \<noteq> px_ID pr \<longrightarrow> pl_heap q b = pl_heap p b)"
proof (cases "mget (pl_proxies p) (px_ID pr)")
  case None
  obtain q where q: "Add pr p = Inr q" "pool_wf q" "pl_proxies q = mput (px_ID pr) (pl_brk p) (pl_proxies p)"
    "pl_heap q = (pl_heap p)(pl_brk p := (if px_Weight pr \<le> 0 then pr\<lparr>px_Weight := 1\<rparr> else pr))"
    using Add_new_effect [OF wf w len None] by blast
  have "b \<noteq> pl_brk p" if "Get k p = Some b" for k b
    using that wf mget_SomeD [of "pl_proxies p" k b]
    by (auto simp: Get_def pool_wf_def registry_wf_def list_all_iff)
  then show ?thesis using q by (intro exI [of _ q] exI [of _ "pl_brk p"]) auto
next
  case (Some a)
  define pr' where "pr' = (if px_Weight pr \<le> 0 then pr\<lparr>px_Weight := 1\<rparr> else pr)"
  obtain q where q: "Add pr p = Inr q" "pool_wf q" using Add_wf [OF wf w len] by blast
  have eq: "q = notifyState a False (heap_upd a (update_proxy (pl_heap p a) pr') p)"
    using q(1) Some by (simp add: Add_def pr'_def Let_def split: if_splits)
  have "b \<noteq> a" if "Get k p = Some b" "k \<noteq> px_ID pr" for k b
    using that pool_get(2) [OF wf, of k b] pool_get(2) [OF wf Some] by (auto simp: Get_def)
  moreover have "mput (px_ID pr) a (pl_proxies p) = pl_proxies p"
    using Some by (rule mput_same)
  ultimately show ?thesis
    using q by (intro exI [of _ q] exI [of _ a]) (auto simp: eq notifyState_def pr'_def update_proxy_def)
qed

text \<open>Loading a list of proxies of one provider.\<close>

lemma addProxies_effect:
  assumes "pool_wf p" "\<forall>pr \<in> set prs. px_Weight pr \<le> MaxInt32 \<and> px_Provider pr = n"
    and "length (pl_proxies p) + length prs \<le> 4294967296"
  shows "\<exists>q. addProxies cfg prs p = Inr q \<and> pool_wf q \<and> length (pl_proxies q) \<le> length (pl_proxies p) + length prs \<and>
    (\<forall>k. Get k q \<noteq> None \<longleftrightarrow> Get k p \<noteq> None \<or> k \<in> px_ID ` set prs) \<and>
    (\<forall>k a. Get k q = Some a \<longrightarrow>
       px_Provider (pl_heap q a) = n \<or> Get k p = Some a \<and> pl_heap q a = pl_heap p a) \<and>
    (\<forall>k a. Get k p = Some a \<and> k \<notin> px_ID ` set prs \<longrightarrow> Get k q = Some a \<and> pl_heap q a = pl_heap p a)"
  using assms
proof (induction prs arbitrary: p)
  case (Cons pr prs)
  define pr' where "pr' = (if pc_Country cfg \<noteq> [] then pr\<lparr>px_Country := pc_Country cfg\<rparr> else pr)"
  have pr': "px_Weight pr' \<le> MaxInt32" "px_Provider pr' = n" "px_ID pr' = px_ID pr"
    using Cons.prems(2) by (auto simp: pr'_def)
  obtain p1 a where p1: "Add pr' p = Inr p1" "pool_wf p1" "pl_proxies p1 = mput (px_ID pr) a (pl_proxies p)"
    "px_Provider (pl_heap p1 a) = n" "\<forall>k b. Get k p = Some b \<and> k \<noteq> px_ID pr \<longrightarrow> pl_heap p1 b = pl_heap p b"
    using Add_effect [OF Cons.prems(1) pr'(1)] Cons.prems(3) pr' by auto
  have len: "length (pl_proxies p1) + length prs \<le> 4294967296" "length (pl_proxies p1) \<le> Suc (length (pl_proxies p))"
    using Cons.prems(3) by (simp_all add: p1(3) length_mput)
  have rest: "\<forall>pr \<in> set prs. px_Weight pr \<le> MaxInt32 \<and> px_Provider pr = n" using Cons.prems(2) by simp
  obtain q where q: "addProxies cfg prs p1 = Inr q" "pool_wf q" "length (pl_proxies q) \<le> length (pl_proxies p1) + length prs"
    "\<forall>k. Get k q \<noteq> None \<longleftrightarrow> Get k p1 \<noteq> None \<or> k \<in> px_ID ` set prs"
    "\<forall>k a. Get k q = Some a \<longrightarrow> px_Provider (pl_heap q a) = n \<or> Get k p1 = Some a \<and> pl_heap q a = pl_heap p1 a"
    "\<forall>k a. Get k p1 = Some a \<and> k \<notin> px_ID ` set prs \<longrightarrow> Get k q = Some a \<and> pl_heap q a = pl_heap p1 a"
    using Cons.IH [OF p1(2) rest len(1)] by (elim exE conjE) (rule that)
  have "addProxies cfg (pr # prs) p = Inr q" using p1(1) q(1) by (simp add: pr'_def Let_def)
  moreover have g: "Get k p1 = (if k = px_ID pr then Some a else Get k p)" for k by (simp add: Get_def p1(3))
  moreover have "px_Provider (pl_heap q b) = n \<or> Get k p = Some b \<and> pl_heap q b = pl_heap p b" if "Get k q = Some b" for k b
    using q(5) [rule_format, OF that] p1(4,5) g by (auto split: if_splits)
  moreover have "Get k q = Some b \<and> pl_heap q b = pl_heap p b" if "Get k p = Some b" "k \<notin> px_ID ` set (pr # prs)" for k b
    using q(6) p1(5) g [of k] that by auto
  ultimately show ?case using q(2,3,4) len(2) by auto
qed auto

lemma addProxies_owned:
  assumes "owned provs p" "mget provs n \<noteq> None"
    and "\<forall>k a. Get k q = Some a \<longrightarrow> px_Provider (pl_heap q a) = n \<or> Get k p = Some a \<and> pl_heap q a = pl_heap p a"
  shows "owned provs q"
  using assms unfolding owned_def by metis

end
