(* ===== verification/Manager_Step.thy ===== *)
theory Manager_Step
  imports Manager_Inv
begin

section \<open>The manager as a machine\<close>

text \<open>
  What the manager's loops over the pool do, and the step lemma: under \<open>mgr_ok\<close> every operation
  returns and keeps \<open>mgr_wf\<close>.
\<close>

subsection \<open>Dropping the proxies of a provider\<close>

lemma Remove_total:
  assumes "pool_wf p"
  shows "\<exists>b q. Remove k p = Inr (b, q) \<and> pool_wf q \<and> pl_proxies q = mdel k (pl_proxies p) \<and> pl_heap q = pl_heap p"
proof (cases "mget (pl_proxies p) k")
  case None
  then have "mdel k (pl_proxies p) = pl_proxies p" by (simp add: mdel_def mget_def AList.delete_notin_dom map_of_eq_None_iff)
  then show ?thesis using None assms by (auto simp: Remove_def)
next
  case (Some a)
  from Remove_effect [OF assms Some] show ?thesis by blast
qed

lemma remove_loop_effect:
  assumes "pool_wf p"
  shows "\<exists>q. remove_loop n as p = Inr q \<and> pool_wf q \<and> pl_heap q = pl_heap p \<and> length (pl_proxies q) \<le> length (pl_proxies p) \<and>
    (\<forall>k. Get k q = (if \<exists>a \<in> set as. px_Provider (pl_heap p a) = n \<and> px_ID (pl_heap p a) = k then None else Get k p))"
  using assms
proof (induction "as" arbitrary: p)
  case (Cons a as)
  show ?case
  proof (cases "px_Provider (pl_heap p a) = n")
    case True
    obtain b p1 where p1: "Remove (px_ID (pl_heap p a)) p = Inr (b, p1)" "pool_wf p1"
      "pl_proxies p1 = mdel (px_ID (pl_heap p a)) (pl_proxies p)" "pl_heap p1 = pl_heap p"
      using Remove_total [OF Cons.prems, of "px_ID (pl_heap p a)"] by blast
    obtain q where q: "remove_loop n as p1 = Inr q" "pool_wf q" "pl_heap q = pl_heap p1" "length (pl_proxies q) \<le> length (pl_proxies p1)"
      "\<forall>k. Get k q = (if \<exists>a \<in> set as. px_Provider (pl_heap p1 a) = n \<and> px_ID (pl_heap p1 a) = k then None else Get k p1)"
      using Cons.IH [OF p1(2)] by (elim exE conjE) (rule that)
    have "length (pl_proxies p1) \<le> length (pl_proxies p)" using set_mdel(2) p1(3) by simp
    moreover have "remove_loop n (a # as) p = Inr q" using True p1(1) q(1) by simp
    moreover have "Get k q = (if \<exists>x \<in> set (a # as). px_Provider (pl_heap p x) = n \<and> px_ID (pl_heap p x) = k then None else Get k p)" for k
      using q(5) True by (auto simp: p1(3,4) Get_def)
    ultimately show ?thesis using q(2,3,4) p1(4) by (intro exI [of _ q]) auto
  next
    case False
    then show ?thesis using Cons.IH [OF Cons.prems] by simp
  qed
qed simp

lemma registered_mem: "pool_wf p \<Longrightarrow> a \<in> set (registered p) \<longleftrightarrow> Get (px_ID (pl_heap p a)) p = Some a"
  by (auto simp: registered_def Get_def pool_wf_def registry_wf_def list_all_iff id_of_def mwf_mget [symmetric]
    dest: mget_SomeD intro: image_eqI [rotated])

lemma drop_proxies_effect:
  assumes "pool_wf p"
  shows "\<exists>q. drop_proxies n p = Inr q \<and> pool_wf q \<and> pl_heap q = pl_heap p \<and> length (pl_proxies q) \<le> length (pl_proxies p) \<and>
    (\<forall>k a. Get k q = Some a \<longleftrightarrow> Get k p = Some a \<and> px_Provider (pl_heap p a) \<noteq> n)"
proof -
  obtain as p1 where all: "All p = (as, p1)" by fastforce
  note a = All_addrs [OF assms all]
  obtain q where q: "remove_loop n as p1 = Inr q" "pool_wf q" "pl_heap q = pl_heap p1" "length (pl_proxies q) \<le> length (pl_proxies p1)"
    "\<forall>k. Get k q = (if \<exists>a \<in> set as. px_Provider (pl_heap p1 a) = n \<and> px_ID (pl_heap p1 a) = k then None else Get k p1)"
    using remove_loop_effect [OF a(5), of n "as"] by (elim exE conjE) (rule that)
  have id: "px_ID (pl_heap p a) = k" if "Get k p = Some a" for k a using pool_get(2) [OF assms] that by (simp add: Get_def id_of_def)
  have "Get k q = Some x \<longleftrightarrow> Get k p = Some x \<and> px_Provider (pl_heap p x) \<noteq> n" for k x
    using q(5) id [of k x] registered_mem [OF assms] by (auto simp: a(1,3) Get_def a(4) split: if_splits)
  then show ?thesis using q a by (intro exI [of _ q]) (simp add: drop_proxies_def all)
qed

subsection \<open>Assigning to the proxies of a provider\<close>

lemma update_loop_fields:
  "pl_proxies (update_loop n f as p) = pl_proxies p \<and> pl_brk (update_loop n f as p) = pl_brk p \<and>
   pl_sticky (update_loop n f as p) = pl_sticky p \<and> pl_swrr (update_loop n f as p) = pl_swrr p"
  by (induction "as" arbitrary: p) auto

lemma update_loop_heap:
  assumes "distinct as"
  shows "pl_heap (update_loop n f as p) =
    (\<lambda>a. if a \<in> set as \<and> px_Provider (pl_heap p a) = n then f (pl_heap p a) else pl_heap p a)"
  using assms by (induction "as" arbitrary: p) (auto simp: fun_eq_iff)

lemma update_rebuild_effect:
  assumes wf: "pool_wf p" and all: "All p = (as, p1)"
    and f: "\<forall>pr. 1 \<le> px_Weight pr \<and> px_Weight pr \<le> MaxInt32 \<longrightarrow>
      px_ID (f pr) = px_ID pr \<and> 1 \<le> px_Weight (f pr) \<and> px_Weight (f pr) \<le> MaxInt32"
  shows "\<exists>q. Rebuild (update_loop n f as p1) = Inr q \<and> pool_wf q \<and> pl_proxies q = pl_proxies p \<and>
    (\<forall>k a. Get k p = Some a \<longrightarrow>
       pl_heap q a = (if px_Provider (pl_heap p a) = n then f (pl_heap p a) else pl_heap p a))"
proof -
  note a = All_addrs [OF wf all]
  have "distinct as" using a(2) distinct_map by blast
  note h = update_loop_heap [OF this, of n f p1] and g = update_loop_fields [of n f "as" p1]
  have "registry_wf p1" "mwf (pl_sticky p1)" "mwf (pl_swrr p1)" using a(5) by (simp_all add: pool_wf_def)
  then have "pre_wf (update_loop n f as p1)"
    using g f by (auto simp: pre_wf_def registry_wf_def list_all_iff id_of_def h)
  from Rebuild_wf [OF this] obtain q where q: "Rebuild (update_loop n f as p1) = Inr q" "pool_wf q" by blast
  have "pl_heap q a = (if px_Provider (pl_heap p a) = n then f (pl_heap p a) else pl_heap p a)" if "Get k p = Some a" for k a
    using registered_mem [OF wf, of a] that pool_get(2) [OF wf, of k a] Rebuild_fields(1) [OF q(1)]
    by (auto simp: h a Get_def id_of_def)
  then show ?thesis using q Rebuild_fields(2) [OF q(1)] g a by auto
qed

subsection \<open>Expiry\<close>

lemma RemoveExpired_effect:
  assumes wf: "pool_wf p"
  shows "\<exists>n q. RemoveExpired now p = Inr (n, q) \<and> pool_wf q \<and> pl_heap q = pl_heap p \<and> length (pl_proxies q) \<le> length (pl_proxies p) \<and>
    (\<forall>k a. Get k q = Some a \<longleftrightarrow> Get k p = Some a \<and> \<not> expired now (pl_heap p a))"
proof -
  obtain n q where q: "RemoveExpired now p = Inr (n, q)" "pool_wf q" using RemoveExpired_wf [OF wf] by blast
  have f: "pl_heap q = pl_heap p" "pl_proxies q = mfilter (\<lambda>k a. \<not> expired now (pl_heap p a)) (pl_proxies p)"
    using q(1) by (auto simp: RemoveExpired_def Let_def bindE_Inr_iff Rebuild_fields split: if_splits)
  have "mwf (pl_proxies p)" using wf by (simp add: pool_wf_def registry_wf_def)
  then have "Get k q = Some a \<longleftrightarrow> Get k p = Some a \<and> \<not> expired now (pl_heap p a)" for k a
    by (auto simp: Get_def f(2) mget_mfilter split: option.splits if_splits)
  moreover have "length (pl_proxies q) \<le> length (pl_proxies p)" by (simp add: f(2) mfilter_def)
  ultimately show ?thesis using q f(1) by blast
qed

subsection \<open>Operations of the other components\<close>

text \<open>
  The health checker, the gateway and the HTTP server call the pool too, but none of them adds a proxy
  (\<^verbatim>\<open>Pool.Add\<close> is called in \<^verbatim>\<open>Manager.addProxies\<close> only): what is registered afterwards was registered
  before and belongs to the same provider.
\<close>

definition keeps :: "Pool \<Rightarrow> Pool \<Rightarrow> bool" where
  "keeps p q \<longleftrightarrow> (\<forall>k a. Get k q = Some a \<longrightarrow> Get k p = Some a \<and> px_Provider (pl_heap q a) = px_Provider (pl_heap p a))"

lemma keeps_same: "pl_proxies q = pl_proxies p \<Longrightarrow> \<forall>a. px_Provider (pl_heap q a) = px_Provider (pl_heap p a) \<Longrightarrow> keeps p q"
  by (simp add: keeps_def Get_def)

lemma keeps_trans: "keeps p q \<Longrightarrow> keeps q t \<Longrightarrow> keeps p t"
  unfolding keeps_def by metis

lemma keeps_sel: "sel_post p S ex (Inr (x, q)) \<Longrightarrow> keeps p q"
  by (auto simp: sel_post_def sel_frame_fields intro!: keeps_same)

lemma keeps_owned: "keeps p q \<Longrightarrow> owned provs p \<Longrightarrow> owned provs q"
  unfolding owned_def keeps_def by metis

lemma keeps_rebuild:
  assumes "bindE (Rebuild (heap_upd a pr p)) (\<lambda>p1. Inr (notifyState a b p1)) = Inr q" "px_Provider pr = px_Provider (pl_heap p a)"
  shows "keeps p q"
  using assms by (intro keeps_same) (auto simp: bindE_Inr_iff Rebuild_fields notifyState_def)

lemma keeps_in_place: "px_Provider pr = px_Provider (pl_heap p a) \<Longrightarrow> keeps p (notifyState a b (heap_upd a pr p))"
  by (intro keeps_same) (auto simp: notifyState_def)

lemma store_latency_provider [simp]: "px_Provider (store_latency l pr) = px_Provider pr"
  by (simp add: store_latency_def)

lemma StickyNext_keeps:
  assumes wf: "pool_wf p" and r: "StickyNext now ck secs g p = Inr (x, q)"
  shows "keeps p q"
proof -
  obtain o1 p1 where l: "sticky_lookup now ck p = (o1, p1)" by (cases "sticky_lookup now ck p")
  have p1: "keeps p p1" using l by (intro keeps_same) (auto simp: sticky_lookup_def Let_def split: option.splits if_splits)
  have sel: "keeps p' q'" if "next_or_group g p' = Inr (y, q')" "pool_wf p'" for p' q' y
    using next_or_group_post [OF that(2), of g] that(1) keeps_sel by metis
  have rec: "keeps q' (sticky_record now s ck a q')" for s a q' by (intro keeps_same) (auto simp: sticky_record_def Let_def)
  show ?thesis
  proof (cases "ck = [] \<or> secs \<le> 0 \<or> o1 \<noteq> None")
    case True
    then show ?thesis using r p1 sel [OF _ wf] by (auto simp: StickyNext_def l Let_def split: if_splits)
  next
    case False
    then obtain y q' where q': "next_or_group g p1 = Inr (y, q')" "q = (case y of None \<Rightarrow> q' | Some a \<Rightarrow> sticky_record now (i64 (secs * 1000000000)) ck a q')"
      using r by (auto simp: StickyNext_def l Let_def bindE_Inr_iff split: option.splits)
    have "keeps p q'" using keeps_trans [OF p1 sel [OF q'(1) sticky_lookup_wf [OF l wf]]] .
    then show ?thesis using keeps_trans [OF _ rec] by (cases y) (simp_all add: q'(2))
  qed
qed

lemma pool_op_keeps:
  assumes wf: "pool_wf p" and r: "run_op op p = Inr q" and op: "\<forall>pr. op \<noteq> OpAdd pr"
  shows "keeps p q"
proof -
  have sub: "keeps p t" if "pl_heap t = pl_heap p" "\<forall>k a. Get k t = Some a \<longrightarrow> Get k p = Some a" for t
    using that by (simp add: keeps_def)
  show ?thesis
  proof (cases op)
    case (OpRemove k)
    then show ?thesis using Remove_total [OF wf, of k] r by (auto simp: Get_def intro!: sub split: if_splits)
  next
    case (OpSetCountry k c)
    then show ?thesis using r keeps_rebuild [of _ _ p False q]
      by (auto simp: SetCountry_def keeps_def split: option.splits if_splits)
  next
    case (OpMarkFailed k l)
    then show ?thesis using r keeps_rebuild keeps_in_place
      by (auto simp: MarkFailed_def Let_def keeps_same split: option.splits if_splits)
  next
    case (OpMarkSuccess now k l)
    then show ?thesis using r keeps_rebuild keeps_in_place
      by (auto simp: MarkSuccess_def Let_def keeps_same split: option.splits if_splits)
  next
    case (OpSetAlive k b)
    then show ?thesis using r keeps_rebuild
      by (auto simp: SetAlive_def keeps_same split: option.splits if_splits)
  next
    case (OpRemoveExpired now)
    then show ?thesis using RemoveExpired_effect [OF wf, of now] r by (auto intro!: sub)
  next
    case (OpRemoveByProvider pn)
    then obtain n where n: "RemoveByProvider pn p = Inr (n, q)" using r by (auto simp: bindE_Inr_iff)
    obtain es s where es: "range_order (pl_proxies p) (pl_rng p) = (es, s)" by fastforce
    show ?thesis using RemoveByProvider_fields [OF n es refl]
      by (intro sub) (auto simp: Get_def mget_fold_mdel split: if_splits)
  next
    case OpNext
    then show ?thesis using r Next_post [OF wf] by (auto simp: bindE_Inr_iff dest: keeps_sel)
  next
    case (OpNextInGroup g)
    then show ?thesis using r NextInGroup_post [OF wf, of g] by (auto simp: bindE_Inr_iff dest: keeps_sel)
  next
    case (OpNextExcluding ex)
    then show ?thesis using r NextExcluding_post [OF wf, of ex] by (auto simp: bindE_Inr_iff dest: keeps_sel)
  next
    case (OpNextInGroupExcluding g ex)
    then show ?thesis using r NextInGroupExcluding_post [OF wf, of ex g] by (auto simp: bindE_Inr_iff dest: keeps_sel)
  next
    case (OpStickyNext now ck s g)
    then show ?thesis using r StickyNext_keeps [OF wf] by (auto simp: bindE_Inr_iff)
  qed (use r op in \<open>auto simp: SetStateSink_def SetGroups_def ClearSticky_def All_def Rebuild_fields case_prod_unfold Let_def intro!: keeps_same\<close>)
qed

subsection \<open>The registry of providers\<close>

lemma owned_more: "owned provs p \<Longrightarrow> (\<And>n. mget provs n \<noteq> None \<Longrightarrow> mget provs' n \<noteq> None) \<Longrightarrow> owned provs' p"
  unfolding owned_def by blast

lemma owned_mput [intro]: "owned provs p \<Longrightarrow> owned (mput n mp provs) p"
  by (erule owned_more) simp

lemma named_mput [intro]:
  "named provs \<Longrightarrow> pc_Name (mp_cfg mp) = n \<Longrightarrow> pc_Name (prov_cfg (mp_provider mp)) = n \<Longrightarrow> named (mput n mp provs)"
  by (auto simp: named_def intro: wf_intros)

lemma named_mdel [intro]: "named provs \<Longrightarrow> named (mdel n provs)"
  by (auto simp: named_def intro: wf_intros split: if_splits)

lemma mgr_wf_more [simp]:
  "mgr_wf (m\<lparr>mg_persist := f\<rparr>) = mgr_wf m" "mgr_wf (m\<lparr>mg_events := es\<rparr>) = mgr_wf m"
  by (simp_all add: mgr_wf_def)

lemma persist_provider_wf [simp]: "mgr_wf (persist_provider w cfg m) = mgr_wf m"
  by (simp add: persist_provider_def)

lemma persist_provider_fields [simp]:
  "mg_pool (persist_provider w cfg m) = mg_pool m" "mg_provs (persist_provider w cfg m) = mg_provs m"
  "mg_events (persist_provider w cfg m) = mg_events m"
  by (simp_all add: persist_provider_def)

lemma emit_fields [simp]:
  "mg_pool (emit t n e m) = mg_pool m" "mg_provs (emit t n e m) = mg_provs m" "mg_persist (emit t n e m) = mg_persist m"
  "mgr_wf (emit t n e m) = mgr_wf m"
  by (simp_all add: emit_def)

text \<open>Registering a provider's configuration, and adding what the provider returned.\<close>

lemma mgr_wf_put:
  "mgr_wf m \<Longrightarrow> pc_Name (mp_cfg mp) = n \<Longrightarrow> pc_Name (prov_cfg (mp_provider mp)) = n \<Longrightarrow>
   mgr_wf (m\<lparr>mg_provs := mput n mp (mg_provs m)\<rparr>)"
  by (auto simp: mgr_wf_def)

lemma mgr_get:
  "mgr_wf m \<Longrightarrow> mget (mg_provs m) n = Some mp \<Longrightarrow> pc_Name (mp_cfg mp) = n \<and> pc_Name (prov_cfg (mp_provider mp)) = n"
  by (simp add: mgr_wf_def named_def)

lemma add_results:
  assumes wf: "mgr_wf m" and r: "Provider_Initial ev pv = Inr (Inr r) \<or> Provider_Refresh ev pv = Inr (Inr r)"
    and len: "length (pl_proxies (mg_pool m)) + length (slice_of r) \<le> 4294967296"
    and n: "mget (mg_provs m) (pc_Name (prov_cfg pv)) \<noteq> None"
  shows "\<exists>q. addProxies cfg (slice_of r) (mg_pool m) = Inr q \<and> mgr_wf (m\<lparr>mg_pool := q\<rparr>) \<and>
    length (pl_proxies q) \<le> length (pl_proxies (mg_pool m)) + length (slice_of r) \<and>
    (\<forall>k. Get k q \<noteq> None \<longleftrightarrow> Get k (mg_pool m) \<noteq> None \<or> k \<in> px_ID ` set (slice_of r)) \<and>
    (\<forall>k a. Get k q = Some a \<longrightarrow> px_Provider (pl_heap q a) = pc_Name (prov_cfg pv) \<or>
       Get k (mg_pool m) = Some a \<and> pl_heap q a = pl_heap (mg_pool m) a) \<and>
    (\<forall>k a. Get k (mg_pool m) = Some a \<and> k \<notin> px_ID ` set (slice_of r) \<longrightarrow> Get k q = Some a \<and> pl_heap q a = pl_heap (mg_pool m) a)"
proof -
  have b: "\<forall>pr \<in> set (slice_of r). px_Weight pr \<le> MaxInt32 \<and> px_Provider pr = pc_Name (prov_cfg pv)"
    using built_weight [OF provider_results_built [OF r]] by blast
  have p: "pool_wf (mg_pool m)" "owned (mg_provs m) (mg_pool m)" "named (mg_provs m)" using wf by (simp_all add: mgr_wf_def)
  obtain q where q: "addProxies cfg (slice_of r) (mg_pool m) = Inr q" "pool_wf q"
    "length (pl_proxies q) \<le> length (pl_proxies (mg_pool m)) + length (slice_of r)"
    "\<forall>k. Get k q \<noteq> None \<longleftrightarrow> Get k (mg_pool m) \<noteq> None \<or> k \<in> px_ID ` set (slice_of r)"
    "\<forall>k a. Get k q = Some a \<longrightarrow> px_Provider (pl_heap q a) = pc_Name (prov_cfg pv) \<or>
       Get k (mg_pool m) = Some a \<and> pl_heap q a = pl_heap (mg_pool m) a"
    "\<forall>k a. Get k (mg_pool m) = Some a \<and> k \<notin> px_ID ` set (slice_of r) \<longrightarrow> Get k q = Some a \<and> pl_heap q a = pl_heap (mg_pool m) a"
    using addProxies_effect [OF p(1) b len, of cfg] by (elim exE conjE) (rule that)
  have "owned (mg_provs m) q" by (rule addProxies_owned [OF p(2) n q(5)])
  then show ?thesis using q p(3) by (intro exI [of _ q]) (simp add: mgr_wf_def)
qed

lemma drop_results:
  assumes wf: "mgr_wf m"
  shows "\<exists>q. drop_proxies n (mg_pool m) = Inr q \<and> mgr_wf (m\<lparr>mg_pool := q\<rparr>) \<and> owned (mdel n (mg_provs m)) q \<and>
    pl_heap q = pl_heap (mg_pool m) \<and> length (pl_proxies q) \<le> length (pl_proxies (mg_pool m)) \<and>
    (\<forall>k a. Get k q = Some a \<longleftrightarrow> Get k (mg_pool m) = Some a \<and> px_Provider (pl_heap (mg_pool m) a) \<noteq> n)"
proof -
  have p: "pool_wf (mg_pool m)" "owned (mg_provs m) (mg_pool m)" "named (mg_provs m)" using wf by (simp_all add: mgr_wf_def)
  obtain q where q: "drop_proxies n (mg_pool m) = Inr q" "pool_wf q" "pl_heap q = pl_heap (mg_pool m)"
    "length (pl_proxies q) \<le> length (pl_proxies (mg_pool m))"
    "\<forall>k a. Get k q = Some a \<longleftrightarrow> Get k (mg_pool m) = Some a \<and> px_Provider (pl_heap (mg_pool m) a) \<noteq> n"
    using drop_proxies_effect [OF p(1), of n] by (elim exE conjE) (rule that)
  have "owned (mdel n (mg_provs m)) q" "owned (mg_provs m) q" using p(2) q(3,5) by (auto simp: owned_def)
  then show ?thesis using q p(3) by (intro exI [of _ q]) (simp add: mgr_wf_def)
qed

lemma reweigh_results:
  assumes wf: "mgr_wf m" and all: "All (mg_pool m) = (as, p1)"
    and f: "\<forall>pr. 1 \<le> px_Weight pr \<and> px_Weight pr \<le> MaxInt32 \<longrightarrow>
      px_ID (f pr) = px_ID pr \<and> px_Provider (f pr) = px_Provider pr \<and> 1 \<le> px_Weight (f pr) \<and> px_Weight (f pr) \<le> MaxInt32"
  shows "\<exists>q. Rebuild (update_loop n f as p1) = Inr q \<and> mgr_wf (m\<lparr>mg_pool := q\<rparr>) \<and> pl_proxies q = pl_proxies (mg_pool m) \<and>
    (\<forall>k a. Get k (mg_pool m) = Some a \<longrightarrow> pl_heap q a =
       (if px_Provider (pl_heap (mg_pool m) a) = n then f (pl_heap (mg_pool m) a) else pl_heap (mg_pool m) a))"
proof -
  have p: "pool_wf (mg_pool m)" "owned (mg_provs m) (mg_pool m)" "named (mg_provs m)" using wf by (simp_all add: mgr_wf_def)
  obtain q where q: "Rebuild (update_loop n f as p1) = Inr q" "pool_wf q" "pl_proxies q = pl_proxies (mg_pool m)"
    "\<forall>k a. Get k (mg_pool m) = Some a \<longrightarrow> pl_heap q a =
       (if px_Provider (pl_heap (mg_pool m) a) = n then f (pl_heap (mg_pool m) a) else pl_heap (mg_pool m) a)"
    using update_rebuild_effect [OF p(1) all, of f n] f by blast
  have "px_Provider (pl_heap q a) = px_Provider (pl_heap (mg_pool m) a)" if "Get k (mg_pool m) = Some a" for k a
    using q(4) [rule_format, OF that] f pool_get [OF p(1), of k a] that by (simp add: Get_def id_of_def)
  then have "keeps (mg_pool m) q" using q(3) by (simp add: keeps_def Get_def)
  then show ?thesis using q p keeps_owned by (intro exI [of _ q]) (simp add: mgr_wf_def)
qed

subsection \<open>The operations\<close>

lemma fits_cases:
  assumes "fits r p"
  obtains (error) e where "r = Inr (Inl e)" | (proxies) prs where "r = Inr (Inr prs)" "length (pl_proxies p) + length (slice_of prs) \<le> 4294967296"
  using assms by (auto simp: fits_def split: sum.splits)

lemma AddProvider_step:
  assumes wf: "mgr_wf m" and ok: "\<And>pv. New_provider cfg = Inr pv \<Longrightarrow> pc_Enabled cfg \<Longrightarrow> fits (Provider_Initial ev pv) (mg_pool m)"
  shows "\<exists>e t. AddProvider ev w cfg m = Inr (e, t) \<and> mgr_wf t"
proof (cases "pc_Name cfg = [] \<or> (\<exists>e. New_provider cfg = Inl e) \<or> mget (mg_provs m) (pc_Name cfg) \<noteq> None")
  case True
  then show ?thesis using wf by (auto simp: AddProvider_def split: sum.splits)
next
  case False
  then obtain pv where pv: "New_provider cfg = Inr pv" by (cases "New_provider cfg") auto
  define mp where "mp = (let mp = new_managed pv cfg in if mp_weight mp \<le> 0 then mp\<lparr>mp_weight := 1\<rparr> else mp)"
  define m1 where "m1 = m\<lparr>mg_provs := mput (pc_Name cfg) mp (mg_provs m)\<rparr>"
  have "pc_Name (mp_cfg mp) = pc_Name cfg" "prov_cfg (mp_provider mp) = cfg"
    using New_provider_cfg [OF pv] by (simp_all add: mp_def Let_def new_managed_def)
  then have m1: "mgr_wf m1" unfolding m1_def by (intro mgr_wf_put [OF wf]) simp_all
  have eq: "AddProvider ev w cfg m =
    bindE (if pc_Enabled cfg then
             bindE (Provider_Initial ev pv) (\<lambda>r. case r of Inl e \<Rightarrow> Inr m1
               | Inr prs \<Rightarrow> bindE (addProxies cfg (slice_of prs) (mg_pool m1)) (\<lambda>q. Inr (m1\<lparr>mg_pool := q\<rparr>)))
           else Inr m1) (\<lambda>m. Inr (None, persist_provider w cfg m))"
    using False pv by (simp add: AddProvider_def m1_def mp_def Let_def)
  show ?thesis
  proof (cases "pc_Enabled cfg")
    case True
    then have "fits (Provider_Initial ev pv) (mg_pool m)" by (rule ok [OF pv])
    then show ?thesis
    proof (cases rule: fits_cases)
      case (error e)
      then show ?thesis using m1 True by (simp add: eq)
    next
      case (proxies prs)
      have "mget (mg_provs m1) (pc_Name (prov_cfg pv)) \<noteq> None" using New_provider_cfg [OF pv] by (simp add: m1_def)
      from add_results [OF m1 disjI1 [OF proxies(1)] _ this, of cfg] proxies True show ?thesis
        by (auto simp: eq) (auto simp: m1_def)
    qed
  qed (use m1 in \<open>simp add: eq\<close>)
qed

lemma RemoveProvider_effect:
  assumes wf: "mgr_wf m" and get: "mget (mg_provs m) n = Some mp"
  shows "\<exists>t. RemoveProvider w n m = Inr (None, t) \<and> mgr_wf t \<and> mg_provs t = mdel n (mg_provs m) \<and>
    (mg_persist m \<noteq> None \<longrightarrow> mg_persist t = fst (DeleteProvider w n (mg_persist m))) \<and>
    (\<forall>k a. Get k (mg_pool t) = Some a \<longleftrightarrow> Get k (mg_pool m) = Some a \<and> px_Provider (pl_heap (mg_pool m) a) \<noteq> n)"
proof -
  obtain q where q: "drop_proxies n (mg_pool m) = Inr q" "mgr_wf (m\<lparr>mg_pool := q\<rparr>)" "owned (mdel n (mg_provs m)) q"
    "\<forall>k a. Get k q = Some a \<longleftrightarrow> Get k (mg_pool m) = Some a \<and> px_Provider (pl_heap (mg_pool m) a) \<noteq> n"
    using drop_results [OF wf, of n] by blast
  have "mgr_wf (m\<lparr>mg_provs := mdel n (mg_provs m), mg_pool := q\<rparr>)"
    using q(2,3) by (auto simp: mgr_wf_def)
  then show ?thesis using q(1,4) get by (simp add: RemoveProvider_def Let_def)
qed

lemma UpdateProvider_step:
  assumes wf: "mgr_wf m"
    and ok: "\<And>pv mp. New_provider (cfg\<lparr>pc_Name := n\<rparr>) = Inr pv \<Longrightarrow> mget (mg_provs m) n = Some mp \<Longrightarrow> mp_enabled mp \<Longrightarrow>
      fits (Provider_Initial ev pv) (mg_pool m)"
  shows "\<exists>e t. UpdateProvider ev w n cfg m = Inr (e, t) \<and> mgr_wf t"
proof (cases "n = [] \<or> (\<exists>e. New_provider (cfg\<lparr>pc_Name := n\<rparr>) = Inl e) \<or> mget (mg_provs m) n = None")
  case True
  then show ?thesis using wf by (auto simp: UpdateProvider_def Let_def split: sum.splits option.splits)
next
  case False
  define cfg' where "cfg' = cfg\<lparr>pc_Name := n\<rparr>"
  from False obtain pv mp where pv: "New_provider cfg' = Inr pv" and mp: "mget (mg_provs m) n = Some mp"
    by (cases "New_provider cfg'") (auto simp: cfg'_def)
  define mp' where "mp' = (let mp = mp\<lparr>mp_provider := pv, mp_cfg := cfg', mp_weight := i32 (pc_Weight cfg')\<rparr>
    in if mp_weight mp \<le> 0 then mp\<lparr>mp_weight := 1\<rparr> else mp)"
  define m1 where "m1 = m\<lparr>mg_provs := mput n mp' (mg_provs m)\<rparr>"
  have "pc_Name (mp_cfg mp') = n" "pc_Name (prov_cfg (mp_provider mp')) = n"
    using New_provider_cfg [OF pv] by (simp_all add: mp'_def cfg'_def Let_def)
  then have m1: "mgr_wf m1" unfolding m1_def by (intro mgr_wf_put [OF wf])
  obtain q where q: "drop_proxies n (mg_pool m1) = Inr q" "mgr_wf (m1\<lparr>mg_pool := q\<rparr>)" "length (pl_proxies q) \<le> length (pl_proxies (mg_pool m1))"
    using drop_results [OF m1, of n] by blast
  have eq: "UpdateProvider ev w n cfg m =
    (if mp_enabled mp then
       bindE (Provider_Initial ev pv) (\<lambda>r. case r of Inl e \<Rightarrow> Inr (Some (ProviderFailed e), m1\<lparr>mg_pool := q\<rparr>)
         | Inr prs \<Rightarrow> bindE (addProxies cfg' (slice_of prs) q) (\<lambda>q. Inr (None, persist_provider w cfg' (m1\<lparr>mg_pool := q\<rparr>))))
     else Inr (None, persist_provider w cfg' (m1\<lparr>mg_pool := q\<rparr>)))"
    using False pv mp q(1) by (simp add: UpdateProvider_def cfg'_def [symmetric] m1_def mp'_def Let_def)
  show ?thesis
  proof (cases "mp_enabled mp")
    case True
    then have "fits (Provider_Initial ev pv) (mg_pool m)" using ok pv mp by (simp add: cfg'_def)
    then show ?thesis
    proof (cases rule: fits_cases)
      case (error e)
      then show ?thesis using q(2) True by (simp add: eq)
    next
      case (proxies prs)
      have g: "mget (mg_provs (m1\<lparr>mg_pool := q\<rparr>)) (pc_Name (prov_cfg pv)) \<noteq> None"
        using New_provider_cfg [OF pv] by (simp add: m1_def cfg'_def)
      have len: "length (pl_proxies (mg_pool (m1\<lparr>mg_pool := q\<rparr>))) + length (slice_of prs) \<le> 4294967296"
        using proxies(2) q(3) by (simp add: m1_def)
      from add_results [OF q(2) disjI1 [OF proxies(1)] len g, of cfg'] proxies(1) True show ?thesis by (auto simp: eq)
    qed
  qed (use q(2) in \<open>simp add: eq\<close>)
qed

lemma SetProviderEnabled_step:
  assumes wf: "mgr_wf m"
    and ok: "\<And>mp. mget (mg_provs m) n = Some mp \<Longrightarrow> b \<Longrightarrow> fits (Provider_Initial ev (mp_provider mp)) (mg_pool m)"
  shows "\<exists>e t. SetProviderEnabled ev w n b m = Inr (e, t) \<and> mgr_wf t"
proof (cases "\<exists>mp. mget (mg_provs m) n = Some mp \<and> mp_enabled mp \<noteq> b")
  case False
  then show ?thesis using wf by (auto simp: SetProviderEnabled_def split: option.splits)
next
  case True
  then obtain mp where mp: "mget (mg_provs m) n = Some mp" "mp_enabled mp \<noteq> b" by blast
  define cfg where "cfg = (mp_cfg mp)\<lparr>pc_Enabled := b\<rparr>"
  define m1 where "m1 = m\<lparr>mg_provs := mput n (mp\<lparr>mp_enabled := b, mp_cfg := cfg\<rparr>) (mg_provs m)\<rparr>"
  have m1: "mgr_wf m1"
    unfolding m1_def using mgr_get [OF wf mp(1)] by (intro mgr_wf_put [OF wf]) (simp_all add: cfg_def)
  show ?thesis
  proof (cases b)
    case True
    then have eq: "SetProviderEnabled ev w n b m =
      bindE (Provider_Initial ev (mp_provider mp)) (\<lambda>r. case r of Inl e \<Rightarrow> Inr (Some (ProviderFailed e), m1)
        | Inr prs \<Rightarrow> bindE (addProxies cfg (slice_of prs) (mg_pool m1)) (\<lambda>q. Inr (None, persist_provider w cfg (m1\<lparr>mg_pool := q\<rparr>))))"
      using mp by (simp add: SetProviderEnabled_def cfg_def m1_def Let_def cong: sum.case_cong)
    from ok [OF mp(1) True] show ?thesis
    proof (cases rule: fits_cases)
      case (error e)
      then show ?thesis using m1 by (simp add: eq)
    next
      case (proxies prs)
      have "mget (mg_provs m1) (pc_Name (prov_cfg (mp_provider mp))) \<noteq> None" using mgr_get [OF wf mp(1)] by (simp add: m1_def)
      from add_results [OF m1 disjI1 [OF proxies(1)] _ this, of cfg] proxies show ?thesis
        by (auto simp: eq) (auto simp: m1_def)
    qed
  next
    case False
    from drop_results [OF m1, of n] mp False show ?thesis
      by (auto simp: SetProviderEnabled_def cfg_def m1_def Let_def)
  qed
qed

lemma SetProviderPublic_step:
  assumes wf: "mgr_wf m"
  shows "mgr_wf (snd (SetProviderPublic w n b m))"
proof (cases "mget (mg_provs m) n")
  case None
  then show ?thesis using wf by (simp add: SetProviderPublic_def)
next
  case (Some mp)
  have "mgr_wf (m\<lparr>mg_provs := mput n (mp\<lparr>mp_cfg := (mp_cfg mp)\<lparr>pc_Public := b\<rparr>\<rparr>) (mg_provs m)\<rparr>)"
    using mgr_get [OF wf Some] by (intro mgr_wf_put [OF wf]) simp_all
  then show ?thesis using Some wf by (simp add: SetProviderPublic_def Let_def)
qed

lemma SetProviderWeight_effect:
  assumes wf: "mgr_wf m" and get: "mget (mg_provs m) n = Some mp" and w: "w \<le> MaxInt32" and v: "v = max 1 w"
  shows "\<exists>t. SetProviderWeight wo n w m = Inr (None, t) \<and> mgr_wf t \<and>
    mg_provs t = mput n (mp\<lparr>mp_weight := v, mp_cfg := (mp_cfg mp)\<lparr>pc_Weight := v\<rparr>\<rparr>) (mg_provs m) \<and>
    (mg_persist m \<noteq> None \<longrightarrow> mg_persist t = fst (SaveProvider wo ((mp_cfg mp)\<lparr>pc_Weight := v\<rparr>) (mg_persist m))) \<and>
    pl_proxies (mg_pool t) = pl_proxies (mg_pool m) \<and>
    (\<forall>k a. Get k (mg_pool m) = Some a \<longrightarrow> pl_heap (mg_pool t) a =
       (if px_Provider (pl_heap (mg_pool m) a) = n then (pl_heap (mg_pool m) a)\<lparr>px_Weight := v\<rparr> else pl_heap (mg_pool m) a))"
proof -
  define m1 where "m1 = m\<lparr>mg_provs := mput n (mp\<lparr>mp_weight := v, mp_cfg := (mp_cfg mp)\<lparr>pc_Weight := v\<rparr>\<rparr>) (mg_provs m)\<rparr>"
  have m1: "mgr_wf m1" unfolding m1_def using mgr_get [OF wf get] by (intro mgr_wf_put [OF wf]) simp_all
  obtain as p1 where all: "All (mg_pool m) = (as, p1)" by fastforce
  have if_max: "(if w \<le> 0 then 1 else w) = v" using v by simp
  have "1 \<le> v" "v \<le> MaxInt32" using v w by (simp_all add: MaxInt32_def)
  then obtain q where q: "Rebuild (update_loop n (\<lambda>pr. pr\<lparr>px_Weight := v\<rparr>) as p1) = Inr q" "mgr_wf (m1\<lparr>mg_pool := q\<rparr>)"
    "pl_proxies q = pl_proxies (mg_pool m1)"
    "\<forall>k a. Get k (mg_pool m1) = Some a \<longrightarrow> pl_heap q a =
       (if px_Provider (pl_heap (mg_pool m1) a) = n then (pl_heap (mg_pool m1) a)\<lparr>px_Weight := v\<rparr> else pl_heap (mg_pool m1) a)"
    using reweigh_results [OF m1, of "as" p1 "\<lambda>pr. pr\<lparr>px_Weight := v\<rparr>" n] all by (auto simp: m1_def)
  have "SetProviderWeight wo n w m = Inr (None, persist_provider wo ((mp_cfg mp)\<lparr>pc_Weight := v\<rparr>) (m1\<lparr>mg_pool := q\<rparr>))"
    using get all q(1) by (simp add: SetProviderWeight_def if_max m1_def Let_def)
  then show ?thesis using q by (simp add: m1_def persist_provider_def)
qed

lemma SetProviderPriority_effect:
  assumes wf: "mgr_wf m" and get: "mget (mg_provs m) n = Some mp" and r: "0 \<le> r" "r \<le> 1"
  shows "\<exists>t. SetProviderPriority wo n v r m = Inr (None, t) \<and> mgr_wf t \<and>
    pl_proxies (mg_pool t) = pl_proxies (mg_pool m) \<and>
    (\<forall>k a. Get k (mg_pool m) = Some a \<longrightarrow> pl_heap (mg_pool t) a =
       (if px_Provider (pl_heap (mg_pool m) a) = n then (pl_heap (mg_pool m) a)\<lparr>px_Priority := v, px_MinAliveRatio := r\<rparr>
        else pl_heap (mg_pool m) a))"
proof -
  let ?cfg = "(mp_cfg mp)\<lparr>pc_Priority := v, pc_MinAliveRatio := r\<rparr>"
  let ?f = "\<lambda>pr. pr\<lparr>px_Priority := v, px_MinAliveRatio := r\<rparr>"
  define m1 where "m1 = m\<lparr>mg_provs := mput n (mp\<lparr>mp_cfg := ?cfg\<rparr>) (mg_provs m)\<rparr>"
  have m1: "mgr_wf m1" unfolding m1_def using mgr_get [OF wf get] by (intro mgr_wf_put [OF wf]) simp_all
  obtain as p1 where all: "All (mg_pool m) = (as, p1)" by fastforce
  obtain q where q: "Rebuild (update_loop n ?f as p1) = Inr q" "mgr_wf (m1\<lparr>mg_pool := q\<rparr>)"
    "pl_proxies q = pl_proxies (mg_pool m1)"
    "\<forall>k a. Get k (mg_pool m1) = Some a \<longrightarrow> pl_heap q a =
       (if px_Provider (pl_heap (mg_pool m1) a) = n then ?f (pl_heap (mg_pool m1) a) else pl_heap (mg_pool m1) a)"
    using reweigh_results [OF m1, of "as" p1 ?f n] all by (auto simp: m1_def)
  have "SetProviderPriority wo n v r m = Inr (None, persist_provider wo ?cfg (m1\<lparr>mg_pool := q\<rparr>))"
    using get all q(1) r by (simp add: SetProviderPriority_def m1_def Let_def)
  then show ?thesis using q by (simp add: m1_def)
qed

lemma RemoveProvider_step: "mgr_wf m \<Longrightarrow> \<exists>e t. RemoveProvider w n m = Inr (e, t) \<and> mgr_wf t"
  using RemoveProvider_effect [of m n _ w] by (cases "mget (mg_provs m) n") (auto simp: RemoveProvider_def)

lemma SetProviderWeight_step:
  assumes "mgr_wf m" "v \<le> MaxInt32"
  shows "\<exists>e t. SetProviderWeight w n v m = Inr (e, t) \<and> mgr_wf t"
proof (cases "mget (mg_provs m) n")
  case None
  then show ?thesis using assms by (simp add: SetProviderWeight_def Let_def)
next
  case (Some mp)
  from SetProviderWeight_effect [OF assms(1) Some assms(2) refl, of w] show ?thesis by blast
qed

lemma SetProviderPriority_step:
  assumes "mgr_wf m"
  shows "\<exists>e t. SetProviderPriority w n v r m = Inr (e, t) \<and> mgr_wf t"
proof (cases "r < 0 \<or> r > 1 \<or> mget (mg_provs m) n = None")
  case True
  then show ?thesis using assms by (auto simp: SetProviderPriority_def)
next
  case False
  then obtain mp where "mget (mg_provs m) n = Some mp" "0 \<le> r" "r \<le> 1" by auto
  from SetProviderPriority_effect [OF assms this, of w v] show ?thesis by blast
qed

lemma RefreshProvider_effect:
  assumes wf: "mgr_wf m" and get: "mget (mg_provs m) n = Some mp"
    and r: "Provider_Refresh ev (mp_provider mp) = Inr (Inr (Some prs))"
    and len: "length (pl_proxies (mg_pool m)) + length prs \<le> 4294967296"
  shows "\<exists>t. RefreshProvider ev n m = Inr (None, t) \<and> mgr_wf t \<and> mg_persist t = mg_persist m \<and>
    mg_provs t = mput n (mp\<lparr>mp_lastErr := None, mp_lastOK := ev_now ev\<rparr>) (mg_provs m) \<and>
    length (pl_proxies (mg_pool t)) \<le> length (pl_proxies (mg_pool m)) + length prs \<and>
    (\<forall>k. Get k (mg_pool t) \<noteq> None \<longrightarrow> Get k (mg_pool m) \<noteq> None \<or> k \<in> px_ID ` set prs) \<and>
    (\<forall>k a. Get k (mg_pool t) = Some a \<longrightarrow> \<not> expired (ev_now ev) (pl_heap (mg_pool t) a)) \<and>
    (\<forall>k a. Get k (mg_pool m) = Some a \<and> k \<notin> px_ID ` set prs \<longrightarrow>
       Get k (mg_pool t) = (if expired (ev_now ev) (pl_heap (mg_pool m) a) then None else Some a))"
proof -
  let ?p = "mg_pool m"
  have nm: "pc_Name (prov_cfg (mp_provider mp)) = n" "pc_Name (mp_cfg mp) = n" using mgr_get [OF wf get] by simp_all
  then have g: "mget (mg_provs m) (pc_Name (prov_cfg (mp_provider mp))) \<noteq> None" using get by simp
  have len': "length (pl_proxies ?p) + length (slice_of (Some prs)) \<le> 4294967296" using len by simp
  obtain q where q: "addProxies (mp_cfg mp) prs ?p = Inr q" "mgr_wf (m\<lparr>mg_pool := q\<rparr>)"
    "length (pl_proxies q) \<le> length (pl_proxies ?p) + length prs"
    "\<forall>k. Get k q \<noteq> None \<longleftrightarrow> Get k ?p \<noteq> None \<or> k \<in> px_ID ` set prs"
    "\<forall>k a. Get k q = Some a \<longrightarrow> px_Provider (pl_heap q a) = n \<or> Get k ?p = Some a \<and> pl_heap q a = pl_heap ?p a"
    "\<forall>k a. Get k ?p = Some a \<and> k \<notin> px_ID ` set prs \<longrightarrow> Get k q = Some a \<and> pl_heap q a = pl_heap ?p a"
    using add_results [OF wf disjI2 [OF r] len' g, of "mp_cfg mp"] nm(1) by (elim exE conjE) (rule that, simp_all)
  have pq: "pool_wf q" "named (mg_provs m)" "owned (mg_provs m) q" using q(2) by (simp_all add: mgr_wf_def)
  obtain c t where t: "RemoveExpired (ev_now ev) q = Inr (c, t)" "pool_wf t" "pl_heap t = pl_heap q" "length (pl_proxies t) \<le> length (pl_proxies q)"
    "\<forall>k a. Get k t = Some a \<longleftrightarrow> Get k q = Some a \<and> \<not> expired (ev_now ev) (pl_heap q a)"
    using RemoveExpired_effect [OF pq(1), of "ev_now ev"] by (elim exE conjE) (rule that)
  have "owned (mg_provs m) t" using pq(3) t(3,5) by (auto simp: owned_def)
  then have wft: "mgr_wf (m\<lparr>mg_pool := t, mg_provs := mput n (mp\<lparr>mp_lastErr := None, mp_lastOK := ev_now ev\<rparr>) (mg_provs m)\<rparr>)"
    using t(2) pq(2) nm by (auto simp: mgr_wf_def)
  have "RefreshProvider ev n m = Inr (None, m\<lparr>mg_pool := t, mg_provs := mput n (mp\<lparr>mp_lastErr := None, mp_lastOK := ev_now ev\<rparr>) (mg_provs m)\<rparr>)"
    using get r q(1) t(1) by (simp add: RefreshProvider_def)
  moreover have "Get k t = (if expired (ev_now ev) (pl_heap ?p a) then None else Some a)" if "Get k ?p = Some a" "k \<notin> px_ID ` set prs" for k a
    using q(6) [rule_format, OF conjI [OF that]] t(5) [rule_format, of k a] t(5) [rule_format, of k] 
    by (cases "Get k t") (simp_all, metis)
  moreover have "Get k ?p \<noteq> None \<or> k \<in> px_ID ` set prs" if "Get k t \<noteq> None" for k using that t(5) q(4) by auto
  ultimately show ?thesis using wft t(3,4,5) q(3) by auto
qed

lemma RefreshProvider_step:
  assumes wf: "mgr_wf m" and ok: "\<And>mp. mget (mg_provs m) n = Some mp \<Longrightarrow> fits (Provider_Refresh ev (mp_provider mp)) (mg_pool m)"
  shows "\<exists>e t. RefreshProvider ev n m = Inr (e, t) \<and> mgr_wf t"
proof (cases "mget (mg_provs m) n")
  case None
  then show ?thesis using wf by (simp add: RefreshProvider_def)
next
  case (Some mp)
  from ok [OF Some] show ?thesis
  proof (cases rule: fits_cases)
    case (error e)
    have "mgr_wf (m\<lparr>mg_provs := mput n (mp\<lparr>mp_lastErr := Some e\<rparr>) (mg_provs m)\<rparr>)"
      using mgr_get [OF wf Some] by (intro mgr_wf_put [OF wf]) simp_all
    then show ?thesis using Some error by (simp add: RefreshProvider_def Let_def)
  next
    case (proxies prs)
    then show ?thesis using RefreshProvider_effect [OF wf Some, of ev] wf Some
      by (cases prs) (auto simp: RefreshProvider_def)
  qed
qed

lemma load_one_step:
  assumes wf: "mgr_wf m" and ok: "\<And>mp. mget (mg_provs m) n = Some mp \<Longrightarrow> fits (Provider_Initial ev (mp_provider mp)) (mg_pool m)"
  shows "\<exists>t. load_one ev n m = Inr t \<and> mgr_wf t"
proof (cases "mget (mg_provs m) n")
  case None
  then show ?thesis using wf by (simp add: load_one_def)
next
  case (Some mp)
  note g = mgr_get [OF wf Some]
  from ok [OF Some] show ?thesis
  proof (cases rule: fits_cases)
    case (error e)
    have "mgr_wf (m\<lparr>mg_provs := mput n (mp\<lparr>mp_lastErr := Some e\<rparr>) (mg_provs m)\<rparr>)"
      using g by (intro mgr_wf_put [OF wf]) simp_all
    then show ?thesis using Some error by (simp add: load_one_def)
  next
    case (proxies prs)
    obtain q where q: "addProxies (mp_cfg mp) (slice_of prs) (mg_pool m) = Inr q" "mgr_wf (m\<lparr>mg_pool := q\<rparr>)"
      using add_results [OF wf disjI1 [OF proxies(1)] proxies(2), of "mp_cfg mp"] g Some by auto
    have "mgr_wf ((m\<lparr>mg_pool := q\<rparr>)\<lparr>mg_provs := mput n (mp\<lparr>mp_lastOK := ev_now ev\<rparr>) (mg_provs (m\<lparr>mg_pool := q\<rparr>))\<rparr>)"
      using g by (intro mgr_wf_put [OF q(2)]) simp_all
    then show ?thesis using Some proxies(1) q(1) by (simp add: load_one_def)
  qed
qed

subsection \<open>Countries\<close>

lemma set_countries_effect:
  assumes "pool_wf p"
  shows "\<exists>q. set_countries ids c p = Inr q \<and> pool_wf q \<and> pl_proxies q = pl_proxies p \<and>
    (\<forall>k a. Get k p = Some a \<longrightarrow> pl_heap q a = (if k \<in> set ids then (pl_heap p a)\<lparr>px_Country := c\<rparr> else pl_heap p a))"
  using assms
proof (induction ids arbitrary: p)
  case (Cons i ids)
  obtain p1 where p1: "SetCountry i c p = Inr p1" "pool_wf p1" "pl_proxies p1 = pl_proxies p"
    "\<forall>k a. Get k p = Some a \<longrightarrow> pl_heap p1 a = (if k = i then (pl_heap p a)\<lparr>px_Country := c\<rparr> else pl_heap p a)"
  proof (cases "Get i p")
    case None
    then show ?thesis using Cons.prems by (intro that [of p]) (auto simp: SetCountry_def Get_def)
  next
    case (Some b)
    have "a \<noteq> b" if "Get k p = Some a" "k \<noteq> i" for k a
      using that Some pool_get(2) [OF Cons.prems, of k a] pool_get(2) [OF Cons.prems, of i b] by (auto simp: Get_def)
    moreover obtain p1 where "SetCountry i c p = Inr p1" "pool_wf p1" "pl_proxies p1 = pl_proxies p"
      "pl_heap p1 = (pl_heap p)(b := (pl_heap p b)\<lparr>px_Country := c\<rparr>)" using SetCountry_effect [OF Cons.prems Some, of c] by blast
    ultimately show ?thesis using Some by (intro that [of p1]) auto
  qed
  obtain q where q: "set_countries ids c p1 = Inr q" "pool_wf q" "pl_proxies q = pl_proxies p1"
    "\<forall>k a. Get k p1 = Some a \<longrightarrow> pl_heap q a = (if k \<in> set ids then (pl_heap p1 a)\<lparr>px_Country := c\<rparr> else pl_heap p1 a)"
    using Cons.IH [OF p1(2)] by (elim exE conjE) (rule that)
  then show ?case using p1 by (intro exI [of _ q]) (auto simp: Get_def)
qed simp

text \<open>One round of enrichment: each id of the table gets the country of its address.\<close>

lemma enrich_loop_effect:
  assumes "pool_wf p" "distinct (map fst us)" "\<forall>ip ids ip' ids' k. (ip, ids) \<in> set us \<longrightarrow> (ip', ids') \<in> set us \<longrightarrow> k \<in> set ids \<longrightarrow> k \<in> set ids' \<longrightarrow> ip = ip'"
  shows "\<exists>q. enrich_loop res us p = Inr q \<and> pool_wf q \<and> pl_proxies q = pl_proxies p \<and>
    (\<forall>k a. Get k p = Some a \<longrightarrow>
       (\<forall>ip ids. (ip, ids) \<in> set us \<and> k \<in> set ids \<and> mget0 [] res ip \<noteq> [] \<longrightarrow> pl_heap q a = (pl_heap p a)\<lparr>px_Country := mget0 [] res ip\<rparr>) \<and>
       ((\<forall>ip ids. (ip, ids) \<in> set us \<and> k \<in> set ids \<longrightarrow> mget0 [] res ip = []) \<longrightarrow> pl_heap q a = pl_heap p a))"
  using assms
proof (induction us arbitrary: p)
  case (Cons u us)
  obtain ip ids where u: "u = (ip, ids)" by (cases u)
  let ?c = "mget0 [] res ip"
  obtain p1 where p1: "enrich_loop res (u # us) p = enrich_loop res us p1" "pool_wf p1" "pl_proxies p1 = pl_proxies p"
    "\<forall>k a. Get k p = Some a \<longrightarrow> pl_heap p1 a = (if k \<in> set ids \<and> ?c \<noteq> [] then (pl_heap p a)\<lparr>px_Country := ?c\<rparr> else pl_heap p a)"
  proof (cases "?c = []")
    case True
    then show ?thesis using Cons.prems(1) by (intro that [of p]) (simp_all add: u)
  next
    case False
    then show ?thesis using set_countries_effect [OF Cons.prems(1), of ids ?c] by (auto simp: u intro: that)
  qed
  have rest: "distinct (map fst us)" "\<forall>ip ids ip' ids' k. (ip, ids) \<in> set us \<longrightarrow> (ip', ids') \<in> set us \<longrightarrow> k \<in> set ids \<longrightarrow> k \<in> set ids' \<longrightarrow> ip = ip'"
    using Cons.prems(2,3) by (simp, meson list.set_intros(2))
  obtain q where q: "enrich_loop res us p1 = Inr q" "pool_wf q" "pl_proxies q = pl_proxies p1"
    "\<forall>k a. Get k p1 = Some a \<longrightarrow>
       (\<forall>ip ids. (ip, ids) \<in> set us \<and> k \<in> set ids \<and> mget0 [] res ip \<noteq> [] \<longrightarrow> pl_heap q a = (pl_heap p1 a)\<lparr>px_Country := mget0 [] res ip\<rparr>) \<and>
       ((\<forall>ip ids. (ip, ids) \<in> set us \<and> k \<in> set ids \<longrightarrow> mget0 [] res ip = []) \<longrightarrow> pl_heap q a = pl_heap p1 a)"
    using Cons.IH [OF p1(2) rest] by (elim exE conjE) (rule that)
  have clash: "k \<notin> set ids'" if "k \<in> set ids" "(ip', ids') \<in> set us" for k ip' ids'
  proof
    assume "k \<in> set ids'"
    then have "ip = ip'" using Cons.prems(3) that u by (meson list.set_intros)
    then show False using Cons.prems(2) that(2) by (force simp: u)
  qed
  have g: "Get k p1 = Get k p" for k by (simp add: Get_def p1(3))
  have "(\<forall>ip ids. (ip, ids) \<in> set (u # us) \<and> k \<in> set ids \<and> mget0 [] res ip \<noteq> [] \<longrightarrow> pl_heap q a = (pl_heap p a)\<lparr>px_Country := mget0 [] res ip\<rparr>) \<and>
       ((\<forall>ip ids. (ip, ids) \<in> set (u # us) \<and> k \<in> set ids \<longrightarrow> mget0 [] res ip = []) \<longrightarrow> pl_heap q a = pl_heap p a)"
    if k: "Get k p = Some a" for k a
  proof (cases "k \<in> set ids")
    case True
    then have "pl_heap q a = pl_heap p1 a" using q(4) [rule_format, of k a] k g [of k] clash by auto
    then show ?thesis using p1(4) k True clash by (auto simp: u)
  next
    case False
    then have "pl_heap p1 a = pl_heap p a" using p1(4) k by simp
    then show ?thesis using q(4) [rule_format, of k a] k g [of k] False u by auto
  qed
  then show ?case using p1 q(1,2,3) by (intro exI [of _ q]) simp
qed simp

definition note_unresolved :: "(addr \<Rightarrow> Proxy) \<Rightarrow> string \<times> addr \<Rightarrow> (string, string list) gomap \<Rightarrow> (string, string list) gomap" where
  "note_unresolved h x out =
     (let pr = h (snd x) in if px_Country pr = [] then mput (px_Host pr) (mget0 [] out (px_Host pr) @ [fst x]) out else out)"

lemma note_unresolved_fold:
  "mwf out \<Longrightarrow> mwf (fold (note_unresolved h) es out) \<and>
   (\<forall>ip. set (mget0 [] (fold (note_unresolved h) es out) ip) =
      set (mget0 [] out ip) \<union> {k. \<exists>a. (k, a) \<in> set es \<and> px_Country (h a) = [] \<and> px_Host (h a) = ip}) \<and>
   (\<forall>ip. mget (fold (note_unresolved h) es out) ip \<noteq> None \<longleftrightarrow>
      mget out ip \<noteq> None \<or> (\<exists>k a. (k, a) \<in> set es \<and> px_Country (h a) = [] \<and> px_Host (h a) = ip))"
proof (induction es arbitrary: out)
  case (Cons x es)
  obtain k a where x: "x = (k, a)" by (cases x)
  have "mwf (note_unresolved h x out)" using Cons.prems by (simp add: note_unresolved_def Let_def wf_intros)
  note IH = Cons.IH [OF this]
  have 1: "set (mget0 [] (note_unresolved h x out) ip) =
      set (mget0 [] out ip) \<union> {k'. k' = k \<and> px_Country (h a) = [] \<and> px_Host (h a) = ip}" for ip
    by (auto simp: note_unresolved_def x Let_def)
  have 2: "mget (note_unresolved h x out) ip \<noteq> None \<longleftrightarrow> mget out ip \<noteq> None \<or> px_Country (h a) = [] \<and> px_Host (h a) = ip" for ip
    by (auto simp: note_unresolved_def x Let_def)
  have fc: "fold (note_unresolved h) (x # es) out = fold (note_unresolved h) es (note_unresolved h x out)" by simp
  show ?case
  proof (intro conjI allI)
    show "mwf (fold (note_unresolved h) (x # es) out)" using IH by simp
    show "set (mget0 [] (fold (note_unresolved h) (x # es) out) ip) =
      set (mget0 [] out ip) \<union> {k. \<exists>a. (k, a) \<in> set (x # es) \<and> px_Country (h a) = [] \<and> px_Host (h a) = ip}" for ip
      by (simp only: fc IH [THEN conjunct2, THEN conjunct1, rule_format] 1) (auto simp: x)
    show "mget (fold (note_unresolved h) (x # es) out) ip \<noteq> None \<longleftrightarrow>
      mget out ip \<noteq> None \<or> (\<exists>k a. (k, a) \<in> set (x # es) \<and> px_Country (h a) = [] \<and> px_Host (h a) = ip)" for ip
      by (simp only: fc IH [THEN conjunct2, THEN conjunct2, rule_format] 2) (auto simp: x)
  qed
qed simp

lemma UnresolvedCountries_spec:
  assumes wf: "pool_wf p" and un: "UnresolvedCountries p = (us, p1)"
  shows "mwf us" "\<exists>r. p1 = p\<lparr>pl_rng := r\<rparr>"
    "(\<exists>ids. (ip, ids) \<in> set us) \<longleftrightarrow> (\<exists>k a. Get k p = Some a \<and> px_Country (pl_heap p a) = [] \<and> px_Host (pl_heap p a) = ip)"
    "(ip, ids) \<in> set us \<Longrightarrow> k \<in> set ids \<longleftrightarrow> (\<exists>a. Get k p = Some a \<and> px_Country (pl_heap p a) = [] \<and> px_Host (pl_heap p a) = ip)"
proof -
  let ?h = "pl_heap p"
  obtain es r where es: "range_order (pl_proxies p) (pl_rng p) = (es, r)" by fastforce
  have "fold (\<lambda>(k, a) out. let pr = ?h a in if px_Country pr = [] then mput (px_Host pr) (mget0 [] out (px_Host pr) @ [k]) out else out) es []
      = fold (note_unresolved ?h) es []"
    by (rule fold_cong) (auto simp: note_unresolved_def fun_eq_iff Let_def)
  then have us: "us = fold (note_unresolved ?h) es []" and p1: "p1 = p\<lparr>pl_rng := r\<rparr>"
    using un unfolding UnresolvedCountries_def es by simp_all
  then show "\<exists>r. p1 = p\<lparr>pl_rng := r\<rparr>" by blast
  have "mwf ([] :: (string, string list) gomap)" by (simp add: mwf_def mkeys_def)
  note f = note_unresolved_fold [OF this, of ?h es, folded us]
  then show u: "mwf us" by blast
  have pw: "mwf (pl_proxies p)" using wf by (simp add: pool_wf_def registry_wf_def)
  have "set es = set (pl_proxies p)" using range_order_perm [of "pl_proxies p" "pl_rng p"] es by (metis fst_conv set_mset_mset)
  then have mem: "(k, a) \<in> set es \<longleftrightarrow> Get k p = Some a" for k a using mwf_mget [OF pw] by (simp add: Get_def)
  show "(\<exists>ids. (ip, ids) \<in> set us) \<longleftrightarrow> (\<exists>k a. Get k p = Some a \<and> px_Country (?h a) = [] \<and> px_Host (?h a) = ip)"
    using f mem by (auto simp: mwf_mget [OF u, symmetric])
  show "k \<in> set ids \<longleftrightarrow> (\<exists>a. Get k p = Some a \<and> px_Country (?h a) = [] \<and> px_Host (?h a) = ip)" if "(ip, ids) \<in> set us"
  proof -
    have "mget us ip = Some ids" using that mwf_mget [OF u] by blast
    then have "mget0 [] us ip = ids" by (simp add: mget0_def)
    then show ?thesis using f mem by auto
  qed
qed

text \<open>The two permutations \<^verbatim>\<open>enrichOnce\<close> runs through, and what the loop does with the answers.\<close>

lemma enrich_pool:
  assumes wf: "pool_wf p" and un: "UnresolvedCountries p = (us, p1)" and perm: "mset e2 = mset us" and wf2: "pool_wf (p1\<lparr>pl_rng := r2\<rparr>)"
  shows "\<exists>q. enrich_loop res e2 (p1\<lparr>pl_rng := r2\<rparr>) = Inr q \<and> pool_wf q \<and> pl_proxies q = pl_proxies p \<and>
    (\<forall>k a pr. Get k p = Some a \<and> pr = pl_heap p a \<longrightarrow>
       pl_heap q a = (if px_Country pr = [] then pr\<lparr>px_Country := mget0 [] res (px_Host pr)\<rparr> else pr))"
proof -
  note u = UnresolvedCountries_spec [OF wf un]
  obtain r where p1: "p1 = p\<lparr>pl_rng := r\<rparr>" using u(2) by blast
  have s: "set e2 = set us" using perm by (metis set_mset_mset)
  have "mset (map fst e2) = mset (map fst us)" using perm by simp
  then have d: "distinct (map fst e2)" using u(1) by (metis mwf_def mkeys_def mset_eq_imp_distinct_iff)
  have apart: "\<forall>ip ids ip' ids' k. (ip, ids) \<in> set e2 \<longrightarrow> (ip', ids') \<in> set e2 \<longrightarrow> k \<in> set ids \<longrightarrow> k \<in> set ids' \<longrightarrow> ip = ip'"
    using u(4) unfolding s by (metis option.inject)
  obtain q where q: "enrich_loop res e2 (p1\<lparr>pl_rng := r2\<rparr>) = Inr q" "pool_wf q" "pl_proxies q = pl_proxies p"
    "\<forall>k a. Get k p = Some a \<longrightarrow>
       (\<forall>ip ids. (ip, ids) \<in> set e2 \<and> k \<in> set ids \<and> mget0 [] res ip \<noteq> [] \<longrightarrow> pl_heap q a = (pl_heap p a)\<lparr>px_Country := mget0 [] res ip\<rparr>) \<and>
       ((\<forall>ip ids. (ip, ids) \<in> set e2 \<and> k \<in> set ids \<longrightarrow> mget0 [] res ip = []) \<longrightarrow> pl_heap q a = pl_heap p a)"
    using enrich_loop_effect [OF wf2 d apart, of res] by (elim exE conjE) (rule that, simp_all add: p1 Get_def)
  have "pl_heap q a = (if px_Country (pl_heap p a) = [] then (pl_heap p a)\<lparr>px_Country := mget0 [] res (px_Host (pl_heap p a))\<rparr> else pl_heap p a)"
    if k: "Get k p = Some a" for k a
  proof (cases "px_Country (pl_heap p a) = []")
    case True
    let ?ip = "px_Host (pl_heap p a)"
    obtain ids where ids: "(?ip, ids) \<in> set us" using u(3) [of ?ip] k True by blast
    then have mem: "k \<in> set ids" using u(4) k True by blast
    show ?thesis
    proof (cases "mget0 [] res ?ip = []")
      case True
      have "mget0 [] res ip = []" if "(ip, ids') \<in> set e2" "k \<in> set ids'" for ip ids'
        using apart [rule_format, OF that(1) _ that(2) mem, of ?ip] ids True by (simp add: s)
      then have "pl_heap q a = pl_heap p a" using q(4) [rule_format, OF k] by blast
      then show ?thesis using True \<open>px_Country (pl_heap p a) = []\<close> by simp
    next
      case False
      then show ?thesis using q(4) [rule_format, OF k] ids mem \<open>px_Country (pl_heap p a) = []\<close> by (auto simp: s)
    qed
  next
    case False
    have "k \<notin> set ids" if "(ip, ids) \<in> set e2" for ip ids using u(4) [of ip ids k] that False k by (auto simp: s)
    then show ?thesis using q(4) [rule_format, OF k] False by auto
  qed
  then show ?thesis using q(1,2,3) by blast
qed

lemma enrichOnce_effect:
  assumes wf: "mgr_wf m"
  shows "\<exists>ips t. set ips = {px_Host (pl_heap (mg_pool m) a) |k a. Get k (mg_pool m) = Some a \<and> px_Country (pl_heap (mg_pool m) a) = []} \<and>
    enrichOnce lookup m = Inr t \<and> mgr_wf t \<and> t = m\<lparr>mg_pool := mg_pool t\<rparr> \<and> pl_proxies (mg_pool t) = pl_proxies (mg_pool m) \<and>
    (\<forall>k a pr. Get k (mg_pool m) = Some a \<and> pr = pl_heap (mg_pool m) a \<longrightarrow>
       pl_heap (mg_pool t) a = (if px_Country pr = [] then pr\<lparr>px_Country := mget0 [] (lookup ips) (px_Host pr)\<rparr> else pr))"
proof -
  let ?p = "mg_pool m"
  have pw: "pool_wf ?p" "named (mg_provs m)" "owned (mg_provs m) ?p" using wf by (simp_all add: mgr_wf_def)
  obtain us p1 where un: "UnresolvedCountries ?p = (us, p1)" by fastforce
  note u = UnresolvedCountries_spec [OF pw(1) un]
  obtain r where p1: "p1 = ?p\<lparr>pl_rng := r\<rparr>" using u(2) by blast
  obtain e1 r1 where e1: "range_order us (pl_rng p1) = (e1, r1)" by fastforce
  obtain e2 r2 where e2: "range_order us r1 = (e2, r2)" by fastforce
  have s: "set e1 = set us" "mset e2 = mset us"
    using range_order_perm [of us "pl_rng p1"] range_order_perm [of us r1] e1 e2 by (metis fst_conv set_mset_mset, simp)
  have ips: "set (map fst e1) = {px_Host (pl_heap ?p a) |k a. Get k ?p = Some a \<and> px_Country (pl_heap ?p a) = []}"
  proof (rule set_eqI)
    fix ip
    have "ip \<in> set (map fst e1) \<longleftrightarrow> (\<exists>ids. (ip, ids) \<in> set us)" by (force simp: s(1))
    then show "ip \<in> set (map fst e1) \<longleftrightarrow> ip \<in> {px_Host (pl_heap ?p a) |k a. Get k ?p = Some a \<and> px_Country (pl_heap ?p a) = []}"
      unfolding u(3) mem_Collect_eq by metis
  qed
  obtain q where q: "enrich_loop (lookup (map fst e1)) e2 (p1\<lparr>pl_rng := r2\<rparr>) = Inr q" "pool_wf q" "pl_proxies q = pl_proxies ?p"
    "\<forall>k a pr. Get k ?p = Some a \<and> pr = pl_heap ?p a \<longrightarrow>
       pl_heap q a = (if px_Country pr = [] then pr\<lparr>px_Country := mget0 [] (lookup (map fst e1)) (px_Host pr)\<rparr> else pr)"
    using enrich_pool [OF pw(1) un s(2), of r2 "lookup (map fst e1)"] pw(1) by (auto simp: p1)
  have keep: "owned (mg_provs m) q" if "pl_proxies q = pl_proxies ?p" "\<forall>k a. Get k ?p = Some a \<longrightarrow> px_Provider (pl_heap q a) = px_Provider (pl_heap ?p a)" for q
    using keeps_owned [OF _ pw(3), of q] that by (simp add: keeps_def Get_def)
  show ?thesis
  proof (cases "us = []")
    case True
    then have "enrichOnce lookup m = Inr (m\<lparr>mg_pool := p1\<rparr>)" by (simp add: enrichOnce_def un)
    moreover have "mgr_wf (m\<lparr>mg_pool := p1\<rparr>)" using pw keep [of p1] by (simp add: mgr_wf_def p1)
    moreover have "px_Country (pl_heap ?p a) \<noteq> []" if "Get k ?p = Some a" for k a using u(3) that True by auto
    ultimately show ?thesis using ips by (intro exI [of _ "map fst e1"] exI [of _ "m\<lparr>mg_pool := p1\<rparr>"]) (simp add: p1)
  next
    case False
    then have "enrichOnce lookup m = Inr (m\<lparr>mg_pool := q\<rparr>)" using q(1) by (simp add: enrichOnce_def un e1 e2 Let_def)
    moreover have "mgr_wf (m\<lparr>mg_pool := q\<rparr>)" using pw q(2) keep [OF q(3)] q(4) by (auto simp: mgr_wf_def)
    ultimately show ?thesis using ips q(3,4) by (intro exI [of _ "map fst e1"] exI [of _ "m\<lparr>mg_pool := q\<rparr>"]) simp
  qed
qed

subsection \<open>Sequences of operations\<close>

datatype mgr_op =
    MAttach "File option"
  | MSync rng write_outcome
  | MAdd env write_outcome ProviderCfg
  | MRemove write_outcome string
  | MUpdate env write_outcome string ProviderCfg
  | MEnable env write_outcome string bool
  | MPublic write_outcome string bool
  | MWeight write_outcome string int
  | MPriority write_outcome string int float64
  | MRefresh env string
  | MLoad env string
  | MEnrich "string list \<Rightarrow> (string, string) gomap"
  | MPool pool_op

definition run_pool :: "pool_op \<Rightarrow> Manager \<Rightarrow> Manager go" where
  "run_pool op m = bindE (run_op op (mg_pool m)) (\<lambda>q. Inr (m\<lparr>mg_pool := q\<rparr>))"

definition drop_err :: "('e \<times> 'm) go \<Rightarrow> 'm go" where
  "drop_err r = bindE r (\<lambda>(_, m). Inr m)"

fun run_mgr :: "mgr_op \<Rightarrow> Manager \<Rightarrow> Manager go" where
  "run_mgr (MAttach f) m = Inr (Manager_AttachStore f m)"
| "run_mgr (MSync r w) m = Inr (snd (SyncProvidersToStore r w m))"
| "run_mgr (MAdd ev w cfg) m = drop_err (AddProvider ev w cfg m)"
| "run_mgr (MRemove w n) m = drop_err (RemoveProvider w n m)"
| "run_mgr (MUpdate ev w n cfg) m = drop_err (UpdateProvider ev w n cfg m)"
| "run_mgr (MEnable ev w n b) m = drop_err (SetProviderEnabled ev w n b m)"
| "run_mgr (MPublic w n b) m = Inr (snd (SetProviderPublic w n b m))"
| "run_mgr (MWeight w n v) m = drop_err (SetProviderWeight w n v m)"
| "run_mgr (MPriority w n v r) m = drop_err (SetProviderPriority w n v r m)"
| "run_mgr (MRefresh ev n) m = drop_err (RefreshProvider ev n m)"
| "run_mgr (MLoad ev n) m = load_one ev n m"
| "run_mgr (MEnrich lookup) m = enrichOnce lookup m"
| "run_mgr (MPool op) m = run_pool op m"

text \<open>What an operation relies on: the provider does not panic and the pool has room for its proxies; weights are
  \<^verbatim>\<open>int32\<close> values; other components do not add proxies themselves.\<close>

fun mgr_ok :: "mgr_op \<Rightarrow> Manager \<Rightarrow> bool" where
  "mgr_ok (MAdd ev w cfg) m =
     (case New_provider cfg of Inl _ \<Rightarrow> True | Inr pv \<Rightarrow> pc_Enabled cfg \<longrightarrow> fits (Provider_Initial ev pv) (mg_pool m))"
| "mgr_ok (MUpdate ev w n cfg) m =
     (case New_provider (cfg\<lparr>pc_Name := n\<rparr>) of Inl _ \<Rightarrow> True
      | Inr pv \<Rightarrow> (case mget (mg_provs m) n of None \<Rightarrow> True | Some mp \<Rightarrow> mp_enabled mp \<longrightarrow> fits (Provider_Initial ev pv) (mg_pool m)))"
| "mgr_ok (MEnable ev w n b) m =
     (case mget (mg_provs m) n of None \<Rightarrow> True | Some mp \<Rightarrow> b \<longrightarrow> fits (Provider_Initial ev (mp_provider mp)) (mg_pool m))"
| "mgr_ok (MRefresh ev n) m =
     (case mget (mg_provs m) n of None \<Rightarrow> True | Some mp \<Rightarrow> fits (Provider_Refresh ev (mp_provider mp)) (mg_pool m))"
| "mgr_ok (MLoad ev n) m =
     (case mget (mg_provs m) n of None \<Rightarrow> True | Some mp \<Rightarrow> fits (Provider_Initial ev (mp_provider mp)) (mg_pool m))"
| "mgr_ok (MWeight w n v) m = (v \<le> MaxInt32)"
| "mgr_ok (MPool (OpAdd pr)) m = False"
| "mgr_ok (MPool op) m = op_ok op (mg_pool m)"
| "mgr_ok _ m = True"

lemma drop_err_step: "\<exists>e t. r = Inr (e, t) \<and> P t \<Longrightarrow> \<exists>t. drop_err r = Inr t \<and> P t"
  by (auto simp: drop_err_def)

lemma run_pool_wf:
  assumes wf: "mgr_wf m" and ok: "mgr_ok (MPool op) m"
  shows "\<exists>t. run_pool op m = Inr t \<and> mgr_wf t"
proof -
  have p: "pool_wf (mg_pool m)" "named (mg_provs m)" "owned (mg_provs m) (mg_pool m)" using wf by (simp_all add: mgr_wf_def)
  have op: "op_ok op (mg_pool m)" "\<forall>pr. op \<noteq> OpAdd pr" using ok by (cases op; simp)+
  obtain q where q: "run_op op (mg_pool m) = Inr q" "pool_wf q" using run_op_wf [OF p(1) op(1)] by blast
  have "owned (mg_provs m) q" by (rule keeps_owned [OF pool_op_keeps [OF p(1) q(1) op(2)] p(3)])
  then show ?thesis using p q by (simp add: run_pool_def mgr_wf_def)
qed

lemma run_mgr_wf:
  assumes wf: "mgr_wf m" and ok: "mgr_ok op m"
  shows "\<exists>t. run_mgr op m = Inr t \<and> mgr_wf t"
proof (cases op)
  case (MAttach f)
  then show ?thesis using wf by (simp add: Manager_AttachStore_def)
next
  case (MSync r w)
  then show ?thesis using wf by (simp add: SyncProvidersToStore_def Let_def case_prod_unfold)
next
  case (MAdd ev w cfg)
  have "\<exists>e t. AddProvider ev w cfg m = Inr (e, t) \<and> mgr_wf t"
    by (rule AddProvider_step [OF wf]) (use ok MAdd in auto)
  then show ?thesis using MAdd by (simp add: drop_err_step)
next
  case (MRemove w n)
  then show ?thesis using RemoveProvider_step [OF wf, of w n] by (simp add: drop_err_step)
next
  case (MUpdate ev w n cfg)
  have "\<exists>e t. UpdateProvider ev w n cfg m = Inr (e, t) \<and> mgr_wf t"
    by (rule UpdateProvider_step [OF wf]) (use ok MUpdate in auto)
  then show ?thesis using MUpdate by (simp add: drop_err_step)
next
  case (MEnable ev w n b)
  have "\<exists>e t. SetProviderEnabled ev w n b m = Inr (e, t) \<and> mgr_wf t"
    by (rule SetProviderEnabled_step [OF wf]) (use ok MEnable in auto)
  then show ?thesis using MEnable by (simp add: drop_err_step)
next
  case (MPublic w n b)
  then show ?thesis using SetProviderPublic_step [OF wf] by simp
next
  case (MWeight w n v)
  have "\<exists>e t. SetProviderWeight w n v m = Inr (e, t) \<and> mgr_wf t"
    by (rule SetProviderWeight_step [OF wf]) (use ok MWeight in simp)
  then show ?thesis using MWeight by (simp add: drop_err_step)
next
  case (MPriority w n v r)
  then show ?thesis using SetProviderPriority_step [OF wf, of w n v r] by (simp add: drop_err_step)
next
  case (MRefresh ev n)
  have "\<exists>e t. RefreshProvider ev n m = Inr (e, t) \<and> mgr_wf t"
    by (rule RefreshProvider_step [OF wf]) (use ok MRefresh in auto)
  then show ?thesis using MRefresh by (simp add: drop_err_step)
next
  case (MLoad ev n)
  have "\<exists>t. load_one ev n m = Inr t \<and> mgr_wf t"
    by (rule load_one_step [OF wf]) (use ok MLoad in auto)
  then show ?thesis using MLoad by simp
next
  case (MEnrich lookup)
  obtain t where "enrichOnce lookup m = Inr t" "mgr_wf t" using enrichOnce_effect [OF wf, of lookup] by (elim exE conjE) (rule that)
  then show ?thesis using MEnrich by simp
next
  case (MPool op)
  then show ?thesis using run_pool_wf [OF wf] ok by simp
qed

lemma new_manager_loop_wf:
  "new_manager_loop pcs m = Inr t \<Longrightarrow> mgr_wf m \<Longrightarrow> mgr_wf t"
proof (induction pcs arbitrary: m)
  case (Cons pc pcs)
  then obtain pv where pv: "New_provider pc = Inr pv"
    and r: "new_manager_loop pcs (m\<lparr>mg_provs := mput (pc_Name pc) (new_managed pv pc) (mg_provs m)\<rparr>) = Inr t"
    by (auto split: if_splits sum.splits)
  have "mgr_wf (m\<lparr>mg_provs := mput (pc_Name pc) (new_managed pv pc) (mg_provs m)\<rparr>)"
    using New_provider_cfg [OF pv] by (intro mgr_wf_put [OF Cons.prems(2)]) (simp_all add: new_managed_def)
  then show ?case by (rule Cons.IH [OF r])
qed simp

lemma NewManager_wf: "NewManager r cfg = Inr m \<Longrightarrow> mgr_wf m"
  unfolding NewManager_def
  using NewPool_wf [of r]
  by (elim new_manager_loop_wf) (simp add: mgr_wf_def named_def owned_def mwf_def mkeys_def Get_def NewPool_def)

inductive mgr_reachable :: "Manager \<Rightarrow> bool" where
  start: "NewManager r cfg = Inr m \<Longrightarrow> mgr_reachable m"
| step: "mgr_reachable m \<Longrightarrow> mgr_ok op m \<Longrightarrow> run_mgr op m = Inr t \<Longrightarrow> mgr_reachable t"

lemma mgr_reachable_wf: "mgr_reachable m \<Longrightarrow> mgr_wf m"
proof (induction rule: mgr_reachable.induct)
  case (start r cfg m)
  then show ?case by (rule NewManager_wf)
next
  case (step m op t)
  then show ?case using run_mgr_wf [of m op] by auto
qed

end
