(* ===== verification/Manager_Props.thy ===== *)
theory Manager_Props
  imports Manager_Step Config_Props
begin

section \<open>Properties of the provider manager\<close>

text \<open>
  The invariant over all sequences of operations, and the effect of the operations a user of the
  management API relies on.
\<close>

subsection \<open>A small manager for the witnesses\<close>

definition demo_mp :: managedProvider where
  "demo_mp = new_managed (StaticURLs (demo_prov\<lparr>pc_Name := ''p''\<rparr>)) (demo_prov\<lparr>pc_Name := ''p''\<rparr>)"

definition demo_mgr :: Manager where
  "demo_mgr = \<lparr>mg_pool = demo_pool, mg_provs = [(''p'', demo_mp)], mg_persist = None, mg_AlertEmit = True, mg_events = []\<rparr>"

lemma static_loop_length: "length (static_loop cfg seen us) \<le> length us"
  by (induction us arbitrary: seen) (auto simp: Let_def split: option.splits if_splits intro: le_SucI)

lemma demo_static: "\<exists>ps. StaticURLs_Refresh (demo_prov\<lparr>pc_Name := n\<rparr>) = Inr (Inr (Some ps)) \<and> length ps \<le> 1"
  using static_loop_length [of "demo_prov\<lparr>pc_Name := n\<rparr>" "[]" "pc_URLs demo_prov"]
  by (simp add: StaticURLs_Refresh_def) (simp add: demo_prov_def)

lemma demo_mgr_get: "mget (mg_provs demo_mgr) ''p'' = Some demo_mp"
  by (simp add: demo_mgr_def)

lemma demo_mgr_Get: "Get ''a'' (mg_pool demo_mgr) = Some 0" "Get ''b'' (mg_pool demo_mgr) = Some 1"
  by (simp_all add: Get_def demo_mgr_def demo_pool_def)

lemma demo_mgr_wf: "mgr_wf demo_mgr"
  using demo_pool_wf
  by (auto simp: mgr_wf_def demo_mgr_def named_def owned_def mwf_def mkeys_def demo_mp_def new_managed_def Get_def
    demo_pool_def demo_proxy_def split: if_splits)

subsection \<open>The invariant\<close>



text \<open>
  Removing a provider. An unknown name is an error that changes nothing; otherwise the provider is
  unregistered and exactly its proxies leave the pool.
\<close>

theorem remove_provider:
  assumes "mgr_wf m"
  shows "case mget (mg_provs m) n of
      None \<Rightarrow> RemoveProvider w n m = Inr (Some (ProviderNotFound n), m)
    | Some mp \<Rightarrow> \<exists>t. RemoveProvider w n m = Inr (None, t) \<and> mgr_wf t \<and> mg_provs t = mdel n (mg_provs m) \<and>
        (mg_persist m \<noteq> None \<longrightarrow> mg_persist t = fst (DeleteProvider w n (mg_persist m))) \<and>
        (\<forall>k a. Get k (mg_pool t) = Some a \<longleftrightarrow> Get k (mg_pool m) = Some a \<and> px_Provider (pl_heap (mg_pool m) a) \<noteq> n)"
proof (cases "mget (mg_provs m) n")
  case (Some mp)
  from RemoveProvider_effect [OF assms Some, of w] show ?thesis by (simp only: Some option.case)
qed (simp add: RemoveProvider_def)

theorem remove_provider_witness:
  "\<exists>t. RemoveProvider Written ''p'' demo_mgr = Inr (None, t) \<and> mgr_wf t \<and> (\<forall>k a. Get k (mg_pool t) \<noteq> Some a)"
proof -
  obtain t where t: "RemoveProvider Written ''p'' demo_mgr = Inr (None, t)" "mgr_wf t"
    "\<forall>k a. Get k (mg_pool t) = Some a \<longleftrightarrow> Get k (mg_pool demo_mgr) = Some a \<and> px_Provider (pl_heap (mg_pool demo_mgr) a) \<noteq> ''p''"
    using remove_provider [OF demo_mgr_wf, of Written "''p''"] unfolding demo_mgr_get option.case by (elim exE conjE) (rule that)
  have "Get k (mg_pool t) \<noteq> Some a" for k a
    using t(3) by (auto simp: demo_mgr_def demo_pool_def demo_proxy_def Get_def split: if_splits)
  then show ?thesis using t(1,2) by blast
qed



text \<open>
  Setting a provider's weight: it is at least 1, it reaches the registry, the provider file and every
  proxy of the provider, and nothing else of the pool changes.
\<close>

theorem set_provider_weight:
  assumes "mgr_wf m" "mget (mg_provs m) n = Some mp" "w \<le> MaxInt32" "v = max 1 w"
  shows "\<exists>t. SetProviderWeight wo n w m = Inr (None, t) \<and> mgr_wf t \<and>
    mg_provs t = mput n (mp\<lparr>mp_weight := v, mp_cfg := (mp_cfg mp)\<lparr>pc_Weight := v\<rparr>\<rparr>) (mg_provs m) \<and>
    (mg_persist m \<noteq> None \<longrightarrow> mg_persist t = fst (SaveProvider wo ((mp_cfg mp)\<lparr>pc_Weight := v\<rparr>) (mg_persist m))) \<and>
    (\<forall>k. Get k (mg_pool t) = Get k (mg_pool m)) \<and>
    (\<forall>k a. Get k (mg_pool m) = Some a \<longrightarrow> pl_heap (mg_pool t) a =
       (if px_Provider (pl_heap (mg_pool m) a) = n then (pl_heap (mg_pool m) a)\<lparr>px_Weight := v\<rparr> else pl_heap (mg_pool m) a))"
proof -
  obtain t where "SetProviderWeight wo n w m = Inr (None, t)" "mgr_wf t"
    "mg_provs t = mput n (mp\<lparr>mp_weight := v, mp_cfg := (mp_cfg mp)\<lparr>pc_Weight := v\<rparr>\<rparr>) (mg_provs m)"
    "mg_persist m \<noteq> None \<longrightarrow> mg_persist t = fst (SaveProvider wo ((mp_cfg mp)\<lparr>pc_Weight := v\<rparr>) (mg_persist m))"
    "pl_proxies (mg_pool t) = pl_proxies (mg_pool m)"
    "\<forall>k a. Get k (mg_pool m) = Some a \<longrightarrow> pl_heap (mg_pool t) a =
       (if px_Provider (pl_heap (mg_pool m) a) = n then (pl_heap (mg_pool m) a)\<lparr>px_Weight := v\<rparr> else pl_heap (mg_pool m) a)"
    using SetProviderWeight_effect [OF assms, of wo] by (elim exE conjE) (rule that)
  then show ?thesis by (intro exI [of _ t]) (simp add: Get_def)
qed

theorem set_provider_weight_witness:
  "\<exists>t. SetProviderWeight Written ''p'' 0 demo_mgr = Inr (None, t) \<and> px_Weight (pl_heap (mg_pool t) 0) = 1"
proof -
  have "(0::int) \<le> MaxInt32" "(1::int) = max 1 0" by (simp_all add: MaxInt32_def)
  from set_provider_weight [OF demo_mgr_wf demo_mgr_get this, of Written]
  obtain t where t: "SetProviderWeight Written ''p'' 0 demo_mgr = Inr (None, t)"
    "\<forall>k a. Get k (mg_pool demo_mgr) = Some a \<longrightarrow> pl_heap (mg_pool t) a =
       (if px_Provider (pl_heap (mg_pool demo_mgr) a) = ''p'' then (pl_heap (mg_pool demo_mgr) a)\<lparr>px_Weight := 1\<rparr> else pl_heap (mg_pool demo_mgr) a)"
    by (elim exE conjE) (rule that)
  have "px_Provider (pl_heap (mg_pool demo_mgr) 0) = ''p''" by (simp add: demo_mgr_def demo_pool_def demo_proxy_def)
  then show ?thesis using t(1) t(2) [rule_format, OF demo_mgr_Get(1)] by auto
qed

text \<open>
  Geolocation. One round asks for exactly the addresses of the proxies without a country, gives each
  of these proxies the country found for its own address, and leaves every other proxy alone.
\<close>

theorem geo_enrichment:
  assumes "mgr_wf m"
  shows "\<exists>ips t. set ips = {px_Host (pl_heap (mg_pool m) a) |k a. Get k (mg_pool m) = Some a \<and> px_Country (pl_heap (mg_pool m) a) = []} \<and>
    enrichOnce lookup m = Inr t \<and> mgr_wf t \<and> t = m\<lparr>mg_pool := mg_pool t\<rparr> \<and> (\<forall>k. Get k (mg_pool t) = Get k (mg_pool m)) \<and>
    (\<forall>k a pr. Get k (mg_pool m) = Some a \<and> pr = pl_heap (mg_pool m) a \<longrightarrow>
       pl_heap (mg_pool t) a = (if px_Country pr = [] then pr\<lparr>px_Country := mget0 [] (lookup ips) (px_Host pr)\<rparr> else pr))"
proof -
  obtain ips t where "set ips = {px_Host (pl_heap (mg_pool m) a) |k a. Get k (mg_pool m) = Some a \<and> px_Country (pl_heap (mg_pool m) a) = []}"
    "enrichOnce lookup m = Inr t" "mgr_wf t" "t = m\<lparr>mg_pool := mg_pool t\<rparr>" "pl_proxies (mg_pool t) = pl_proxies (mg_pool m)"
    "\<forall>k a pr. Get k (mg_pool m) = Some a \<and> pr = pl_heap (mg_pool m) a \<longrightarrow>
       pl_heap (mg_pool t) a = (if px_Country pr = [] then pr\<lparr>px_Country := mget0 [] (lookup ips) (px_Host pr)\<rparr> else pr)"
    using enrichOnce_effect [OF assms, of lookup] by (elim exE conjE) (rule that)
  then show ?thesis by (intro exI [of _ ips] exI [of _ t]) (simp only: Get_def simp_thms)
qed

theorem geo_enrichment_witness:
  "\<exists>t. enrichOnce (\<lambda>ips. [(''h'', ''CN'')]) demo_mgr = Inr t \<and> px_Country (pl_heap (mg_pool t) 0) = ''CN''"
proof -
  obtain ips t where t: "enrichOnce (\<lambda>ips. [(''h'', ''CN'')]) demo_mgr = Inr t"
    "\<forall>k a pr. Get k (mg_pool demo_mgr) = Some a \<and> pr = pl_heap (mg_pool demo_mgr) a \<longrightarrow>
       pl_heap (mg_pool t) a = (if px_Country pr = [] then pr\<lparr>px_Country := mget0 [] [(''h'', ''CN'')] (px_Host pr)\<rparr> else pr)"
    using geo_enrichment [OF demo_mgr_wf, of "\<lambda>ips. [(''h'', ''CN'')]"] by (elim exE conjE) (rule that)
  have "px_Country (pl_heap (mg_pool demo_mgr) 0) = []" "px_Host (pl_heap (mg_pool demo_mgr) 0) = ''h''"
    by (simp_all add: demo_mgr_def demo_pool_def demo_proxy_def zero_proxy_def)
  then show ?thesis using t(1) t(2) [rule_format, OF conjI [OF demo_mgr_Get(1) refl]] by (auto simp: mget0_def)
qed

subsection \<open>Surprises\<close>

text \<open>
  A weight set at run time does not reach the provider object: its next refresh delivers proxies with the
  weight of the configuration it was built with, and \<^verbatim>\<open>Add\<close> writes that weight over the one that was set.
\<close>

theorem refresh_reverts_weight:
  assumes "mgr_wf m" "mget (mg_provs m) n = Some mp" "w \<le> MaxInt32" "SetProviderWeight wo n w m = Inr (None, t)"
    and "mget (mg_provs t) n = Some mp'" "Provider_Refresh ev (mp_provider mp') = Inr (Inr r)" "pr \<in> set (slice_of r)"
  shows "px_Weight pr = i32 (pc_Weight (prov_cfg (mp_provider mp)))"
proof -
  obtain t' where "SetProviderWeight wo n w m = Inr (None, t')"
    "mg_provs t' = mput n (mp\<lparr>mp_weight := max 1 w, mp_cfg := (mp_cfg mp)\<lparr>pc_Weight := max 1 w\<rparr>\<rparr>) (mg_provs m)"
    using SetProviderWeight_effect [OF assms(1,2,3) refl, of wo] by (elim exE conjE) (rule that)
  then have "mp_provider mp' = mp_provider mp" using assms(4,5) by auto
  then show ?thesis using provider_results_built [OF disjI2 [OF assms(6)] assms(7)] by (simp add: built_by_def)
qed

text \<open>
  Refreshing does not look at \<^verbatim>\<open>enabled\<close>: a provider that was disabled, whose proxies were dropped, gets
  them back at the next tick of the refresh loop, which was started while it was enabled.
\<close>

theorem refresh_ignores_enabled:
  assumes "mget (mg_provs m) n = Some mp"
  shows "map_sum id (mg_pool \<circ> snd) (RefreshProvider ev n (m\<lparr>mg_provs := mput n (mp\<lparr>mp_enabled := b\<rparr>) (mg_provs m)\<rparr>)) =
    map_sum id (mg_pool \<circ> snd) (RefreshProvider ev n m)"
proof (cases "Provider_Refresh ev (mp_provider mp)")
  case (Inr r)
  show ?thesis
  proof (cases r)
    case (Inr ps)
    then show ?thesis using assms \<open>Provider_Refresh ev (mp_provider mp) = Inr r\<close>
      by (cases ps; cases "addProxies (mp_cfg mp) (the ps) (mg_pool m)"; cases "RemoveExpired (ev_now ev) (projr (addProxies (mp_cfg mp) (the ps) (mg_pool m)))")
        (auto simp: RefreshProvider_def)
  qed (use assms Inr in \<open>simp add: RefreshProvider_def Let_def\<close>)
qed (use assms in \<open>simp add: RefreshProvider_def\<close>)

text \<open>
  An update whose first load fails is reported as an error, and yet the provider runs with the new
  configuration, its proxies are gone, and the file still holds the old configuration.
\<close>

theorem failed_update_half_applied:
  assumes wf: "mgr_wf m" and n: "n \<noteq> []" and get: "mget (mg_provs m) n = Some mp" "mp_enabled mp"
    and new: "New_provider (cfg\<lparr>pc_Name := n\<rparr>) = Inr pv" "Provider_Initial ev pv = Inr (Inl e)"
  shows "\<exists>t. UpdateProvider ev w n cfg m = Inr (Some (ProviderFailed e), t) \<and> ProviderConfig n t = Some (cfg\<lparr>pc_Name := n\<rparr>) \<and>
    mg_persist t = mg_persist m \<and> (\<forall>k a. Get k (mg_pool t) = Some a \<longrightarrow> px_Provider (pl_heap (mg_pool t) a) \<noteq> n)"
proof -
  have "pool_wf (mg_pool m)" using wf by (simp add: mgr_wf_def)
  then obtain q where q: "drop_proxies n (mg_pool m) = Inr q" "pl_heap q = pl_heap (mg_pool m)"
    "\<forall>k a. Get k q = Some a \<longleftrightarrow> Get k (mg_pool m) = Some a \<and> px_Provider (pl_heap (mg_pool m) a) \<noteq> n"
    using drop_proxies_effect [of "mg_pool m" n] by blast
  then show ?thesis using n get new
    by (simp add: UpdateProvider_def Let_def ProviderConfig_def)
qed

end
