(* ===== verification/Alert_Dispatcher.thy ===== *)
theory Alert_Dispatcher
  imports Config_Model Go_Runtime Go_Strings
begin

section \<open>The alert dispatcher (internal/alert/alert.go)\<close>

text \<open>
  The dispatcher decides which channels an event goes to and suppresses repetitions. Sending is input
  and output: a delivery is the value the sending goroutine is started with, and \<open>ds_sent\<close> the log of
  them. The file holds the configuration as it decodes; what the operating system does with a write is
  an argument (\<^verbatim>\<open>os.WriteFile\<close> truncates first, so a failed write may tear the file). The clock is read
  once per call.
\<close>

datatype any = AnyInt int | AnyFloat float64 | AnyString string

record Event =
  et_Type :: string
  et_Provider :: string
  et_Message :: string
  et_Data :: "(string \<times> any) list"
  et_Timestamp :: int

datatype delivery = ToEmail EmailConfig Event | ToWebhook WebhookConfig Event

datatype cfg_file = NoFile | CannotRead | BadJSON | CfgJSON AlertConfig

datatype cfg_write = CfgWritten | CfgMarshalFails | CfgOpenFails | CfgTorn

datatype alert_error =
    URLRequired | WebhookExists | WebhookNotFound | DedupNegative | MonitorTooSmall | RecoverNegative
  | CfgReadFails | CfgDecodeFails | CfgWriteFails

record Dispatcher =
  ds_cfg :: AlertConfig
  ds_dedup :: "(string, int) gomap"
  ds_filePath :: string
  ds_file :: cfg_file
  ds_sent :: "delivery list"

definition NewDispatcher :: "AlertConfig \<Rightarrow> cfg_file \<Rightarrow> Dispatcher" where
  "NewDispatcher cfg f = \<lparr>ds_cfg = cfg, ds_dedup = [], ds_filePath = [], ds_file = f, ds_sent = []\<rparr>"

definition SetFile :: "string \<Rightarrow> Dispatcher \<Rightarrow> Dispatcher" where
  "SetFile path d = d\<lparr>ds_filePath := path\<rparr>"

definition LoadFile :: "Dispatcher \<Rightarrow> alert_error option \<times> Dispatcher" where
  "LoadFile d =
     (if ds_filePath d = [] then (None, d)
      else case ds_file d of
             NoFile \<Rightarrow> (None, d)
           | CannotRead \<Rightarrow> (Some CfgReadFails, d)
           | BadJSON \<Rightarrow> (Some CfgDecodeFails, d)
           | CfgJSON cfg \<Rightarrow> (None, d\<lparr>ds_cfg := cfg\<rparr>))"

definition GetConfig :: "Dispatcher \<Rightarrow> AlertConfig" where
  "GetConfig d = ds_cfg d"

definition persist_cfg :: "cfg_write \<Rightarrow> Dispatcher \<Rightarrow> alert_error option \<times> Dispatcher" where
  "persist_cfg w d =
     (if ds_filePath d = [] then (None, d)
      else case w of
             CfgWritten \<Rightarrow> (None, d\<lparr>ds_file := CfgJSON (ds_cfg d)\<rparr>)
           | CfgMarshalFails \<Rightarrow> (Some CfgWriteFails, d)
           | CfgOpenFails \<Rightarrow> (Some CfgWriteFails, d)
           | CfgTorn \<Rightarrow> (Some CfgWriteFails, d\<lparr>ds_file := BadJSON\<rparr>))"

subsection \<open>Configuration\<close>

definition set_webhooks :: "WebhookConfig list \<Rightarrow> Dispatcher \<Rightarrow> Dispatcher" where
  "set_webhooks ws d = d\<lparr>ds_cfg := (ds_cfg d)\<lparr>al_Webhooks := ws\<rparr>\<rparr>"

definition AddWebhook :: "cfg_write \<Rightarrow> WebhookConfig \<Rightarrow> Dispatcher \<Rightarrow> alert_error option \<times> Dispatcher" where
  "AddWebhook w wh d =
     (if trim_space (wh_URL wh) = [] then (Some URLRequired, d)
      else if list_ex (\<lambda>x. wh_URL x = wh_URL wh) (al_Webhooks (ds_cfg d)) then (Some WebhookExists, d)
      else persist_cfg w (set_webhooks (al_Webhooks (ds_cfg d) @ [wh]) d))"

fun remove_webhook :: "string \<Rightarrow> WebhookConfig list \<Rightarrow> WebhookConfig list option" where
  "remove_webhook url [] = None"
| "remove_webhook url (x # xs) = (if wh_URL x = url then Some xs else map_option (Cons x) (remove_webhook url xs))"

definition RemoveWebhook :: "cfg_write \<Rightarrow> string \<Rightarrow> Dispatcher \<Rightarrow> alert_error option \<times> Dispatcher" where
  "RemoveWebhook w url d =
     (if url = [] then (Some URLRequired, d)
      else case remove_webhook url (al_Webhooks (ds_cfg d)) of
             None \<Rightarrow> (Some WebhookNotFound, d)
           | Some ws \<Rightarrow> persist_cfg w (set_webhooks ws d))"

fun replace_webhook :: "string \<Rightarrow> WebhookConfig \<Rightarrow> WebhookConfig list \<Rightarrow> WebhookConfig list option" where
  "replace_webhook url wh [] = None"
| "replace_webhook url wh (x # xs) =
     (if wh_URL x = url then Some (wh # xs) else map_option (Cons x) (replace_webhook url wh xs))"

definition UpdateWebhook :: "cfg_write \<Rightarrow> string \<Rightarrow> WebhookConfig \<Rightarrow> Dispatcher \<Rightarrow> alert_error option \<times> Dispatcher" where
  "UpdateWebhook w oldURL wh d =
     (if trim_space (wh_URL wh) = [] then (Some URLRequired, d)
      else case replace_webhook oldURL wh (al_Webhooks (ds_cfg d)) of
             None \<Rightarrow> (Some WebhookNotFound, d)
           | Some ws \<Rightarrow> persist_cfg w (set_webhooks ws d))"

definition UpdateEmail :: "cfg_write \<Rightarrow> EmailConfig \<Rightarrow> Dispatcher \<Rightarrow> alert_error option \<times> Dispatcher" where
  "UpdateEmail w e d =
     (let old = al_Email (ds_cfg d);
          e = (if em_Password e = [] then e\<lparr>em_Password := em_Password old\<rparr> else e);
          e = (if em_SMTPPort e = 0 then e\<lparr>em_SMTPPort := em_SMTPPort old\<rparr> else e)
      in persist_cfg w (d\<lparr>ds_cfg := (ds_cfg d)\<lparr>al_Email := e\<rparr>\<rparr>))"

definition UpdateDedup :: "cfg_write \<Rightarrow> int \<Rightarrow> Dispatcher \<Rightarrow> alert_error option \<times> Dispatcher" where
  "UpdateDedup w s d =
     (if s < 0 then (Some DedupNegative, d) else persist_cfg w (d\<lparr>ds_cfg := (ds_cfg d)\<lparr>al_DedupSeconds := s\<rparr>\<rparr>))"

definition UpdateMonitorSeconds :: "cfg_write \<Rightarrow> int \<Rightarrow> Dispatcher \<Rightarrow> alert_error option \<times> Dispatcher" where
  "UpdateMonitorSeconds w s d =
     (if s < 1 then (Some MonitorTooSmall, d) else persist_cfg w (d\<lparr>ds_cfg := (ds_cfg d)\<lparr>al_MonitorSeconds := s\<rparr>\<rparr>))"

definition UpdateRecoverSeconds :: "cfg_write \<Rightarrow> int \<Rightarrow> Dispatcher \<Rightarrow> alert_error option \<times> Dispatcher" where
  "UpdateRecoverSeconds w s d =
     (if s < 0 then (Some RecoverNegative, d) else persist_cfg w (d\<lparr>ds_cfg := (ds_cfg d)\<lparr>al_RecoverSeconds := s\<rparr>\<rparr>))"

subsection \<open>Emitting\<close>

definition emailEnabled :: "EmailConfig \<Rightarrow> bool" where
  "emailEnabled e \<longleftrightarrow> em_SMTPHost e \<noteq> [] \<and> em_From e \<noteq> [] \<and> length (em_To e) > 0"

fun match_any :: "string list \<Rightarrow> string \<Rightarrow> bool" where
  "match_any [] typ = False"
| "match_any (p # ps) typ = (if p = typ \<or> p = ''*'' \<or> p = ''all'' then True else match_any ps typ)"

definition eventMatch :: "string list \<Rightarrow> string \<Rightarrow> bool" where
  "eventMatch patterns typ = (if length patterns = 0 then True else match_any patterns typ)"

definition dedup_key :: "string \<Rightarrow> string \<Rightarrow> string" where
  "dedup_key typ provider = typ @ '':'' @ provider"

text \<open>The opposite event ends a suppression.\<close>

definition clear_opposite :: "Event \<Rightarrow> (string, int) gomap \<Rightarrow> (string, int) gomap" where
  "clear_opposite ev m =
     (if et_Type ev = ''provider_down'' then mdel (dedup_key ''provider_recovered'' (et_Provider ev)) m
      else if et_Type ev = ''provider_recovered'' then mdel (dedup_key ''provider_down'' (et_Provider ev)) m
      else m)"

definition deliveries :: "AlertConfig \<Rightarrow> Event \<Rightarrow> delivery list" where
  "deliveries cfg ev =
     (if emailEnabled (al_Email cfg) then [ToEmail (al_Email cfg) ev] else []) @
     map (\<lambda>wh. ToWebhook wh ev) (filter (\<lambda>wh. eventMatch (wh_Events wh) (et_Type ev)) (al_Webhooks cfg))"

definition Emit :: "int \<Rightarrow> Event \<Rightarrow> Dispatcher \<Rightarrow> Dispatcher" where
  "Emit now ev d =
     (let cfg = ds_cfg d
      in if length (al_Webhooks cfg) = 0 \<and> \<not> emailEnabled (al_Email cfg) then d
         else
           let ev = (if et_Timestamp ev = 0 then ev\<lparr>et_Timestamp := now\<rparr> else ev);
               key = dedup_key (et_Type ev) (et_Provider ev);
               m = clear_opposite ev (ds_dedup d);
               window = i64 (al_DedupSeconds cfg * 1000000000)
           in if (case mget m key of None \<Rightarrow> False | Some lst \<Rightarrow> time_sub now lst < window)
              then d\<lparr>ds_dedup := m\<rparr>
              else
                let m = mput key now m;
                    m = (if length m > 128 then mfilter (\<lambda>k t. \<not> time_sub now t \<ge> window) m else m)
                in d\<lparr>ds_dedup := m, ds_sent := ds_sent d @ deliveries cfg ev\<rparr>)"

end
