(* ===== verification/Alert_Monitor.thy ===== *)
theory Alert_Monitor
  imports Alert_Dispatcher Pool_Manager
begin

section \<open>The provider monitor (internal/alert/monitor.go)\<close>

text \<open>
  The monitor looks at every provider of \<^verbatim>\<open>ProviderList\<close> and reports changes to the dispatcher; it
  refreshes a provider that stays down. What it needs of the manager is the interface
  \<^verbatim>\<open>ManagerProvider\<close>: here \<^verbatim>\<open>RefreshProvider\<close> is the function argument \<open>refresh\<close> of the steps, and
  \<open>check\<close> uses the manager's own. The calls to \<^verbatim>\<open>Emit\<close> and the refreshes are returned as logs.
\<close>

record ProviderMonitor =
  pm_cfg :: AlertConfig
  pm_states :: "(string, bool) gomap"
  pm_downSince :: "(string, int) gomap"
  pm_lastRecoverAttempt :: "(string, int) gomap"

definition NewProviderMonitor :: "AlertConfig \<Rightarrow> ProviderMonitor" where
  "NewProviderMonitor cfg = \<lparr>pm_cfg = cfg, pm_states = [], pm_downSince = [], pm_lastRecoverAttempt = []\<rparr>"

definition effectiveInterval :: "Dispatcher \<Rightarrow> int" where
  "effectiveInterval d =
     (let cfg = GetConfig d
      in if al_MonitorSeconds cfg > 0 then i64 (al_MonitorSeconds cfg * 1000000000) else 15000000000)"

definition isProviderDown :: "ProviderInfo \<Rightarrow> bool" where
  "isProviderDown info =
     (if pi_Total info = 0 then True
      else let ratio = f64_div (f64_of_int (pi_Alive info)) (f64_of_int (pi_Total info))
           in if pi_MinAliveRatio info > 0 then ratio < pi_MinAliveRatio info else pi_Alive info = 0)"

definition recoverInterval :: "ProviderMonitor \<Rightarrow> Dispatcher \<Rightarrow> int" where
  "recoverInterval m d =
     (let cfg = GetConfig d
      in if al_RecoverSeconds cfg > 0 then i64 (al_RecoverSeconds cfg * 1000000000)
         else if al_RecoverSeconds (pm_cfg m) > 0 then i64 (al_RecoverSeconds (pm_cfg m) * 1000000000)
         else 0)"

type_synonym 'g refresh = "env \<Rightarrow> string \<Rightarrow> 'g \<Rightarrow> (mgr_error option \<times> 'g) go"

definition maybeAttemptRecovery ::
  "'g refresh \<Rightarrow> int \<Rightarrow> env \<Rightarrow> string \<Rightarrow> Dispatcher \<Rightarrow> ProviderMonitor \<times> 'g \<Rightarrow> (string list \<times> ProviderMonitor \<times> 'g) go" where
  "maybeAttemptRecovery refresh now ev name d mg =
     (let (m, g) = mg;
          interval = recoverInterval m d
      in if interval \<le> 0 then Inr ([], m, g)
         else
           let since = mget0 0 (pm_downSince m) name;
               lst = mget0 0 (pm_lastRecoverAttempt m) name
           in if since = 0 \<or> time_sub now since < interval then Inr ([], m, g)
              else if lst \<noteq> 0 \<and> time_sub now lst < interval then Inr ([], m, g)
              else
                let m = m\<lparr>pm_lastRecoverAttempt := mput name now (pm_lastRecoverAttempt m)\<rparr>
                in bindE (refresh ev name g) (\<lambda>(_, g). Inr ([name], m, g)))"

definition alive_of_total :: "ProviderInfo \<Rightarrow> string" where
  "alive_of_total info = '' (alive '' @ itoa (pi_Alive info) @ ''/'' @ itoa (pi_Total info) @ '')''"

definition disabled_event :: "ProviderInfo \<Rightarrow> Event" where
  "disabled_event info =
     \<lparr>et_Type = ''provider_recovered'', et_Provider = pi_Name info,
      et_Message = ''provider '' @ pi_Name info @ '' re-enabled by admin'', et_Data = [], et_Timestamp = 0\<rparr>"

definition down_event :: "ProviderInfo \<Rightarrow> Event" where
  "down_event info =
     \<lparr>et_Type = ''provider_down'', et_Provider = pi_Name info,
      et_Message = ''provider '' @ pi_Name info @ '' is down'' @ alive_of_total info,
      et_Data = [(''alive'', AnyInt (pi_Alive info)), (''total'', AnyInt (pi_Total info)),
        (''min_alive_ratio'', AnyFloat (pi_MinAliveRatio info)), (''priority'', AnyInt (pi_Priority info))], et_Timestamp = 0\<rparr>"

definition recovered_event :: "ProviderInfo \<Rightarrow> Event" where
  "recovered_event info =
     \<lparr>et_Type = ''provider_recovered'', et_Provider = pi_Name info,
      et_Message = ''provider '' @ pi_Name info @ '' recovered'' @ alive_of_total info,
      et_Data = [(''alive'', AnyInt (pi_Alive info)), (''total'', AnyInt (pi_Total info))], et_Timestamp = 0\<rparr>"

text \<open>The body of the loop for one provider: the events it emits and the providers it refreshes.\<close>

definition note_state :: "int \<Rightarrow> string \<Rightarrow> bool \<Rightarrow> ProviderMonitor \<Rightarrow> ProviderMonitor" where
  "note_state now name down m =
     (let wasDown = mget0 False (pm_states m) name;
          m = m\<lparr>pm_states := mput name down (pm_states m)\<rparr>;
          m = (if down \<and> \<not> wasDown then m\<lparr>pm_downSince := mput name now (pm_downSince m)\<rparr> else m)
      in if \<not> down
         then m\<lparr>pm_downSince := mdel name (pm_downSince m), pm_lastRecoverAttempt := mdel name (pm_lastRecoverAttempt m)\<rparr>
         else m)"

definition check_one ::
  "'g refresh \<Rightarrow> int \<Rightarrow> env \<Rightarrow> ProviderInfo \<Rightarrow> ProviderMonitor \<times> Dispatcher \<times> 'g \<Rightarrow>
   (Event list \<times> string list \<times> ProviderMonitor \<times> Dispatcher \<times> 'g) go" where
  "check_one refresh now ev info s =
     (let (m, d, g) = s; name = pi_Name info
      in if \<not> pi_Enabled info then
           (if mget (pm_states m) name = Some True
            then Inr ([disabled_event info], [], m\<lparr>pm_states := mput name False (pm_states m)\<rparr>, Emit now (disabled_event info) d, g)
            else Inr ([], [], m\<lparr>pm_states := mput name False (pm_states m)\<rparr>, d, g))
         else
           let down = isProviderDown info;
               wasDown = mget0 False (pm_states m) name;
               m = note_state now name down m
           in bindE (if down then maybeAttemptRecovery refresh now ev name d (m, g) else Inr ([], m, g)) (\<lambda>(rs, m, g).
                if pi_ProviderType info = ''free'' then Inr ([], rs, m, d, g)
                else if down \<and> \<not> wasDown then Inr ([down_event info], rs, m, Emit now (down_event info) d, g)
                else if \<not> down \<and> wasDown then Inr ([recovered_event info], rs, m, Emit now (recovered_event info) d, g)
                else Inr ([], rs, m, d, g)))"

fun check_loop ::
  "'g refresh \<Rightarrow> (int \<times> env \<times> ProviderInfo) list \<Rightarrow> ProviderMonitor \<times> Dispatcher \<times> 'g \<Rightarrow>
   (Event list \<times> (int \<times> string) list \<times> ProviderMonitor \<times> Dispatcher \<times> 'g) go" where
  "check_loop refresh [] s = Inr ([], [], s)"
| "check_loop refresh ((now, ev, info) # ps) s =
     bindE (check_one refresh now ev info s) (\<lambda>(es, rs, s).
     bindE (check_loop refresh ps s) (\<lambda>(es', rs', s). Inr (es @ es', map (Pair now) rs @ rs', s)))"

text \<open>One round, with the times and the answers of the network per provider.\<close>

definition check ::
  "rng \<Rightarrow> (string \<Rightarrow> int) \<Rightarrow> (string \<Rightarrow> env) \<Rightarrow> ProviderMonitor \<times> Dispatcher \<times> Manager \<Rightarrow>
   (Event list \<times> (int \<times> string) list \<times> ProviderMonitor \<times> Dispatcher \<times> Manager) go" where
  "check r clk ev s =
     (let (m, d, g) = s;
          (infos, g) = ProviderList r g
      in check_loop RefreshProvider (map (\<lambda>info. (clk (pi_Name info), ev (pi_Name info), info)) infos) (m, d, g))"

end
