(* ===== verification/Alert_Props.thy ===== *)
theory Alert_Props
  imports Alert_Monitor Manager_Props
begin

section \<open>Properties of the alerts\<close>

text \<open>
  The monitor against its specification (an event for every change of a provider's state, refreshes
  that are spaced), and the dispatcher against a dispatcher that never forgets a suppression.
\<close>

subsection \<open>What the monitor needs of the manager\<close>

text \<open>
  The interface \<^verbatim>\<open>ManagerProvider\<close>: a host with room for \<open>k + 1\<close> refreshes answers one of them and has
  room for \<open>k\<close> more.
\<close>

locale manager_provider =
  fixes refresh :: "'g refresh" and usable :: "env \<Rightarrow> bool" and room :: "nat \<Rightarrow> 'g \<Rightarrow> bool"
  assumes refresh_ok: "room (Suc k) g \<Longrightarrow> usable ev \<Longrightarrow> \<exists>e g'. refresh ev n g = Inr (e, g') \<and> room k g'"
    and room_less: "room (Suc k) g \<Longrightarrow> room k g"
begin

lemma attempt_total:
  assumes "room (Suc k) g" "usable ev"
  shows "\<exists>rs m' g'. maybeAttemptRecovery refresh now ev n d (m, g) = Inr (rs, m', g') \<and> room k g'"
  using refresh_ok [OF assms, of n] room_less [OF assms(1)]
  by (auto simp: maybeAttemptRecovery_def Let_def)

lemma check_one_total:
  assumes "room (Suc k) g" "usable ev"
  shows "\<exists>es rs m' d' g'. check_one refresh now ev info (m, d, g) = Inr (es, rs, m', d', g') \<and> room k g'"
proof (cases "pi_Enabled info")
  case False
  then show ?thesis using room_less [OF assms(1)] by (simp add: check_one_def Let_def)
next
  case True
  let ?m = "note_state now (pi_Name info) (isProviderDown info) m"
  obtain rs m' g' where "(if isProviderDown info then maybeAttemptRecovery refresh now ev (pi_Name info) d (?m, g) else Inr ([], ?m, g)) = Inr (rs, m', g')"
    "room k g'"
    using attempt_total [OF assms, of now "pi_Name info" d ?m] room_less [OF assms(1)] by (cases "isProviderDown info") auto
  then show ?thesis using True by (auto simp: check_one_def Let_def)
qed

lemma check_loop_total:
  assumes "room (length ps) g" "\<forall>(now, ev, info) \<in> set ps. usable ev"
  shows "\<exists>es rs m' d' g'. check_loop refresh ps (m, d, g) = Inr (es, rs, m', d', g')"
  using assms
proof (induction ps arbitrary: m d g)
  case (Cons p ps)
  obtain now ev info where p: "p = (now, ev, info)" by (cases p)
  have "room (Suc (length ps)) g" "usable ev" using Cons.prems p by simp_all
  then obtain es rs m1 d1 g1 where 1: "check_one refresh now ev info (m, d, g) = Inr (es, rs, m1, d1, g1)" "room (length ps) g1"
    using check_one_total by blast
  have "\<forall>(now, ev, info) \<in> set ps. usable ev" using Cons.prems(2) by simp
  from Cons.IH [OF 1(2) this, of m1 d1] show ?case using 1(1) by (auto simp: p)
qed simp

end

text \<open>The manager provides it, for providers that deliver at most \<open>B\<close> proxies at a time.\<close>

definition delivers :: "nat \<Rightarrow> (prov_error + Proxy list option) go \<Rightarrow> bool" where
  "delivers B r \<longleftrightarrow> (case r of Inl _ \<Rightarrow> False | Inr (Inl _) \<Rightarrow> True | Inr (Inr prs) \<Rightarrow> length (slice_of prs) \<le> B)"

definition mgr_room :: "(env \<Rightarrow> bool) \<Rightarrow> nat \<Rightarrow> nat \<Rightarrow> Manager \<Rightarrow> bool" where
  "mgr_room E B k g \<longleftrightarrow> mgr_wf g \<and> length (pl_proxies (mg_pool g)) + k * B \<le> 4294967296 \<and>
     (\<forall>n mp ev. mget (mg_provs g) n = Some mp \<and> E ev \<longrightarrow> delivers B (Provider_Refresh ev (mp_provider mp)))"

lemma RefreshProvider_room:
  assumes room: "mgr_room E B (Suc k) g" and ev: "E ev"
  shows "\<exists>e g'. RefreshProvider ev n g = Inr (e, g') \<and> mgr_room E B k g'"
proof (cases "mget (mg_provs g) n")
  case None
  then show ?thesis using room by (auto simp: RefreshProvider_def mgr_room_def)
next
  case (Some mp)
  have wf: "mgr_wf g" and len: "length (pl_proxies (mg_pool g)) + (B + k * B) \<le> 4294967296"
    and del: "delivers B (Provider_Refresh ev (mp_provider mp))"
    and all: "\<forall>n mp ev. mget (mg_provs g) n = Some mp \<and> E ev \<longrightarrow> delivers B (Provider_Refresh ev (mp_provider mp))"
    using room ev Some by (auto simp: mgr_room_def)
  have keep: "\<forall>n' mp' ev. mget (mput n mp2 (mg_provs g)) n' = Some mp' \<and> E ev \<longrightarrow> delivers B (Provider_Refresh ev (mp_provider mp'))"
    if "mp_provider mp2 = mp_provider mp" for mp2 using all Some that by auto
  consider (error) e where "Provider_Refresh ev (mp_provider mp) = Inr (Inl e)"
    | (none) "Provider_Refresh ev (mp_provider mp) = Inr (Inr None)"
    | (some) prs where "Provider_Refresh ev (mp_provider mp) = Inr (Inr (Some prs))" "length prs \<le> B"
    using del by (auto simp: delivers_def split: sum.splits) (metis option.exhaust slice_of_simps(2))
  then show ?thesis
  proof cases
    case error
    have "mgr_wf (g\<lparr>mg_provs := mput n (mp\<lparr>mp_lastErr := Some e\<rparr>) (mg_provs g)\<rparr>)"
      using mgr_get [OF wf Some] by (intro mgr_wf_put [OF wf]) simp_all
    then show ?thesis using error Some len keep [of "mp\<lparr>mp_lastErr := Some e\<rparr>"]
      by (simp add: RefreshProvider_def Let_def mgr_room_def)
  next
    case none
    then show ?thesis using Some wf len all by (auto simp: RefreshProvider_def mgr_room_def)
  next
    case some
    have "length (pl_proxies (mg_pool g)) + length prs \<le> 4294967296" using some(2) len by simp
    from RefreshProvider_effect [OF wf Some some(1) this]
    obtain t where "RefreshProvider ev n g = Inr (None, t)" "mgr_wf t"
      "mg_provs t = mput n (mp\<lparr>mp_lastErr := None, mp_lastOK := ev_now ev\<rparr>) (mg_provs g)"
      "length (pl_proxies (mg_pool t)) \<le> length (pl_proxies (mg_pool g)) + length prs" by (elim exE conjE) (rule that)
    then show ?thesis using len some(2) keep [of "mp\<lparr>mp_lastErr := None, mp_lastOK := ev_now ev\<rparr>"] by (simp add: mgr_room_def)
  qed
qed

interpretation host: manager_provider RefreshProvider E "mgr_room E B" for E B
proof unfold_locales
  show "mgr_room E B (Suc k) g \<Longrightarrow> E ev \<Longrightarrow> \<exists>e g'. RefreshProvider ev n g = Inr (e, g') \<and> mgr_room E B k g'" for k g ev n
    by (rule RefreshProvider_room)
  show "mgr_room E B (Suc k) g \<Longrightarrow> mgr_room E B k g" for k g
    unfolding mgr_room_def by (elim conjE, intro conjI) (assumption, simp, assumption)
qed

subsection \<open>One step of the monitor\<close>

definition down_now :: "ProviderInfo \<Rightarrow> bool" where
  "down_now info \<longleftrightarrow> pi_Enabled info \<and> isProviderDown info"

definition was_down :: "string \<Rightarrow> ProviderMonitor \<Rightarrow> bool" where
  "was_down n m = mget0 False (pm_states m) n"

definition edge :: "bool \<Rightarrow> bool \<Rightarrow> string list" where
  "edge was now = (if now \<and> \<not> was then [''provider_down''] else if was \<and> \<not> now then [''provider_recovered''] else [])"

lemma attempt_frame:
  assumes "maybeAttemptRecovery refresh now ev n d (m, g) = Inr (rs, m', g')"
  shows "pm_states m' = pm_states m" "pm_downSince m' = pm_downSince m" "pm_cfg m' = pm_cfg m"
    "pm_lastRecoverAttempt m' = (if rs = [] then pm_lastRecoverAttempt m else mput n now (pm_lastRecoverAttempt m))"
    "rs = [] \<or> rs = [n]"
  using assms by (auto simp: maybeAttemptRecovery_def Let_def bindE_Inr_iff split: if_splits)

lemma note_state_fields [simp]:
  "pm_states (note_state now n b m) = mput n b (pm_states m)" "pm_cfg (note_state now n b m) = pm_cfg m"
  by (simp_all add: note_state_def Let_def)

lemma check_one_events:
  assumes "check_one refresh now ev info (m, d, g) = Inr (es, rs, m', d', g')"
  shows "was_down n m' = (if n = pi_Name info then down_now info else was_down n m)"
    "\<forall>e \<in> set es. et_Provider e = pi_Name info"
    "pi_ProviderType info \<noteq> ''free'' \<Longrightarrow> map et_Type es = edge (was_down (pi_Name info) m) (down_now info)"
proof -
  have sd: "mget (pm_states m) n = Some True \<longleftrightarrow> was_down n m" for n by (auto simp: was_down_def mget0_def split: option.splits)
  have "was_down n m' = (if n = pi_Name info then down_now info else was_down n m) \<and> (\<forall>e \<in> set es. et_Provider e = pi_Name info) \<and>
    (pi_ProviderType info \<noteq> ''free'' \<longrightarrow> map et_Type es = edge (was_down (pi_Name info) m) (down_now info))"
  proof (cases "pi_Enabled info")
    case False
    then show ?thesis using assms sd [of "pi_Name info"]
      by (auto simp: check_one_def Let_def was_down_def down_now_def edge_def disabled_event_def split: if_splits)
  next
    case True
    let ?m = "note_state now (pi_Name info) (isProviderDown info) m"
    obtain rs1 m1 g1 where 1: "(if isProviderDown info then maybeAttemptRecovery refresh now ev (pi_Name info) d (?m, g) else Inr ([], ?m, g)) = Inr (rs1, m1, g1)"
      and r: "(es, rs, m', d', g') = (if pi_ProviderType info = ''free'' then ([], rs1, m1, d, g1)
                else if isProviderDown info \<and> \<not> mget0 False (pm_states m) (pi_Name info) then ([down_event info], rs1, m1, Emit now (down_event info) d, g1)
                else if \<not> isProviderDown info \<and> mget0 False (pm_states m) (pi_Name info) then ([recovered_event info], rs1, m1, Emit now (recovered_event info) d, g1)
                else ([], rs1, m1, d, g1))"
      using assms True by (auto simp: check_one_def Let_def bindE_Inr_iff split: if_splits)
    have "pm_states m1 = pm_states ?m" using 1 attempt_frame(1) by (fastforce split: if_splits)
    then show ?thesis using r True
      by (auto simp: was_down_def down_now_def edge_def down_event_def recovered_event_def split: if_splits)
  qed
  then show "was_down n m' = (if n = pi_Name info then down_now info else was_down n m)"
    "\<forall>e \<in> set es. et_Provider e = pi_Name info"
    "pi_ProviderType info \<noteq> ''free'' \<Longrightarrow> map et_Type es = edge (was_down (pi_Name info) m) (down_now info)" by blast+
qed

subsection \<open>Events are the changes of state\<close>

fun edges :: "bool \<Rightarrow> bool list \<Rightarrow> string list" where
  "edges b [] = []"
| "edges b (x # xs) = edge b x @ edges x xs"

definition seen :: "string \<Rightarrow> (int \<times> env \<times> ProviderInfo) list \<Rightarrow> ProviderInfo list" where
  "seen n ps = filter (\<lambda>info. pi_Name info = n) (map (\<lambda>(now, ev, info). info) ps)"

lemma check_loop_edges:
  assumes "check_loop refresh ps (m, d, g) = Inr (es, rs, m', d', g')" "\<forall>info \<in> set (seen n ps). pi_ProviderType info \<noteq> ''free''"
  shows "map et_Type (filter (\<lambda>e. et_Provider e = n) es) = edges (was_down n m) (map down_now (seen n ps))"
  using assms
proof (induction ps arbitrary: m d g es rs)
  case (Cons p ps)
  obtain now ev info where p: "p = (now, ev, info)" by (cases p)
  obtain es1 rs1 m1 d1 g1 es2 rs2 where 1: "check_one refresh now ev info (m, d, g) = Inr (es1, rs1, m1, d1, g1)"
    and 2: "check_loop refresh ps (m1, d1, g1) = Inr (es2, rs2, m', d', g')" and es: "es = es1 @ es2"
    using Cons.prems(1) by (auto simp: p bindE_Inr_iff)
  note o = check_one_events [OF 1]
  have "\<forall>info \<in> set (seen n ps). pi_ProviderType info \<noteq> ''free''" using Cons.prems(2) by (auto simp: seen_def p)
  note IH = Cons.IH [OF 2 this]
  show ?case
  proof (cases "pi_Name info = n")
    case True
    then have "pi_ProviderType info \<noteq> ''free''" using Cons.prems(2) by (simp add: seen_def p)
    then show ?thesis using o(1) [of n] o(2) o(3) IH True by (simp add: es seen_def p)
  next
    case False
    then have "filter (\<lambda>e. et_Provider e = n) es1 = []" using o(2) by (auto simp: filter_empty_conv)
    then show ?thesis using o(1) [of n] IH False by (simp add: es seen_def p)
  qed
qed (simp add: seen_def)


definition demo_info :: "nat \<Rightarrow> ProviderInfo" where
  "demo_info a = \<lparr>pi_Name = ''p'', pi_Type = ''tunnel'', pi_ProviderType = ''tunnel'', pi_Enabled = True, pi_Weight = 1, pi_Priority = 0,
     pi_CheckInterval = 0, pi_MinAliveRatio = 0, pi_StickySeconds = 0, pi_Total = 2, pi_Alive = int a, pi_Countries = [],
     pi_LastErr = None, pi_LastOK = 0, pi_Config = demo_prov\<lparr>pc_Name := ''p''\<rparr>\<rparr>"

definition demo_alerts :: AlertConfig where
  "demo_alerts = \<lparr>al_Webhooks = [\<lparr>wh_URL = ''http://w'', wh_Secret = [], wh_Events = [], wh_Remark = []\<rparr>],
     al_Email = \<lparr>em_SMTPHost = [], em_SMTPPort = 0, em_Username = [], em_Password = [], em_From = [], em_To = [], em_UseTLS = False, em_Events = []\<rparr>,
     al_DedupSeconds = 300, al_MonitorSeconds = 15, al_RecoverSeconds = 60\<rparr>"

lemma demo_mgr_room: "k \<le> 1000 \<Longrightarrow> mgr_room (\<lambda>ev. True) 1 k demo_mgr"
proof -
  assume k: "k \<le> 1000"
  have "delivers 1 (Provider_Refresh ev (mp_provider mp))" if "mget (mg_provs demo_mgr) n = Some mp" for n mp ev
  proof -
    have "mp = demo_mp" using that by (simp add: demo_mgr_def split: if_splits)
    then show ?thesis using demo_static [of "''p''"] by (auto simp: delivers_def demo_mp_def new_managed_def)
  qed
  moreover have "length (pl_proxies (mg_pool demo_mgr)) = 2" by (simp add: demo_mgr_def demo_pool_def)
  ultimately show ?thesis using demo_mgr_wf k by (simp add: mgr_room_def)
qed


subsection \<open>Recovery attempts are spaced\<close>

text \<open>What the monitor remembers of an attempt at time \<open>A\<close>.\<close>

definition attempted :: "string \<Rightarrow> int \<Rightarrow> ProviderMonitor \<Rightarrow> bool" where
  "attempted n A m \<longleftrightarrow> 0 < A \<and>
     (\<not> was_down n m \<or> mget0 0 (pm_lastRecoverAttempt m) n \<ge> A \<or> mget0 0 (pm_downSince m) n \<ge> A)"

lemma Emit_cfg [simp]: "ds_cfg (Emit now ev d) = ds_cfg d"
  by (auto simp: Emit_def Let_def split: option.split)

lemma recoverInterval_cong: "pm_cfg m' = pm_cfg m \<Longrightarrow> ds_cfg d' = ds_cfg d \<Longrightarrow> recoverInterval m' d' = recoverInterval m d"
  by (simp add: recoverInterval_def GetConfig_def Let_def)

lemma check_one_cfg:
  assumes "check_one refresh now ev info (m, d, g) = Inr (es, rs, m', d', g')"
  shows "recoverInterval m' d' = recoverInterval m d"
  using assms attempt_frame(3)
  by (intro recoverInterval_cong) (fastforce simp: check_one_def Let_def bindE_Inr_iff split: if_splits)+

lemma attempt_when:
  assumes "maybeAttemptRecovery refresh now ev n d (m, g) = Inr (rs, m', g')" "rs \<noteq> []" "was_down n m" "attempted n A m"
  shows "now - A \<ge> recoverInterval m d"
proof -
  let ?i = "recoverInterval m d" and ?s = "mget0 0 (pm_downSince m) n" and ?l = "mget0 0 (pm_lastRecoverAttempt m) n"
  have c: "0 < ?i" "\<not> time_sub now ?s < ?i" "?l \<noteq> 0 \<longrightarrow> \<not> time_sub now ?l < ?i"
    using assms(1,2) by (auto simp: maybeAttemptRecovery_def Let_def split: if_splits)
  have "now - ?s \<ge> ?i" "?l \<noteq> 0 \<longrightarrow> now - ?l \<ge> ?i" using time_sub_ge [of ?i now] c by auto
  then show ?thesis using assms(3,4) by (auto simp: attempted_def)
qed

lemma note_state_attempted: "attempted n A m \<Longrightarrow> A \<le> now \<Longrightarrow> attempted n A (note_state now k b m)"
  by (auto simp: attempted_def note_state_def was_down_def Let_def split: if_splits)

lemma attempt_attempted:
  assumes "maybeAttemptRecovery refresh now ev k d (m, g) = Inr (rs, m', g')"
  shows "attempted n A m \<Longrightarrow> A \<le> now \<Longrightarrow> attempted n A m'" "n \<in> set rs \<Longrightarrow> 0 < now \<Longrightarrow> attempted n now m'"
  using attempt_frame [OF assms] by (auto simp: attempted_def was_down_def split: if_splits)

lemma check_one_cases:
  assumes "check_one refresh now ev info (m, d, g) = Inr (es, rs, m', d', g')"
  obtains (off) "\<not> pi_Enabled info" "rs = []" "m' = m\<lparr>pm_states := mput (pi_Name info) False (pm_states m)\<rparr>"
  | (up) "pi_Enabled info" "\<not> isProviderDown info" "rs = []" "m' = note_state now (pi_Name info) False m"
  | (down) g1 where "pi_Enabled info" "isProviderDown info"
      "maybeAttemptRecovery refresh now ev (pi_Name info) d (note_state now (pi_Name info) True m, g) = Inr (rs, m', g1)"
  using assms by (auto simp: check_one_def Let_def bindE_Inr_iff split: if_splits)

lemma check_one_attempt:
  assumes r: "check_one refresh now ev info (m, d, g) = Inr (es, rs, m', d', g')" and a: "attempted n A m" "A \<le> now"
  shows "attempted n A m' \<and> (n \<in> set rs \<longrightarrow> now - A \<ge> recoverInterval m d)"
  using r
proof (cases rule: check_one_cases)
  case off
  then show ?thesis using a by (auto simp: attempted_def was_down_def split: if_splits)
next
  case up
  then show ?thesis using note_state_attempted [OF a] by simp
next
  case (down g1)
  let ?m = "note_state now (pi_Name info) True m"
  have "now - A \<ge> recoverInterval m d" if "n \<in> set rs"
  proof -
    have n: "n = pi_Name info" "rs \<noteq> []" using that attempt_frame(5) [OF down(3)] by auto
    have "was_down (pi_Name info) ?m" by (simp add: was_down_def)
    from attempt_when [OF down(3) n(2) this] note_state_attempted [OF a] n(1)
    show ?thesis using recoverInterval_cong [of ?m m d d] by simp
  qed
  then show ?thesis using attempt_attempted(1) [OF down(3) note_state_attempted [OF a] a(2)] by blast
qed

lemma check_one_new_attempt:
  assumes r: "check_one refresh now ev info (m, d, g) = Inr (es, rs, m', d', g')" and n: "n \<in> set rs" "0 < now"
  shows "attempted n now m'"
  using r by (cases rule: check_one_cases) (use n in \<open>auto intro: attempt_attempted(2)\<close>)

lemma check_loop_after:
  assumes "check_loop refresh ps (m, d, g) = Inr (es, rs, m', d', g')" "attempted n A m"
    and "\<forall>(now, ev, info) \<in> set ps. A \<le> now"
  shows "\<forall>(t, k) \<in> set rs. k = n \<longrightarrow> t - A \<ge> recoverInterval m d"
  using assms
proof (induction ps arbitrary: m d g es rs)
  case (Cons p ps)
  obtain now ev info where p: "p = (now, ev, info)" by (cases p)
  obtain es1 rs1 m1 d1 g1 es2 rs2 where 1: "check_one refresh now ev info (m, d, g) = Inr (es1, rs1, m1, d1, g1)"
    and 2: "check_loop refresh ps (m1, d1, g1) = Inr (es2, rs2, m', d', g')" and rs: "rs = map (Pair now) rs1 @ rs2"
    using Cons.prems(1) by (auto simp: p bindE_Inr_iff)
  have "A \<le> now" "\<forall>(now, ev, info) \<in> set ps. A \<le> now" using Cons.prems(3) by (auto simp: p)
  moreover note o = check_one_attempt [OF 1 Cons.prems(2) this(1)]
  ultimately have "\<forall>(t, k) \<in> set rs2. k = n \<longrightarrow> t - A \<ge> recoverInterval m1 d1" using Cons.IH [OF 2] by blast
  then show ?case using o check_one_cfg [OF 1] by (auto simp: rs)
qed simp

lemma check_loop_spaced:
  assumes "check_loop refresh ps (m, d, g) = Inr (es, rs, m', d', g')"
    and "sorted (map fst ps)" "\<forall>(now, ev, info) \<in> set ps. 0 < now"
  shows "sorted_wrt (\<lambda>t u. u - t \<ge> recoverInterval m d) (map fst (filter (\<lambda>(t, k). k = n) rs))"
  using assms
proof (induction ps arbitrary: m d g es rs)
  case (Cons p ps)
  obtain now ev info where p: "p = (now, ev, info)" by (cases p)
  obtain es1 rs1 m1 d1 g1 es2 rs2 where 1: "check_one refresh now ev info (m, d, g) = Inr (es1, rs1, m1, d1, g1)"
    and 2: "check_loop refresh ps (m1, d1, g1) = Inr (es2, rs2, m', d', g')" and rs: "rs = map (Pair now) rs1 @ rs2"
    using Cons.prems(1) by (auto simp: p bindE_Inr_iff)
  have later: "\<forall>(t, ev, info) \<in> set ps. now \<le> t" and ps: "sorted (map fst ps)" "\<forall>(now, ev, info) \<in> set ps. 0 < now" "0 < now"
    using Cons.prems(2,3) by (auto simp: p)
  note IH = Cons.IH [OF 2 ps(1,2)] and i = check_one_cfg [OF 1]
  have one: "rs1 = [] \<or> (\<exists>k. rs1 = [k])" using 1 by (cases rule: check_one_cases) (auto dest: attempt_frame(5))
  show ?case
  proof (cases "n \<in> set rs1")
    case True
    then have rs1: "rs1 = [n]" using one by auto
    have "\<forall>(t, k) \<in> set rs2. k = n \<longrightarrow> t - now \<ge> recoverInterval m1 d1"
      by (rule check_loop_after [OF 2 check_one_new_attempt [OF 1 True ps(3)] later])
    then show ?thesis using IH i by (auto simp: rs rs1)
  next
    case False
    then have "filter (\<lambda>(t, k). k = n) (map (Pair now) rs1) = []" by (auto simp: filter_empty_conv)
    then show ?thesis using IH i by (simp add: rs)
  qed
qed simp

text \<open>
  C32. Recovery attempts are throttled. Over any sequence of checks with a clock that does not run
  backwards, two refreshes the monitor triggers for the same provider are at least the recovery
  interval apart, also when the provider recovers, is disabled or goes down again in between.
\<close>

theorem recovery_attempts_spaced:
  assumes "mgr_room E B (length ps) g" "\<forall>(now, ev, info) \<in> set ps. E ev"
    and "sorted (map fst ps)" "\<forall>(now, ev, info) \<in> set ps. 0 < now"
  shows "\<exists>es rs m' d' g'. check_loop RefreshProvider ps (m, d, g) = Inr (es, rs, m', d', g') \<and>
    sorted_wrt (\<lambda>t u. u - t \<ge> recoverInterval m d) (map fst (filter (\<lambda>(t, k). k = n) rs))"
proof -
  obtain es rs m' d' g' where r: "check_loop RefreshProvider ps (m, d, g) = Inr (es, rs, m', d', g')"
    using host.check_loop_total [OF assms(1,2), of m d] by (elim exE) (rule that)
  show ?thesis using check_loop_spaced [OF r assms(3,4)] r by blast
qed

theorem recovery_attempts_spaced_witness:
  "\<exists>es rs s. check_loop RefreshProvider [(1, demo_env, demo_info 0), (70000000000, demo_env, demo_info 0), (70000000001, demo_env, demo_info 0)]
      (NewProviderMonitor demo_alerts, NewDispatcher demo_alerts NoFile, demo_mgr) = Inr (es, rs, s) \<and>
     sorted_wrt (\<lambda>t u. u - t \<ge> 60000000000) (map fst (filter (\<lambda>(t, k). k = ''p'') rs))"
proof -
  let ?ps = "[(1, demo_env, demo_info 0), (70000000000, demo_env, demo_info 0), (70000000001, demo_env, demo_info 0)]"
  have "recoverInterval (NewProviderMonitor demo_alerts) (NewDispatcher demo_alerts NoFile) = 60000000000"
    by (simp add: recoverInterval_def NewProviderMonitor_def NewDispatcher_def GetConfig_def demo_alerts_def i64_def)
  moreover have "mgr_room (\<lambda>ev. True) 1 (length ?ps) demo_mgr" by (rule demo_mgr_room) simp
  ultimately show ?thesis
    using recovery_attempts_spaced [of "\<lambda>ev. True" 1 ?ps demo_mgr "NewProviderMonitor demo_alerts" "NewDispatcher demo_alerts NoFile" "''p''"]
    by auto
qed

subsection \<open>Suppression\<close>

text \<open>
  The specification: for every kind of event and provider the time of the last delivery, forgotten only
  when the opposite event comes. An event is delivered unless its kind was delivered less than the
  window ago.
\<close>

definition opposite_key :: "Event \<Rightarrow> string option" where
  "opposite_key ev =
     (if et_Type ev = ''provider_down'' then Some (dedup_key ''provider_recovered'' (et_Provider ev))
      else if et_Type ev = ''provider_recovered'' then Some (dedup_key ''provider_down'' (et_Provider ev)) else None)"

definition forget :: "Event \<Rightarrow> (string \<Rightarrow> int option) \<Rightarrow> string \<Rightarrow> int option" where
  "forget ev A = (case opposite_key ev of None \<Rightarrow> A | Some k \<Rightarrow> A(k := None))"

definition suppressed :: "int \<Rightarrow> int \<Rightarrow> Event \<Rightarrow> (string \<Rightarrow> int option) \<Rightarrow> bool" where
  "suppressed window now ev A \<longleftrightarrow> (\<exists>t. A (dedup_key (et_Type ev) (et_Provider ev)) = Some t \<and> time_sub now t < window)"

fun delivered :: "int \<Rightarrow> (string \<Rightarrow> int option) \<Rightarrow> (int \<times> Event) list \<Rightarrow> (int \<times> Event) list" where
  "delivered window A [] = []"
| "delivered window A ((now, ev) # evs) =
     (let A = forget ev A
      in if suppressed window now ev A then delivered window A evs
         else (now, ev) # delivered window (A(dedup_key (et_Type ev) (et_Provider ev) \<mapsto> now)) evs)"

definition stamp :: "int \<Rightarrow> Event \<Rightarrow> Event" where
  "stamp now ev = (if et_Timestamp ev = 0 then ev\<lparr>et_Timestamp := now\<rparr> else ev)"

text \<open>The table of the dispatcher agrees with the specification, up to entries that have run out.\<close>

definition agrees :: "int \<Rightarrow> int \<Rightarrow> (string, int) gomap \<Rightarrow> (string \<Rightarrow> int option) \<Rightarrow> bool" where
  "agrees window now m A \<longleftrightarrow> mwf m \<and>
     (\<forall>k. mget m k = A k \<or> mget m k = None \<and> (\<exists>t. A k = Some t \<and> time_sub now t \<ge> window))"

lemma agrees_later: "agrees window now m A \<Longrightarrow> now \<le> now' \<Longrightarrow> agrees window now' m A"
  using time_sub_mono order_trans unfolding agrees_def by blast

lemma agrees_forget: "agrees window now m A \<Longrightarrow> agrees window now (clear_opposite ev m) (forget ev A)"
  by (auto simp: agrees_def clear_opposite_def forget_def opposite_key_def intro: wf_intros)

lemma agrees_put: "agrees window now m A \<Longrightarrow> agrees window now (mput k t m) (A(k \<mapsto> t))"
  by (auto simp: agrees_def intro: wf_intros)

lemma agrees_prune: "agrees window now m A \<Longrightarrow> agrees window now (mfilter (\<lambda>k t. \<not> time_sub now t \<ge> window) m) A"
proof -
  let ?m = "mfilter (\<lambda>k t. \<not> time_sub now t \<ge> window) m"
  assume ag: "agrees window now m A"
  then have wf: "mwf m" by (simp add: agrees_def)
  have "mget ?m k = A k \<or> mget ?m k = None \<and> (\<exists>t. A k = Some t \<and> time_sub now t \<ge> window)" for k
  proof (cases "mget m k")
    case None
    then show ?thesis using ag by (simp add: mget_mfilter [OF wf] agrees_def) metis
  next
    case (Some t)
    then have "A k = Some t" using ag unfolding agrees_def by (metis option.distinct(1))
    then show ?thesis using Some by (simp add: mget_mfilter [OF wf])
  qed
  then show ?thesis using mwf_mfilter [OF wf] by (simp add: agrees_def)
qed

lemma agrees_suppressed:
  assumes "agrees window now m A"
  shows "(case mget m k of None \<Rightarrow> False | Some lst \<Rightarrow> time_sub now lst < window) \<longleftrightarrow> (\<exists>t. A k = Some t \<and> time_sub now t < window)"
proof (cases "mget m k")
  case None
  then have "A k = None \<or> (\<exists>t. A k = Some t \<and> time_sub now t \<ge> window)" using assms unfolding agrees_def by metis
  then show ?thesis using None by auto
next
  case (Some t)
  then have "A k = Some t" using assms unfolding agrees_def by (metis option.distinct(1))
  then show ?thesis using Some by simp
qed

lemma Emit_step:
  assumes ag: "agrees window now (ds_dedup d) A" and cfg: "window = i64 (al_DedupSeconds (ds_cfg d) * 1000000000)"
    and ch: "al_Webhooks (ds_cfg d) \<noteq> [] \<or> emailEnabled (al_Email (ds_cfg d))" and A': "A' = forget ev A"
    and key: "key = dedup_key (et_Type ev) (et_Provider ev)"
  shows "ds_sent (Emit now ev d) = ds_sent d @ (if suppressed window now ev A' then [] else deliveries (ds_cfg d) (stamp now ev)) \<and>
    agrees window now (ds_dedup (Emit now ev d)) (if suppressed window now ev A' then A' else A'(key \<mapsto> now))"
proof -
  let ?m = "clear_opposite ev (ds_dedup d)"
  have s: "et_Type (stamp now ev) = et_Type ev" "et_Provider (stamp now ev) = et_Provider ev" by (simp_all add: stamp_def)
  then have cl: "clear_opposite (stamp now ev) = clear_opposite ev" by (simp add: clear_opposite_def fun_eq_iff)
  have a: "agrees window now ?m A'" unfolding A' by (rule agrees_forget [OF ag])
  have sup: "(case mget ?m key of None \<Rightarrow> False | Some lst \<Rightarrow> time_sub now lst < window) \<longleftrightarrow> suppressed window now ev A'"
    unfolding suppressed_def key by (rule agrees_suppressed [OF a])
  have eq: "Emit now ev d = (if suppressed window now ev A' then d\<lparr>ds_dedup := ?m\<rparr>
    else d\<lparr>ds_dedup := (if length (mput key now ?m) > 128 then mfilter (\<lambda>k t. \<not> time_sub now t \<ge> window) (mput key now ?m) else mput key now ?m),
           ds_sent := ds_sent d @ deliveries (ds_cfg d) (stamp now ev)\<rparr>)"
  proof -
    have ch': "\<not> (length (al_Webhooks (ds_cfg d)) = 0 \<and> \<not> emailEnabled (al_Email (ds_cfg d)))" using ch by simp
    show ?thesis unfolding sup [symmetric] Emit_def Let_def stamp_def [symmetric] s cl key [symmetric] cfg [symmetric] if_not_P [OF ch'] ..
  qed
  show ?thesis using a agrees_put [OF a] agrees_prune [OF agrees_put [OF a]] by (simp add: eq)
qed



subsection \<open>Surprises\<close>

text \<open>
  Disabling a provider that is down reports it as recovered, with a message that says it was enabled, even
  for a free pool, whose failures are never reported.
\<close>

theorem disabled_reported_recovered:
  assumes "was_down (pi_Name info) m" "\<not> pi_Enabled info"
  shows "\<exists>m' d'. check_one refresh now ev info (m, d, g) = Inr ([disabled_event info], [], m', d', g) \<and>
    et_Type (disabled_event info) = ''provider_recovered''"
  using assms by (auto simp: check_one_def Let_def was_down_def mget0_def disabled_event_def split: option.splits)

text \<open>Updating a webhook can give two of them the same URL, which adding refuses.\<close>

theorem update_webhook_duplicates:
  "\<exists>d wh d'. UpdateWebhook CfgWritten ''http://a'' wh d = (None, d') \<and> distinct (map wh_URL (al_Webhooks (ds_cfg d))) \<and>
     \<not> distinct (map wh_URL (al_Webhooks (ds_cfg d')))"
proof -
  let ?w = "\<lambda>u. \<lparr>wh_URL = u, wh_Secret = [], wh_Events = [], wh_Remark = []\<rparr>"
  let ?d = "NewDispatcher (demo_alerts\<lparr>al_Webhooks := [?w ''http://a'', ?w ''http://b'']\<rparr>) NoFile"
  have "trim_space ''http://b'' \<noteq> []" by (simp add: trim_space_def is_space_def)
  then have u: "UpdateWebhook CfgWritten ''http://a'' (?w ''http://b'') ?d = (None, set_webhooks [?w ''http://b'', ?w ''http://b''] ?d)"
    by (simp add: UpdateWebhook_def NewDispatcher_def persist_cfg_def set_webhooks_def)
  show ?thesis
    by (rule exI [of _ ?d], rule exI [of _ "?w ''http://b''"], rule exI, rule conjI [OF u]) (simp add: set_webhooks_def NewDispatcher_def)
qed

end
