(* ===== verification/Go_Http.thy ===== *)
theory Go_Http
  imports Go_Encoding Go_Runtime
begin

section \<open>Base64 and HTTP headers\<close>

text \<open>
  What the gateway uses of \<^verbatim>\<open>encoding/base64\<close>, \<^verbatim>\<open>net/http\<close> and \<^verbatim>\<open>net/url\<close>: the standard base64 encoding, header
  maps with canonical keys, and the text of an address with user information.
\<close>

subsection \<open>Base64 (\<^verbatim>\<open>base64.StdEncoding\<close>)\<close>

definition b64_alphabet :: string where
  "b64_alphabet = ''ABCDEFGHIJKLMNOPQRSTUVWXYZabcdefghijklmnopqrstuvwxyz0123456789+/''"

definition b64_char :: "nat \<Rightarrow> char" where
  "b64_char v = b64_alphabet ! v"

definition b64_value :: "char \<Rightarrow> nat option" where
  "b64_value c = index_char c b64_alphabet"

fun b64_encode :: "string \<Rightarrow> string" where
  "b64_encode [] = []"
| "b64_encode [a] =
     (let x = of_char a :: nat in [b64_char (x div 4), b64_char (x mod 4 * 16), CHR ''='', CHR ''=''])"
| "b64_encode [a, b] =
     (let x = of_char a; y = of_char b :: nat
      in [b64_char (x div 4), b64_char (x mod 4 * 16 + y div 16), b64_char (y mod 16 * 4), CHR ''=''])"
| "b64_encode (a # b # c # s) =
     (let x = of_char a; y = of_char b; z = of_char c :: nat
      in b64_char (x div 4) # b64_char (x mod 4 * 16 + y div 16) # b64_char (y mod 16 * 4 + z div 64) # b64_char (z mod 64)
           # b64_encode s)"

text \<open>The decoder works on quanta of four characters; padding is allowed in the last one only. The bits that
  a padded quantum leaves over are not checked.\<close>

definition b64_quantum :: "char \<Rightarrow> char \<Rightarrow> char \<Rightarrow> char \<Rightarrow> string option" where
  "b64_quantum a b c d =
     (case (b64_value a, b64_value b, b64_value c, b64_value d) of
        (Some w, Some x, Some y, Some z) \<Rightarrow>
          Some [char_of (w * 4 + x div 16), char_of (x mod 16 * 16 + y div 4), char_of (y mod 4 * 64 + z)]
      | _ \<Rightarrow> None)"

definition b64_last :: "char \<Rightarrow> char \<Rightarrow> char \<Rightarrow> char \<Rightarrow> string option" where
  "b64_last a b c d =
     (if c = CHR ''='' \<and> d = CHR ''='' then
        (case (b64_value a, b64_value b) of
           (Some w, Some x) \<Rightarrow> Some [char_of (w * 4 + x div 16)]
         | _ \<Rightarrow> None)
      else if d = CHR ''='' then
        (case (b64_value a, b64_value b, b64_value c) of
           (Some w, Some x, Some y) \<Rightarrow> Some [char_of (w * 4 + x div 16), char_of (x mod 16 * 16 + y div 4)]
         | _ \<Rightarrow> None)
      else b64_quantum a b c d)"

fun b64_quanta :: "string \<Rightarrow> string option" where
  "b64_quanta [] = Some []"
| "b64_quanta [a, b, c, d] = b64_last a b c d"
| "b64_quanta (a # b # c # d # e # s) =
     (case b64_quantum a b c d of
        None \<Rightarrow> None
      | Some t \<Rightarrow> map_option ((@) t) (b64_quanta (e # s)))"
| "b64_quanta s = None"

definition b64_decode :: "string \<Rightarrow> string option" where
  "b64_decode s = b64_quanta (filter (\<lambda>c. c \<noteq> CHR 0x0A \<and> c \<noteq> CHR 0x0D) s)"

lemma length_alphabet: "length b64_alphabet = 64"
  by (simp add: b64_alphabet_def)

lemma index_char_nth: "distinct xs \<Longrightarrow> i < length xs \<Longrightarrow> index_char (xs ! i) xs = Some i"
  by (induction xs arbitrary: i) (auto simp: nth_Cons split: nat.splits)

lemma b64_value_char: "v < 64 \<Longrightarrow> b64_value (b64_char v) = Some v"
proof -
  have "distinct b64_alphabet" by (simp add: b64_alphabet_def)
  then show "v < 64 \<Longrightarrow> b64_value (b64_char v) = Some v"
    unfolding b64_value_def b64_char_def by (intro index_char_nth) (simp_all add: length_alphabet)
qed

lemma b64_char_safe:
  assumes "v < 64"
  shows "b64_char v \<noteq> CHR ''=''" "b64_char v \<noteq> CHR 0x0A" "b64_char v \<noteq> CHR 0x0D"
proof -
  have "b64_char v \<in> set b64_alphabet" unfolding b64_char_def by (rule nth_mem) (simp add: length_alphabet assms)
  then show "b64_char v \<noteq> CHR ''=''" "b64_char v \<noteq> CHR 0x0A" "b64_char v \<noteq> CHR 0x0D" by (auto simp: b64_alphabet_def)
qed

lemma of_char_less: "(of_char c :: nat) < 256"
  by (rule nat_of_char_less_256)

text \<open>The digits of a quantum, and the bytes they give back.\<close>

lemma b64_digits:
  fixes x y z :: nat
  assumes "x < 256" "y < 256" "z < 256"
  shows "x div 4 < 64" "x mod 4 * 16 + y div 16 < 64" "y mod 16 * 4 + z div 64 < 64" "z mod 64 < 64" "x mod 4 * 16 < 64" "y mod 16 * 4 < 64"
proof -
  have "x mod 4 < 4" "y mod 16 < 16" "z mod 64 < 64" "x div 4 < 64" "y div 16 < 16" "z div 64 < 4" using assms by (simp_all add: less_mult_imp_div_less)
  then show "x div 4 < 64" "x mod 4 * 16 + y div 16 < 64" "y mod 16 * 4 + z div 64 < 64" "z mod 64 < 64" "x mod 4 * 16 < 64" "y mod 16 * 4 < 64" by simp_all
qed

lemma b64_bytes:
  fixes x y z :: nat
  assumes "x < 256" "y < 256" "z < 256"
  shows "x div 4 * 4 + (x mod 4 * 16 + y div 16) div 16 = x" "(x mod 4 * 16 + y div 16) mod 16 * 16 + (y mod 16 * 4 + z div 64) div 4 = y"
    "(y mod 16 * 4 + z div 64) mod 4 * 64 + z mod 64 = z" "x div 4 * 4 + x mod 4 * 16 div 16 = x" "(x mod 4 * 16 + y div 16) mod 16 * 16 + y mod 16 * 4 div 4 = y"
proof -
  have d: "(q * k + r) div k = q" "(q * k + r) mod k = r" if "r < k" for q k r :: nat using that by simp_all
  have "y div 16 < 16" "z div 64 < 4" using assms by (simp_all add: less_mult_imp_div_less)
  note d1 = d [OF this(1)] and d2 = d [OF this(2)]
  show "x div 4 * 4 + (x mod 4 * 16 + y div 16) div 16 = x" "(x mod 4 * 16 + y div 16) mod 16 * 16 + (y mod 16 * 4 + z div 64) div 4 = y"
    "(y mod 16 * 4 + z div 64) mod 4 * 64 + z mod 64 = z" "x div 4 * 4 + x mod 4 * 16 div 16 = x" "(x mod 4 * 16 + y div 16) mod 16 * 16 + y mod 16 * 4 div 4 = y"
    unfolding d1 d2 by simp_all
qed

lemma b64_bits:
  fixes a b c :: char
  defines "x \<equiv> (of_char a :: nat)" and "y \<equiv> (of_char b :: nat)" and "z \<equiv> (of_char c :: nat)"
  shows "x div 4 < 64 \<and> x mod 4 * 16 + y div 16 < 64 \<and> y mod 16 * 4 + z div 64 < 64 \<and> z mod 64 < 64 \<and> x mod 4 * 16 < 64 \<and> y mod 16 * 4 < 64 \<and>
    x div 4 * 4 + (x mod 4 * 16 + y div 16) div 16 = x \<and> (x mod 4 * 16 + y div 16) mod 16 * 16 + (y mod 16 * 4 + z div 64) div 4 = y \<and>
    (y mod 16 * 4 + z div 64) mod 4 * 64 + z mod 64 = z \<and> x div 4 * 4 + x mod 4 * 16 div 16 = x \<and> (x mod 4 * 16 + y div 16) mod 16 * 16 + y mod 16 * 4 div 4 = y"
  unfolding x_def y_def z_def
  by (intro conjI b64_digits [OF of_char_less of_char_less of_char_less] b64_bytes [OF of_char_less of_char_less of_char_less])

lemma b64_quanta_encode: "b64_quanta (b64_encode s) = Some s"
proof (induction s rule: b64_encode.induct)
  case (2 a)
  note b = b64_bits [of a a a]
  show ?case using b by (simp add: Let_def b64_last_def b64_value_char)
next
  case (3 a b)
  note bs = b64_bits [of a b b]
  show ?case using bs by (simp add: Let_def b64_last_def b64_value_char b64_char_safe)
next
  case (4 a b c s)
  note bs = b64_bits [of a b c]
  let ?e = "b64_encode s" and ?w = "b64_char (of_char a div 4)" and ?x = "b64_char (of_char a mod 4 * 16 + of_char b div 16)"
    and ?y = "b64_char (of_char b mod 16 * 4 + of_char c div 64)" and ?z = "b64_char (of_char c mod 64)"
  have q: "b64_quantum ?w ?x ?y ?z = Some [a, b, c]"
    using bs by (simp add: b64_quantum_def b64_value_char)
  show ?case
  proof (cases ?e)
    case Nil
    then have "s = []" by (cases s rule: b64_encode.cases) (auto simp: Let_def)
    then show ?thesis using q bs by (simp add: Let_def b64_last_def b64_char_safe)
  next
    case (Cons e es)
    then show ?thesis using q 4 by (simp add: Let_def)
  qed
qed simp

lemma b64_encode_chars: "c \<in> set (b64_encode s) \<Longrightarrow> c = CHR ''='' \<or> (\<exists>v < 64. c = b64_char v)"
proof (induction s rule: b64_encode.induct)
  case (2 a)
  then show ?case
    unfolding b64_encode.simps Let_def list.set using b64_bits [of a a a] by (elim insertE emptyE; blast)
next
  case (3 a b)
  then show ?case
    unfolding b64_encode.simps Let_def list.set using b64_bits [of a b b] by (elim insertE emptyE; blast)
next
  case (4 a b c s)
  then show ?case
    unfolding b64_encode.simps Let_def list.set using b64_bits [of a b c] 4 by (elim insertE emptyE; blast)
qed simp

lemma b64_decode_encode: "b64_decode (b64_encode s) = Some s"
proof -
  have "filter (\<lambda>c. c \<noteq> CHR 0x0A \<and> c \<noteq> CHR 0x0D) (b64_encode s) = b64_encode s"
    using b64_encode_chars [of _ s] b64_char_safe by (intro filter_True) fastforce
  then show ?thesis by (simp add: b64_decode_def b64_quanta_encode)
qed


subsection \<open>Headers (\<^verbatim>\<open>http.Header\<close>)\<close>

text \<open>A header is a map from keys to lists of values. Its methods work on the canonical form of a key: of a
  key made of token bytes the first letter and every letter after a dash is upper case and the rest is
  lower case; any other key is taken as it is.\<close>

type_synonym header = "(string, string list) gomap"

definition token_char :: "char \<Rightarrow> bool" where
  "token_char c \<longleftrightarrow> is_alnum c \<or> c \<in> set ''!#$%&*+-.^_|~'' \<or> of_char c = (39 :: nat) \<or> of_char c = (96 :: nat)"

fun canon_loop :: "bool \<Rightarrow> string \<Rightarrow> string" where
  "canon_loop up [] = []"
| "canon_loop up (c # cs) = (if up then ascii_upper c else ascii_lower c) # canon_loop (c = CHR ''-'') cs"

definition CanonicalHeaderKey :: "string \<Rightarrow> string" where
  "CanonicalHeaderKey k = (if list_all token_char k then canon_loop True k else k)"

definition h_values :: "string \<Rightarrow> header \<Rightarrow> string list" where
  "h_values k h = mget0 [] h (CanonicalHeaderKey k)"

definition h_get :: "string \<Rightarrow> header \<Rightarrow> string" where
  "h_get k h = (case h_values k h of [] \<Rightarrow> [] | v # _ \<Rightarrow> v)"

definition h_set :: "string \<Rightarrow> string \<Rightarrow> header \<Rightarrow> header" where
  "h_set k v h = mput (CanonicalHeaderKey k) [v] h"

definition h_add :: "string \<Rightarrow> string \<Rightarrow> header \<Rightarrow> header" where
  "h_add k v h = mput (CanonicalHeaderKey k) (mget0 [] h (CanonicalHeaderKey k) @ [v]) h"

definition h_del :: "string \<Rightarrow> header \<Rightarrow> header" where
  "h_del k h = mdel (CanonicalHeaderKey k) h"

text \<open>A request that has arrived has canonical keys only.\<close>

definition header_wf :: "header \<Rightarrow> bool" where
  "header_wf h \<longleftrightarrow> mwf h \<and> list_all (\<lambda>k. CanonicalHeaderKey k = k) (mkeys h)"

text \<open>\<^verbatim>\<open>strings.Split(s, sep)\<close> for a separator of one byte.\<close>

fun split_on :: "char \<Rightarrow> string \<Rightarrow> string list" where
  "split_on c [] = [[]]"
| "split_on c (x # xs) =
     (if x = c then [] # split_on c xs
      else case split_on c xs of [] \<Rightarrow> [[x]] | y # ys \<Rightarrow> (x # y) # ys)"

lemma upper_cases: "ascii_upper (ascii_upper c) = ascii_upper c" "ascii_lower (ascii_lower c) = ascii_lower c"
  "ascii_upper c = CHR ''-'' \<longleftrightarrow> c = CHR ''-''" "ascii_lower c = CHR ''-'' \<longleftrightarrow> c = CHR ''-''"
proof -
  have c: "char_of n = CHR ''-'' \<longleftrightarrow> n mod 256 = 45" for n :: nat
    using char_of_eq_iff [of n "CHR ''-''"] by (simp add: take_bit_eq_mod)
  show "ascii_upper (ascii_upper c) = ascii_upper c" "ascii_lower (ascii_lower c) = ascii_lower c"
    "ascii_upper c = CHR ''-'' \<longleftrightarrow> c = CHR ''-''" "ascii_lower c = CHR ''-'' \<longleftrightarrow> c = CHR ''-''"
    by (auto simp: ascii_upper_def ascii_lower_def Let_def c)
qed

lemma canon_loop_idem: "canon_loop up (canon_loop up k) = canon_loop up k"
  by (induction up k rule: canon_loop.induct) (auto simp: upper_cases)

subsection \<open>Addresses\<close>

text \<open>\<^verbatim>\<open>net.JoinHostPort\<close>: a host with a colon is an IPv6 address and is put into brackets.\<close>

definition JoinHostPort :: "string \<Rightarrow> string \<Rightarrow> string" where
  "JoinHostPort host port = (if CHR '':'' \<in> set host then ''['' @ host @ '']:'' @ port else host @ '':'' @ port)"

text \<open>\<^verbatim>\<open>url.UserPassword(u, p).String()\<close>: bytes that user information may not have are percent-encoded.\<close>

definition user_plain :: "char \<Rightarrow> bool" where
  "user_plain c \<longleftrightarrow> is_alnum c \<or> c \<in> set ''-_.~$&+,;=''"

definition upper_hex :: "nat \<Rightarrow> char" where
  "upper_hex n = ''0123456789ABCDEF'' ! n"

fun escape_user :: "string \<Rightarrow> string" where
  "escape_user [] = []"
| "escape_user (c # cs) =
     (if user_plain c then c # escape_user cs
      else CHR ''%'' # upper_hex (of_char c div 16) # upper_hex (of_char c mod 16) # escape_user cs)"

definition UserPassword_String :: "string \<Rightarrow> string \<Rightarrow> string" where
  "UserPassword_String u p = escape_user u @ '':'' @ escape_user p"

text \<open>\<^verbatim>\<open>strconv.Quote\<close> on ASCII text; bytes above 127 are taken as parts of printable characters.\<close>

fun quote_char :: "char \<Rightarrow> string" where
  "quote_char c =
     (let n = of_char c :: nat; bs = CHR 0x5C
      in if n = 34 \<or> n = 92 then [bs, c]
         else if 7 \<le> n \<and> n \<le> 13 then [bs, ''abtnvfr'' ! (n - 7)]
         else if n < 32 \<or> n = 127 then [bs, CHR ''x'', hex_digit (n div 16), hex_digit (n mod 16)]
         else [c])"

definition go_quote :: "string \<Rightarrow> string" where
  "go_quote s = [CHR 0x22] @ concat (map quote_char s) @ [CHR 0x22]"

lemma hex_value_upper: "n < 16 \<Longrightarrow> hex_value (upper_hex n) = Some n"
  by (simp add: upper_hex_def hex_value_def less_Suc_eq numeral_eq_Suc) (elim disjE; simp)

lemma percent_not_plain: "\<not> user_plain (CHR ''%'')"
  by (simp add: user_plain_def is_alnum_def is_letter_def is_digit_def)

text \<open>What the escaping does to credentials is undone by the parser of URLs.\<close>

lemma unescape_escape: "unescape EncUserPassword (escape_user s) = Some s"
proof (induction s)
  case (Cons c cs)
  have "c \<noteq> CHR ''%''" if "user_plain c" using that percent_not_plain by auto
  moreover have "(of_char c :: nat) div 16 < 16" using of_char_less [of c] by (simp add: less_mult_imp_div_less)
  ultimately show ?case using Cons by (simp add: hex_value_upper Let_def)
qed simp

end
