(* ===== verification/Alert_Send.thy ===== *)
theory Alert_Send
  imports Alert_Dispatcher Go_Http
begin

section \<open>Sending alerts (internal/alert/alert.go)\<close>

text \<open>
  What the two sending goroutines of the dispatcher put on the wire. The outcome of each network call is an argument, and so
  are the JSON encoding of an event, the rendering of a time and of a value, and the address parser of \<^verbatim>\<open>net/mail\<close>.
\<close>

subsection \<open>Webhooks\<close>

record hook_request =
  hq_Method :: string
  hq_URL :: string
  hq_Header :: header
  hq_Body :: string

text \<open>The request that is sent, if one is: encoding the event and building the request can fail.\<close>

definition sendWebhook :: "(Event \<Rightarrow> string option) \<Rightarrow> (string \<Rightarrow> bool) \<Rightarrow> WebhookConfig \<Rightarrow> Event \<Rightarrow> hook_request option" where
  "sendWebhook marshal valid_url wh ev =
     (case marshal ev of
        None \<Rightarrow> None
      | Some body \<Rightarrow>
         if \<not> valid_url (wh_URL wh) then None
         else
           let h = h_set ''Content-Type'' ''application/json'' [];
               h = (if wh_Secret wh \<noteq> [] then h_set ''X-Webhook-Secret'' (wh_Secret wh) h else h)
           in Some \<lparr>hq_Method = ''POST'', hq_URL = wh_URL wh, hq_Header = h, hq_Body = body\<rparr>)"

subsection \<open>Mail\<close>

record render =
  rd_time :: "int \<Rightarrow> string"
  rd_value :: "any \<Rightarrow> string"
  rd_order :: rng

text \<open>The labels of the body are Chinese words, here as their UTF-8 bytes: time, event and details.\<close>

definition label_time :: string where
  "label_time = [CHR 0xE6, CHR 0x97, CHR 0xB6, CHR 0xE9, CHR 0x97, CHR 0xB4] @ '': ''"

definition label_event :: string where
  "label_event = [CHR 0xE4, CHR 0xBA, CHR 0x8B, CHR 0xE4, CHR 0xBB, CHR 0xB6] @ '': ''"

definition label_details :: string where
  "label_details = [CHR 0xE8, CHR 0xAF, CHR 0xA6, CHR 0xE6, CHR 0x83, CHR 0x85] @ '':''"

definition mail_subject :: "Event \<Rightarrow> string" where
  "mail_subject ev = ''[ProxyPool] '' @ et_Type ev @ '' '' @ et_Provider ev"

definition mail_body :: "render \<Rightarrow> Event \<Rightarrow> string" where
  "mail_body r ev =
     (let body = label_time @ rd_time r (et_Timestamp ev) @ newline @ label_event @ et_Type ev @ newline @ ''Provider: '' @ et_Provider ev @
            newline @ newline @ et_Message ev @ newline
      in if length (et_Data ev) > 0
         then body @ newline @ label_details @ newline @
              concat (map (\<lambda>(k, v). ''  '' @ k @ '': '' @ rd_value r v @ newline) (fst (range_order (et_Data ev) (rd_order r))))
         else body)"

fun join_comma :: "string list \<Rightarrow> string" where
  "join_comma [] = []"
| "join_comma [x] = x"
| "join_comma (x # xs) = x @ '', '' @ join_comma xs"

definition mail_from :: "EmailConfig \<Rightarrow> string" where
  "mail_from e = (if em_From e = [] then em_Username e else em_From e)"

definition mail_message :: "render \<Rightarrow> EmailConfig \<Rightarrow> Event \<Rightarrow> string" where
  "mail_message r e ev =
     ''From: '' @ mail_from e @ crlf @ ''To: '' @ join_comma (em_To e) @ crlf @ ''Subject: '' @ mail_subject ev @ crlf @
     ''MIME-Version: 1.0'' @ crlf @ ''Content-Type: text/plain; charset=utf-8'' @ crlf @ crlf @ mail_body r ev"

text \<open>The exchange with the mail server.\<close>

datatype smtp_cmd =
    DialTLS string string | Dial string | StartTLS string | AuthPlain string string string
  | MailFrom string | RcptTo string | Message string | Quit

record smtp_io =
  si_connect :: bool
  si_starttls :: bool
  si_auth :: bool
  si_mail :: bool
  si_data :: bool

definition sendEmail :: "(string \<Rightarrow> bool) \<Rightarrow> render \<Rightarrow> smtp_io \<Rightarrow> EmailConfig \<Rightarrow> Event \<Rightarrow> smtp_cmd list" where
  "sendEmail parses r io e ev =
     (let host = em_SMTPHost e; address = host @ '':'' @ itoa (em_SMTPPort e);
          connect = (if em_UseTLS e then [DialTLS address host] else [Dial address])
      in if \<not> si_connect io then connect
         else
           let starttls = (if \<not> em_UseTLS e then [StartTLS host] else []);
               auth = (if em_Username e \<noteq> [] then [AuthPlain (em_Username e) (em_Password e) host] else []);
               from = [MailFrom (mail_from e)];
               rcpts = map RcptTo (filter parses (em_To e))
           in if \<not> em_UseTLS e \<and> \<not> si_starttls io then connect @ starttls @ [Quit]
              else if em_Username e \<noteq> [] \<and> \<not> si_auth io then connect @ starttls @ auth @ [Quit]
              else if \<not> si_mail io then connect @ starttls @ auth @ from @ [Quit]
              else if \<not> si_data io then connect @ starttls @ auth @ from @ rcpts @ [Quit]
              else connect @ starttls @ auth @ from @ rcpts @ [Message (mail_message r e ev), Quit])"

subsection \<open>What is sent\<close>

fun encrypts :: "smtp_cmd \<Rightarrow> bool" where
  "encrypts (DialTLS a h) = True"
| "encrypts (StartTLS h) = True"
| "encrypts _ = False"

fun confidential :: "smtp_cmd \<Rightarrow> bool" where
  "confidential (AuthPlain u p h) = True"
| "confidential (MailFrom a) = True"
| "confidential (RcptTo a) = True"
| "confidential (Message m) = True"
| "confidential _ = False"

text \<open>No confidential command before the connection is encrypted.\<close>

fun guarded :: "bool \<Rightarrow> smtp_cmd list \<Rightarrow> bool" where
  "guarded b [] = True"
| "guarded b (c # cs) = ((confidential c \<longrightarrow> b) \<and> guarded (b \<or> encrypts c) cs)"

lemma guarded_append: "guarded b (xs @ ys) \<longleftrightarrow> guarded b xs \<and> guarded (b \<or> list_ex encrypts xs) ys"
  by (induction xs arbitrary: b) (auto simp: ac_simps)

lemma guarded_encrypted [simp]: "guarded True cs"
  by (induction cs) auto

text \<open>
  C14. The credentials, the addresses and the message of an alert are sent only after the connection is encrypted, and not at all
  when encrypting it failed; the message goes to exactly those configured recipients whose address can be parsed, at most once, and only
  after the login where one is configured succeeded.
\<close>

theorem mail_confidential:
  "guarded False (sendEmail parses r io e ev) \<and>
   (\<not> em_UseTLS e \<and> \<not> si_starttls io \<longrightarrow> list_all (\<lambda>c. \<not> confidential c) (sendEmail parses r io e ev)) \<and>
   (\<forall>m. Message m \<in> set (sendEmail parses r io e ev) \<longrightarrow>
      m = mail_message r e ev \<and> count_list (sendEmail parses r io e ev) (Message m) = 1 \<and> (em_Username e \<noteq> [] \<longrightarrow> si_auth io) \<and>
      (\<forall>a. RcptTo a \<in> set (sendEmail parses r io e ev) \<longleftrightarrow> a \<in> set (em_To e) \<and> parses a))"
proof -
  have rc: "count_list (map RcptTo xs) (Message m) = 0" for xs m by (induction xs) auto
  have g: "guarded False (sendEmail parses r io e ev)" by (simp add: sendEmail_def Let_def guarded_append)
  have n: "list_all (\<lambda>c. \<not> confidential c) (sendEmail parses r io e ev)" if "\<not> em_UseTLS e" "\<not> si_starttls io"
    using that by (simp add: sendEmail_def Let_def)
  have s: "m = mail_message r e ev \<and> count_list (sendEmail parses r io e ev) (Message m) = 1 \<and> (em_Username e \<noteq> [] \<longrightarrow> si_auth io) \<and>
      (\<forall>a. RcptTo a \<in> set (sendEmail parses r io e ev) \<longleftrightarrow> a \<in> set (em_To e) \<and> parses a)"
    if "Message m \<in> set (sendEmail parses r io e ev)" for m
    using that by (auto simp: sendEmail_def Let_def rc split: if_splits)
  show ?thesis using g n s by blast
qed

definition demo_mail :: EmailConfig where
  "demo_mail = \<lparr>em_SMTPHost = ''mx'', em_SMTPPort = 587, em_Username = ''u'', em_Password = ''pw'', em_From = [], em_To = [''a@b.c''],
     em_UseTLS = False, em_Events = []\<rparr>"

definition demo_event :: Event where
  "demo_event = \<lparr>et_Type = ''provider_down'', et_Provider = ''p'', et_Message = ''down'', et_Data = [], et_Timestamp = 1\<rparr>"

definition demo_sent :: "bool \<Rightarrow> smtp_cmd list" where
  "demo_sent tls = sendEmail (\<lambda>_. True) \<lparr>rd_time = (\<lambda>_. []), rd_value = (\<lambda>_. []), rd_order = (\<lambda>_. 0)\<rparr>
     \<lparr>si_connect = True, si_starttls = tls, si_auth = True, si_mail = True, si_data = True\<rparr> demo_mail demo_event"

theorem mail_confidential_witness:
  "list_all (\<lambda>c. \<not> confidential c) (demo_sent False) \<and> RcptTo ''a@b.c'' \<in> set (demo_sent True)"
proof -
  let ?r = "\<lparr>rd_time = (\<lambda>_. []), rd_value = (\<lambda>_. []), rd_order = (\<lambda>_. 0)\<rparr> :: render"
  have m: "Message (mail_message ?r demo_mail demo_event) \<in> set (demo_sent True)" by (simp add: demo_sent_def sendEmail_def demo_mail_def Let_def)
  let ?io = "\<lambda>tls. \<lparr>si_connect = True, si_starttls = tls, si_auth = True, si_mail = True, si_data = True\<rparr>"
  have e: "\<not> em_UseTLS demo_mail" "\<not> si_starttls (?io False)" "''a@b.c'' \<in> set (em_To demo_mail)" by (simp_all add: demo_mail_def)
  have "list_all (\<lambda>c. \<not> confidential c) (demo_sent False)"
    using e(1,2) mail_confidential [of "\<lambda>_. True" ?r "?io False" demo_mail demo_event] unfolding demo_sent_def by blast
  moreover have "RcptTo ''a@b.c'' \<in> set (demo_sent True)"
    using m e(3) mail_confidential [of "\<lambda>_. True" ?r "?io True" demo_mail demo_event] unfolding demo_sent_def by blast
  ultimately show ?thesis ..
qed

text \<open>A webhook gets its own secret and no other.\<close>

theorem webhook_request_exact:
  assumes "sendWebhook marshal valid_url wh ev = Some q"
  shows "hq_Method q = ''POST'' \<and> hq_URL q = wh_URL wh \<and> marshal ev = Some (hq_Body q) \<and>
    h_values ''X-Webhook-Secret'' (hq_Header q) = (if wh_Secret wh = [] then [] else [wh_Secret wh]) \<and>
    h_values ''Content-Type'' (hq_Header q) = [''application/json'']"
proof -
  have "CanonicalHeaderKey ''X-Webhook-Secret'' \<noteq> CanonicalHeaderKey ''Content-Type''" by code_simp
  then show ?thesis using assms by (auto simp: sendWebhook_def Let_def h_set_def h_values_def mget0_def split: option.splits if_splits)
qed

text \<open>
  The name of the provider goes into the subject as it is: a name with a line break adds header lines of its choice, for instance
  further recipients.
\<close>

theorem mail_header_injected:
  assumes "et_Provider ev = name @ crlf @ injected"
  shows "mail_message r e ev =
    (''From: '' @ mail_from e @ crlf @ ''To: '' @ join_comma (em_To e) @ crlf @ ''Subject: [ProxyPool] '' @ et_Type ev @ '' '' @ name) @
    crlf @ injected @ crlf @ ''MIME-Version: 1.0'' @ crlf @ ''Content-Type: text/plain; charset=utf-8'' @ crlf @ crlf @ mail_body r ev"
  using assms by (simp add: mail_message_def mail_subject_def)

end
