(* ===== verification/Gateway_Forward.thy ===== *)
theory Gateway_Forward
  imports Pool_Ops Config_Model Go_Http
begin

section \<open>The forwarding gateway (internal/gateway/gateway.go)\<close>

text \<open>
  A forward proxy for HTTP clients. A client names a scheduling group by its credentials; the gateway
  takes a live proxy of that group from the pool, relays the request through it and, when the proxy
  turns out to be unusable, tries another one.

  The state \<open>Gateway\<close> has the pool, the credential map, whether a usage callback is installed, the calls
  of the callback and a trace of what the gateway did on the network. What the network does is an
  argument: for every attempt a record \<open>hop\<close> with the outcome of each call. \<^verbatim>\<open>groupsSrc\<close> is the argument
  \<open>src\<close>, the groups it returns, or none when it is nil. Log messages are left out.
\<close>

subsection \<open>Requests, responses and the network\<close>

record Req =
  rq_Method :: string
  rq_URL :: string
  rq_Path :: string
  rq_Host :: string
  rq_Header :: header
  rq_Body :: string

record Resp =
  rs_Status :: int
  rs_Header :: header
  rs_Body :: string

text \<open>The response writer: what has been sent to the client; after a hijack, the bytes on the connection.\<close>

record Writer =
  w_Header :: header
  w_Status :: int
  w_Body :: string
  w_Raw :: "string option"

text \<open>What the gateway does on the network: it dials an address (with or without TLS), writes a request on
  that connection, and pipes the bytes of a tunnel into it.\<close>

datatype net_event =
    Dial string bool Proxy
  | Sent Proxy Req
  | Piped Proxy string

text \<open>The outcome of the calls of one attempt: whether the connection and the TLS handshake succeed, whether
  the request can be written (its body can be read once, so a retry of a request with a body finds this
  false), what \<^verbatim>\<open>http.ReadResponse\<close> returns (it may depend on the request), whether its
  body can be read to the end; for a tunnel, whether the writer can be hijacked, whether the hijack, the
  write and the flush succeed, the bytes from the upstream that the reader of the response has buffered,
  those still to come, and the bytes the client sends.\<close>

record hop =
  hp_dial :: bool
  hp_tls :: bool
  hp_write :: bool
  hp_answer :: "Req \<Rightarrow> Resp option"
  hp_body :: bool
  hp_hijacker :: bool
  hp_hijack :: bool
  hp_established :: bool
  hp_flush :: bool
  hp_buffered :: string
  hp_down :: string
  hp_up :: string

record Gateway =
  gw_pool :: Pool
  gw_creds :: "(string, string) gomap"
  gw_onUse :: bool
  gw_used :: "string list"
  gw_net :: "net_event list"

subsection \<open>Credentials\<close>

definition credKey :: "string \<Rightarrow> string \<Rightarrow> string" where
  "credKey user pass = user @ CHR 0x00 # pass"

definition rebuildCreds :: "GroupCfg list option \<Rightarrow> Gateway \<Rightarrow> Gateway" where
  "rebuildCreds src g =
     g\<lparr>gw_creds := fold (\<lambda>c m. if gc_Username c \<noteq> [] \<and> gc_Password c \<noteq> []
                             then mput (credKey (gc_Username c) (gc_Password c)) (gc_Name c) m else m)
                    (slice_of src) []\<rparr>"

definition Gateway_Rebuild :: "GroupCfg list option \<Rightarrow> Gateway \<Rightarrow> Gateway" where
  "Gateway_Rebuild src g = rebuildCreds src g"

definition New_gateway :: "Pool \<Rightarrow> GroupCfg list option \<Rightarrow> Gateway" where
  "New_gateway p src =
     rebuildCreds src \<lparr>gw_pool = p, gw_creds = [], gw_onUse = False, gw_used = [], gw_net = []\<rparr>"

definition SetOnUse :: "bool \<Rightarrow> Gateway \<Rightarrow> Gateway" where
  "SetOnUse fn g = g\<lparr>gw_onUse := fn\<rparr>"

definition noteUse :: "string \<Rightarrow> Gateway \<Rightarrow> Gateway" where
  "noteUse grp g = (if gw_onUse g then g\<lparr>gw_used := gw_used g @ [grp]\<rparr> else g)"

definition LookupGroup :: "string \<Rightarrow> string \<Rightarrow> Gateway \<Rightarrow> string" where
  "LookupGroup user pass g = mget0 [] (gw_creds g) (credKey user pass)"

definition findGroup :: "string \<Rightarrow> GroupCfg list option \<Rightarrow> GroupCfg option" where
  "findGroup name src =
     (case src of None \<Rightarrow> None | Some gs \<Rightarrow> find (\<lambda>c. gc_Name c = name) gs)"

definition proxyBasicAuth :: "Req \<Rightarrow> (string \<times> string) option" where
  "proxyBasicAuth r =
     (let h = h_get ''Proxy-Authorization'' (rq_Header r)
      in if \<not> has_prefix h ''Basic '' then None
         else case b64_decode (trim_prefix h ''Basic '') of
                None \<Rightarrow> None
              | Some raw \<Rightarrow> cut_char (CHR '':'') raw)"

definition basicAuth :: "string \<Rightarrow> string \<Rightarrow> string" where
  "basicAuth user pass = ''Basic '' @ b64_encode (user @ '':'' @ pass)"

subsection \<open>Answers of the gateway itself\<close>

definition http_error :: "string \<Rightarrow> int \<Rightarrow> Writer \<Rightarrow> Writer" where
  "http_error msg code w =
     w\<lparr>w_Header := h_set ''X-Content-Type-Options'' ''nosniff''
                    (h_set ''Content-Type'' ''text/plain; charset=utf-8'' (h_del ''Content-Length'' (w_Header w))),
       w_Status := code, w_Body := w_Body w @ msg @ newline\<rparr>"

definition quoted_realm :: string where
  "quoted_realm = ''Basic realm='' @ [CHR 0x22] @ ''proxy-pool'' @ [CHR 0x22]"

definition requireAuth :: "Writer \<Rightarrow> Writer" where
  "requireAuth w =
     w\<lparr>w_Header := h_set ''Content-Type'' ''text/plain; charset=utf-8''
                    (h_set ''Proxy-Authenticate'' quoted_realm (w_Header w)),
       w_Status := 407, w_Body := w_Body w @ ''proxy authentication required'' @ newline\<rparr>"

definition noProxy :: "string \<Rightarrow> Writer \<Rightarrow> Writer" where
  "noProxy grp w = http_error (''no available proxy in group: '' @ grp) 503 w"

definition allFailed :: "Writer \<Rightarrow> Writer" where
  "allFailed w = http_error ''all upstream proxies failed'' 502 w"

subsection \<open>Headers of a relayed request\<close>

definition hopHeaders :: "string list" where
  "hopHeaders =
     [''Connection'', ''Proxy-Connection'', ''Keep-Alive'', ''Proxy-Authenticate'',
      ''Proxy-Authorization'', ''Te'', ''Trailer'', ''Transfer-Encoding'', ''Upgrade'']"

text \<open>The names a Connection header nominates.\<close>

definition nominated :: "header \<Rightarrow> string list" where
  "nominated h =
     filter (\<lambda>name. name \<noteq> []) (map trim_space (concat (map (split_on (CHR '','')) (h_values ''Connection'' h))))"

definition removeHopHeaders :: "header \<Rightarrow> header" where
  "removeHopHeaders h = fold h_del hopHeaders (fold h_del (nominated h) h)"

definition copyHeaders :: "header \<Rightarrow> header \<Rightarrow> header" where
  "copyHeaders dst src = fold (\<lambda>(k, vv). fold (h_add k) vv) src dst"

subsection \<open>Dialling an upstream\<close>

definition dialTCP :: "Proxy \<Rightarrow> bool \<Rightarrow> hop \<Rightarrow> Gateway \<Rightarrow> bool \<times> Gateway" where
  "dialTCP pr tls hp g =
     (hp_dial hp, g\<lparr>gw_net := gw_net g @ [Dial (JoinHostPort (px_Host pr) (itoa (px_Port pr))) tls pr]\<rparr>)"

definition dialUpstream :: "Proxy \<Rightarrow> hop \<Rightarrow> Gateway \<Rightarrow> bool \<times> Gateway" where
  "dialUpstream pr hp g =
     (let tls = equal_fold (px_Scheme pr) ''https'';
          (ok, g) = dialTCP pr tls hp g
      in if \<not> ok then (False, g)
         else if tls then (hp_tls hp, g)
         else (True, g))"

text \<open>Writing a request on the connection; it is in the trace when the write succeeds.\<close>

definition send :: "Proxy \<Rightarrow> Req \<Rightarrow> hop \<Rightarrow> Gateway \<Rightarrow> bool \<times> Gateway" where
  "send pr out hp g = (hp_write hp, if hp_write hp then g\<lparr>gw_net := gw_net g @ [Sent pr out]\<rparr> else g)"

subsection \<open>Relaying plain requests\<close>

text \<open>The request as it is written to the upstream: hop-by-hop headers and the client's credentials are
  removed and the upstream's own credentials are put in.\<close>

definition upstream_request :: "Req \<Rightarrow> Proxy \<Rightarrow> Req" where
  "upstream_request r pr =
     (let h = h_del ''Proxy-Connection'' (h_del ''Proxy-Authorization'' (removeHopHeaders (rq_Header r)))
      in r\<lparr>rq_Header := (if px_Username pr \<noteq> []
                        then h_set ''Proxy-Authorization'' (basicAuth (px_Username pr) (px_Password pr)) h else h)\<rparr>)"

text \<open>Whether a response is an error page of the upstream, and the response with what is left of its body:
  the look at the body consumes its first 4096 bytes.\<close>

definition isUpstreamErrorPage :: "Resp \<Rightarrow> bool \<times> Resp" where
  "isUpstreamErrorPage resp =
     (if rs_Status resp < 400 then (False, resp)
      else if contains_str (to_lower (h_get ''Server'' (rs_Header resp))) ''squid'' then (True, resp)
      else
        let body = take 4096 (rs_Body resp); rest = resp\<lparr>rs_Body := drop 4096 (rs_Body resp)\<rparr>; low = to_lower body
        in (contains_str low ''the requested url could not be retrieved'' \<or> contains_str low ''<title>error'', rest))"

definition relayHTTP ::
  "Req \<Rightarrow> string \<Rightarrow> hop \<Rightarrow> Proxy \<Rightarrow> Writer \<Rightarrow> Gateway \<Rightarrow> (bool \<times> bool) \<times> Writer \<times> Gateway" where
  "relayHTTP r grp hp pr w g =
     (let (ok, g) = dialUpstream pr hp g
      in if \<not> ok then ((False, True), w, g)
         else
           let out = upstream_request r pr; (ok, g) = send pr out hp g
           in if \<not> ok then ((False, True), w, g)
              else case hp_answer hp out of
                     None \<Rightarrow> ((False, True), w, g)
                   | Some resp \<Rightarrow>
                      let (errpage, resp) = isUpstreamErrorPage resp
                      in if errpage then ((False, True), w, g)
                         else
                           let w = w\<lparr>w_Header := copyHeaders (w_Header w) (rs_Header resp), w_Status := rs_Status resp,
                                     w_Body := w_Body w @ rs_Body resp\<rparr>
                           in ((True, False), w, noteUse grp g))"

subsection \<open>Tunnels\<close>

definition connect_request :: "Req \<Rightarrow> Proxy \<Rightarrow> Req" where
  "connect_request r pr =
     \<lparr>rq_Method = ''CONNECT'', rq_URL = rq_Host r, rq_Path = [], rq_Host = rq_Host r,
      rq_Header = (if px_Username pr \<noteq> []
                   then h_set ''Proxy-Authorization'' (basicAuth (px_Username pr) (px_Password pr)) [] else []),
      rq_Body = []\<rparr>"

definition relayConnect ::
  "Req \<Rightarrow> string \<Rightarrow> hop \<Rightarrow> Proxy \<Rightarrow> Writer \<Rightarrow> Gateway \<Rightarrow> (bool \<times> bool) \<times> Writer \<times> Gateway" where
  "relayConnect r grp hp pr w g =
     (let (ok, g) = dialTCP pr False hp g
      in if \<not> ok then ((False, True), w, g)
         else
           let req = connect_request r pr; (ok, g) = send pr req hp g
           in if \<not> ok then ((True, False), http_error ''upstream connect failed'' 502 w, g)
              else case hp_answer hp req of
                     None \<Rightarrow> ((False, True), w, g)
                   | Some resp \<Rightarrow>
                      if rs_Status resp \<noteq> 200 then ((False, True), w, g)
                      else if \<not> hp_hijacker hp then ((True, False), http_error ''hijacking not supported'' 500 w, g)
                      else if \<not> hp_hijack hp then ((True, False), http_error ''hijack failed'' 500 w, g)
                      else if \<not> hp_established hp \<or> \<not> hp_flush hp then ((True, False), w\<lparr>w_Raw := Some []\<rparr>, g)
                      else
                        let w = w\<lparr>w_Raw := Some (''HTTP/1.1 200 Connection Established'' @ crlf @ crlf @ hp_down hp)\<rparr>;
                            g = g\<lparr>gw_net := gw_net g @ [Piped pr (hp_up hp)]\<rparr>
                        in ((True, False), w, noteUse grp g))"

subsection \<open>Retrying with another proxy\<close>

text \<open>The loop of \<^verbatim>\<open>handleHTTP\<close> and of \<^verbatim>\<open>handleConnect\<close>, which differ in the relay they call. The first argument
  counts the attempts that are left; \<open>net\<close> has the outcome of each attempt.\<close>

fun attempts ::
  "(hop \<Rightarrow> Proxy \<Rightarrow> Writer \<Rightarrow> Gateway \<Rightarrow> (bool \<times> bool) \<times> Writer \<times> Gateway) \<Rightarrow> string \<Rightarrow> (nat \<Rightarrow> hop) \<Rightarrow>
   nat \<Rightarrow> string list \<Rightarrow> nat \<Rightarrow> Writer \<Rightarrow> Gateway \<Rightarrow> (Writer \<times> Gateway) go" where
  "attempts relay grp net 0 excluded tried w g = Inr (allFailed w, g)"
| "attempts relay grp net (Suc left) excluded tried w g =
     bindE (NextInGroupExcluding grp excluded (gw_pool g)) (\<lambda>(pr, p).
       case pr of
         None \<Rightarrow> Inr (if tried > 0 then allFailed w else noProxy grp w, g\<lparr>gw_pool := p\<rparr>)
       | Some a \<Rightarrow>
          (let pr = pl_heap p a;
               ((done, retry), w, g) = relay (net tried) pr w (g\<lparr>gw_pool := p\<rparr>)
           in if done then Inr (w, g)
              else if \<not> retry then Inr (w, g)
              else attempts relay grp net left (px_ID pr # excluded) (Suc tried) w g))"

definition maxProxyAttempts :: nat where
  "maxProxyAttempts = 3"

definition handleHTTP :: "Req \<Rightarrow> string \<Rightarrow> (nat \<Rightarrow> hop) \<Rightarrow> Writer \<Rightarrow> Gateway \<Rightarrow> (Writer \<times> Gateway) go" where
  "handleHTTP r grp net w g = attempts (relayHTTP r grp) grp net maxProxyAttempts [] 0 w g"

definition handleConnect :: "Req \<Rightarrow> string \<Rightarrow> (nat \<Rightarrow> hop) \<Rightarrow> Writer \<Rightarrow> Gateway \<Rightarrow> (Writer \<times> Gateway) go" where
  "handleConnect r grp net w g = attempts (relayConnect r grp) grp net maxProxyAttempts [] 0 w g"

subsection \<open>The direct address of a group\<close>

text \<open>The loop over the proxies stops at the first one of the group that is not a tunnel (\<open>None\<close>).\<close>

fun direct_loop :: "string list \<Rightarrow> heap \<Rightarrow> addr list \<Rightarrow> addr option \<times> bool \<Rightarrow> (addr option \<times> bool) option" where
  "direct_loop provSet h [] s = Some s"
| "direct_loop provSet h (a # as) (upstream, multi) =
     (if px_Provider (h a) \<notin> set provSet then direct_loop provSet h as (upstream, multi)
      else if px_Kind (h a) \<noteq> KindTunnel then None
      else case upstream of
             None \<Rightarrow> direct_loop provSet h as (Some a, multi)
           | Some u \<Rightarrow>
              direct_loop provSet h as
                (Some u, multi \<or> px_Host (h u) \<noteq> px_Host (h a) \<or> px_Port (h u) \<noteq> px_Port (h a)))"

definition provSet :: "GroupCfg \<Rightarrow> string list" where
  "provSet cfg = gc_Primary cfg @ concat (map bk_Providers (gc_Backups cfg))"

definition direct_url :: "Proxy \<Rightarrow> string" where
  "direct_url up =
     (let scheme = (if px_Scheme up = [] then ''http'' else px_Scheme up);
          hostPort = JoinHostPort (px_Host up) (itoa (px_Port up))
      in if px_Username up \<noteq> []
         then scheme @ ''://'' @ UserPassword_String (px_Username up) (px_Password up) @ ''@'' @ hostPort
         else scheme @ ''://'' @ hostPort)"

text \<open>The JSON text of the answers; \<open>dq\<close> is the double quote.\<close>

definition dq :: string where
  "dq = [CHR 0x22]"

definition json_answer :: "string \<Rightarrow> Writer \<Rightarrow> Writer" where
  "json_answer body w =
     w\<lparr>w_Header := h_set ''Content-Type'' ''application/json'' (w_Header w), w_Status := 200,
       w_Body := w_Body w @ body @ newline\<rparr>"

definition direct_null :: "string \<Rightarrow> string" where
  "direct_null reason = ''{'' @ dq @ ''direct'' @ dq @ '':null,'' @ dq @ ''reason'' @ dq @ '':'' @ dq @ reason @ dq @ ''}''"

definition direct_json :: "string \<Rightarrow> string" where
  "direct_json url = ''{'' @ dq @ ''direct'' @ dq @ '':'' @ go_quote url @ ''}''"

definition handleDirect :: "string \<Rightarrow> GroupCfg list option \<Rightarrow> Writer \<Rightarrow> Gateway \<Rightarrow> Writer \<times> Gateway" where
  "handleDirect grp src w g =
     (case findGroup grp src of
        None \<Rightarrow> (http_error ''group not found'' 404 w, g)
      | Some cfg \<Rightarrow>
         let (as, p) = All (gw_pool g); g = g\<lparr>gw_pool := p\<rparr>
         in (case direct_loop (provSet cfg) (pl_heap p) as (None, False) of
               None \<Rightarrow> (json_answer (direct_null ''group contains non-tunnel providers; traffic must be relayed'') w, g)
             | Some (None, multi) \<Rightarrow> (json_answer (direct_null ''no tunnel provider available in group'') w, g)
             | Some (Some a, multi) \<Rightarrow>
                 if multi then
                   (json_answer (direct_null ''group references multiple tunnel upstreams; use the relay gateway instead'') w, g)
                 else (json_answer (direct_json (direct_url (pl_heap p a))) w, g)))"

subsection \<open>The handler and the path-based entry point\<close>

definition ServeHTTP ::
  "GroupCfg list option \<Rightarrow> Req \<Rightarrow> (nat \<Rightarrow> hop) \<Rightarrow> Writer \<Rightarrow> Gateway \<Rightarrow> (Writer \<times> Gateway) go" where
  "ServeHTTP src r net w g =
     (case proxyBasicAuth r of
        None \<Rightarrow> Inr (requireAuth w, g)
      | Some (user, pass) \<Rightarrow>
         let grp = LookupGroup user pass g
         in if grp = [] then Inr (requireAuth w, g)
            else if rq_Method r = ''GET'' \<and> rq_Path r = ''/direct'' then Inr (handleDirect grp src w g)
            else if rq_Method r = ''CONNECT'' then handleConnect r grp net w g
            else handleHTTP r grp net w g)"

datatype fwd_error = FwdNoProxy string | FwdDial | FwdWrite | FwdRead | FwdBody

definition plain_request :: "string \<Rightarrow> string \<Rightarrow> Proxy \<Rightarrow> Req" where
  "plain_request target host pr =
     (let h = h_set ''User-Agent'' ''proxy-pool-gateway/1.0'' []
      in \<lparr>rq_Method = ''GET'', rq_URL = target, rq_Path = [], rq_Host = host,
          rq_Header = (if px_Username pr \<noteq> []
                       then h_set ''Proxy-Authorization'' (basicAuth (px_Username pr) (px_Password pr)) h else h),
          rq_Body = []\<rparr>)"

definition pickProxy :: "string \<Rightarrow> Gateway \<Rightarrow> (addr option \<times> Gateway) go" where
  "pickProxy grp g = bindE (NextInGroup grp (gw_pool g)) (\<lambda>(pr, p). Inr (pr, g\<lparr>gw_pool := p\<rparr>))"

definition ForwardPlain ::
  "string \<Rightarrow> string \<Rightarrow> string \<Rightarrow> hop \<Rightarrow> Gateway \<Rightarrow> ((fwd_error + Resp) \<times> Gateway) go" where
  "ForwardPlain target host grp hp g =
     bindE (pickProxy grp g) (\<lambda>(pr, g).
       case pr of
         None \<Rightarrow> Inr (Inl (FwdNoProxy grp), g)
       | Some a \<Rightarrow>
          (let pr = pl_heap (gw_pool g) a; (ok, g) = dialUpstream pr hp g
           in if \<not> ok then Inr (Inl FwdDial, g)
              else
                let out = plain_request target host pr; (ok, g) = send pr out hp g
                in if \<not> ok then Inr (Inl FwdWrite, g)
                   else case hp_answer hp out of
                          None \<Rightarrow> Inr (Inl FwdRead, g)
                        | Some resp \<Rightarrow>
                           if \<not> hp_body hp then Inr (Inl FwdBody, g)
                           else Inr (Inr (resp\<lparr>rs_Body := take 4194304 (rs_Body resp)\<rparr>), g)))"

end
