(* ===== verification/Pool_Room.thy ===== *)
theory Pool_Room
  imports Pool_Next
begin

section \<open>Several selections from one group\<close>

text \<open>
  A caller that excludes what it has tried selects from the same group several times. Every selection may
  move the round-robin weights by the cost of the group's layers, so \<open>group_room n\<close> asks for room for \<open>n\<close> of
  them; each selection returns, and leaves room for the remaining ones.
\<close>

definition group_cost :: "string \<Rightarrow> Pool \<Rightarrow> int" where
  "group_cost gname p =
     (case find (\<lambda>g. gs_name g = gname) (sn_groups (pl_snap p)) of
        None \<Rightarrow> 0
      | Some g \<Rightarrow> \<Sum>l \<leftarrow> gs_layers g. layer_cost l)"

definition group_room :: "nat \<Rightarrow> int \<Rightarrow> string \<Rightarrow> Pool \<Rightarrow> bool" where
  "group_room n B gname p \<longleftrightarrow> swrr_within B p \<and> B + int n * group_cost gname p \<le> MaxInt64"

lemma layer_cost_nonneg: "layer_wf idf l \<Longrightarrow> 0 \<le> layer_cost l"
  using weights_ok_sum [of "ly_weight l"] by (auto simp: layer_wf_def sum_weights_eq layer_cost_def)

lemma layer_cost_ge_total:
  assumes "ly_proxies l \<noteq> []" "0 \<le> ly_totalW l" shows "2 * ly_totalW l \<le> layer_cost l"
proof -
  have "1 \<le> int (length (ly_proxies l))" using assms(1) by (cases "ly_proxies l") auto
  then have "1 * (2 * ly_totalW l) \<le> int (length (ly_proxies l)) * (2 * ly_totalW l)"
    using assms(2) by (intro mult_right_mono) auto
  then show ?thesis by (simp add: layer_cost_def)
qed

lemma pickLayer_within:
  assumes wf: "layer_wf (id_of p) l" and m: "mwf (pl_swrr p)"
    and B: "swrr_within B p" "B + layer_cost l \<le> MaxInt64"
  shows "\<exists>pr q. pickLayer l ex p = Inr (pr, q) \<and> swrr_within (B + layer_cost l) q"
proof (cases "ex = [] \<and> ly_proxies l \<noteq> [] \<and> ly_totalW l > 0")
  case False
  have c: "swrr_within (B + layer_cost l) p"
    using swrr_within_mono [OF B(1)] layer_cost_nonneg [OF wf] by simp
  show ?thesis
  proof (cases "ex = []")
    case True
    then have "pickLayer l ex p = Inr (None, p)" using False by (auto simp: pickLayer_def)
    then show ?thesis using c by blast
  next
    case False
    then show ?thesis by (rule pickLayer_excl_total [OF wf m _ B])
  qed
next
  case True
  then have ne: "ly_proxies l \<noteq> []" and tot: "0 \<le> ly_totalW l" by auto
  note ge = layer_cost_ge_total [OF ne tot]
  have "B + 2 * ly_totalW l \<le> MaxInt64" using ge B(2) by simp
  from pickSWRR_within [OF wf ne m B(1) this] obtain a m' where
    p: "pickSWRR l p = Inr (Some a, p\<lparr>pl_swrr := m'\<rparr>)" and w: "swrr_within (B + 2 * ly_totalW l) (p\<lparr>pl_swrr := m'\<rparr>)" by blast
  have w: "swrr_within (B + layer_cost l) (p\<lparr>pl_swrr := m'\<rparr>)" using ge by (intro swrr_within_mono [OF w]) simp
  obtain a' r where r: "pick_random (ly_proxies l) 0 (ly_cumW l) (ly_totalW l) p = Inr (a', p\<lparr>pl_rng := r\<rparr>)"
    using pick_random_ok [OF layer_draw [OF wf ne], of p] by blast
  have "swrr_within (B + layer_cost l) p" by (rule swrr_within_mono [OF B(1)]) (use layer_cost_nonneg [OF wf] in simp)
  then have "swrr_within (B + layer_cost l) (p\<lparr>pl_rng := r\<rparr>)" by (simp add: swrr_within_def)
  then show ?thesis using True w by (simp add: pickLayer_def p r)
qed

lemma next_layers_within:
  assumes "\<forall>l \<in> set ls. layer_wf (id_of p) l" "mwf (pl_swrr p)"
    and "swrr_within B p" "B + (\<Sum>l \<leftarrow> ls. layer_cost l) \<le> MaxInt64"
  shows "\<exists>pr q. next_layers ls ex p = Inr (pr, q) \<and> swrr_within (B + (\<Sum>l \<leftarrow> ls. layer_cost l)) q"
  using assms
proof (induction ls arbitrary: p B)
  case (Cons l ls)
  let ?s = "\<Sum>l \<leftarrow> ls. layer_cost l"
  have s: "0 \<le> ?s" using Cons.prems(1) layer_cost_nonneg by (intro sum_list_nonneg) auto
  have l: "layer_wf (id_of p) l" using Cons.prems(1) by simp
  note cost = layer_cost_nonneg [OF l]
  have "B + layer_cost l \<le> MaxInt64" using s Cons.prems(4) by simp
  from pickLayer_within [OF l Cons.prems(2,3) this, of ex]
  obtain pr q where pick: "pickLayer l ex p = Inr (pr, q)" and q: "swrr_within (B + layer_cost l) q" by blast
  have fr: "sel_frame p q" using pickLayer_post [OF l Cons.prems(2), of ex] pick by (simp add: sel_post_def)
  have "\<exists>pr q'. next_layers ls ex q = Inr (pr, q') \<and> swrr_within (B + layer_cost l + ?s) q'"
    using Cons.prems q sel_frame_fields(5) [OF fr] sel_frame_mwf [OF fr]
    by (intro Cons.IH [of q "B + layer_cost l"]) (simp_all add: add.assoc)
  moreover have "\<exists>pr q'. next_layers ls ex p = Inr (pr, q') \<and> swrr_within (B + ?s) q'"
    using Cons.prems cost by (intro Cons.IH [of p B]) simp_all
  moreover have "swrr_within (B + (layer_cost l + ?s)) q'" if "swrr_within (B + ?s) q'" for q'
    by (rule swrr_within_mono [OF that]) (use cost in simp)
  moreover have "swrr_within (B + (layer_cost l + ?s)) q" by (rule swrr_within_mono [OF q]) (use s in simp)
  ultimately show ?case by (auto simp: pick add.assoc split: option.split)
qed simp

lemma group_cost_nonneg: "pool_wf p \<Longrightarrow> 0 \<le> group_cost gname p"
proof (cases "find (\<lambda>g. gs_name g = gname) (sn_groups (pl_snap p))")
  case (Some g)
  assume "pool_wf p"
  moreover have "g \<in> set (sn_groups (pl_snap p))" using Some by (auto simp: find_Some_iff)
  ultimately have "\<forall>l \<in> set (gs_layers g). layer_wf (id_of p) l" using snap_layers [of "id_of p" "pl_snap p" g] by (auto simp: pool_wf_def)
  then show ?thesis by (auto simp: group_cost_def Some intro!: sum_list_nonneg layer_cost_nonneg [of "id_of p"])
qed (simp add: group_cost_def)

text \<open>One selection: it returns, and one turn of the room is used up.\<close>

lemma group_selection:
  assumes wf: "pool_wf p" and room: "group_room (Suc n) B gname p"
  shows "\<exists>pr q. NextInGroupExcluding gname ex p = Inr (pr, q) \<and> sel_frame p q \<and> pool_wf q \<and>
    group_room n (B + group_cost gname p) gname q \<and> (\<forall>a. pr = Some a \<longrightarrow> a \<in> set (live p) \<and> id_of p a \<notin> set ex)"
proof -
  let ?f = "find (\<lambda>g. gs_name g = gname) (sn_groups (pl_snap p))" and ?c = "group_cost gname p"
  have snap: "snap_wf (id_of p) (pl_snap p)" and m: "mwf (pl_swrr p)" using wf by (auto simp: pool_wf_def)
  have B: "swrr_within B p" and all: "B + int (Suc n) * ?c \<le> MaxInt64" using room by (auto simp: group_room_def)
  have c0: "0 \<le> ?c" "0 \<le> int n * ?c" using group_cost_nonneg [OF wf] by simp_all
  have "B + int (Suc n) * ?c = B + ?c + int n * ?c" by (simp add: algebra_simps)
  then have one: "B + ?c \<le> MaxInt64" using all c0(2) by linarith
  have "\<exists>pr q. NextInGroupExcluding gname ex p = Inr (pr, q) \<and> swrr_within (B + ?c) q"
  proof (cases ?f)
    case None
    then show ?thesis
      using swrr_within_mono [OF B, of "B + ?c"] c0 by (simp add: NextInGroupExcluding_def NextInGroup_def)
  next
    case (Some g)
    then have "g \<in> set (sn_groups (pl_snap p))" by (auto simp: find_Some_iff)
    with next_layers_within [of "gs_layers g" p B ex] snap_layers [OF snap] m B one
    have "\<exists>pr q. next_layers (gs_layers g) ex p = Inr (pr, q) \<and> swrr_within (B + ?c) q"
      by (auto simp: group_cost_def Some)
    then show ?thesis by (cases "ex = []") (auto simp: NextInGroupExcluding_def NextInGroup_def nextFromGroup_def Some)
  qed
  then obtain pr q where sel: "NextInGroupExcluding gname ex p = Inr (pr, q)" and q: "swrr_within (B + ?c) q" by blast
  have post: "sel_frame p q" "\<forall>a. pr = Some a \<longrightarrow> a \<in> set (live p) \<and> id_of p a \<notin> set ex"
    using NextInGroupExcluding_post [OF wf] sel by (auto simp: sel_post_def)
  have "group_cost gname q = ?c" using sel_frame_fields(3) [OF post(1)] by (simp add: group_cost_def)
  then have "group_room n (B + ?c) gname q" using q all by (simp add: group_room_def algebra_simps)
  then show ?thesis using sel post sel_frame_wf [OF post(1) wf] by blast
qed

end
