(* ===== verification/Gateway_Relay.thy ===== *)
theory Gateway_Relay
  imports Gateway_Forward Pool_Room
begin

section \<open>Relays and the retry loop\<close>

text \<open>
  The retry loop of the gateway relies on a contract of the relay it calls: one attempt dials the given
  proxy once, writes at most the given request, does not touch the pool or the credentials, and either
  serves the client or leaves the response writer as it was and asks for a retry. The locale \<open>hop_relay\<close> is
  that contract, with \<open>served\<close> the specification of an attempt; its lemmas describe the loop. It is
  interpreted on the relay of plain requests and on the relay of tunnels.
\<close>

fun dialled :: "net_event list \<Rightarrow> Proxy list" where
  "dialled [] = []"
| "dialled (Dial addr tls pr # es) = pr # dialled es"
| "dialled (Sent pr r # es) = dialled es"
| "dialled (Piped pr s # es) = dialled es"

lemma dialled_append [simp]: "dialled (es @ fs) = dialled es @ dialled fs"
  by (induction es rule: dialled.induct) auto

text \<open>The attempts that served nobody come first; the last one decides the answer.\<close>

definition all_retry :: "(hop \<Rightarrow> Proxy \<Rightarrow> (Writer \<Rightarrow> Writer) option) \<Rightarrow> (nat \<Rightarrow> hop) \<Rightarrow> nat \<Rightarrow> Proxy list \<Rightarrow> bool" where
  "all_retry served net tried prs \<longleftrightarrow> (\<forall>i < length prs. served (net (tried + i)) (prs ! i) = None)"

fun answer :: "(hop \<Rightarrow> Proxy \<Rightarrow> (Writer \<Rightarrow> Writer) option) \<Rightarrow> (nat \<Rightarrow> hop) \<Rightarrow> nat \<Rightarrow> Proxy list \<Rightarrow> (Writer \<Rightarrow> Writer) option" where
  "answer served net tried [] = None"
| "answer served net tried (pr # prs) =
     (case served (net tried) pr of Some f \<Rightarrow> Some f | None \<Rightarrow> answer served net (Suc tried) prs)"

text \<open>What a run of the loop does, from a state in which \<open>tried\<close> proxies are already excluded.\<close>

definition run_ok ::
  "(hop \<Rightarrow> Proxy \<Rightarrow> (Writer \<Rightarrow> Writer) option) \<Rightarrow> (Proxy \<Rightarrow> Req) \<Rightarrow> (nat \<Rightarrow> hop) \<Rightarrow> nat \<Rightarrow> string list \<Rightarrow> nat \<Rightarrow> string \<Rightarrow>
   Writer \<Rightarrow> Gateway \<Rightarrow> Writer \<Rightarrow> Gateway \<Rightarrow> bool" where
  "run_ok served request net left ex tried grp w g w' g' \<longleftrightarrow>
     (\<exists>prs es. gw_net g' = gw_net g @ es \<and> dialled es = prs \<and> length prs \<le> left \<and> distinct (map px_ID prs) \<and>
        (\<forall>pr \<in> set prs. px_ID pr \<notin> set ex \<and> pr \<in> pl_heap (gw_pool g) ` set (live (gw_pool g))) \<and>
        (\<forall>q out. Sent q out \<in> set es \<longrightarrow> q \<in> set prs \<and> out = request q) \<and>
        all_retry served net tried (butlast prs) \<and>
        w' = (case answer served net tried prs of
                Some f \<Rightarrow> f w
              | None \<Rightarrow> if tried + length prs > 0 \<or> left = 0 then allFailed w else noProxy grp w) \<and>
        (answer served net tried prs = None \<longrightarrow> gw_used g' = gw_used g \<and>
           (length prs < left \<longrightarrow> (\<exists>q q'. sel_frame (gw_pool g) q \<and>
              NextInGroupExcluding grp (rev (map px_ID prs) @ ex) q = Inr (None, q')))) \<and>
        sel_frame (gw_pool g) (gw_pool g') \<and> gw_creds g' = gw_creds g)"

locale hop_relay =
  fixes relay :: "hop \<Rightarrow> Proxy \<Rightarrow> Writer \<Rightarrow> Gateway \<Rightarrow> (bool \<times> bool) \<times> Writer \<times> Gateway"
    and served :: "hop \<Rightarrow> Proxy \<Rightarrow> (Writer \<Rightarrow> Writer) option"
    and request :: "Proxy \<Rightarrow> Req"
  assumes verdict: "relay hp pr w g = (v, w', g') \<Longrightarrow>
      (case served hp pr of None \<Rightarrow> v = (False, True) \<and> w' = w \<and> gw_used g' = gw_used g | Some f \<Rightarrow> v = (True, False) \<and> w' = f w)"
    and frame: "relay hp pr w g = (v, w', g') \<Longrightarrow> gw_pool g' = gw_pool g \<and> gw_creds g' = gw_creds g"
    and network: "relay hp pr w g = (v, w', g') \<Longrightarrow>
      \<exists>es. gw_net g' = gw_net g @ es \<and> dialled es = [pr] \<and> (\<forall>q out. Sent q out \<in> set es \<longrightarrow> q = pr \<and> out = request pr)"
begin

lemma run_ok_step:
  assumes fr: "sel_frame (gw_pool g) p" and live: "a \<in> set (live (gw_pool g))" and ex: "px_ID (pl_heap p a) \<notin> set ex"
    and r: "relay (net tried) (pl_heap p a) w (g\<lparr>gw_pool := p\<rparr>) = (v, w1, g1)"
    and no: "served (net tried) (pl_heap p a) = None"
    and rest: "run_ok served request net left (px_ID (pl_heap p a) # ex) (Suc tried) grp w1 g1 w' g'"
  shows "run_ok served request net (Suc left) ex tried grp w g w' g'"
proof -
  let ?pr = "pl_heap p a"
  have w1: "w1 = w" "gw_used g1 = gw_used g" using verdict [OF r] no by auto
  have g1: "gw_pool g1 = p" "gw_creds g1 = gw_creds g" using frame [OF r] by auto
  obtain es1 where es1: "gw_net g1 = gw_net g @ es1" "dialled es1 = [?pr]" "\<forall>q out. Sent q out \<in> set es1 \<longrightarrow> q = ?pr \<and> out = request ?pr"
    using network [OF r] by auto
  from rest obtain prs es where R: "gw_net g' = gw_net g1 @ es" "dialled es = prs" "length prs \<le> left" "distinct (map px_ID prs)"
      "\<forall>pr \<in> set prs. px_ID pr \<notin> set (px_ID ?pr # ex) \<and> pr \<in> pl_heap p ` set (live p)"
      "\<forall>q out. Sent q out \<in> set es \<longrightarrow> q \<in> set prs \<and> out = request q" "all_retry served net (Suc tried) (butlast prs)"
      "w' = (case answer served net (Suc tried) prs of Some f \<Rightarrow> f w | None \<Rightarrow> allFailed w)"
      "answer served net (Suc tried) prs = None \<longrightarrow> gw_used g' = gw_used g \<and>
         (length prs < left \<longrightarrow> (\<exists>q q'. sel_frame p q \<and> NextInGroupExcluding grp (rev (map px_ID prs) @ px_ID ?pr # ex) q = Inr (None, q')))"
      "sel_frame p (gw_pool g')" "gw_creds g' = gw_creds g"
    unfolding run_ok_def w1 g1 by (elim exE conjE) (rule that, auto)
  have heap: "pl_heap p = pl_heap (gw_pool g)" "live p = live (gw_pool g)" using sel_frame_fields [OF fr] by simp_all
  have retry: "all_retry served net tried (butlast (?pr # prs))"
    using R(7) no by (auto simp: all_retry_def nth_Cons split: nat.splits)
  have ans: "answer served net tried (?pr # prs) = answer served net (Suc tried) prs" using no by simp
  show ?thesis
    unfolding run_ok_def
  proof (intro exI conjI)
    show "gw_net g' = gw_net g @ (es1 @ es)" using R(1) es1(1) by simp
    show "dialled (es1 @ es) = ?pr # prs" using R(2) es1(2) by simp
    show "length (?pr # prs) \<le> Suc left" "distinct (map px_ID (?pr # prs))" using R(3-5) by auto
    show "\<forall>pr \<in> set (?pr # prs). px_ID pr \<notin> set ex \<and> pr \<in> pl_heap (gw_pool g) ` set (live (gw_pool g))"
      using R(5) ex live by (auto simp: heap)
    show "\<forall>q out. Sent q out \<in> set (es1 @ es) \<longrightarrow> q \<in> set (?pr # prs) \<and> out = request q" using R(6) es1(3) by auto
    show "w' = (case answer served net tried (?pr # prs) of Some f \<Rightarrow> f w
        | None \<Rightarrow> if tried + length (?pr # prs) > 0 \<or> Suc left = 0 then allFailed w else noProxy grp w)"
      unfolding ans R(8) by simp
    show "answer served net tried (?pr # prs) = None \<longrightarrow> gw_used g' = gw_used g \<and>
           (length (?pr # prs) < Suc left \<longrightarrow> (\<exists>q q'. sel_frame (gw_pool g) q \<and>
              NextInGroupExcluding grp (rev (map px_ID (?pr # prs)) @ ex) q = Inr (None, q')))"
      unfolding ans using R(9) sel_frame_trans [OF fr] by auto
  qed (use retry R(10,11) sel_frame_trans [OF fr] in auto)
qed

lemma run_ok_served:
  assumes fr: "sel_frame (gw_pool g) p" and live: "a \<in> set (live (gw_pool g))" and ex: "px_ID (pl_heap p a) \<notin> set ex"
    and r: "relay (net tried) (pl_heap p a) w (g\<lparr>gw_pool := p\<rparr>) = (v, w1, g1)"
    and yes: "served (net tried) (pl_heap p a) = Some f"
  shows "run_ok served request net (Suc left) ex tried grp w g w1 g1"
proof -
  let ?pr = "pl_heap p a"
  obtain es1 where es1: "gw_net g1 = gw_net g @ es1" "dialled es1 = [?pr]" "\<forall>q out. Sent q out \<in> set es1 \<longrightarrow> q = ?pr \<and> out = request ?pr"
    using network [OF r] by auto
  have heap: "pl_heap p = pl_heap (gw_pool g)" using sel_frame_fields [OF fr] by simp
  show ?thesis
    unfolding run_ok_def
    by (intro exI [of _ "[?pr]"] exI [of _ es1])
      (use es1 ex live verdict [OF r] yes frame [OF r] fr in \<open>auto simp: heap all_retry_def\<close>)
qed

theorem attempts_run:
  assumes "pool_wf (gw_pool g)" "group_room left B grp (gw_pool g)"
  shows "\<exists>w' g'. attempts relay grp net left ex tried w g = Inr (w', g') \<and> run_ok served request net left ex tried grp w g w' g'"
  using assms
proof (induction left arbitrary: ex tried w g B)
  case 0
  have "run_ok served request net 0 ex tried grp w g (allFailed w) g"
    unfolding run_ok_def by (intro exI [of _ "[]"]) (simp add: all_retry_def)
  then show ?case by simp
next
  case (Suc left)
  from group_selection [OF Suc.prems] obtain pr p where sel: "NextInGroupExcluding grp ex (gw_pool g) = Inr (pr, p)"
    and p: "sel_frame (gw_pool g) p" "pool_wf p" "group_room left (B + group_cost grp (gw_pool g)) grp p"
      "\<forall>a. pr = Some a \<longrightarrow> a \<in> set (live (gw_pool g)) \<and> id_of (gw_pool g) a \<notin> set ex" by blast
  show ?case
  proof (cases pr)
    case None
    let ?w = "if tried > 0 then allFailed w else noProxy grp w"
    have "\<exists>q q'. sel_frame (gw_pool g) q \<and> NextInGroupExcluding grp ex q = Inr (None, q')"
      using sel None by (intro exI [of _ "gw_pool g"] exI [of _ p]) simp
    then have "run_ok served request net (Suc left) ex tried grp w g ?w (g\<lparr>gw_pool := p\<rparr>)"
      unfolding run_ok_def using p(1)
      by (intro exI [of _ "[]"]) (auto simp: all_retry_def)
    then show ?thesis by (simp add: sel None)
  next
    case (Some a)
    let ?pr = "pl_heap p a"
    have live: "a \<in> set (live (gw_pool g))" and ex: "px_ID ?pr \<notin> set ex"
      using p(4) Some sel_frame_fields [OF p(1)] by (auto simp: id_of_def)
    obtain v w1 g1 where r: "relay (net tried) ?pr w (g\<lparr>gw_pool := p\<rparr>) = (v, w1, g1)"
      by (cases "relay (net tried) ?pr w (g\<lparr>gw_pool := p\<rparr>)") auto
    show ?thesis
    proof (cases "served (net tried) ?pr")
      case None
      then have v: "v = (False, True)" using verdict [OF r] by simp
      have g1: "gw_pool g1 = p" using frame [OF r] by simp
      obtain w' g' where run: "attempts relay grp net left (px_ID ?pr # ex) (Suc tried) w1 g1 = Inr (w', g')"
        "run_ok served request net left (px_ID ?pr # ex) (Suc tried) grp w1 g1 w' g'"
        using Suc.IH [of g1 "B + group_cost grp (gw_pool g)" "px_ID ?pr # ex" "Suc tried" w1] p(2,3) unfolding g1 by blast
      from run_ok_step [where net = net, OF p(1) live ex r None run(2)] run(1) show ?thesis
        by (simp add: sel Some r v)
    next
      case (Some f)
      then have v: "v = (True, False)" using verdict [OF r] by simp
      from run_ok_served [where net = net, OF p(1) live ex r Some] show ?thesis by (simp add: sel \<open>pr = Some a\<close> r v)
    qed
  qed
qed

end

subsection \<open>The two relays\<close>

text \<open>One attempt of a plain request: the response of the upstream, if it is usable.\<close>

definition hop_response :: "Req \<Rightarrow> hop \<Rightarrow> Proxy \<Rightarrow> Resp option" where
  "hop_response r hp pr =
     (if hp_dial hp \<and> (equal_fold (px_Scheme pr) ''https'' \<longrightarrow> hp_tls hp) \<and> hp_write hp then
        (case hp_answer hp (upstream_request r pr) of
           None \<Rightarrow> None
         | Some resp \<Rightarrow> if fst (isUpstreamErrorPage resp) then None else Some (snd (isUpstreamErrorPage resp)))
      else None)"

definition relayed :: "Resp \<Rightarrow> Writer \<Rightarrow> Writer" where
  "relayed resp w =
     w\<lparr>w_Header := copyHeaders (w_Header w) (rs_Header resp), w_Status := rs_Status resp, w_Body := w_Body w @ rs_Body resp\<rparr>"

text \<open>One attempt of a tunnel: refused, or an answer to the client.\<close>

definition tunnel_answer :: "Req \<Rightarrow> hop \<Rightarrow> Proxy \<Rightarrow> (Writer \<Rightarrow> Writer) option" where
  "tunnel_answer r hp pr =
     (if \<not> hp_dial hp then None
      else if \<not> hp_write hp then Some (http_error ''upstream connect failed'' 502)
      else case hp_answer hp (connect_request r pr) of
             None \<Rightarrow> None
           | Some resp \<Rightarrow>
              if rs_Status resp \<noteq> 200 then None
              else if \<not> hp_hijacker hp then Some (http_error ''hijacking not supported'' 500)
              else if \<not> hp_hijack hp then Some (http_error ''hijack failed'' 500)
              else Some (\<lambda>w. w\<lparr>w_Raw := Some (if hp_established hp \<and> hp_flush hp
                     then ''HTTP/1.1 200 Connection Established'' @ crlf @ crlf @ hp_down hp else [])\<rparr>))"

lemma noteUse_simps [simp]:
  "gw_pool (noteUse grp g) = gw_pool g" "gw_creds (noteUse grp g) = gw_creds g" "gw_net (noteUse grp g) = gw_net g"
  by (simp_all add: noteUse_def)

lemmas relay_defs = relayHTTP_def relayConnect_def dialUpstream_def dialTCP_def send_def Let_def case_prod_unfold

interpretation http: hop_relay "relayHTTP r grp" "\<lambda>hp pr. map_option relayed (hop_response r hp pr)" "upstream_request r" for r grp
proof
  fix hp pr w g v w' g'
  assume a: "relayHTTP r grp hp pr w g = (v, w', g')"
  show "case map_option relayed (hop_response r hp pr) of
      None \<Rightarrow> v = (False, True) \<and> w' = w \<and> gw_used g' = gw_used g | Some f \<Rightarrow> v = (True, False) \<and> w' = f w"
    using a by (auto simp: relay_defs hop_response_def relayed_def [abs_def] split: if_splits option.splits)
  show "gw_pool g' = gw_pool g \<and> gw_creds g' = gw_creds g"
    using a by (auto simp: relay_defs split: if_splits option.splits)
  show "\<exists>es. gw_net g' = gw_net g @ es \<and> dialled es = [pr] \<and>
      (\<forall>q out. Sent q out \<in> set es \<longrightarrow> q = pr \<and> out = upstream_request r pr)"
    using a by (auto simp: relay_defs split: if_splits option.splits)
qed

interpretation connect: hop_relay "relayConnect r grp" "tunnel_answer r" "connect_request r" for r grp
proof
  fix hp pr w g v w' g'
  assume a: "relayConnect r grp hp pr w g = (v, w', g')"
  show "case tunnel_answer r hp pr of
      None \<Rightarrow> v = (False, True) \<and> w' = w \<and> gw_used g' = gw_used g | Some f \<Rightarrow> v = (True, False) \<and> w' = f w"
    using a by (auto simp: relay_defs tunnel_answer_def split: if_splits option.splits)
  show "gw_pool g' = gw_pool g \<and> gw_creds g' = gw_creds g"
    using a by (auto simp: relay_defs split: if_splits option.splits)
  show "\<exists>es. gw_net g' = gw_net g @ es \<and> dialled es = [pr] \<and>
      (\<forall>q out. Sent q out \<in> set es \<longrightarrow> q = pr \<and> out = connect_request r pr)"
    using a by (auto simp: relay_defs split: if_splits option.splits)
qed

end
