(* ===== verification/Gateway_Props.thy ===== *)
theory Gateway_Props
  imports Gateway_Relay Provider_Props Pool_Effects Pool_Demo
begin

section \<open>Properties of the gateway\<close>

text \<open>
  Who is let in, which proxies a request goes through and what is sent to them, and when a group's tunnel
  address is handed out.
\<close>

subsection \<open>Helpers\<close>

lemma h_values_del [simp]: "h_values k (h_del k' h) = (if CanonicalHeaderKey k = CanonicalHeaderKey k' then [] else h_values k h)"
  by (simp add: h_values_def h_del_def)

lemma h_values_set [simp]: "h_values k (h_set k' v h) = (if CanonicalHeaderKey k = CanonicalHeaderKey k' then [v] else h_values k h)"
  by (simp add: h_values_def h_set_def)

lemma h_values_fold_del:
  "h_values k (fold h_del ks h) = (if CanonicalHeaderKey k \<in> CanonicalHeaderKey ` set ks then [] else h_values k h)"
  by (induction ks arbitrary: h) auto

lemma canon_hop: "k \<in> set hopHeaders \<Longrightarrow> CanonicalHeaderKey k = k"
  by (auto simp: hopHeaders_def CanonicalHeaderKey_def token_char_def is_alnum_def is_letter_def is_digit_def
      ascii_upper_def ascii_lower_def char_of_def bit_iff_odd Let_def)

lemma cred_key_eq:
  assumes "CHR 0x00 \<notin> set gu" "CHR 0x00 \<notin> set gp"
  shows "credKey u p = credKey gu gp \<longleftrightarrow> u = gu \<and> p = gp"
proof
  assume a: "credKey u p = credKey gu gp"
  then have c: "cut_char (CHR 0x00) (u @ CHR 0x00 # p) = Some (gu, gp)"
    using cut_char_append [OF assms(1)] by (simp add: credKey_def)
  have "count_list (u @ CHR 0x00 # p) (CHR 0x00) = Suc 0" using a assms by (simp add: credKey_def)
  then have "CHR 0x00 \<notin> set u" by (simp add: count_list_0_iff)
  then show "u = gu \<and> p = gp" using cut_char_append [of "CHR 0x00" u p] c by simp
qed simp

lemma rebuild_lookup:
  assumes "\<forall>c \<in> set gs. CHR 0x00 \<notin> set (gc_Username c) \<and> CHR 0x00 \<notin> set (gc_Password c)"
  shows "mget (fold (\<lambda>c m. if gc_Username c \<noteq> [] \<and> gc_Password c \<noteq> []
              then mput (credKey (gc_Username c) (gc_Password c)) (gc_Name c) m else m) gs []) (credKey u p) =
    (case rev (filter (\<lambda>c. gc_Username c = u \<and> gc_Password c = p \<and> u \<noteq> [] \<and> p \<noteq> []) gs) of
       [] \<Rightarrow> None | c # _ \<Rightarrow> Some (gc_Name c))"
  using assms
proof (induction gs rule: rev_induct)
  case (snoc c gs)
  have "credKey u p = credKey (gc_Username c) (gc_Password c) \<longleftrightarrow> u = gc_Username c \<and> p = gc_Password c"
    using snoc.prems by (intro cred_key_eq) auto
  then show ?case using snoc by auto
qed simp

lemma basic_auth_decode:
  assumes "h_get ''Proxy-Authorization'' (rq_Header r) = basicAuth u p" "CHR '':'' \<notin> set u"
  shows "proxyBasicAuth r = Some (u, p)"
  using assms cut_char_append [OF assms(2), of p]
  by (simp add: proxyBasicAuth_def basicAuth_def has_prefix_def trim_prefix_def b64_decode_encode Let_def)

subsection \<open>A gateway for the witnesses\<close>

definition demo_cred_group :: GroupCfg where
  "demo_cred_group = demo_group\<lparr>gc_Username := ''u'', gc_Password := ''p''\<rparr>"

definition demo_gateway :: Gateway where
  "demo_gateway = New_gateway demo_pool (Some [demo_cred_group])"

definition demo_req :: Req where
  "demo_req = \<lparr>rq_Method = ''GET'', rq_URL = ''http://t/x'', rq_Path = ''/x'', rq_Host = ''t'',
     rq_Header = [(''Proxy-Authorization'', [basicAuth ''u'' ''p'']), (''Accept'', [''*''])], rq_Body = []\<rparr>"

definition demo_hop :: hop where
  "demo_hop = \<lparr>hp_dial = True, hp_tls = True, hp_write = True, hp_answer = (\<lambda>_. Some \<lparr>rs_Status = 200, rs_Header = [], rs_Body = ''ok''\<rparr>),
     hp_body = True, hp_hijacker = True, hp_hijack = True, hp_established = True, hp_flush = True,
     hp_buffered = [], hp_down = [], hp_up = []\<rparr>"

definition demo_writer :: Writer where
  "demo_writer = \<lparr>w_Header = [], w_Status = 0, w_Body = [], w_Raw = None\<rparr>"

lemma demo_gateway_ready: "pool_wf (gw_pool demo_gateway)" "group_room 3 0 ''g'' (gw_pool demo_gateway)" "gw_net demo_gateway = []"
proof -
  have p: "gw_pool demo_gateway = demo_pool" by (simp add: demo_gateway_def New_gateway_def rebuildCreds_def)
  show "pool_wf (gw_pool demo_gateway)" unfolding p by (rule demo_pool_wf)
  show "group_room 3 0 ''g'' (gw_pool demo_gateway)"
    unfolding p by (simp add: group_room_def group_cost_def swrr_within_def demo_pool_def layer_cost_def demo_layer_def MaxInt64_def)
  show "gw_net demo_gateway = []" by (simp add: demo_gateway_def New_gateway_def rebuildCreds_def)
qed

lemma demo_req_auth: "h_get ''Proxy-Authorization'' (rq_Header demo_req) = basicAuth ''u'' ''p''"
proof -
  have "CanonicalHeaderKey ''Proxy-Authorization'' = ''Proxy-Authorization''" by (rule canon_hop) (simp add: hopHeaders_def)
  then show ?thesis by (simp add: h_get_def h_values_def demo_req_def mget0_def)
qed

text \<open>A run of the handler whose first attempt succeeds.\<close>

lemma demo_run:
  "\<exists>pr w' g'. handleHTTP demo_req ''g'' (\<lambda>_. demo_hop) demo_writer demo_gateway = Inr (w', g') \<and>
     Sent pr (upstream_request demo_req pr) \<in> set (gw_net g') \<and> px_Username pr = []"
proof -
  have p: "gw_pool demo_gateway = demo_pool" by (simp add: demo_gateway_def New_gateway_def rebuildCreds_def)
  obtain a q where sel: "NextInGroup ''g'' demo_pool = Inr (Some a, q)" using demo_next_in_group by blast
  have "sel_frame demo_pool q" using NextInGroup_post [OF demo_pool_wf] sel by (simp add: sel_post_def)
  then have "pl_heap q = pl_heap demo_pool" by (rule sel_frame_fields)
  then have un: "px_Username (pl_heap q a) = []" by (simp add: demo_defs)
  have "NextInGroupExcluding ''g'' [] (gw_pool demo_gateway) = Inr (Some a, q)" using sel by (simp add: NextInGroupExcluding_def p)
  then show ?thesis using un
    by (intro exI [of _ "pl_heap q a"])
      (simp add: handleHTTP_def maxProxyAttempts_def numeral_3_eq_3 relay_defs demo_hop_def isUpstreamErrorPage_def)
qed

subsection \<open>Authentication, retries and headers\<close>

text \<open>What an authenticated request of a group is dispatched to.\<close>

definition serve_group ::
  "GroupCfg list option \<Rightarrow> string \<Rightarrow> Req \<Rightarrow> (nat \<Rightarrow> hop) \<Rightarrow> Writer \<Rightarrow> Gateway \<Rightarrow> (Writer \<times> Gateway) go" where
  "serve_group src grp r net w g =
     (if rq_Method r = ''GET'' \<and> rq_Path r = ''/direct'' then Inr (handleDirect grp src w g)
      else if rq_Method r = ''CONNECT'' then handleConnect r grp net w g
      else handleHTTP r grp net w g)"

text \<open>
  C34. Authentication. After a rebuild of the credentials from groups whose credentials have no zero byte, a
  request is served for exactly the group that is configured with the user and password it presents, the
  last such group of the list when several share them; a request without well-formed credentials, or with
  credentials that no group has as a complete pair, is answered with 407 and has no effect. Credentials in
  the form the gateway itself writes them are read back as they are, for user names without a colon.
\<close>

theorem gateway_authentication:
  assumes creds: "\<forall>c \<in> set gs. CHR 0x00 \<notin> set (gc_Username c) \<and> CHR 0x00 \<notin> set (gc_Password c) \<and> gc_Name c \<noteq> []"
    and g: "g = Gateway_Rebuild (Some gs) g0"
  shows "ServeHTTP src r net w g =
      (case proxyBasicAuth r of
         None \<Rightarrow> Inr (requireAuth w, g)
       | Some (u, p) \<Rightarrow>
          (case rev (filter (\<lambda>c. gc_Username c = u \<and> gc_Password c = p \<and> u \<noteq> [] \<and> p \<noteq> []) gs) of
             [] \<Rightarrow> Inr (requireAuth w, g)
           | c # _ \<Rightarrow> serve_group src (gc_Name c) r net w g)) \<and>
    (h_get ''Proxy-Authorization'' (rq_Header r) = basicAuth u p \<and> CHR '':'' \<notin> set u \<longrightarrow> proxyBasicAuth r = Some (u, p))"
proof (intro conjI impI)
  let ?F = "\<lambda>u p. rev (filter (\<lambda>c. gc_Username c = u \<and> gc_Password c = p \<and> u \<noteq> [] \<and> p \<noteq> []) gs)"
  have look: "LookupGroup u p g = (case ?F u p of [] \<Rightarrow> [] | c # _ \<Rightarrow> gc_Name c)" for u p
    using rebuild_lookup [of gs u p] creds
    by (auto simp: LookupGroup_def g Gateway_Rebuild_def rebuildCreds_def mget0_def split: list.split)
  have name: "gc_Name c \<noteq> []" if "?F u p = c # cs" for u p c cs
  proof -
    have "c \<in> set (?F u p)" using that by simp
    then show ?thesis using creds by auto
  qed
  show "ServeHTTP src r net w g =
      (case proxyBasicAuth r of
         None \<Rightarrow> Inr (requireAuth w, g)
       | Some (u, p) \<Rightarrow> (case ?F u p of [] \<Rightarrow> Inr (requireAuth w, g) | c # _ \<Rightarrow> serve_group src (gc_Name c) r net w g))"
  proof (cases "proxyBasicAuth r")
    case (Some up)
    obtain u p where up: "up = (u, p)" by (cases up)
    show ?thesis
    proof (cases "?F u p")
      case Nil
      then show ?thesis using look [of u p] by (simp add: ServeHTTP_def Some up Let_def)
    next
      case (Cons c cs)
      then show ?thesis using look [of u p] name [OF Cons] by (simp add: ServeHTTP_def Some up Let_def serve_group_def)
    qed
  qed (simp add: ServeHTTP_def)
qed (rule basic_auth_decode, auto)

theorem gateway_authentication_witness:
  "\<forall>src net w. ServeHTTP src demo_req net w (Gateway_Rebuild (Some [demo_cred_group]) demo_gateway) =
     handleHTTP demo_req ''g'' net w (Gateway_Rebuild (Some [demo_cred_group]) demo_gateway)"
proof (intro allI)
  fix src net w
  have c: "\<forall>c \<in> set [demo_cred_group]. CHR 0x00 \<notin> set (gc_Username c) \<and> CHR 0x00 \<notin> set (gc_Password c) \<and> gc_Name c \<noteq> []"
    by (simp add: demo_cred_group_def demo_group_def)
  show "ServeHTTP src demo_req net w (Gateway_Rebuild (Some [demo_cred_group]) demo_gateway) =
     handleHTTP demo_req ''g'' net w (Gateway_Rebuild (Some [demo_cred_group]) demo_gateway)"
    using gateway_authentication [OF c refl, of src demo_req net w demo_gateway "''u''" "''p''"] demo_req_auth
    by (simp add: demo_cred_group_def demo_group_def serve_group_def) (simp add: demo_req_def)
qed



text \<open>
  C8. What an upstream sees. Every request that the gateway writes for a plain request goes to a proxy it
  dialled and has the method, address, host and body of the client's request; the client's credentials
  and every hop-by-hop header, fixed or nominated by a Connection header, are gone, the proxy's own
  credentials are there exactly when it has a user name, and every other header is as the client sent it.
\<close>

theorem upstream_headers:
  assumes "pool_wf (gw_pool g)" "group_room 3 B grp (gw_pool g)" "handleHTTP r grp net w g = Inr (w', g')"
    and "Sent pr out \<in> set (drop (length (gw_net g)) (gw_net g'))"
  shows "pr \<in> set (dialled (drop (length (gw_net g)) (gw_net g'))) \<and>
    rq_Method out = rq_Method r \<and> rq_URL out = rq_URL r \<and> rq_Host out = rq_Host r \<and> rq_Body out = rq_Body r \<and>
    h_values k (rq_Header out) =
      (if CanonicalHeaderKey k = ''Proxy-Authorization''
       then (if px_Username pr \<noteq> [] then [basicAuth (px_Username pr) (px_Password pr)] else [])
       else if CanonicalHeaderKey k \<in> set hopHeaders \<or> CanonicalHeaderKey k \<in> CanonicalHeaderKey ` set (nominated (rq_Header r)) then []
       else h_values k (rq_Header r))"
proof -
  obtain es where es: "gw_net g' = gw_net g @ es" "\<forall>q out. Sent q out \<in> set es \<longrightarrow> q \<in> set (dialled es) \<and> out = upstream_request r q"
    using http.attempts_run [OF assms(1,2), of r grp net "[]" 0 w] assms(3)
    by (auto simp: handleHTTP_def maxProxyAttempts_def run_ok_def)
  then have out: "pr \<in> set (dialled es)" "out = upstream_request r pr" using assms(4) by auto
  have hop: "CanonicalHeaderKey ` set hopHeaders = set hopHeaders" using canon_hop by force
  have pa: "CanonicalHeaderKey ''Proxy-Authorization'' = ''Proxy-Authorization''"
    "CanonicalHeaderKey ''Proxy-Connection'' = ''Proxy-Connection''"
    by (rule canon_hop, simp add: hopHeaders_def)+
  have "''Proxy-Connection'' \<in> set hopHeaders" by (simp add: hopHeaders_def)
  then show ?thesis
    unfolding out(2) using es(1) out(1)
    by (auto simp: upstream_request_def Let_def removeHopHeaders_def h_values_fold_del hop pa)
qed

theorem upstream_headers_witness:
  "\<exists>pr out w' g'. handleHTTP demo_req ''g'' (\<lambda>_. demo_hop) demo_writer demo_gateway = Inr (w', g') \<and>
     Sent pr out \<in> set (gw_net g') \<and> h_values ''Proxy-Authorization'' (rq_Header out) = [] \<and> h_values ''Accept'' (rq_Header out) = [''*'']"
proof -
  obtain pr w' g' where run: "handleHTTP demo_req ''g'' (\<lambda>_. demo_hop) demo_writer demo_gateway = Inr (w', g')"
    and sent: "Sent pr (upstream_request demo_req pr) \<in> set (gw_net g')" and un: "px_Username pr = []" using demo_run by blast
  have d: "Sent pr (upstream_request demo_req pr) \<in> set (drop (length (gw_net demo_gateway)) (gw_net g'))"
    using sent demo_gateway_ready(3) by simp
  have pa: "CanonicalHeaderKey ''Proxy-Authorization'' = ''Proxy-Authorization''" "CanonicalHeaderKey ''Connection'' = ''Connection''"
    by (rule canon_hop, simp add: hopHeaders_def)+
  have ac: "CanonicalHeaderKey ''Accept'' = ''Accept''"
    by (simp add: CanonicalHeaderKey_def token_char_def is_alnum_def is_letter_def is_digit_def ascii_upper_def ascii_lower_def)
  have nom: "nominated (rq_Header demo_req) = []" by (simp add: nominated_def h_values_def pa demo_req_def mget0_def)
  note th = upstream_headers [OF demo_gateway_ready(1,2) run d]
  have "h_values ''Proxy-Authorization'' (rq_Header (upstream_request demo_req pr)) = []"
    using th [of "''Proxy-Authorization''"] un pa by simp
  moreover have "h_values ''Accept'' (rq_Header (upstream_request demo_req pr)) = [''*'']"
    using th [of "''Accept''"] by (simp add: ac nom) (simp add: hopHeaders_def h_values_def ac demo_req_def mget0_def)
  ultimately show ?thesis using run sent by blast
qed

subsection \<open>The direct address\<close>

text \<open>The proxies of the group's providers.\<close>

definition members :: "GroupCfg \<Rightarrow> Pool \<Rightarrow> Proxy set" where
  "members cfg p = {pr \<in> pl_heap p ` set (registered p). px_Provider pr \<in> set (provSet cfg)}"

definition same_endpoint :: "Proxy \<Rightarrow> Proxy \<Rightarrow> bool" where
  "same_endpoint a b \<longleftrightarrow> px_Host a = px_Host b \<and> px_Port a = px_Port b"

lemma All_members: "\<exists>as r. All p = (as, p\<lparr>pl_rng := r\<rparr>) \<and> set as = set (registered p)"
proof -
  obtain es r where e: "range_order (pl_proxies p) (pl_rng p) = (es, r)" by (cases "range_order (pl_proxies p) (pl_rng p)")
  then have "set es = set (pl_proxies p)" using set_range_order [of "pl_proxies p" "pl_rng p"] by simp
  then show ?thesis by (auto simp: All_def e registered_def)
qed

text \<open>What the loop computes, with the upstream found so far as its reference.\<close>

lemma direct_loop_spec:
  fixes ps :: "string list" and h :: heap
  defines "M \<equiv> \<lambda>as. {a \<in> set as. px_Provider (h a) \<in> set ps}"
  shows "direct_loop ps h as (up, multi) =
    (if \<exists>a \<in> M as. px_Kind (h a) \<noteq> KindTunnel then None
     else let u = (case up of Some a \<Rightarrow> Some a | None \<Rightarrow> find (\<lambda>a. px_Provider (h a) \<in> set ps) as)
          in Some (u, multi \<or> (\<exists>a \<in> M as. \<not> same_endpoint (h (the u)) (h a))))"
proof (induction as arbitrary: up multi)
  case Nil
  show ?case by (cases up) (simp_all add: M_def)
next
  case (Cons a as)
  have M: "M (a # as) = (if px_Provider (h a) \<in> set ps then insert a (M as) else M as)" by (auto simp: M_def)
  show ?case
    by (cases up) (auto simp: M Cons.IH same_endpoint_def Let_def)
qed

lemma handleDirect_frame: "\<exists>w' rng. handleDirect grp src w g = (w', g\<lparr>gw_pool := (gw_pool g)\<lparr>pl_rng := rng\<rparr>\<rparr>)"
proof -
  obtain as r where all: "All (gw_pool g) = (as, (gw_pool g)\<lparr>pl_rng := r\<rparr>)" using All_members [of "gw_pool g"] by blast
  have g: "g = g\<lparr>gw_pool := (gw_pool g)\<lparr>pl_rng := pl_rng (gw_pool g)\<rparr>\<rparr>" by simp
  show ?thesis
  proof (cases "findGroup grp src")
    case None
    then show ?thesis using exI [of "\<lambda>rng. g = g\<lparr>gw_pool := (gw_pool g)\<lparr>pl_rng := rng\<rparr>\<rparr>", OF g] by (simp add: handleDirect_def)
  next
    case (Some cfg)
    then show ?thesis by (auto simp: handleDirect_def all Let_def split: option.split)
  qed
qed

text \<open>
  The direct address of a group. Let the members be the registered proxies of all providers the group
  names. When one of them is not a tunnel, when there are none, or when two of them have different
  endpoints, no address is given and the answer says why; otherwise the answer is the address of a member,
  which is then the endpoint of every member. An unknown group is 404. Apart from the random stream nothing
  changes, whatever the order in which the pool lists its proxies.
\<close>

theorem direct_address_exact:
  "\<exists>w' rng. handleDirect grp src w g = (w', g\<lparr>gw_pool := (gw_pool g)\<lparr>pl_rng := rng\<rparr>\<rparr>) \<and>
    (case findGroup grp src of
       None \<Rightarrow> w' = http_error ''group not found'' 404 w
     | Some cfg \<Rightarrow>
        let M = members cfg (gw_pool g)
        in if \<exists>pr \<in> M. px_Kind pr \<noteq> KindTunnel
           then w' = json_answer (direct_null ''group contains non-tunnel providers; traffic must be relayed'') w
           else if M = {} then w' = json_answer (direct_null ''no tunnel provider available in group'') w
           else if \<exists>a \<in> M. \<exists>b \<in> M. \<not> same_endpoint a b
           then w' = json_answer (direct_null ''group references multiple tunnel upstreams; use the relay gateway instead'') w
           else \<exists>pr \<in> M. w' = json_answer (direct_json (direct_url pr)) w)"
proof (cases "findGroup grp src")
  case None
  have "g\<lparr>gw_pool := (gw_pool g)\<lparr>pl_rng := pl_rng (gw_pool g)\<rparr>\<rparr> = g" by simp
  then show ?thesis using None by (intro exI [of _ "http_error ''group not found'' 404 w"] exI [of _ "pl_rng (gw_pool g)"]) (simp add: handleDirect_def)
next
  case cfg: (Some cfg)
  let ?p = "gw_pool g" and ?P = "\<lambda>a. px_Provider (pl_heap (gw_pool g) a) \<in> set (provSet cfg)"
  obtain as r where all: "All ?p = (as, ?p\<lparr>pl_rng := r\<rparr>)" and as: "set as = set (registered ?p)"
    using All_members [of ?p] by blast
  have M: "members cfg ?p = pl_heap ?p ` {a \<in> set as. ?P a}" by (auto simp: members_def as)
  note loop = direct_loop_spec [of "provSet cfg" "pl_heap ?p" as None False]
  show ?thesis
  proof (cases "find ?P as")
    case None
    then have e: "{a \<in> set as. ?P a} = {}" by (auto simp: find_None_iff)
    then have "members cfg ?p = {}" "direct_loop (provSet cfg) (pl_heap ?p) as (None, False) = Some (None, False)"
      unfolding M loop None Let_def by auto
    then show ?thesis by (auto simp: handleDirect_def cfg all Let_def)
  next
    case (Some a)
    then have a: "a \<in> set as" "?P a" by (auto simp: find_Some_iff)
    have multi: "(\<exists>x \<in> members cfg ?p. \<exists>y \<in> members cfg ?p. \<not> same_endpoint x y) \<longleftrightarrow>
        (\<exists>b. b \<in> set as \<and> ?P b \<and> \<not> same_endpoint (pl_heap ?p a) (pl_heap ?p b))"
      unfolding M same_endpoint_def using a by (auto simp: image_iff) metis+
    have kind: "(\<exists>pr \<in> members cfg ?p. px_Kind pr \<noteq> KindTunnel) \<longleftrightarrow> (\<exists>b. b \<in> set as \<and> ?P b \<and> px_Kind (pl_heap ?p b) \<noteq> KindTunnel)"
      unfolding M by auto
    have ne: "members cfg ?p \<noteq> {}" "pl_heap ?p a \<in> members cfg ?p" using a by (auto simp: M)
    have "direct_loop (provSet cfg) (pl_heap ?p) as (None, False) =
        (if \<exists>pr \<in> members cfg ?p. px_Kind pr \<noteq> KindTunnel then None
         else Some (Some a, \<exists>x \<in> members cfg ?p. \<exists>y \<in> members cfg ?p. \<not> same_endpoint x y))"
      unfolding loop multi kind Some Let_def by auto
    then have "handleDirect grp src w g = (if \<exists>pr \<in> members cfg ?p. px_Kind pr \<noteq> KindTunnel
          then (json_answer (direct_null ''group contains non-tunnel providers; traffic must be relayed'') w, g\<lparr>gw_pool := ?p\<lparr>pl_rng := r\<rparr>\<rparr>)
          else if \<exists>x \<in> members cfg ?p. \<exists>y \<in> members cfg ?p. \<not> same_endpoint x y
          then (json_answer (direct_null ''group references multiple tunnel upstreams; use the relay gateway instead'') w, g\<lparr>gw_pool := ?p\<lparr>pl_rng := r\<rparr>\<rparr>)
          else (json_answer (direct_json (direct_url (pl_heap ?p a))) w, g\<lparr>gw_pool := ?p\<lparr>pl_rng := r\<rparr>\<rparr>))"
      by (simp add: handleDirect_def cfg all)
    then show ?thesis
      unfolding cfg option.case Let_def using ne
      by (cases "\<exists>pr \<in> members cfg ?p. px_Kind pr \<noteq> KindTunnel";
          cases "\<exists>x \<in> members cfg ?p. \<exists>y \<in> members cfg ?p. \<not> same_endpoint x y") (simp_all only: if_True if_False simp_thms, blast+)
  qed
qed

subsection \<open>The address as a URL\<close>

lemma user_plain_code: "user_plain c \<Longrightarrow> url_safe c \<and> user_char c \<and> c \<noteq> CHR '':'' \<and> c \<noteq> CHR ''@''"
  by (auto simp: user_plain_def url_safe_def user_char_def is_alnum_def is_letter_def is_digit_def Let_def)

lemma escape_chars: "c \<in> set (escape_user s) \<Longrightarrow> user_plain c \<or> c = CHR ''%''"
proof (induction s)
  case (Cons d s)
  have hex: "user_plain (upper_hex n)" if "n < 16" for n
  proof -
    have "upper_hex n \<in> set ''0123456789ABCDEF''" unfolding upper_hex_def by (rule nth_mem) (use that in simp)
    then show ?thesis by (auto simp: user_plain_def is_alnum_def is_letter_def is_digit_def)
  qed
  have "(of_char d :: nat) div 16 < 16" using of_char_less [of d] by (simp add: less_mult_imp_div_less)
  then show ?case using Cons hex by (auto split: if_splits)
qed simp

lemma escape_safe:
  "list_all url_safe (escape_user s)" "list_all user_char (escape_user s)" "CHR '':'' \<notin> set (escape_user s)" "CHR ''@'' \<notin> set (escape_user s)"
proof -
  have "url_safe c \<and> user_char c \<and> c \<noteq> CHR '':'' \<and> c \<noteq> CHR ''@''" if "c \<in> set (escape_user s)" for c
    using escape_chars [OF that]
  proof
    assume "c = CHR ''%''"
    then show ?thesis by (simp add: url_safe_def user_char_def)
  qed (rule user_plain_code)
  then show "list_all url_safe (escape_user s)" "list_all user_char (escape_user s)" "CHR '':'' \<notin> set (escape_user s)" "CHR ''@'' \<notin> set (escape_user s)"
    by (auto simp: list_all_iff)
qed

lemma parse_authority_creds:
  assumes "plain h"
  shows "parse_authority (UserPassword_String u w @ ''@'' @ h @ '':'' @ nat_digits n) = Some (Some (u, w), h @ '':'' @ nat_digits n)"
proof -
  let ?ui = "UserPassword_String u w"
  have p: "list_all plain_char h" using assms by (auto simp: plain_def)
  have "CHR ''@'' \<notin> set (h @ '':'' @ nat_digits n)"
    using plain_notin [OF p, of "CHR ''@''"] plain_notin [OF plain_digits, of "CHR ''@''"] by auto
  then have "last_index_char (CHR ''@'') (?ui @ ''@'' @ h @ '':'' @ nat_digits n) = Some (length ?ui)"
    using last_index_split [of "CHR ''@''" "h @ '':'' @ nat_digits n" ?ui] by simp
  moreover have "list_all user_char ?ui" using escape_safe(2) by (simp add: UserPassword_String_def user_char_def)
  moreover have "cut_char (CHR '':'') ?ui = Some (escape_user u, escape_user w)"
    using cut_char_append [OF escape_safe(3)] by (simp add: UserPassword_String_def)
  ultimately show ?thesis
    using parse_host_plain [OF assms, of n] by (simp add: parse_authority_def Let_def unescape_escape)
qed

text \<open>
  The address that the direct endpoint hands out is a proxy URL that the provider code of this program
  reads back as the same upstream: its scheme (http when it has none), host and port, and its user name and
  password byte for byte, whatever bytes they have.
\<close>

theorem direct_url_roundtrip:
  assumes sch: "px_Scheme pr \<in> {[], ''http'', ''https'', ''socks5'', ''socks5h''}" and h: "plain (px_Host pr)"
    and port: "1 \<le> px_Port pr" "px_Port pr \<le> 65535"
  shows "ParseProxyURL (direct_url pr) =
    Some (if px_Scheme pr = [] then ''http'' else px_Scheme pr, px_Host pr, px_Port pr,
          px_Username pr, if px_Username pr = [] then [] else px_Password pr)"
proof -
  let ?s = "if px_Scheme pr = [] then ''http'' else px_Scheme pr" and ?d = "nat_digits (nat (px_Port pr))"
  let ?hp = "px_Host pr @ '':'' @ ?d" and ?u = "px_Username pr"
  let ?au = "if ?u \<noteq> [] then UserPassword_String ?u (px_Password pr) @ ''@'' @ ?hp else ?hp"
  have s: "?s \<in> {''http'', ''https'', ''socks5'', ''socks5h''}" using sch by auto
  have pc: "list_all plain_char (px_Host pr)" using h by (auto simp: plain_def)
  have "CHR '':'' \<notin> set (px_Host pr)" by (rule plain_notin [OF pc]) simp
  then have url: "direct_url pr = ?s @ ''://'' @ ?au"
    using port by (simp add: direct_url_def Let_def JoinHostPort_def itoa_def)
  have hp: "list_all auth_char ?hp" using pc plain_digits [of "nat (px_Port pr)"] by (auto simp: list_all_iff auth_char_def)
  have safe: "list_all url_safe ?au"
    using auth_safe [OF hp] escape_safe(1) by (auto simp: UserPassword_String_def url_safe_def)
  have pa: "parse_authority ?au = Some (if ?u \<noteq> [] then Some (?u, px_Password pr) else None, ?hp)"
    using parse_authority_creds [OF h] parse_authority_bare [OF h] by simp
  have last: "\<not> is_space (last ?d)"
    using auth_char_code [of "last ?d"] plain_digits [of "nat (px_Port pr)"] by (fastforce simp: list_all_iff auth_char_def is_space_def)
  have "\<not> is_space (hd (?s @ ''://'' @ ?au))" using s by (auto simp: is_space_def)
  then have t: "trim_space (?s @ ''://'' @ ?au) = ?s @ ''://'' @ ?au" using last s by (intro trim_space_id) auto
  have "contains_str (?s @ ''://'' @ ?au) ''://''" by (rule contains_str_append)
  then show ?thesis
    unfolding url using ParseProxyURL_eq [OF t _ refl _ s h port, of "if ?u \<noteq> [] then Some (?u, px_Password pr) else None"]
      url_parse_authority [OF s safe pa] s by auto
qed

theorem direct_url_roundtrip_witness:
  "ParseProxyURL (direct_url ((demo_proxy ''a'' 2)\<lparr>px_Username := ''a:b@c'', px_Password := ''p/w%''\<rparr>)) =
     Some (''http'', ''h'', 80, ''a:b@c'', ''p/w%'')"
proof -
  let ?pr = "(demo_proxy ''a'' 2)\<lparr>px_Username := ''a:b@c'', px_Password := ''p/w%''\<rparr>"
  have "px_Scheme ?pr \<in> {[], ''http'', ''https'', ''socks5'', ''socks5h''}" "plain (px_Host ?pr)" "1 \<le> px_Port ?pr" "px_Port ?pr \<le> 65535"
    by (simp_all add: demo_proxy_def plain_def plain_char_def is_alnum_def is_letter_def)
  from direct_url_roundtrip [OF this] show ?thesis by (simp add: demo_proxy_def)
qed

subsection \<open>What the code does besides\<close>

text \<open>An error response of the target, relayed after the look at its body, reaches the client without the
  first 4096 bytes of that body.\<close>

theorem error_bodies_truncated:
  assumes "400 \<le> rs_Status resp" "\<not> contains_str (to_lower (h_get ''Server'' (rs_Header resp))) ''squid''"
    and "hp_answer hp (upstream_request r pr) = Some resp" "\<not> fst (isUpstreamErrorPage resp)"
    and "hp_dial hp" "hp_tls hp" "hp_write hp"
  shows "\<exists>g'. relayHTTP r grp hp pr w g = ((True, False), relayed (resp\<lparr>rs_Body := drop 4096 (rs_Body resp)\<rparr>) w, g')"
proof -
  have "snd (isUpstreamErrorPage resp) = resp\<lparr>rs_Body := drop 4096 (rs_Body resp)\<rparr>"
    using assms(1,2) by (simp add: isUpstreamErrorPage_def Let_def)
  then show ?thesis using assms by (auto simp: relay_defs relayed_def)
qed

text \<open>A request for the path \<^verbatim>\<open>/direct\<close> of any target is answered by the gateway itself: nothing is sent anywhere.\<close>

theorem direct_path_shadows_targets:
  assumes "proxyBasicAuth r = Some (u, p)" "LookupGroup u p g \<noteq> []" "rq_Method r = ''GET''" "rq_Path r = ''/direct''"
  shows "\<exists>w' g'. ServeHTTP src r net w g = Inr (w', g') \<and> gw_net g' = gw_net g"
proof -
  obtain w' rng where "handleDirect (LookupGroup u p g) src w g = (w', g\<lparr>gw_pool := (gw_pool g)\<lparr>pl_rng := rng\<rparr>\<rparr>)"
    using handleDirect_frame by blast
  then show ?thesis using assms by (simp add: ServeHTTP_def Let_def)
qed

text \<open>A group whose user name has a colon cannot be reached: its credentials are read back with another user.\<close>

theorem colon_user_locked_out:
  assumes "h_get ''Proxy-Authorization'' (rq_Header r) = basicAuth u p" "CHR '':'' \<in> set u"
  shows "\<exists>u' p'. proxyBasicAuth r = Some (u', p') \<and> u' \<noteq> u"
proof -
  obtain u' p' where c: "cut_char (CHR '':'') (u @ '':'' @ p) = Some (u', p')"
    using cut_char_None [of "CHR '':''" "u @ '':'' @ p"] assms(2) by fastforce
  then have "u' \<noteq> u" using cut_char_Some [OF c] assms(2) by auto
  then show ?thesis
    using assms(1) c by (simp add: proxyBasicAuth_def basicAuth_def has_prefix_def trim_prefix_def b64_decode_encode Let_def)
qed

text \<open>A tunnel through an https proxy is opened without TLS; a plain request to the same proxy is not.\<close>

theorem tunnels_skip_tls:
  assumes "equal_fold (px_Scheme pr) ''https''"
  shows "\<exists>v w' g' ad. relayConnect r grp hp pr w g = (v, w', g') \<and> Dial ad False pr \<in> set (gw_net g')"
    "\<exists>v w' g' ad. relayHTTP r grp hp pr w g = (v, w', g') \<and> Dial ad True pr \<in> set (gw_net g')"
proof -
  show "\<exists>v w' g' ad. relayConnect r grp hp pr w g = (v, w', g') \<and> Dial ad False pr \<in> set (gw_net g')"
    by (cases "relayConnect r grp hp pr w g") (auto simp: relay_defs split: if_splits option.splits)
  show "\<exists>v w' g' ad. relayHTTP r grp hp pr w g = (v, w', g') \<and> Dial ad True pr \<in> set (gw_net g')"
    using assms by (cases "relayHTTP r grp hp pr w g") (auto simp: relay_defs split: if_splits option.splits)
qed

end
