(* ===== verification/Go_Net.thy ===== *)
theory Go_Net
  imports Go_Http "HOL-Library.Word"
begin

section \<open>IP addresses\<close>

text \<open>
  What the sources use of Go's \<^verbatim>\<open>net\<close> package: \<^verbatim>\<open>ParseIP\<close>, which gives the sixteen bytes of an IPv4 or IPv6 address, and the
  classifications of an address. An IPv4 address is the IPv6 address that maps it.
\<close>

unbundle bit_operations_syntax

type_synonym IP = "8 word list"

subsection \<open>Parsing\<close>

definition parse_octet :: "string \<Rightarrow> 8 word option" where
  "parse_octet s =
     (if s = [] \<or> \<not> list_all is_digit s \<or> length s > 1 \<and> hd s = CHR ''0'' \<or> digits_val 0 s > 255 then None
      else Some (word_of_nat (digits_val 0 s)))"

fun those_octets :: "string list \<Rightarrow> 8 word list option" where
  "those_octets [] = Some []"
| "those_octets (f # fs) =
     (case parse_octet f of
        None \<Rightarrow> None
      | Some b \<Rightarrow> map_option (Cons b) (those_octets fs))"

definition parseIPv4 :: "string \<Rightarrow> 8 word list option" where
  "parseIPv4 s = (let fields = split_on CHR ''.'' s in if length fields = 4 then those_octets fields else None)"

definition is_hex :: "char \<Rightarrow> bool" where
  "is_hex c \<longleftrightarrow> hex_value c \<noteq> None"

definition hex_number :: "string \<Rightarrow> nat" where
  "hex_number s = fold (\<lambda>c n. 16 * n + the (hex_value c)) s 0"

text \<open>The loop over the groups of an IPv6 address: at most \<open>k\<close> more, after the bytes \<open>ip\<close>, with the position of the ellipsis.\<close>

fun parse_groups :: "nat \<Rightarrow> nat option \<Rightarrow> IP \<Rightarrow> string \<Rightarrow> (IP \<times> nat option \<times> string) option" where
  "parse_groups 0 ell ip s = Some (ip, ell, s)"
| "parse_groups (Suc k) ell ip s =
     (let h = takeWhile is_hex s; rest = dropWhile is_hex s; n = hex_number h;
          ip2 = ip @ [word_of_nat (n div 256), word_of_nat (n mod 256)]
      in if length h > 4 \<or> h = [] then None
         else if rest \<noteq> [] \<and> hd rest = CHR ''.'' then
           (if ell = None \<and> length ip \<noteq> 12 then None
            else if length ip + 4 > 16 then None
            else map_option (\<lambda>v4. (ip @ v4, ell, [])) (parseIPv4 s))
         else
           (case rest of
              [] \<Rightarrow> Some (ip2, ell, [])
            | c # cs \<Rightarrow>
               if c \<noteq> CHR '':'' \<or> cs = [] then None
               else if hd cs = CHR '':'' then
                 (if ell \<noteq> None then None
                  else if tl cs = [] then Some (ip2, Some (length ip2), [])
                  else parse_groups k (Some (length ip2)) ip2 (tl cs))
               else parse_groups k ell ip2 cs))"

text \<open>\<^verbatim>\<open>ParseIP\<close> refuses addresses with a zone.\<close>

definition parseIPv6 :: "string \<Rightarrow> IP option" where
  "parseIPv6 s =
     (let leading = (take 2 s = ''::''); s2 = (if leading then drop 2 s else s); ell = (if leading then Some 0 else None)
      in if CHR ''%'' \<in> set s then None
         else if leading \<and> s2 = [] then Some (replicate 16 0)
         else case parse_groups 8 ell [] s2 of
                None \<Rightarrow> None
              | Some (ip, ell, rest) \<Rightarrow>
                 if rest \<noteq> [] then None
                 else if length ip < 16 then map_option (\<lambda>e. take e ip @ replicate (16 - length ip) 0 @ drop e ip) ell
                 else if ell \<noteq> None then None
                 else Some ip)"

definition v4_mapped :: "8 word list \<Rightarrow> IP" where
  "v4_mapped v4 = replicate 10 0 @ [0xFF, 0xFF] @ v4"

definition ParseIP :: "string \<Rightarrow> IP option" where
  "ParseIP s =
     (case find (\<lambda>c. c \<in> {CHR ''.'', CHR '':'', CHR ''%''}) s of
        None \<Rightarrow> None
      | Some c \<Rightarrow>
         if c = CHR ''.'' then map_option v4_mapped (parseIPv4 s)
         else if c = CHR '':'' then parseIPv6 s
         else None)"

subsection \<open>Classification\<close>

definition To4 :: "IP \<Rightarrow> 8 word list option" where
  "To4 ip = (if length ip = 16 \<and> take 12 ip = replicate 10 0 @ [0xFF, 0xFF] then Some (drop 12 ip) else None)"

definition IsPrivate :: "IP \<Rightarrow> bool" where
  "IsPrivate ip =
     (case To4 ip of
        Some v \<Rightarrow> v ! 0 = 10 \<or> v ! 0 = 172 \<and> v ! 1 AND 0xF0 = 16 \<or> v ! 0 = 192 \<and> v ! 1 = 168
      | None \<Rightarrow> length ip = 16 \<and> ip ! 0 AND 0xFE = 0xFC)"

definition IsLoopback :: "IP \<Rightarrow> bool" where
  "IsLoopback ip = (case To4 ip of Some v \<Rightarrow> v ! 0 = 127 | None \<Rightarrow> ip = replicate 15 0 @ [1])"

definition IsLinkLocalUnicast :: "IP \<Rightarrow> bool" where
  "IsLinkLocalUnicast ip =
     (case To4 ip of
        Some v \<Rightarrow> v ! 0 = 169 \<and> v ! 1 = 254
      | None \<Rightarrow> length ip = 16 \<and> ip ! 0 = 0xFE \<and> ip ! 1 AND 0xC0 = 0x80)"

definition IsLinkLocalMulticast :: "IP \<Rightarrow> bool" where
  "IsLinkLocalMulticast ip =
     (case To4 ip of
        Some v \<Rightarrow> v ! 0 = 224 \<and> v ! 1 = 0 \<and> v ! 2 = 0
      | None \<Rightarrow> length ip = 16 \<and> ip ! 0 = 0xFF \<and> ip ! 1 AND 0x0F = 0x02)"

definition IsMulticast :: "IP \<Rightarrow> bool" where
  "IsMulticast ip =
     (case To4 ip of
        Some v \<Rightarrow> v ! 0 AND 0xF0 = 0xE0
      | None \<Rightarrow> length ip = 16 \<and> ip ! 0 = 0xFF)"

definition IsUnspecified :: "IP \<Rightarrow> bool" where
  "IsUnspecified ip \<longleftrightarrow> ip = v4_mapped [0, 0, 0, 0] \<or> ip = replicate 16 0"

end
