(* ===== verification/Geo_Client.thy ===== *)
theory Geo_Client
  imports Go_Net Manager_Step
begin

section \<open>The geolocation client (internal/geo/geo.go)\<close>

text \<open>
  Addresses are looked up in a cache and, for the public ones it does not know, with one batch request. The outcome of the request
  is an argument: that it could not be made, that it failed, or the status with the decoded results, if they could be
  decoded.
\<close>

definition defaultBatchURL :: string where
  "defaultBatchURL = ''http://ip-api.com/batch''"

record Client =
  gc_url :: string
  gc_cache :: "(string, string) gomap"

definition New_client :: "string \<Rightarrow> Client" where
  "New_client url = \<lparr>gc_url = (if url = [] then defaultBatchURL else url), gc_cache = []\<rparr>"

definition isPublicIP :: "IP option \<Rightarrow> bool" where
  "isPublicIP ip =
     (case ip of
        None \<Rightarrow> False
      | Some a \<Rightarrow>
         \<not> (IsPrivate a \<or> IsLoopback a \<or> IsLinkLocalUnicast a \<or> IsLinkLocalMulticast a \<or> IsMulticast a \<or> IsUnspecified a))"

definition Country :: "string \<Rightarrow> Client \<Rightarrow> string" where
  "Country ip c = mget0 [] (gc_cache c) ip"

record geo_result =
  ge_Query :: string
  ge_Status :: string
  ge_CountryCode :: string

datatype geo_reply = RequestInvalid | RequestFails | Responded int "geo_result list option"

text \<open>The first loop: what is answered at once, and the addresses to ask for.\<close>

fun lookup_loop :: "Client \<Rightarrow> string list \<Rightarrow> (string, string) gomap \<Rightarrow> string list \<Rightarrow> (string, string) gomap \<times> string list" where
  "lookup_loop c [] out pending = (out, pending)"
| "lookup_loop c (ip # ips) out pending =
     (if ip = [] then lookup_loop c ips (mput ip [] out) pending
      else if \<not> isPublicIP (ParseIP ip) then lookup_loop c ips (mput ip [] out) pending
      else case mget (gc_cache c) ip of
             Some country \<Rightarrow> lookup_loop c ips (mput ip country out) pending
           | None \<Rightarrow>
              if ip \<in> set pending then lookup_loop c ips out pending
              else lookup_loop c ips out (pending @ [ip]))"

definition unanswered :: "string list \<Rightarrow> (string, string) gomap \<Rightarrow> (string, string) gomap" where
  "unanswered pending out = fold (\<lambda>ip. mput ip []) pending out"

definition result_country :: "geo_result \<Rightarrow> string" where
  "result_country r = (if ge_Status r = ''success'' then ge_CountryCode r else [])"

fun result_loop :: "geo_result list \<Rightarrow> (string, string) gomap \<times> Client \<Rightarrow> (string, string) gomap \<times> Client" where
  "result_loop [] (out, c) = (out, c)"
| "result_loop (r # rs) (out, c) =
     result_loop rs (mput (ge_Query r) (result_country r) out, c\<lparr>gc_cache := mput (ge_Query r) (result_country r) (gc_cache c)\<rparr>)"

definition Lookup :: "geo_reply \<Rightarrow> string list \<Rightarrow> Client \<Rightarrow> (string, string) gomap \<times> Client" where
  "Lookup reply ips c =
     (let (out, pending) = lookup_loop c ips [] []
      in if length pending = 0 then (out, c)
         else case reply of
                RequestInvalid \<Rightarrow> (unanswered pending out, c)
              | RequestFails \<Rightarrow> (unanswered pending out, c)
              | Responded status results \<Rightarrow>
                 if status \<noteq> 200 then (unanswered pending out, c)
                 else case results of
                        None \<Rightarrow> (unanswered pending out, c)
                      | Some rs \<Rightarrow> result_loop rs (out, c))"

text \<open>The addresses of the batch request.\<close>

definition batch_of :: "string list \<Rightarrow> Client \<Rightarrow> string list" where
  "batch_of ips c = snd (lookup_loop c ips [] [])"

subsection \<open>One tick of the enrichment\<close>

text \<open>The addresses \<^verbatim>\<open>enrichOnce\<close> passes to the client, and the tick with the client that \<^verbatim>\<open>main\<close> gives to the manager.\<close>

definition enrich_ips :: "Manager \<Rightarrow> string list" where
  "enrich_ips m = (let (unresolved, p) = UnresolvedCountries (mg_pool m) in map fst (fst (range_order unresolved (pl_rng p))))"

definition enrich_tick :: "geo_reply \<Rightarrow> Client \<Rightarrow> Manager \<Rightarrow> (Manager \<times> Client) go" where
  "enrich_tick reply c m =
     bindE (enrichOnce (\<lambda>ips. fst (Lookup reply ips c)) m) (\<lambda>t. Inr (t, snd (Lookup reply (enrich_ips m) c)))"

subsection \<open>A lookup\<close>

definition locatable :: "string \<Rightarrow> bool" where
  "locatable ip \<longleftrightarrow> ip \<noteq> [] \<and> isPublicIP (ParseIP ip)"

lemma lookup_loop_spec:
  assumes "lookup_loop c ips out pending = (out', pending')"
  shows "(distinct pending \<longrightarrow> distinct pending') \<and>
    set pending' = set pending \<union> {ip \<in> set ips. locatable ip \<and> mget (gc_cache c) ip = None} \<and>
    (\<forall>ip. mget out' ip = (if ip \<in> set ips \<and> \<not> locatable ip then Some []
       else if ip \<in> set ips \<and> mget (gc_cache c) ip \<noteq> None then mget (gc_cache c) ip else mget out ip))"
  using assms
proof (induction ips arbitrary: out pending)
  case (Cons ip ips)
  consider (no) "\<not> locatable ip" | (known) x where "locatable ip" "mget (gc_cache c) ip = Some x"
    | (again) "locatable ip" "mget (gc_cache c) ip = None" "ip \<in> set pending" | (new) "locatable ip" "mget (gc_cache c) ip = None" "ip \<notin> set pending"
    by (cases "mget (gc_cache c) ip") auto
  then show ?case
  proof cases
    case no
    then have "lookup_loop c ips (mput ip [] out) pending = (out', pending')" using Cons.prems by (auto simp: locatable_def split: if_splits)
    from Cons.IH [OF this] no show ?thesis by auto
  next
    case known
    then have "lookup_loop c ips (mput ip x out) pending = (out', pending')" using Cons.prems by (simp add: locatable_def)
    from Cons.IH [OF this] known show ?thesis by auto
  next
    case again
    then have "lookup_loop c ips out pending = (out', pending')" using Cons.prems by (simp add: locatable_def)
    from Cons.IH [OF this] again show ?thesis by auto
  next
    case new
    then have "lookup_loop c ips out (pending @ [ip]) = (out', pending')" using Cons.prems by (simp add: locatable_def)
    from Cons.IH [OF this] new show ?thesis by auto
  qed
qed simp

text \<open>The last result for an address.\<close>

fun result_for :: "geo_result list \<Rightarrow> string \<Rightarrow> string option" where
  "result_for [] ip = None"
| "result_for (r # rs) ip =
     (case result_for rs ip of Some x \<Rightarrow> Some x | None \<Rightarrow> if ge_Query r = ip then Some (result_country r) else None)"

lemma result_loop_spec:
  "result_loop rs (out, c) = (out', c') \<Longrightarrow>
     gc_url c' = gc_url c \<and>
     mget out' ip = (case result_for rs ip of None \<Rightarrow> mget out ip | Some x \<Rightarrow> Some x) \<and>
     mget (gc_cache c') ip = (case result_for rs ip of None \<Rightarrow> mget (gc_cache c) ip | Some x \<Rightarrow> Some x)"
proof (induction rs arbitrary: out c)
  case (Cons r rs)
  then have "result_loop rs (mput (ge_Query r) (result_country r) out, c\<lparr>gc_cache := mput (ge_Query r) (result_country r) (gc_cache c)\<rparr>) = (out', c')"
    by simp
  from Cons.IH [OF this] show ?case by (simp split: option.split)
qed simp

end
