(* ===== verification/Geo_Props.thy ===== *)
theory Geo_Props
  imports Geo_Client Manager_Props
begin

section \<open>Properties of the geolocation client\<close>

text \<open>What a lookup asks for, answers and remembers; the enrichment of the pool with it; and which addresses count as public.\<close>

subsection \<open>A lookup\<close>

definition asked :: "string set \<Rightarrow> Client \<Rightarrow> string set" where
  "asked ips c = {ip \<in> ips. locatable ip \<and> mget (gc_cache c) ip = None}"

definition reply_results :: "geo_reply \<Rightarrow> geo_result list option" where
  "reply_results reply = (case reply of Responded status results \<Rightarrow> if status = 200 then results else None | _ \<Rightarrow> None)"

text \<open>What the service says of an address when it is asked for \<open>ips\<close>.\<close>

definition answer_for :: "geo_reply \<Rightarrow> string set \<Rightarrow> Client \<Rightarrow> string \<Rightarrow> string option" where
  "answer_for reply ips c ip =
     (if asked ips c = {} then None
      else case reply_results reply of None \<Rightarrow> None | Some rs \<Rightarrow> result_for rs ip)"

definition country_of :: "geo_reply \<Rightarrow> string set \<Rightarrow> Client \<Rightarrow> string \<Rightarrow> string" where
  "country_of reply ips c ip =
     (case answer_for reply ips c ip of Some x \<Rightarrow> x | None \<Rightarrow> if locatable ip then Country ip c else [])"

lemma mget_unanswered: "mget (unanswered pending out) ip = (if ip \<in> set pending then Some [] else mget out ip)"
  by (induction pending arbitrary: out) (auto simp: unanswered_def)

lemma batch_of_spec: "distinct (batch_of ips c) \<and> set (batch_of ips c) = asked (set ips) c"
  using lookup_loop_spec [of c ips "[]" "[]"] by (cases "lookup_loop c ips [] []") (simp add: batch_of_def asked_def)

lemma Lookup_spec:
  assumes "Lookup reply ips c = (out, c')"
  shows "(\<forall>ip. mget (gc_cache c') ip = (case answer_for reply (set ips) c ip of None \<Rightarrow> mget (gc_cache c) ip | Some x \<Rightarrow> Some x)) \<and>
    (\<forall>ip \<in> set ips. mget0 [] out ip = country_of reply (set ips) c ip)"
proof -
  obtain out0 pending where l: "lookup_loop c ips [] [] = (out0, pending)" by fastforce
  note spec = lookup_loop_spec [OF l]
  have p: "set pending = asked (set ips) c" using spec by (auto simp: asked_def)
  have out0: "mget0 [] out0 ip = (if locatable ip then Country ip c else [])" if "ip \<in> set ips" for ip
    using spec that by (auto simp: mget0_def Country_def)
  have un: "mget0 [] (unanswered pending out0) ip = (if locatable ip then Country ip c else [])" if "ip \<in> set ips" for ip
    using out0 [OF that] p by (auto simp: mget0_def mget_unanswered asked_def Country_def)
  have look: "Lookup reply ips c = (if asked (set ips) c = {} then (out0, c) else case reply_results reply of
      None \<Rightarrow> (unanswered pending out0, c) | Some rs \<Rightarrow> result_loop rs (out0, c))"
    using p by (cases reply) (auto simp: Lookup_def l reply_results_def split: option.split)
  show ?thesis
  proof (cases "asked (set ips) c = {} \<or> reply_results reply = None")
    case True
    then have "c' = c \<and> (out = out0 \<or> out = unanswered pending out0)" "answer_for reply (set ips) c = (\<lambda>_. None)"
      using assms look by (auto simp: answer_for_def fun_eq_iff split: if_splits)
    then show ?thesis using out0 un by (auto simp: country_of_def)
  next
    case False
    then obtain rs where rs: "reply_results reply = Some rs" "asked (set ips) c \<noteq> {}" by auto
    then have "result_loop rs (out0, c) = (out, c')" "answer_for reply (set ips) c = result_for rs"
      using assms look by (simp_all add: answer_for_def fun_eq_iff)
    with result_loop_spec [OF this(1)] out0 show ?thesis by (auto simp: country_of_def mget0_def split: option.split)
  qed
qed

subsection \<open>The enrichment\<close>

definition unlocated :: "Manager \<Rightarrow> string set" where
  "unlocated m = {px_Host (pl_heap (mg_pool m) a) |k a. Get k (mg_pool m) = Some a \<and> px_Country (pl_heap (mg_pool m) a) = []}"

lemma enrich_ips_set: "mgr_wf m \<Longrightarrow> set (enrich_ips m) = unlocated m"
proof -
  assume "mgr_wf m"
  then have wf: "pool_wf (mg_pool m)" by (simp add: mgr_wf_def)
  obtain us p1 where un: "UnresolvedCountries (mg_pool m) = (us, p1)" by fastforce
  have "ip \<in> set (enrich_ips m) \<longleftrightarrow> (\<exists>ids. (ip, ids) \<in> set us)" for ip by (force simp: enrich_ips_def un)
  then show ?thesis unfolding UnresolvedCountries_spec(3) [OF wf un] unlocated_def by (intro set_eqI) (simp, metis)
qed

lemma enrich_tick_spec:
  assumes "mgr_wf m"
  shows "\<exists>t c'. enrich_tick reply c m = Inr (t, c') \<and> mgr_wf t \<and> (\<forall>k. Get k (mg_pool t) = Get k (mg_pool m)) \<and>
    distinct (batch_of (enrich_ips m) c) \<and> set (batch_of (enrich_ips m) c) = {ip \<in> unlocated m. locatable ip \<and> mget (gc_cache c) ip = None} \<and>
    (\<forall>k a. Get k (mg_pool m) = Some a \<longrightarrow> pl_heap (mg_pool t) a =
       (let pr = pl_heap (mg_pool m) a in if px_Country pr = [] then pr\<lparr>px_Country := country_of reply (unlocated m) c (px_Host pr)\<rparr> else pr)) \<and>
    (\<forall>ip. mget (gc_cache c') ip = (case answer_for reply (unlocated m) c ip of None \<Rightarrow> mget (gc_cache c) ip | Some x \<Rightarrow> Some x))"
proof -
  let ?look = "\<lambda>ips. fst (Lookup reply ips c)"
  obtain ips t where t: "set ips = unlocated m" "enrichOnce ?look m = Inr t" "mgr_wf t" "pl_proxies (mg_pool t) = pl_proxies (mg_pool m)"
    "\<forall>k a pr. Get k (mg_pool m) = Some a \<and> pr = pl_heap (mg_pool m) a \<longrightarrow>
       pl_heap (mg_pool t) a = (if px_Country pr = [] then pr\<lparr>px_Country := mget0 [] (?look ips) (px_Host pr)\<rparr> else pr)"
    using enrichOnce_effect [OF assms, of ?look] unfolding unlocated_def by blast
  have look: "mget0 [] (?look ips) ip = country_of reply (unlocated m) c ip" if "ip \<in> unlocated m" for ip
    using Lookup_spec [of reply ips c] that t(1) by (cases "Lookup reply ips c") simp
  have "px_Host (pl_heap (mg_pool m) a) \<in> unlocated m" if "Get k (mg_pool m) = Some a" "px_Country (pl_heap (mg_pool m) a) = []" for k a
    using that by (auto simp: unlocated_def)
  with t(5) look have "pl_heap (mg_pool t) a =
       (let pr = pl_heap (mg_pool m) a in if px_Country pr = [] then pr\<lparr>px_Country := country_of reply (unlocated m) c (px_Host pr)\<rparr> else pr)"
    if "Get k (mg_pool m) = Some a" for k a using that by (simp add: Let_def)
  moreover have "mget (gc_cache (snd (Lookup reply (enrich_ips m) c))) ip =
      (case answer_for reply (unlocated m) c ip of None \<Rightarrow> mget (gc_cache c) ip | Some x \<Rightarrow> Some x)" for ip
    using Lookup_spec [of reply "enrich_ips m" c] enrich_ips_set [OF assms] by (cases "Lookup reply (enrich_ips m) c") simp
  moreover have "distinct (batch_of (enrich_ips m) c)" "set (batch_of (enrich_ips m) c) = {ip \<in> unlocated m. locatable ip \<and> mget (gc_cache c) ip = None}"
    using batch_of_spec [of "enrich_ips m" c] enrich_ips_set [OF assms] by (simp_all add: asked_def)
  ultimately show ?thesis
    using t(2,3,4) by (intro exI [of _ t] exI [of _ "snd (Lookup reply (enrich_ips m) c)"]) (simp add: enrich_tick_def Get_def)
qed



subsection \<open>Public addresses\<close>

definition dotted :: "nat \<Rightarrow> nat \<Rightarrow> nat \<Rightarrow> nat \<Rightarrow> string" where
  "dotted a b c d = nat_digits a @ ''.'' @ nat_digits b @ ''.'' @ nat_digits c @ ''.'' @ nat_digits d"

lemma split_on_cut: "c \<notin> set xs \<Longrightarrow> split_on c (xs @ c # ys) = xs # split_on c ys"
  by (induction xs) (auto split: list.split)

lemma split_on_whole: "c \<notin> set xs \<Longrightarrow> split_on c xs = [xs]"
  by (induction xs) auto

lemma digits_no_mark: "c \<in> set (nat_digits n) \<Longrightarrow> c \<notin> {CHR ''.'', CHR '':'', CHR ''%''}"
  using digit_chars [of c n] by auto

lemma nat_digits_leading: "0 < n \<Longrightarrow> hd (nat_digits n) \<noteq> CHR ''0''"
proof (induction n rule: nat_digits.induct)
  case (1 n)
  show ?case
  proof (cases "n < 10")
    case True
    have "char_of (48 + n) \<noteq> CHR ''0''"
    proof
      assume "char_of (48 + n) = CHR ''0''"
      then have "digit_val (char_of (48 + n)) = digit_val (CHR ''0'')" by simp
      then show False using digit_val_char [OF True] 1(2) by (simp add: digit_val_def)
    qed
    then show ?thesis using True by (subst nat_digits.simps) simp
  next
    case False
    then show ?thesis using 1 by (subst nat_digits.simps) simp
  qed
qed

lemma parse_octet_digits: "n < 256 \<Longrightarrow> parse_octet (nat_digits n) = Some (word_of_nat n)"
proof -
  assume n: "n < 256"
  have "list_all is_digit (nat_digits n)" using digit_chars [of _ n] by (auto simp: list_all_iff is_digit_def)
  moreover have "\<not> (1 < length (nat_digits n) \<and> hd (nat_digits n) = CHR ''0'')"
    using nat_digits_leading [of n] by (cases "n = 0") (auto simp: nat_digits.simps [of 0])
  ultimately show ?thesis using n by (simp add: parse_octet_def digits_val_nat_digits)
qed

lemma find_mark: "\<forall>x \<in> set xs. \<not> P x \<Longrightarrow> P c \<Longrightarrow> find P (xs @ c # ys) = Some c"
  by (induction xs) auto

lemma ParseIP_dotted:
  assumes "a < 256" "b < 256" "c < 256" "d < 256"
  shows "ParseIP (dotted a b c d) = Some (v4_mapped [word_of_nat a, word_of_nat b, word_of_nat c, word_of_nat d])"
proof -
  have no: "CHR ''.'' \<notin> set (nat_digits n)" for n using digits_no_mark by blast
  have "find (\<lambda>c. c \<in> {CHR ''.'', CHR '':'', CHR ''%''}) (nat_digits a @ CHR ''.'' # s) = Some (CHR ''.'')" for s
    by (rule find_mark) (use digits_no_mark in blast, simp)
  then show ?thesis
    using assms no by (simp add: ParseIP_def dotted_def parseIPv4_def split_on_cut split_on_whole parse_octet_digits)
qed

lemma octet_eq: "n < 256 \<Longrightarrow> m < 256 \<Longrightarrow> (word_of_nat n :: 8 word) = word_of_nat m \<longleftrightarrow> n = m"
  by (simp add: word_of_nat_eq_iff take_bit_nat_eq_self)

lemma octet_eqs:
  assumes "n < 256"
  shows "(word_of_nat n :: 8 word) = 0 \<longleftrightarrow> n = 0" "(word_of_nat n :: 8 word) = 10 \<longleftrightarrow> n = 10" "(word_of_nat n :: 8 word) = 127 \<longleftrightarrow> n = 127"
    "(word_of_nat n :: 8 word) = 168 \<longleftrightarrow> n = 168" "(word_of_nat n :: 8 word) = 169 \<longleftrightarrow> n = 169" "(word_of_nat n :: 8 word) = 172 \<longleftrightarrow> n = 172"
    "(word_of_nat n :: 8 word) = 192 \<longleftrightarrow> n = 192" "(word_of_nat n :: 8 word) = 224 \<longleftrightarrow> n = 224" "(word_of_nat n :: 8 word) = 254 \<longleftrightarrow> n = 254"
  using octet_eq [OF assms, of 0] octet_eq [OF assms, of 10] octet_eq [OF assms, of 127] octet_eq [OF assms, of 168] octet_eq [OF assms, of 169]
    octet_eq [OF assms, of 172] octet_eq [OF assms, of 192] octet_eq [OF assms, of 224] octet_eq [OF assms, of 254] by simp_all

lemma octet_masks:
  "list_all (\<lambda>n. ((word_of_nat n :: 8 word) AND 0xF0 = 16) = (16 \<le> n \<and> n < 32) \<and>
     ((word_of_nat n :: 8 word) AND 0xF0 = 0xE0) = (224 \<le> n \<and> n < 240)) [0..<256]"
  by code_simp

lemma octet_mask:
  assumes "n < 256"
  shows "(word_of_nat n :: 8 word) AND 0xF0 = 16 \<longleftrightarrow> 16 \<le> n \<and> n < 32" "(word_of_nat n :: 8 word) AND 0xF0 = 0xE0 \<longleftrightarrow> 224 \<le> n \<and> n < 240"
  using octet_masks assms by (simp_all add: list_all_iff)

lemma To4_mapped: "length v = 4 \<Longrightarrow> To4 (v4_mapped v) = Some v"
  by (simp add: To4_def v4_mapped_def)

lemma IsUnspecified_mapped: "IsUnspecified (v4_mapped v) \<longleftrightarrow> v = [0, 0, 0, 0]"
proof -
  have "v4_mapped v ! 10 \<noteq> replicate 16 0 ! 10" by (simp add: v4_mapped_def nth_append)
  then have "v4_mapped v \<noteq> replicate 16 0" by metis
  then show ?thesis by (simp add: IsUnspecified_def) (simp add: v4_mapped_def)
qed

text \<open>
  C40. An IPv4 address in dotted notation is looked up exactly when it lies outside the private networks 10/8, 172.16/12 and 192.168/16,
  the loopback network 127/8, the link-local network 169.254/16, the multicast block 224/4, and is not 0.0.0.0.
\<close>

theorem public_ipv4_exact:
  assumes "a < 256" "b < 256" "c < 256" "d < 256"
  shows "isPublicIP (ParseIP (dotted a b c d)) \<longleftrightarrow>
    \<not> (a = 10 \<or> a = 172 \<and> 16 \<le> b \<and> b < 32 \<or> a = 192 \<and> b = 168 \<or> a = 127 \<or> a = 169 \<and> b = 254 \<or> 224 \<le> a \<and> a < 240 \<or>
       a = 0 \<and> b = 0 \<and> c = 0 \<and> d = 0)"
proof -
  let ?ip = "v4_mapped [word_of_nat a, word_of_nat b, word_of_nat c, word_of_nat d]"
  note kinds = IsPrivate_def IsLoopback_def IsLinkLocalUnicast_def IsLinkLocalMulticast_def IsMulticast_def To4_mapped
  note oct = octet_eqs [OF assms(1)] octet_eqs [OF assms(2)] octet_eqs [OF assms(3)] octet_eqs [OF assms(4)] octet_mask [OF assms(1)] octet_mask [OF assms(2)]
  have "IsUnspecified ?ip \<longleftrightarrow> a = 0 \<and> b = 0 \<and> c = 0 \<and> d = 0" by (simp add: IsUnspecified_mapped oct)
  then show ?thesis by (auto simp: isPublicIP_def ParseIP_dotted [OF assms] kinds oct)
qed

theorem public_ipv4_exact_witness: "isPublicIP (ParseIP (dotted 8 8 8 8)) \<and> \<not> isPublicIP (ParseIP (dotted 172 31 0 1))"
  using public_ipv4_exact [of 8 8 8 8] public_ipv4_exact [of 172 31 0 1] by simp

subsection \<open>What the answers leave out\<close>

text \<open>
  An address that was asked for and is missing from a successful answer has no entry in the result; a failed status is remembered like an
  answer and never asked for again; and all addresses go into one request, however many they are.
\<close>

lemma demo_public: "locatable ''8.8.8.8''"
  by code_simp

theorem unanswered_has_no_entry:
  "mget (fst (Lookup (Responded 200 (Some [])) [''8.8.8.8''] (New_client []))) ''8.8.8.8'' = None"
  using demo_public by (simp add: Lookup_def locatable_def New_client_def)

theorem failure_never_retried:
  assumes "Lookup (Responded 200 (Some [\<lparr>ge_Query = ''8.8.8.8'', ge_Status = ''fail'', ge_CountryCode = []\<rparr>])) [''8.8.8.8''] (New_client []) = (out, c)"
  shows "batch_of [''8.8.8.8''] c = [] \<and> Country ''8.8.8.8'' c = []"
  using assms demo_public by (auto simp: Lookup_def locatable_def New_client_def batch_of_def result_country_def Country_def mget0_def)

end
