(* ===== verification/Server_Settings.thy ===== *)
theory Server_Settings
  imports Config_Model Alert_Dispatcher
begin

section \<open>System settings (internal/server/settings.go)\<close>

text \<open>
  The settings that an administrator changes at run time, kept in memory and in a JSON file. The file is
  modelled by what reading and decoding it gives; the outcome of a write is an argument, and a write
  that fails half-way leaves a file that cannot be decoded. \<open>ss_applied\<close> has the calls of the \<^verbatim>\<open>onApply\<close> hook.
\<close>

datatype settings_file = SettingsMissing | SettingsUnreadable | SettingsBlank | SettingsMalformed | SettingsDoc Settings

datatype settings_error = SiteNameRequired | ThemeInvalid | SettingsReadFails | SettingsDecodeFails | SettingsWriteFails

record SettingsStore =
  ss_path :: string
  ss_file :: settings_file
  ss_settings :: Settings
  ss_onApply :: bool
  ss_applied :: "Settings list"

text \<open>A field that the file does not set falls back to the default.\<close>

definition merge_health :: "HealthConfig \<Rightarrow> HealthConfig \<Rightarrow> HealthConfig" where
  "merge_health def h =
     (let h = (if hc_IntervalSeconds h \<le> 0 then h\<lparr>hc_IntervalSeconds := hc_IntervalSeconds def\<rparr> else h);
          h = (if hc_TimeoutMs h \<le> 0 then h\<lparr>hc_TimeoutMs := hc_TimeoutMs def\<rparr> else h);
          h = (if hc_Concurrency h \<le> 0 then h\<lparr>hc_Concurrency := hc_Concurrency def\<rparr> else h);
          h = (if hc_MaxFails h \<le> 0 then h\<lparr>hc_MaxFails := hc_MaxFails def\<rparr> else h)
      in if length (hc_CheckURLs h) = 0 then h\<lparr>hc_CheckURLs := hc_CheckURLs def\<rparr> else h)"

definition merge_settings :: "Settings \<Rightarrow> Settings \<Rightarrow> Settings" where
  "merge_settings def cfg =
     (let cfg = (if st_SiteName cfg = [] then cfg\<lparr>st_SiteName := st_SiteName def\<rparr> else cfg);
          cfg = (if st_ThemeDefault cfg = [] then cfg\<lparr>st_ThemeDefault := st_ThemeDefault def\<rparr> else cfg)
      in cfg\<lparr>st_HealthCheck := merge_health (st_HealthCheck def) (st_HealthCheck cfg)\<rparr>)"

definition Settings_load :: "SettingsStore \<Rightarrow> settings_error + SettingsStore" where
  "Settings_load s =
     (if ss_path s = [] then Inr s
      else case ss_file s of
             SettingsMissing \<Rightarrow> Inr s
           | SettingsUnreadable \<Rightarrow> Inl SettingsReadFails
           | SettingsBlank \<Rightarrow> Inr s
           | SettingsMalformed \<Rightarrow> Inl SettingsDecodeFails
           | SettingsDoc cfg \<Rightarrow> Inr (s\<lparr>ss_settings := merge_settings (ss_settings s) cfg\<rparr>))"

definition NewSettingsStore :: "settings_file \<Rightarrow> string \<Rightarrow> Settings \<Rightarrow> settings_error + SettingsStore" where
  "NewSettingsStore f path def =
     Settings_load \<lparr>ss_path = path, ss_file = f, ss_settings = def, ss_onApply = False, ss_applied = []\<rparr>"

definition Settings_Get :: "SettingsStore \<Rightarrow> Settings" where
  "Settings_Get s = ss_settings s"

definition SetOnApply :: "bool \<Rightarrow> SettingsStore \<Rightarrow> SettingsStore" where
  "SetOnApply fn s = s\<lparr>ss_onApply := fn\<rparr>"

definition Settings_persist :: "cfg_write \<Rightarrow> SettingsStore \<Rightarrow> settings_error option \<times> SettingsStore" where
  "Settings_persist w s =
     (if ss_path s = [] then (None, s)
      else case w of
             CfgWritten \<Rightarrow> (None, s\<lparr>ss_file := SettingsDoc (ss_settings s)\<rparr>)
           | CfgMarshalFails \<Rightarrow> (Some SettingsWriteFails, s)
           | CfgOpenFails \<Rightarrow> (Some SettingsWriteFails, s)
           | CfgTorn \<Rightarrow> (Some SettingsWriteFails, s\<lparr>ss_file := SettingsMalformed\<rparr>))"

definition update_health :: "HealthConfig \<Rightarrow> HealthConfig \<Rightarrow> HealthConfig" where
  "update_health cur h =
     (let h = (if hc_IntervalSeconds h \<le> 0 then h\<lparr>hc_IntervalSeconds := 60\<rparr> else h);
          h = (if hc_TimeoutMs h \<le> 0 then h\<lparr>hc_TimeoutMs := 5000\<rparr> else h);
          h = (if hc_Concurrency h \<le> 0 then h\<lparr>hc_Concurrency := 64\<rparr> else h);
          h = (if hc_MaxFails h \<le> 0 then h\<lparr>hc_MaxFails := 3\<rparr> else h);
          h = (if hc_CheckURL h = [] then h\<lparr>hc_CheckURL := hc_CheckURL cur\<rparr> else h)
      in if hc_RebuildIntervalMs h = 0 then h\<lparr>hc_RebuildIntervalMs := hc_RebuildIntervalMs cur\<rparr> else h)"

definition Settings_Update :: "cfg_write \<Rightarrow> Settings \<Rightarrow> SettingsStore \<Rightarrow> settings_error option \<times> SettingsStore" where
  "Settings_Update w cfg s =
     (if st_SiteName cfg = [] then (Some SiteNameRequired, s)
      else if st_ThemeDefault cfg \<noteq> [] \<and> st_ThemeDefault cfg \<noteq> ''dark'' \<and> st_ThemeDefault cfg \<noteq> ''light'' then (Some ThemeInvalid, s)
      else
        let cfg = cfg\<lparr>st_HealthCheck := update_health (st_HealthCheck (Settings_Get s)) (st_HealthCheck cfg)\<rparr>
        in case Settings_persist w (s\<lparr>ss_settings := cfg\<rparr>) of
             (Some e, s) \<Rightarrow> (Some e, s)
           | (None, s) \<Rightarrow> (None, if ss_onApply s then s\<lparr>ss_applied := ss_applied s @ [cfg]\<rparr> else s))"

end
