(* ===== verification/Server_State.thy ===== *)
theory Server_State
  imports Server_Settings Pool_Manager Auth_Accounts Health_Checker Gateway_Forward
begin

section \<open>The console server: state, requests and access control (internal/server/server.go)\<close>

text \<open>
  The HTTP server of the console puts the other components together. Its state has the manager (whose pool
  is the pool of the server), the health checker, the alert dispatcher, the accounts, the gateway, the group
  list with its file, the settings, the usage records handed to the store and the events it raises; what is
  optional in the code is an option here. The gateway is given the pool of the server whenever it is called.

  A request is a \<open>Ctx\<close>: method, path, request URI, query arguments, headers and a body. \<open>cx_Body\<close> is the outcome
  of decoding the body into each of the structures the handlers ask for. A reply is a status with a JSON
  value, or text. What the outside world decides while a request is handled is the record \<open>io\<close>.
\<close>

subsection \<open>Requests and replies\<close>

record Body =
  bd_provider :: "string + ProviderCfg"
  bd_group :: "string + GroupCfg"
  bd_account :: "AccountCfg option"
  bd_raw_enabled :: "bool option option"
  bd_login :: "(string \<times> string) option"
  bd_report :: "(bool \<times> int) option"
  bd_feedback :: "(string \<times> bool \<times> int) option"
  bd_weight :: "int option"
  bd_priority :: "(int \<times> float64) option"
  bd_public :: "bool option"
  bd_webhook :: "WebhookConfig option"
  bd_webhook_edit :: "(string \<times> WebhookConfig) option"
  bd_email :: "EmailConfig option"
  bd_dedup :: "int option"
  bd_monitor :: "int option"
  bd_recover :: "int option"
  bd_settings :: "string + Settings"

record Ctx =
  cx_Method :: string
  cx_Path :: string
  cx_URI :: string
  cx_Query :: "(string, string) gomap"
  cx_Header :: header
  cx_PostBody :: string
  cx_Body :: Body

text \<open>The user values that \<^verbatim>\<open>authorize\<close> leaves in the request context.\<close>

record Caller =
  cl_account :: string
  cl_obj :: "Account option"

definition nobody :: Caller where
  "nobody = \<lparr>cl_account = [], cl_obj = None\<rparr>"

record proxyResponse =
  pp_ID :: string
  pp_Scheme :: string
  pp_Host :: string
  pp_Port :: int
  pp_Username :: string
  pp_Password :: string
  pp_Provider :: string
  pp_Type :: string
  pp_Addr :: string

record providerStat =
  sp_Provider :: string
  sp_Type :: string
  sp_Total :: int
  sp_Alive :: int
  sp_Enabled :: bool
  sp_Weight :: int
  sp_Priority :: int
  sp_MinAliveRatio :: float64
  sp_StickySeconds :: int

record Call =
  ca_Account :: string
  ca_Group :: string
  ca_ProxyID :: string
  ca_Addr :: string
  ca_Kind :: string
  ca_OK :: bool

record AccountSummary =
  as_Account :: string
  as_Total :: int
  as_OK :: int

datatype group_error =
    GroupNameRequired | GroupRatioRange | CredentialsPair | RegionInvalid string | PrimaryRequired | PrimaryUnknown string
  | PrimaryWeightLow string | PrimaryWeightForeign string | PrimarySum | BackupRatioRange | BackupUnknown string
  | BackupWeightLow string | BackupWeightForeign string | BackupSum

datatype why =
    Msg string | OfMgr mgr_error | OfAuth auth_error | OfAlert alert_error | OfSettings settings_error | OfGroup group_error
  | OfForward fwd_error | OfUsage string

datatype Json =
    JErr why
  | JOk
  | JProxy proxyResponse "(string \<times> int) option"
  | JProxies "proxyResponse list"
  | JStatus nat nat "providerStat list" "GroupStat list"
  | JProviders "ProviderInfo list" "CheckURLItem list option"
  | JProxyList "ProxyDetail list"
  | JGroups "(GroupStat \<times> GroupCfg) list"
  | JAccount Account
  | JToken string Account
  | JRegistered string
  | JOpen
  | JAccounts "AccountCfg list"
  | JSettings Settings
  | JSite string bool string
  | JAlerts AlertConfig
  | JUsage string int
  | JUsages "AccountSummary list"

datatype Reply =
    Json int Json
  | Text int string
  | Page string
  | AskProxyAuth
  | Relayed int header string
  | Proxied Writer

subsection \<open>The state\<close>

record Server =
  sv_mgr :: Manager
  sv_checker :: "Checker option"
  sv_emitter :: bool
  sv_events :: "(string \<times> string \<times> string) list"
  sv_alerts :: "Dispatcher option"
  sv_auth :: "AuthManager option"
  sv_usage :: "Call list option"
  sv_groups :: "GroupCfg list"
  sv_gateway :: "Gateway option"
  sv_db :: "File option"
  sv_settings :: "SettingsStore option"
  sv_checks :: nat

text \<open>What the outside world decides: the clock, the answers of provider endpoints, the outcome of the
  writes, the random bytes and the digest, the orders of map ranges, the network of a forwarded request,
  the probes of a health check, the answers of the usage store.\<close>

record io =
  io_now :: int
  io_env :: env
  io_w :: write_outcome
  io_w2 :: write_outcome
  io_cfgw :: cfg_write
  io_sha :: "string \<Rightarrow> string"
  io_salt :: string
  io_salt2 :: string
  io_tok :: string
  io_rng :: rng
  io_hop :: hop
  io_net :: "nat \<Rightarrow> hop"
  io_json :: "string \<Rightarrow> string option"
  io_times :: "addr \<Rightarrow> int"
  io_trials :: "addr \<Rightarrow> trial"
  io_count :: "Call list \<Rightarrow> string \<Rightarrow> int \<Rightarrow> int \<Rightarrow> string + int"
  io_summary :: "Call list \<Rightarrow> int \<Rightarrow> int \<Rightarrow> string + AccountSummary list"

abbreviation sv_pool :: "Server \<Rightarrow> Pool" where
  "sv_pool s \<equiv> mg_pool (sv_mgr s)"

definition set_pool :: "Pool \<Rightarrow> Server \<Rightarrow> Server" where
  "set_pool p s = s\<lparr>sv_mgr := (sv_mgr s)\<lparr>mg_pool := p\<rparr>\<rparr>"

definition New_server :: "Config \<Rightarrow> Manager \<Rightarrow> Checker option \<Rightarrow> Server" where
  "New_server cfg mgr checker =
     \<lparr>sv_mgr = mgr, sv_checker = checker, sv_emitter = mg_AlertEmit mgr, sv_events = [], sv_alerts = None, sv_auth = None,
      sv_usage = None, sv_groups = cf_Groups cfg, sv_gateway = None, sv_db = None, sv_settings = None, sv_checks = 0\<rparr>"

definition AttachAlerts :: "Dispatcher \<Rightarrow> Server \<Rightarrow> Server" where
  "AttachAlerts a s = s\<lparr>sv_alerts := Some a\<rparr>"

definition AttachAuth :: "AuthManager option \<Rightarrow> Server \<Rightarrow> Server" where
  "AttachAuth a s = s\<lparr>sv_auth := a\<rparr>"

definition AttachUsage :: "Call list option \<Rightarrow> Server \<Rightarrow> Server" where
  "AttachUsage u s = s\<lparr>sv_usage := u\<rparr>"

definition AttachGroups :: "GroupCfg list \<Rightarrow> Server \<Rightarrow> Server" where
  "AttachGroups g s = s\<lparr>sv_groups := g\<rparr>"

definition AttachSettings :: "SettingsStore option \<Rightarrow> Server \<Rightarrow> Server" where
  "AttachSettings st s = s\<lparr>sv_settings := st\<rparr>"

definition AttachGateway :: "Gateway option \<Rightarrow> Server \<Rightarrow> bool \<times> Server" where
  "AttachGateway g s = (case g of None \<Rightarrow> (False, s) | Some g \<Rightarrow> (True, s\<lparr>sv_gateway := Some g\<rparr>))"

text \<open>The groups of the file win over the configured ones; an empty file is seeded from them.\<close>

definition Server_AttachStore :: "write_outcome \<Rightarrow> File option \<Rightarrow> Server \<Rightarrow> Server go" where
  "Server_AttachStore w db s0 =
     (let s = s0\<lparr>sv_db := db\<rparr>
      in if db = None then Inr s
         else case LoadGroups db of
                Inl e \<Rightarrow> Inr s
              | Inr fromDB \<Rightarrow>
                 if length fromDB > 0 then
                   bindE (SetGroups fromDB (sv_pool s)) (\<lambda>p. Inr (set_pool p (s\<lparr>sv_groups := fromDB\<rparr>)))
                 else if length (sv_groups s) > 0 then Inr (s\<lparr>sv_db := fst (ReplaceGroups w (sv_groups s) db)\<rparr>)
                 else Inr s)"

definition GroupList :: "Server \<Rightarrow> GroupCfg list" where
  "GroupList s = sv_groups s"

subsection \<open>Access control\<close>

definition bearerToken :: "Ctx \<Rightarrow> string" where
  "bearerToken c =
     (let h = h_get ''Authorization'' (cx_Header c)
      in if has_prefix h ''Bearer '' then trim_space (trim_prefix h ''Bearer '')
         else trim_space (h_get ''X-Api-Token'' (cx_Header c)))"

definition no_auth :: "Server \<Rightarrow> bool" where
  "no_auth s \<longleftrightarrow> (case sv_auth s of None \<Rightarrow> True | Some a \<Rightarrow> Empty a)"

definition authorize :: "Ctx \<Rightarrow> bool \<Rightarrow> Server \<Rightarrow> Reply + Caller" where
  "authorize c admin s =
     (if no_auth s then Inr nobody
      else
        let token = bearerToken c; a = the (sv_auth s)
        in if token = [] then Inl (Json 401 (JErr (Msg ''missing bearer token'')))
           else case ByToken token a of
                  None \<Rightarrow> Inl (Json 401 (JErr (Msg ''invalid token'')))
                | Some i \<Rightarrow>
                   let acct = am_heap a ! i
                   in if admin \<and> \<not> IsAdmin acct then Inl (Json 403 (JErr (Msg ''admin role required'')))
                      else Inr \<lparr>cl_account = at_Name acct, cl_obj = Some acct\<rparr>)"

definition isAdminUser :: "Caller \<Rightarrow> bool" where
  "isAdminUser u \<longleftrightarrow> (case cl_obj u of None \<Rightarrow> False | Some acct \<Rightarrow> IsAdmin acct)"

definition providerVisible :: "Caller \<Rightarrow> ProviderCfg \<Rightarrow> bool" where
  "providerVisible u cfg =
     (if isAdminUser u then True
      else if cl_account u = [] then True
      else if pc_Owner cfg = [] then pc_Public cfg
      else if pc_Owner cfg = cl_account u then True
      else pc_Public cfg)"

definition providerWritable :: "Caller \<Rightarrow> ProviderCfg \<Rightarrow> bool" where
  "providerWritable u cfg =
     (if isAdminUser u then True else if cl_account u = [] then True else pc_Owner cfg = cl_account u)"

definition providerCanSeeFullConfig :: "Caller \<Rightarrow> ProviderCfg \<Rightarrow> bool" where
  "providerCanSeeFullConfig u cfg =
     (if isAdminUser u then True else if cl_account u = [] then True else pc_Owner cfg = cl_account u)"

definition groupVisible :: "Caller \<Rightarrow> GroupCfg \<Rightarrow> bool" where
  "groupVisible u g = (if isAdminUser u then True else if cl_account u = [] then True else gc_Owner g = cl_account u)"

definition groupWritable :: "Caller \<Rightarrow> GroupCfg \<Rightarrow> bool" where
  "groupWritable u g =
     (if isAdminUser u then True else if cl_account u = [] then True else gc_Owner g \<noteq> [] \<and> gc_Owner g = cl_account u)"

definition Server_findGroup :: "string \<Rightarrow> Server \<Rightarrow> GroupCfg option" where
  "Server_findGroup name s = find (\<lambda>g. gc_Name g = name) (sv_groups s)"

definition requireOwnedGroup :: "Caller \<Rightarrow> string \<Rightarrow> Server \<Rightarrow> Reply + GroupCfg" where
  "requireOwnedGroup u name s =
     (case Server_findGroup name s of
        None \<Rightarrow> Inl (Json 404 (JErr (Msg (''group not found: '' @ name))))
      | Some g \<Rightarrow>
         if \<not> groupWritable u g then Inl (Json 403 (JErr (Msg ''access denied: you do not own this group'')))
         else Inr g)"

definition groupAllowed :: "Caller \<Rightarrow> string \<Rightarrow> Server \<Rightarrow> bool" where
  "groupAllowed u grp s =
     (if grp = [] then True
      else case cl_obj u of
             None \<Rightarrow> True
           | Some acct \<Rightarrow>
              (case Server_findGroup grp s of
                 None \<Rightarrow> False
               | Some g \<Rightarrow>
                  if IsAdmin acct then True
                  else if gc_Owner g \<noteq> [] then gc_Owner g = at_Name acct
                  else CanUseGroup acct grp))"

definition requireOwnedProvider :: "Caller \<Rightarrow> string \<Rightarrow> Server \<Rightarrow> Reply + ProviderCfg" where
  "requireOwnedProvider u name s =
     (case ProviderConfig name (sv_mgr s) of
        None \<Rightarrow> Inl (Json 404 (JErr (Msg ''provider not found'')))
      | Some cfg \<Rightarrow>
         if \<not> providerWritable u cfg then Inl (Json 403 (JErr (Msg ''access denied: you do not own this provider'')))
         else Inr cfg)"

definition isProxyRequest :: "Ctx \<Rightarrow> bool" where
  "isProxyRequest c =
     (if cx_Method c = ''CONNECT'' then True
      else if has_prefix (cx_URI c) ''http://'' \<or> has_prefix (cx_URI c) ''https://'' then True
      else if length (h_get ''Proxy-Authorization'' (cx_Header c)) > 0 \<and> \<not> has_prefix (cx_URI c) ''/api/v1/'' then True
      else False)"

definition basicCredentials :: "Ctx \<Rightarrow> (string \<times> string) option" where
  "basicCredentials c =
     (let h = h_get ''Proxy-Authorization'' (cx_Header c);
          h = (if h = [] then h_get ''Authorization'' (cx_Header c) else h)
      in if \<not> has_prefix h ''Basic '' then None
         else case b64_decode (trim_prefix h ''Basic '') of
                None \<Rightarrow> None
              | Some raw \<Rightarrow> cut_char (CHR '':'') raw)"

definition query :: "string \<Rightarrow> Ctx \<Rightarrow> string" where
  "query k c = mget0 [] (cx_Query c) k"

text \<open>\<^verbatim>\<open>n, _ := strconv.Atoi(s)\<close>: 0 after a syntax error, the nearest bound after a range error.\<close>

definition atoi_lax :: "string \<Rightarrow> int" where
  "atoi_lax s =
     (let neg = has_prefix s ''-'';
          ds = (if neg \<or> has_prefix s ''+'' then tl s else s);
          v = int (digits_val 0 ds)
      in if ds = [] \<or> \<not> list_all is_digit ds then 0
         else if neg then max MinInt64 (- v) else min MaxInt64 v)"

definition recordCall :: "string \<Rightarrow> string \<Rightarrow> string \<Rightarrow> string \<Rightarrow> string \<Rightarrow> Server \<Rightarrow> Server" where
  "recordCall acct grp provider ident address s =
     (case sv_usage s of
        None \<Rightarrow> s
      | Some calls \<Rightarrow>
         if acct = [] then s
         else s\<lparr>sv_usage := Some (calls @
                  [\<lparr>ca_Account = acct, ca_Group = grp, ca_ProxyID = ident, ca_Addr = address,
                    ca_Kind = (if provider \<noteq> [] then ''proxy'' else []), ca_OK = True\<rparr>])\<rparr>)"

definition emitPoolExhausted :: "Server \<Rightarrow> Server" where
  "emitPoolExhausted s =
     (if sv_emitter s then s\<lparr>sv_events := sv_events s @ [(''pool_exhausted'', [], ''no available proxy for request'')]\<rparr> else s)"

definition toResponse :: "Proxy \<Rightarrow> proxyResponse" where
  "toResponse pr =
     \<lparr>pp_ID = px_ID pr, pp_Scheme = px_Scheme pr, pp_Host = px_Host pr, pp_Port = px_Port pr, pp_Username = px_Username pr,
      pp_Password = px_Password pr, pp_Provider = px_Provider pr, pp_Type = Kind_String (px_Kind pr), pp_Addr = Proxy_Addr pr\<rparr>"

end
