(* ===== verification/Usage_Store.thy ===== *)
theory Usage_Store
  imports Server_State
begin

section \<open>The usage store (internal/store/store.go)\<close>

text \<open>
  Calls are put into a bounded channel by the handlers and written in batches by a worker. The database is not part of the
  repository: what the statements of the source do to it is a record \<open>sql\<close> of operations that every definition takes as an
  argument, and the outcome of each call of the driver is an argument too. The store always has the logger that
  \<^verbatim>\<open>main\<close> passes.
\<close>

subsection \<open>Rows and statements\<close>

record row =
  rw_ts :: int
  rw_account :: string
  rw_grp :: string
  rw_proxy_id :: string
  rw_addr :: string
  rw_kind :: string
  rw_ok :: int

text \<open>The conditions the source appends to \<^verbatim>\<open>WHERE 1=1\<close>.\<close>

datatype cond = AccountIs string | TsGe int | TsLe int

text \<open>A committed transaction of inserts, the delete of \<^verbatim>\<open>prune\<close>, and the two queries.\<close>

record 'db sql =
  sq_insert :: "row list \<Rightarrow> 'db \<Rightarrow> 'db"
  sq_delete_before :: "int \<Rightarrow> 'db \<Rightarrow> 'db"
  sq_count :: "cond list \<Rightarrow> 'db \<Rightarrow> int"
  sq_summary :: "cond list \<Rightarrow> 'db \<Rightarrow> (string \<times> int \<times> int option) list"

subsection \<open>The store\<close>

text \<open>Where the worker is: in its main loop, in the loop that drains the channel, or returned.\<close>

datatype worker = Looping | Draining | Returned

text \<open>\<open>us_buf\<close> is the local \<^verbatim>\<open>buf\<close> of \<^verbatim>\<open>run\<close>; \<open>us_pending\<close> are the calls of \<^verbatim>\<open>Record\<close> that have read \<^verbatim>\<open>closed\<close> and not yet sent.\<close>

record 'db Store =
  us_db :: 'db
  us_ch :: "Call list"
  us_batch :: int
  us_flush :: int
  us_closed :: bool
  us_closeCh :: bool
  us_buf :: "Call list"
  us_pending :: "Call list"
  us_worker :: worker

definition retentionDays :: int where
  "retentionDays = 30"

definition channelSize :: nat where
  "channelSize = 4096"

text \<open>\<^verbatim>\<open>AddDate\<close> keeps the local wall clock: \<open>shift\<close> is the offset of the local zone now minus the one thirty days ago, in
  milliseconds.\<close>

definition prune_cutoff :: "int \<Rightarrow> int \<Rightarrow> int" where
  "prune_cutoff shift now = now - retentionDays * 86400000 + shift"

definition prune :: "'db sql \<Rightarrow> bool \<Rightarrow> int \<Rightarrow> 'db Store \<Rightarrow> 'db Store" where
  "prune sql executed cutoff s = (if executed then s\<lparr>us_db := sq_delete_before sql cutoff (us_db s)\<rparr> else s)"

text \<open>The outcomes of the driver when the store is opened, and of a batch.\<close>

datatype open_outcome = OpenFails string | PingFails string | SchemaFails string | Opened

definition Open :: "'db sql \<Rightarrow> open_outcome \<Rightarrow> bool \<Rightarrow> int \<Rightarrow> 'db \<Rightarrow> DBConfig \<Rightarrow> string + 'db Store option" where
  "Open sql opened pruned cutoff db cfg =
     (if db_Path cfg = [] then Inr None
      else case opened of
             OpenFails e \<Rightarrow> Inl e
           | PingFails e \<Rightarrow> Inl e
           | SchemaFails e \<Rightarrow> Inl e
           | Opened \<Rightarrow>
              let flush = i64 (db_FlushIntervalMs cfg * 1000000);
                  flush = (if flush \<le> 0 then 1000000000 else flush);
                  s = \<lparr>us_db = db, us_ch = [], us_batch = db_BatchSize cfg, us_flush = flush, us_closed = False, us_closeCh = False,
                       us_buf = [], us_pending = [], us_worker = Looping\<rparr>;
                  s = (if us_batch s \<le> 0 then s\<lparr>us_batch := 200\<rparr> else s)
              in Inr (Some (prune sql pruned cutoff s)))"

record batch_io =
  bt_begin :: bool
  bt_prepare :: bool
  bt_now :: int
  bt_exec :: "nat \<Rightarrow> bool"
  bt_commit :: bool

definition call_row :: "int \<Rightarrow> Call \<Rightarrow> row" where
  "call_row now c =
     \<lparr>rw_ts = now, rw_account = ca_Account c, rw_grp = ca_Group c, rw_proxy_id = ca_ProxyID c, rw_addr = ca_Addr c,
      rw_kind = ca_Kind c, rw_ok = (if \<not> ca_OK c then 0 else 1)\<rparr>"

text \<open>The inserts up to the first that fails.\<close>

fun insert_loop :: "(nat \<Rightarrow> bool) \<Rightarrow> int \<Rightarrow> nat \<Rightarrow> Call list \<Rightarrow> row list" where
  "insert_loop exec now i [] = []"
| "insert_loop exec now i (c # calls) = (if exec i then call_row now c # insert_loop exec now (Suc i) calls else [])"

definition flushBatch :: "'db sql \<Rightarrow> batch_io \<Rightarrow> Call list \<Rightarrow> 'db \<Rightarrow> 'db" where
  "flushBatch sql b calls db =
     (if \<not> bt_begin b then db
      else if \<not> bt_prepare b then db
      else
        let rows = insert_loop (bt_exec b) (bt_now b) 0 calls
        in if bt_commit b then sq_insert sql rows db else db)"

subsection \<open>The worker\<close>

definition flush_buf :: "'db sql \<Rightarrow> batch_io \<Rightarrow> 'db Store \<Rightarrow> 'db Store" where
  "flush_buf sql b s = (if length (us_buf s) = 0 then s else s\<lparr>us_db := flushBatch sql b (us_buf s) (us_db s), us_buf := []\<rparr>)"

definition append_buf :: "'db sql \<Rightarrow> batch_io \<Rightarrow> Call \<Rightarrow> 'db Store \<Rightarrow> 'db Store" where
  "append_buf sql b c s =
     (let s = s\<lparr>us_buf := us_buf s @ [c]\<rparr>
      in if int (length (us_buf s)) \<ge> us_batch s then flush_buf sql b s else s)"

subsection \<open>Record and Close\<close>

text \<open>\<^verbatim>\<open>Record\<close>: the test of \<^verbatim>\<open>closed\<close>, and the send that does not block.\<close>

definition Record_check :: "Call \<Rightarrow> 'db Store \<Rightarrow> 'db Store" where
  "Record_check c s = (if us_closed s then s else s\<lparr>us_pending := us_pending s @ [c]\<rparr>)"

definition Record_send :: "Call \<Rightarrow> 'db Store \<Rightarrow> 'db Store" where
  "Record_send c s =
     (let s = s\<lparr>us_pending := remove1 c (us_pending s)\<rparr>
      in if length (us_ch s) < channelSize then s\<lparr>us_ch := us_ch s @ [c]\<rparr> else s)"

text \<open>The two actions of \<^verbatim>\<open>Close\<close> before it waits for the worker.\<close>

definition Close_mark :: "'db Store \<Rightarrow> 'db Store" where
  "Close_mark s = s\<lparr>us_closed := True\<rparr>"

definition Close_signal :: "'db Store \<Rightarrow> 'db Store" where
  "Close_signal s = s\<lparr>us_closeCh := True\<rparr>"

subsection \<open>Steps\<close>

text \<open>
  The actions of the handlers, of \<^verbatim>\<open>Close\<close> and of the cases of the worker's \<^verbatim>\<open>select\<close>, in any order their guards allow. A step gives the
  calls that entered the channel and those that were handed to \<^verbatim>\<open>flushBatch\<close>.
\<close>

datatype usage_event =
    SCheck Call | SSend Call | SMark | SSignal
  | SReceive batch_io | STick batch_io | SPrune bool int | SStop | SFinish batch_io

fun usage_step :: "'db sql \<Rightarrow> usage_event \<Rightarrow> 'db Store \<Rightarrow> (Call list \<times> Call list \<times> 'db Store) option" where
  "usage_step sql (SCheck c) s = Some ([], [], Record_check c s)"
| "usage_step sql (SSend c) s =
     (if c \<in> set (us_pending s) then Some (if length (us_ch s) < channelSize then [c] else [], [], Record_send c s) else None)"
| "usage_step sql SMark s = Some ([], [], Close_mark s)"
| "usage_step sql SSignal s = (if us_closed s \<and> \<not> us_closeCh s then Some ([], [], Close_signal s) else None)"
| "usage_step sql (SReceive b) s =
     (case us_ch s of
        [] \<Rightarrow> None
      | c # cs \<Rightarrow>
         if us_worker s = Returned then None
         else let t = append_buf sql b c (s\<lparr>us_ch := cs\<rparr>)
              in Some ([], if us_buf t = [] then us_buf s @ [c] else [], t))"
| "usage_step sql (STick b) s = (if us_worker s = Looping then Some ([], us_buf s, flush_buf sql b s) else None)"
| "usage_step sql (SPrune executed cutoff) s = (if us_worker s = Looping then Some ([], [], prune sql executed cutoff s) else None)"
| "usage_step sql SStop s = (if us_worker s = Looping \<and> us_closeCh s then Some ([], [], s\<lparr>us_worker := Draining\<rparr>) else None)"
| "usage_step sql (SFinish b) s =
     (if us_worker s = Draining \<and> us_ch s = [] then Some ([], us_buf s, (flush_buf sql b s)\<lparr>us_worker := Returned\<rparr>) else None)"

fun run_usage :: "'db sql \<Rightarrow> usage_event list \<Rightarrow> 'db Store \<Rightarrow> (Call list \<times> Call list \<times> 'db Store) option" where
  "run_usage sql [] s = Some ([], [], s)"
| "run_usage sql (x # xs) s =
     (case usage_step sql x s of
        None \<Rightarrow> None
      | Some (sent, flushed, t) \<Rightarrow>
         (case run_usage sql xs t of None \<Rightarrow> None | Some (sents, flusheds, u) \<Rightarrow> Some (sent @ sents, flushed @ flusheds, u)))"

subsection \<open>Queries\<close>

definition conditions :: "string \<Rightarrow> int \<Rightarrow> int \<Rightarrow> cond list" where
  "conditions account from to =
     (if account \<noteq> [] then [AccountIs account] else []) @ (if from > 0 then [TsGe (i64 (from * 1000))] else []) @
     (if to > 0 then [TsLe (i64 (to * 1000))] else [])"

definition Count :: "'db sql \<Rightarrow> string option \<Rightarrow> string \<Rightarrow> int \<Rightarrow> int \<Rightarrow> 'db Store option \<Rightarrow> string + int" where
  "Count sql fails account from to st =
     (case st of
        None \<Rightarrow> Inr 0
      | Some s \<Rightarrow> (case fails of Some e \<Rightarrow> Inl e | None \<Rightarrow> Inr (sq_count sql (conditions account from to) (us_db s))))"

definition Summary :: "'db sql \<Rightarrow> string option \<Rightarrow> int \<Rightarrow> int \<Rightarrow> 'db Store option \<Rightarrow> string + AccountSummary list" where
  "Summary sql fails from to st =
     (case st of
        None \<Rightarrow> Inr []
      | Some s \<Rightarrow>
         (case fails of
            Some e \<Rightarrow> Inl e
          | None \<Rightarrow>
             Inr (map (\<lambda>(a, n, okv). \<lparr>as_Account = a, as_Total = n, as_OK = (case okv of None \<Rightarrow> 0 | Some k \<Rightarrow> k)\<rparr>)
                   (sq_summary sql (conditions [] from to) (us_db s)))))"

end
