(* ===== verification/Usage_Props.thy ===== *)
theory Usage_Props
  imports Usage_Store "HOL-Library.Multiset"
begin

section \<open>Properties of the usage store\<close>

text \<open>
  What entered the channel is written once and in order, closing writes the rest, and the reports agree with the
  table.
\<close>

subsection \<open>Calls in flight\<close>

definition store_ok :: "'db Store \<Rightarrow> bool" where
  "store_ok s \<longleftrightarrow> 0 < us_batch s \<and> int (length (us_buf s)) < us_batch s \<and> length (us_ch s) \<le> channelSize \<and>
     (us_worker s = Returned \<longrightarrow> us_buf s = [])"

text \<open>The calls that reach \<^verbatim>\<open>Record\<close>.\<close>

definition recorded :: "usage_event list \<Rightarrow> Call list" where
  "recorded es = concat (map (\<lambda>e. case e of SCheck c \<Rightarrow> [c] | _ \<Rightarrow> []) es)"

lemma flush_buf_simps [simp]:
  "us_buf (flush_buf sql b s) = []" "us_ch (flush_buf sql b s) = us_ch s" "us_batch (flush_buf sql b s) = us_batch s"
  "us_worker (flush_buf sql b s) = us_worker s" "us_pending (flush_buf sql b s) = us_pending s"
  by (simp_all add: flush_buf_def)

lemma prune_simps [simp]:
  "us_buf (prune sql x t s) = us_buf s" "us_ch (prune sql x t s) = us_ch s" "us_batch (prune sql x t s) = us_batch s"
  "us_worker (prune sql x t s) = us_worker s" "us_pending (prune sql x t s) = us_pending s"
  by (simp_all add: prune_def)

lemmas record_defs = Record_check_def Record_send_def Close_mark_def Close_signal_def append_buf_def Let_def

lemma usage_step_flow:
  assumes "usage_step sql e s = Some (sent, flushed, t)" "store_ok s"
  shows "store_ok t \<and> us_buf s @ us_ch s @ sent = flushed @ us_buf t @ us_ch t \<and>
    mset sent + mset (us_pending t) \<subseteq># mset (recorded [e]) + mset (us_pending s)"
  using assms
  by (cases e) (auto simp: store_ok_def record_defs recorded_def split: if_splits list.splits)

lemma run_usage_flow:
  assumes "run_usage sql es s = Some (sent, flushed, t)" "store_ok s"
  shows "store_ok t \<and> us_buf s @ us_ch s @ sent = flushed @ us_buf t @ us_ch t \<and>
    mset sent + mset (us_pending t) \<subseteq># mset (recorded es) + mset (us_pending s)"
  using assms
proof (induction es arbitrary: s sent flushed)
  case (Cons e es)
  from Cons.prems(1) obtain s1 f1 u s2 f2 where u: "usage_step sql e s = Some (s1, f1, u)" "run_usage sql es u = Some (s2, f2, t)"
    "sent = s1 @ s2" "flushed = f1 @ f2" by (auto split: option.splits prod.splits)
  note one = usage_step_flow [OF u(1) Cons.prems(2)] and rest = Cons.IH [OF u(2)]
  have "us_buf s @ us_ch s @ sent = f1 @ us_buf u @ us_ch u @ s2" using one u(3) by (metis append.assoc)
  moreover have "recorded (e # es) = recorded [e] @ recorded es" by (simp add: recorded_def)
  moreover have "mset s2 + mset (us_pending t) \<subseteq># mset (recorded es) + mset (us_pending u)" using rest one by blast
  then have "mset sent + mset (us_pending t) \<subseteq># mset (recorded es) + (mset s1 + mset (us_pending u))"
    using u(3) by (simp add: ac_simps)
  then have "mset sent + mset (us_pending t) \<subseteq># mset (recorded es) + (mset (recorded [e]) + mset (us_pending s))"
    using one by (meson subset_mset.add_left_mono subset_mset.order_trans)
  ultimately show ?case using rest one u(4) by (simp add: ac_simps)
qed (simp add: recorded_def)

lemma Open_ok: "Open sql opened pruned cutoff db cfg = Inr (Some s) \<Longrightarrow> store_ok s \<and> us_buf s = [] \<and> us_ch s = [] \<and> us_pending s = [] \<and> us_db s \<in> {db, sq_delete_before sql cutoff db}"
  by (auto simp: Open_def store_ok_def Let_def prune_def channelSize_def split: if_splits open_outcome.splits)

text \<open>
  Whatever the order in which handlers, the worker and \<^verbatim>\<open>Close\<close> act: the calls that entered the channel are handed to the
  database once each and in that order; those still missing are in the buffer and the channel, which stay below the batch size and
  4096. No call enters the channel more often than it was recorded, and nothing is left in the buffer when the worker returns.
\<close>

theorem usage_calls_once:
  assumes "Open sql opened pruned cutoff db cfg = Inr (Some s)" "run_usage sql es s = Some (sent, flushed, t)"
  shows "sent = flushed @ us_buf t @ us_ch t \<and> int (length (us_buf t)) < us_batch t \<and> length (us_ch t) \<le> 4096 \<and>
    mset sent \<subseteq># mset (recorded es) \<and> (us_worker t = Returned \<longrightarrow> us_buf t = [])"
proof -
  have s: "store_ok s" "us_buf s = []" "us_ch s = []" "us_pending s = []" using Open_ok [OF assms(1)] by auto
  then have "mset sent \<subseteq># mset (recorded es)"
    using run_usage_flow [OF assms(2)] by (auto intro: subset_mset.order_trans [OF mset_subset_eq_add_left])
  then show ?thesis using run_usage_flow [OF assms(2) s(1)] s by (simp add: store_ok_def channelSize_def)
qed

subsection \<open>The table\<close>

text \<open>What the statements of the source mean for the rows of the table.\<close>

fun matches :: "row \<Rightarrow> cond \<Rightarrow> bool" where
  "matches r (AccountIs a) = (rw_account r = a)"
| "matches r (TsGe t) = (t \<le> rw_ts r)"
| "matches r (TsLe t) = (rw_ts r \<le> t)"

definition selected :: "cond list \<Rightarrow> row list \<Rightarrow> row list" where
  "selected cs rs = filter (\<lambda>r. list_all (matches r) cs) rs"

definition of_account :: "string \<Rightarrow> row list \<Rightarrow> row list" where
  "of_account a rs = filter (\<lambda>r. rw_account r = a) rs"

definition grouped :: "row list \<Rightarrow> (string \<times> int \<times> int option) list \<Rightarrow> bool" where
  "grouped rs out \<longleftrightarrow> distinct (map fst out) \<and> set (map fst out) = rw_account ` set rs \<and> sorted_wrt (\<lambda>x y. fst (snd y) \<le> fst (snd x)) out \<and>
     (\<forall>x \<in> set out. fst (snd x) = int (length (of_account (fst x) rs)) \<and>
        snd (snd x) = Some (int (length (filter (\<lambda>r. rw_ok r = 1) (of_account (fst x) rs)))))"

definition table_laws :: "'db sql \<Rightarrow> ('db \<Rightarrow> row list) \<Rightarrow> bool" where
  "table_laws sql rows \<longleftrightarrow>
     (\<forall>rs d. rows (sq_insert sql rs d) = rows d @ rs) \<and>
     (\<forall>t d. rows (sq_delete_before sql t d) = filter (\<lambda>r. \<not> rw_ts r < t) (rows d)) \<and>
     (\<forall>cs d. sq_count sql cs d = int (length (selected cs (rows d)))) \<and>
     (\<forall>cs d. grouped (selected cs (rows d)) (sq_summary sql cs d))"

definition row_call :: "row \<Rightarrow> Call" where
  "row_call r = \<lparr>ca_Account = rw_account r, ca_Group = rw_grp r, ca_ProxyID = rw_proxy_id r, ca_Addr = rw_addr r, ca_Kind = rw_kind r,
     ca_OK = (rw_ok r = 1)\<rparr>"

lemma row_call_row [simp]: "row_call (call_row now c) = c"
  by (simp add: row_call_def call_row_def)

definition calls_since :: "int \<Rightarrow> row list \<Rightarrow> Call list" where
  "calls_since t0 rs = map row_call (filter (\<lambda>r. t0 \<le> rw_ts r) rs)"

lemma calls_since_append [simp]: "calls_since t0 (rs @ rs') = calls_since t0 rs @ calls_since t0 rs'"
  by (simp add: calls_since_def)

text \<open>No call of the driver fails, batches are written after \<open>t0\<close>, and nothing newer than \<open>t0\<close> is pruned.\<close>

definition batch_fine :: "int \<Rightarrow> batch_io \<Rightarrow> bool" where
  "batch_fine t0 b \<longleftrightarrow> bt_begin b \<and> bt_prepare b \<and> (\<forall>i. bt_exec b i) \<and> bt_commit b \<and> t0 \<le> bt_now b"

fun event_fine :: "int \<Rightarrow> usage_event \<Rightarrow> bool" where
  "event_fine t0 (SReceive b) = batch_fine t0 b"
| "event_fine t0 (STick b) = batch_fine t0 b"
| "event_fine t0 (SFinish b) = batch_fine t0 b"
| "event_fine t0 (SPrune executed cutoff) = (cutoff \<le> t0)"
| "event_fine t0 _ = True"

lemma insert_loop_all: "\<forall>i. exec i \<Longrightarrow> insert_loop exec now i calls = map (call_row now) calls"
  by (induction calls arbitrary: i) simp_all

lemma flushBatch_fine:
  assumes "table_laws sql rows" "batch_fine t0 b"
  shows "calls_since t0 (rows (flushBatch sql b calls d)) = calls_since t0 (rows d) @ calls"
  using assms
  by (simp add: flushBatch_def batch_fine_def table_laws_def insert_loop_all) (simp add: calls_since_def call_row_def [THEN arg_cong, of rw_ts] filter_map comp_def)

lemma flush_buf_fine:
  assumes "table_laws sql rows" "batch_fine t0 b"
  shows "calls_since t0 (rows (us_db (flush_buf sql b s))) = calls_since t0 (rows (us_db s)) @ us_buf s"
  using flushBatch_fine [OF assms] by (simp add: flush_buf_def)

lemma prune_fine:
  assumes "table_laws sql rows" "cutoff \<le> t0"
  shows "calls_since t0 (rows (us_db (prune sql x cutoff s))) = calls_since t0 (rows (us_db s))"
proof -
  have "filter (\<lambda>r. \<not> rw_ts r < cutoff \<and> t0 \<le> rw_ts r) rs = filter (\<lambda>r. t0 \<le> rw_ts r) rs" for rs :: "row list"
    by (rule filter_cong) (use assms(2) in auto)
  then show ?thesis using assms(1) by (simp add: prune_def table_laws_def calls_since_def)
qed

lemma usage_step_rows:
  assumes "usage_step sql e s = Some (sent, flushed, t)" "table_laws sql rows" "event_fine t0 e"
  shows "calls_since t0 (rows (us_db t)) = calls_since t0 (rows (us_db s)) @ flushed"
  using assms flush_buf_fine [OF assms(2)] prune_fine [OF assms(2)]
  by (cases e) (auto simp: record_defs split: if_splits list.splits)

lemma run_usage_rows:
  assumes "run_usage sql es s = Some (sent, flushed, t)" "table_laws sql rows" "list_all (event_fine t0) es"
  shows "calls_since t0 (rows (us_db t)) = calls_since t0 (rows (us_db s)) @ flushed"
  using assms
proof (induction es arbitrary: s sent flushed)
  case (Cons e es)
  from Cons.prems(1) obtain s1 f1 u s2 f2 where u: "usage_step sql e s = Some (s1, f1, u)" "run_usage sql es u = Some (s2, f2, t)"
    "flushed = f1 @ f2" by (auto split: option.splits prod.splits)
  show ?case using usage_step_rows [OF u(1) Cons.prems(2), of t0] Cons.IH [OF u(2)] Cons.prems u(3) by simp
qed simp

text \<open>
  C13. While the database works, the table has exactly the calls that entered the channel, after those it had before and in their
  order, except for the ones still in the buffer and the channel; when the worker has returned and the channel is empty, it has all of
  them. This holds for the rows since any \<open>t0\<close> that is not pruned.
\<close>

theorem usage_table_exact:
  assumes "table_laws sql rows" "Open sql opened pruned cutoff db cfg = Inr (Some s)" "cutoff \<le> t0"
    and "run_usage sql es s = Some (sent, flushed, t)" "list_all (event_fine t0) es"
  shows "calls_since t0 (rows (us_db t)) @ us_buf t @ us_ch t = calls_since t0 (rows db) @ sent \<and>
    (us_worker t = Returned \<and> us_ch t = [] \<longrightarrow> calls_since t0 (rows (us_db t)) = calls_since t0 (rows db) @ sent)"
proof -
  note s = Open_ok [OF assms(2)]
  have "filter (\<lambda>r. \<not> rw_ts r < cutoff \<and> t0 \<le> rw_ts r) (rows db) = filter (\<lambda>r. t0 \<le> rw_ts r) (rows db)"
    by (rule filter_cong) (use assms(3) in auto)
  then have "calls_since t0 (rows (us_db s)) = calls_since t0 (rows db)"
    using s assms(1) by (auto simp: table_laws_def calls_since_def)
  then show ?thesis
    using run_usage_rows [OF assms(4,1,5)] run_usage_flow [OF assms(4)] s by (auto simp: store_ok_def)
qed

subsection \<open>Closing\<close>

lemma run_usage_append:
  "run_usage sql (es @ es') s = (case run_usage sql es s of None \<Rightarrow> None | Some (sent, flushed, t) \<Rightarrow>
     (case run_usage sql es' t of None \<Rightarrow> None | Some (sent', flushed', u) \<Rightarrow> Some (sent @ sent', flushed @ flushed', u)))"
  by (induction es arbitrary: s) (auto split: option.splits prod.splits)

lemma drain_run:
  assumes "us_worker s = Draining" "length bs = length (us_ch s)"
  shows "\<exists>u f. run_usage sql (map SReceive bs) s = Some ([], f, u) \<and> us_worker u = Draining \<and> us_ch u = [] \<and> f @ us_buf u = us_buf s @ us_ch s"
  using assms
proof (induction bs arbitrary: s)
  case (Cons b bs)
  then obtain c cs where ch: "us_ch s = c # cs" by (cases "us_ch s") auto
  let ?t = "append_buf sql b c (s\<lparr>us_ch := cs\<rparr>)"
  have t: "us_worker ?t = Draining" "us_ch ?t = cs" using Cons.prems by (simp_all add: append_buf_def Let_def)
  obtain u f where u: "run_usage sql (map SReceive bs) ?t = Some ([], f, u)" "us_worker u = Draining" "us_ch u = []"
    "f @ us_buf u = us_buf ?t @ us_ch ?t" using Cons.IH [OF t(1)] t(2) Cons.prems(2) ch by auto
  have "us_buf ?t = [] \<or> us_buf ?t = us_buf s @ [c]" by (auto simp: append_buf_def Let_def)
  then show ?case using u t Cons.prems ch by auto
qed simp


subsection \<open>Reports\<close>

lemma selected_account: "a \<noteq> [] \<Longrightarrow> selected (conditions a from to) rs = of_account a (selected (conditions [] from to) rs)"
  by (auto simp: selected_def conditions_def of_account_def conj_commute intro!: filter_cong)

lemma length_by_account:
  assumes "distinct as" "set as = rw_account ` set rs"
  shows "(\<Sum>a \<leftarrow> as. int (length (of_account a rs))) = int (length rs)"
proof -
  have "(\<Sum>a \<leftarrow> as. int (length (of_account a rs))) = (\<Sum>a \<in> set as. int (length (of_account a rs)))"
    by (simp add: sum_list_distinct_conv_sum_set assms(1))
  also have "\<dots> = int (length rs)"
    unfolding assms(2)
  proof (induction rs)
    case (Cons r rs)
    have split: "int (length (of_account a (r # rs))) = (if a = rw_account r then 1 else 0) + int (length (of_account a rs))" for a
      by (simp add: of_account_def)
    have "(\<Sum>a \<in> rw_account ` set (r # rs). int (length (of_account a (r # rs)))) = 1 + (\<Sum>a \<in> rw_account ` set (r # rs). int (length (of_account a rs)))"
      unfolding split sum.distrib by simp
    also have "(\<Sum>a \<in> rw_account ` set (r # rs). int (length (of_account a rs))) = (\<Sum>a \<in> rw_account ` set rs. int (length (of_account a rs)))"
      by (rule sum.mono_neutral_right) (auto simp: of_account_def filter_empty_conv)
    finally show ?case using Cons.IH by simp
  qed simp
  finally show ?thesis .
qed

text \<open>
  The summary of a period and the counts of the same period agree: every account with a call in it is listed once, with as many calls
  as the count for the account, of which at most all succeeded, by falling number of calls, and the numbers add up to the count
  over all accounts.
\<close>

theorem usage_reports_agree:
  assumes "table_laws sql rows" "Summary sql None from to (Some s) = Inr out"
  shows "distinct (map as_Account out) \<and> sorted_wrt (\<lambda>x y. as_Total y \<le> as_Total x) out \<and>
    (\<forall>x \<in> set out. 0 \<le> as_OK x \<and> as_OK x \<le> as_Total x \<and> 0 < as_Total x \<and>
       (as_Account x \<noteq> [] \<longrightarrow> Count sql None (as_Account x) from to (Some s) = Inr (as_Total x))) \<and>
    Count sql None [] from to (Some s) = Inr (\<Sum>x \<leftarrow> out. as_Total x)"
proof -
  let ?rs = "selected (conditions [] from to) (rows (us_db s))" and ?q = "sq_summary sql (conditions [] from to) (us_db s)"
  let ?f = "\<lambda>(a, n, okv). \<lparr>as_Account = a, as_Total = n, as_OK = (case okv of None \<Rightarrow> 0 | Some k \<Rightarrow> k)\<rparr> :: AccountSummary"
  have out: "out = map ?f ?q" using assms(2) by (simp add: Summary_def)
  have g: "grouped ?rs ?q" and c: "sq_count sql cs (us_db s) = int (length (selected cs (rows (us_db s))))" for cs
    using assms(1) by (simp_all add: table_laws_def)
  have acc: "map as_Account out = map fst ?q" "map as_Total out = map (fst \<circ> snd) ?q" by (simp_all add: out case_prod_unfold comp_def)
  have tot: "map (fst \<circ> snd) ?q = map (\<lambda>a. int (length (of_account a ?rs))) (map fst ?q)"
    using g by (auto simp: grouped_def comp_def)
  have "(\<Sum>x \<leftarrow> out. as_Total x) = int (length ?rs)"
    unfolding acc(2) tot using g length_by_account [of "map fst ?q" ?rs] by (simp add: grouped_def)
  moreover have "0 \<le> as_OK x \<and> as_OK x \<le> as_Total x \<and> 0 < as_Total x \<and>
       (as_Account x \<noteq> [] \<longrightarrow> Count sql None (as_Account x) from to (Some s) = Inr (as_Total x))" if x: "x \<in> set out" for x
  proof -
    obtain y where y: "y \<in> set ?q" "x = ?f y" using x unfolding out set_map by blast
    have n: "fst (snd y) = int (length (of_account (fst y) ?rs))" "snd (snd y) = Some (int (length (filter (\<lambda>r. rw_ok r = 1) (of_account (fst y) ?rs))))"
      using g y(1) by (auto simp: grouped_def)
    have "fst y \<in> rw_account ` set ?rs" using g y(1) by (auto simp: grouped_def)
    then have "of_account (fst y) ?rs \<noteq> []" by (auto simp: of_account_def filter_empty_conv)
    then show ?thesis
      using y(2) n length_filter_le [of "\<lambda>r. rw_ok r = 1" "of_account (fst y) ?rs"] by (simp add: case_prod_unfold Count_def c selected_account)
  qed
  moreover have "sorted_wrt (\<lambda>x y. as_Total y \<le> as_Total x) out" using g by (simp add: out grouped_def sorted_wrt_map case_prod_unfold)
  ultimately show ?thesis using g acc(1) by (simp add: grouped_def Count_def c)
qed

subsection \<open>A database of rows\<close>

text \<open>The statements on a list of rows; they satisfy the laws.\<close>

definition row_db :: "row list sql" where
  "row_db =
     \<lparr>sq_insert = (\<lambda>rs d. d @ rs), sq_delete_before = (\<lambda>t. filter (\<lambda>r. \<not> rw_ts r < t)),
      sq_count = (\<lambda>cs d. int (length (selected cs d))),
      sq_summary = (\<lambda>cs d. let rs = selected cs d
        in map (\<lambda>a. (a, int (length (of_account a rs)), Some (int (length (filter (\<lambda>r. rw_ok r = 1) (of_account a rs))))))
             (sort_key (\<lambda>a. - int (length (of_account a rs))) (remdups (map rw_account rs))))\<rparr>"

lemma row_db_laws: "table_laws row_db (\<lambda>d. d)"
proof -
  have "sorted_wrt (\<lambda>a b. f b \<le> f a) (sort_key (\<lambda>a. - int (f a)) xs)" for f :: "string \<Rightarrow> nat" and xs
    using sorted_sort_key [of "\<lambda>a. - int (f a)" xs] by (simp add: sorted_map)
  then show ?thesis by (auto simp: table_laws_def row_db_def grouped_def Let_def sorted_wrt_map comp_def)
qed

definition demo_call :: Call where
  "demo_call = \<lparr>ca_Account = ''ann'', ca_Group = [], ca_ProxyID = ''p1'', ca_Addr = ''1.2.3.4:80'', ca_Kind = ''proxy'', ca_OK = True\<rparr>"

definition demo_batch :: batch_io where
  "demo_batch = \<lparr>bt_begin = True, bt_prepare = True, bt_now = 5000, bt_exec = (\<lambda>_. True), bt_commit = True\<rparr>"

definition demo_usage :: "row list Store" where
  "demo_usage = \<lparr>us_db = [], us_ch = [], us_batch = 200, us_flush = 1000000000, us_closed = False, us_closeCh = False, us_buf = [], us_pending = [],
     us_worker = Looping\<rparr>"

lemma demo_open: "Open row_db Opened True 0 [] \<lparr>db_Path = ''u.db'', db_BatchSize = 0, db_FlushIntervalMs = 0\<rparr> = Inr (Some demo_usage)"
  by (simp add: Open_def prune_def row_db_def demo_usage_def i64_def Let_def)

lemmas demo_usage_defs = demo_usage_def record_defs channelSize_def flush_buf_def flushBatch_def demo_batch_def row_db_def

lemma demo_usage_run:
  "run_usage row_db [SCheck demo_call, SSend demo_call, SReceive demo_batch, STick demo_batch] demo_usage =
     Some ([demo_call], [demo_call], demo_usage\<lparr>us_db := [call_row 5000 demo_call]\<rparr>)"
  by (simp add: demo_usage_defs)

theorem usage_calls_once_witness:
  "[demo_call] = [demo_call] @ us_buf (demo_usage\<lparr>us_db := [call_row 5000 demo_call]\<rparr>) @ us_ch (demo_usage\<lparr>us_db := [call_row 5000 demo_call]\<rparr>)"
  using usage_calls_once [OF demo_open demo_usage_run] by blast

theorem usage_table_exact_witness: "calls_since 0 [call_row 5000 demo_call] = [demo_call]"
  using usage_table_exact [OF row_db_laws demo_open _ demo_usage_run, of 0]
  by (simp add: batch_fine_def demo_batch_def demo_usage_def calls_since_def)


theorem usage_reports_agree_witness:
  "Count row_db None ''ann'' 1 0 (Some (demo_usage\<lparr>us_db := [call_row 5000 demo_call]\<rparr>)) = Inr 1"
proof -
  let ?s = "demo_usage\<lparr>us_db := [call_row 5000 demo_call]\<rparr>"
  have "Summary row_db None 1 0 (Some ?s) = Inr [\<lparr>as_Account = ''ann'', as_Total = 1, as_OK = 1\<rparr>]"
    by (simp add: Summary_def row_db_def selected_def conditions_def of_account_def call_row_def demo_call_def i64_def)
  from usage_reports_agree [OF row_db_laws this] show ?thesis by simp
qed

subsection \<open>What gets lost\<close>

text \<open>
  \<^verbatim>\<open>Record\<close> reads \<^verbatim>\<open>closed\<close> before it sends, so a call can enter the channel after the worker has returned: it is neither written nor
  reported as dropped.
\<close>

theorem late_send_lost:
  "\<exists>es t. run_usage row_db es demo_usage = Some ([demo_call], [], t) \<and> us_worker t = Returned \<and> us_db t = []"
  by (rule exI [of _ "[SCheck demo_call, SMark, SSignal, SStop, SFinish demo_batch, SSend demo_call]"]) (simp add: demo_usage_defs)

text \<open>A batch whose transaction fails is not kept for another attempt.\<close>

theorem failed_batch_lost:
  "\<exists>es t. run_usage row_db es demo_usage = Some ([demo_call], [demo_call], t) \<and> us_buf t = [] \<and> us_ch t = [] \<and> us_db t = []"
  by (rule exI [of _ "[SCheck demo_call, SSend demo_call, SReceive demo_batch, STick (demo_batch\<lparr>bt_begin := False\<rparr>)]"])
    (simp add: demo_usage_defs)

text \<open>The bounds are multiplied to milliseconds without a check: a period that begins in the far future has every call.\<close>

theorem usage_period_wraps:
  assumes "table_laws sql rows" "list_all (\<lambda>r. 0 \<le> rw_ts r) (rows (us_db s))"
  shows "Count sql None [] MaxInt64 0 (Some s) = Inr (int (length (rows (us_db s))))"
proof -
  have "conditions [] MaxInt64 0 = [TsGe (- 1000)]" by (simp add: conditions_def MaxInt64_def i64_def)
  moreover have "filter (\<lambda>r. - 1000 \<le> rw_ts r) (rows (us_db s)) = rows (us_db s)"
    using assms(2) by (auto simp: filter_id_conv list_all_iff)
  ultimately show ?thesis using assms(1) by (simp add: Count_def table_laws_def selected_def)
qed

end
