(* ===== verification/Server_Handlers.thy ===== *)
theory Server_Handlers
  imports Server_State
begin

section \<open>The handlers of the console server\<close>

text \<open>
  One definition per handler of \<^verbatim>\<open>server.go\<close>. A handler takes what the outside world decides, the request,
  the caller and the server, and returns the reply and the server after it; a handler that calls code
  that may panic returns \<^typ>\<open>'a go\<close>.
\<close>

definition fail :: "int \<Rightarrow> string \<Rightarrow> Reply" where
  "fail status msg = Json status (JErr (Msg msg))"

definition refuse :: "why \<Rightarrow> Reply" where
  "refuse e = Json 400 (JErr e)"

definition ok_reply :: Reply where
  "ok_reply = Json 200 JOk"

subsection \<open>Handing out proxies\<close>

definition no_proxy :: "string \<Rightarrow> string \<Rightarrow> Server \<Rightarrow> Reply \<times> Server" where
  "no_proxy acct grp s = (fail 503 ''no available proxy'', recordCall acct grp [] [] [] (emitPoolExhausted s))"

definition handleGetProxy :: "io \<Rightarrow> Ctx \<Rightarrow> Caller \<Rightarrow> Server \<Rightarrow> (Reply \<times> Server) go" where
  "handleGetProxy w c u s =
     (let sticky = atoi_lax (query ''sticky_seconds'' c);
          clientID = query ''client_id'' c;
          grp = query ''group'' c;
          acct = cl_account u
      in if \<not> groupAllowed u grp s then Inr (fail 403 ''group not allowed for account'', s)
         else if sticky > 0 \<and> clientID \<noteq> [] then
           bindE (StickyNext (io_now w) clientID sticky grp (sv_pool s)) (\<lambda>(pr, p).
             let s = set_pool p s
             in case pr of
                  None \<Rightarrow> Inr (no_proxy acct grp s)
                | Some a \<Rightarrow>
                   let pr = pl_heap p a
                   in Inr (Json 200 (JProxy (toResponse pr) (Some (clientID, sticky))),
                           recordCall acct grp (px_Provider pr) (px_ID pr) (Proxy_Addr pr) s))
         else
           bindE (if grp \<noteq> [] then NextInGroup grp (sv_pool s) else Next (sv_pool s)) (\<lambda>(pr, p).
             let s = set_pool p s
             in case pr of
                  None \<Rightarrow> Inr (no_proxy acct grp s)
                | Some a \<Rightarrow>
                   let pr = pl_heap p a
                   in Inr (Json 200 (JProxy (toResponse pr) None),
                           recordCall acct grp (px_Provider pr) (px_ID pr) (Proxy_Addr pr) s)))"

fun proxies_loop :: "nat \<Rightarrow> string \<Rightarrow> string list \<Rightarrow> proxyResponse list \<Rightarrow> Pool \<Rightarrow> (proxyResponse list \<times> Pool) go" where
  "proxies_loop 0 grp exclude out p = Inr (out, p)"
| "proxies_loop (Suc n) grp exclude out p =
     bindE (if grp \<noteq> [] then NextInGroupExcluding grp exclude p else NextExcluding exclude p) (\<lambda>(pr, p).
       case pr of
         None \<Rightarrow> Inr (out, p)
       | Some a \<Rightarrow> proxies_loop n grp (px_ID (pl_heap p a) # exclude) (out @ [toResponse (pl_heap p a)]) p)"

definition clamp_count :: "int \<Rightarrow> int" where
  "clamp_count n0 = (let n = (if n0 \<le> 0 then 1 else n0) in if n > 100 then 100 else n)"

definition handleGetProxies :: "io \<Rightarrow> Ctx \<Rightarrow> Caller \<Rightarrow> Server \<Rightarrow> (Reply \<times> Server) go" where
  "handleGetProxies w c u s =
     (let n = clamp_count (atoi_lax (query ''count'' c)); grp = query ''group'' c; acct = cl_account u
      in if \<not> groupAllowed u grp s then Inr (fail 403 ''group not allowed for account'', s)
         else
           bindE (proxies_loop (nat n) grp [] [] (sv_pool s)) (\<lambda>(out, p).
             let s = set_pool p s
             in if length out = 0 then Inr (no_proxy acct grp s)
                else Inr (Json 200 (JProxies out),
                          recordCall acct grp (pp_Provider (hd out)) (pp_ID (hd out)) (pp_Addr (hd out)) s)))"

definition mark :: "io \<Rightarrow> string \<Rightarrow> bool \<Rightarrow> int \<Rightarrow> Server \<Rightarrow> (Reply \<times> Server) go" where
  "mark w ident success lat s =
     bindE (if success then MarkSuccess (io_now w) ident lat (sv_pool s) else MarkFailed ident lat (sv_pool s)) (\<lambda>p.
       Inr (ok_reply, set_pool p s))"

definition handleReport :: "io \<Rightarrow> Ctx \<Rightarrow> Server \<Rightarrow> (Reply \<times> Server) go" where
  "handleReport w c s =
     (let parts = split_on (CHR ''/'') (cx_Path c)
      in if length parts < 5 then Inr (fail 400 ''proxy id required'', s)
         else case bd_report (cx_Body c) of
                None \<Rightarrow> Inr (fail 400 ''invalid body'', s)
              | Some (success, lat) \<Rightarrow> mark w (parts ! (length parts - 2)) success lat s)"

definition handleFeedback :: "io \<Rightarrow> Ctx \<Rightarrow> Server \<Rightarrow> (Reply \<times> Server) go" where
  "handleFeedback w c s =
     (case bd_feedback (cx_Body c) of
        None \<Rightarrow> Inr (fail 400 ''invalid body'', s)
      | Some (ident, success, lat) \<Rightarrow>
         if ident = [] then Inr (fail 400 ''proxy id required'', s) else mark w ident success lat s)"

definition handleHealthz :: "Server \<Rightarrow> Reply \<times> Server" where
  "handleHealthz s = (Text 200 ''ok'', s)"

subsection \<open>Status\<close>

definition stat_of :: "(string, ProviderInfo) gomap \<Rightarrow> string \<Rightarrow> int \<Rightarrow> int \<Rightarrow> providerStat" where
  "stat_of infos name tot alv =
     (case mget infos name of
        None \<Rightarrow> \<lparr>sp_Provider = name, sp_Type = [], sp_Total = tot, sp_Alive = alv, sp_Enabled = False, sp_Weight = 0,
                 sp_Priority = 0, sp_MinAliveRatio = 0, sp_StickySeconds = 0\<rparr>
      | Some i \<Rightarrow> \<lparr>sp_Provider = name, sp_Type = pi_Type i, sp_Total = tot, sp_Alive = alv, sp_Enabled = pi_Enabled i,
                   sp_Weight = pi_Weight i, sp_Priority = pi_Priority i, sp_MinAliveRatio = pi_MinAliveRatio i,
                   sp_StickySeconds = pi_StickySeconds i\<rparr>)"

definition providerStats :: "io \<Rightarrow> Server \<Rightarrow> providerStat list \<times> Server" where
  "providerStats w s =
     (let (list, m) = ProviderList (io_rng w) (sv_mgr s);
          infos = fold (\<lambda>i. mput (pi_Name i) i) list [];
          (stats, p) = StatsByProvider (mg_pool m);
          (order, r) = range_order (mkeys infos) (pl_rng p);
          rest = filter (\<lambda>name. name \<notin> ps_Provider ` set stats) order
      in (map (\<lambda>ps. stat_of infos (ps_Provider ps) (ps_Total ps) (ps_Alive ps)) stats @ map (\<lambda>name. stat_of infos name 0 0) rest,
          s\<lparr>sv_mgr := m\<lparr>mg_pool := p\<lparr>pl_rng := r\<rparr>\<rparr>\<rparr>))"

definition handleStatus :: "io \<Rightarrow> Server \<Rightarrow> Reply \<times> Server" where
  "handleStatus w s =
     (let (tot, alv) = Stats (sv_pool s); (stats, s) = providerStats w s
      in (Json 200 (JStatus tot alv stats (GroupStats (sv_pool s))), s))"

subsection \<open>Providers\<close>

definition sanitizeProviderInfo :: "ProviderInfo \<Rightarrow> ProviderInfo" where
  "sanitizeProviderInfo p =
     p\<lparr>pi_Config := (pi_Config p)\<lparr>pc_Tunnel := None, pc_IPPool := None, pc_Free := None, pc_CheckURL := [],
                                   pc_CheckURLs := [], pc_Country := []\<rparr>\<rparr>"

definition handleListProviders :: "io \<Rightarrow> Caller \<Rightarrow> Server \<Rightarrow> Reply \<times> Server" where
  "handleListProviders w u s =
     (let (list, m) = ProviderList (io_rng w) (sv_mgr s);
          visible = map (\<lambda>p. if \<not> providerCanSeeFullConfig u (pi_Config p) then sanitizeProviderInfo p else p)
                      (filter (\<lambda>p. providerVisible u (pi_Config p)) list)
      in (Json 200 (JProviders visible (map_option (\<lambda>ck. hc_CheckURLs (ck_cfg ck)) (sv_checker s))), s\<lparr>sv_mgr := m\<rparr>))"

definition triggerHealthCheck :: "Server \<Rightarrow> Server" where
  "triggerHealthCheck s = (if sv_checker s = None then s else s\<lparr>sv_checks := Suc (sv_checks s)\<rparr>)"

text \<open>The reply to an operation of the manager that succeeded or failed.\<close>

definition mgr_reply :: "bool \<Rightarrow> (mgr_error option \<times> Manager) go \<Rightarrow> Server \<Rightarrow> (Reply \<times> Server) go" where
  "mgr_reply check r s =
     bindE r (\<lambda>(e, m).
       let s = s\<lparr>sv_mgr := m\<rparr>
       in case e of
            Some e \<Rightarrow> Inr (refuse (OfMgr e), s)
          | None \<Rightarrow> Inr (ok_reply, if check then triggerHealthCheck s else s))"

definition handleAddProvider :: "io \<Rightarrow> Ctx \<Rightarrow> Caller \<Rightarrow> Server \<Rightarrow> (Reply \<times> Server) go" where
  "handleAddProvider w c u s =
     (case bd_provider (cx_Body c) of
        Inl e \<Rightarrow> Inr (fail 400 (''invalid body: '' @ e), s)
      | Inr cfg \<Rightarrow>
         let cfg = (if \<not> isAdminUser u then cfg\<lparr>pc_Owner := cl_account u\<rparr> else cfg)
         in mgr_reply True (AddProvider (io_env w) (io_w w) cfg (sv_mgr s)) s)"

definition remove_owned :: "io \<Rightarrow> string \<Rightarrow> Caller \<Rightarrow> Server \<Rightarrow> (Reply \<times> Server) go" where
  "remove_owned w name u s =
     (case requireOwnedProvider u name s of
        Inl e \<Rightarrow> Inr (e, s)
      | Inr _ \<Rightarrow> mgr_reply False (RemoveProvider (io_w w) name (sv_mgr s)) s)"

definition handleRemoveProvider :: "io \<Rightarrow> Ctx \<Rightarrow> Caller \<Rightarrow> Server \<Rightarrow> (Reply \<times> Server) go" where
  "handleRemoveProvider w c u s =
     (let name = query ''name'' c in if name = [] then Inr (fail 400 ''name required'', s) else remove_owned w name u s)"

definition trim_suffix :: "string \<Rightarrow> string \<Rightarrow> string" where
  "trim_suffix s p = (if has_suffix s p then take (length s - length p) s else s)"

definition name_from_path :: "Ctx \<Rightarrow> string" where
  "name_from_path c = hd (split_on (CHR ''/'') (trim_suffix (trim_prefix (cx_Path c) ''/api/v1/admin/providers/'') ''/''))"

definition handleRemoveProviderByName :: "io \<Rightarrow> Ctx \<Rightarrow> Caller \<Rightarrow> Server \<Rightarrow> (Reply \<times> Server) go" where
  "handleRemoveProviderByName w c u s =
     (let name = name_from_path c in if name = [] then Inr (fail 400 ''name required'', s) else remove_owned w name u s)"

definition handleUpdateProvider :: "io \<Rightarrow> Ctx \<Rightarrow> Caller \<Rightarrow> Server \<Rightarrow> (Reply \<times> Server) go" where
  "handleUpdateProvider w c u s =
     (let name = name_from_path c
      in if name = [] then Inr (fail 400 ''name required'', s)
         else case requireOwnedProvider u name s of
                Inl e \<Rightarrow> Inr (e, s)
              | Inr _ \<Rightarrow>
                 (case bd_provider (cx_Body c) of
                    Inl e \<Rightarrow> Inr (fail 400 (''invalid body: '' @ e), s)
                  | Inr cfg \<Rightarrow>
                     let cfg = (if \<not> isAdminUser u then cfg\<lparr>pc_Owner := cl_account u\<rparr> else cfg)
                     in mgr_reply True (UpdateProvider (io_env w) (io_w w) name cfg (sv_mgr s)) s))"

text \<open>\<open>None\<close> when the path or the method is not one of an action.\<close>

definition handleProviderAction :: "io \<Rightarrow> Ctx \<Rightarrow> Caller \<Rightarrow> Server \<Rightarrow> (Reply \<times> Server) go option" where
  "handleProviderAction w c u s =
     (let parts = split_on (CHR ''/'') (trim_prefix (cx_Path c) ''/api/v1/admin/providers/'');
          name = parts ! 0; action = parts ! 1; m = sv_mgr s; b = cx_Body c
      in if length parts < 2 \<or> name = [] then None
         else case requireOwnedProvider u name s of
                Inl e \<Rightarrow> Some (Inr (e, s))
              | Inr _ \<Rightarrow>
                 if cx_Method c \<noteq> ''POST'' then None
                 else if action = ''enable'' then Some (mgr_reply False (SetProviderEnabled (io_env w) (io_w w) name True m) s)
                 else if action = ''disable'' then Some (mgr_reply False (SetProviderEnabled (io_env w) (io_w w) name False m) s)
                 else if action = ''weight'' then
                   Some (case bd_weight b of
                           None \<Rightarrow> Inr (fail 400 ''invalid body'', s)
                         | Some wt \<Rightarrow> mgr_reply False (SetProviderWeight (io_w w) name wt m) s)
                 else if action = ''refresh'' then Some (mgr_reply True (RefreshProvider (io_env w) name m) s)
                 else if action = ''priority'' then
                   Some (case bd_priority b of
                           None \<Rightarrow> Inr (fail 400 ''invalid body'', s)
                         | Some (prio, ratio) \<Rightarrow> mgr_reply False (SetProviderPriority (io_w w) name prio ratio m) s)
                 else if action = ''public'' then
                   Some (case bd_public b of
                           None \<Rightarrow> Inr (fail 400 ''invalid body'', s)
                         | Some pub \<Rightarrow> mgr_reply False (Inr (SetProviderPublic (io_w w) name pub m)) s)
                 else None)"

definition handleListProxies :: "Server \<Rightarrow> Reply \<times> Server" where
  "handleListProxies s = (let (list, p) = ProxyList (sv_pool s) in (Json 200 (JProxyList list), set_pool p s))"

definition handleRemoveProxy :: "Ctx \<Rightarrow> Server \<Rightarrow> (Reply \<times> Server) go" where
  "handleRemoveProxy c s =
     (let rest = trim_prefix (cx_Path c) ''/api/v1/admin/proxies/'';
          ident = (if length (query ''id'' c) > 0 then query ''id'' c
                   else if rest \<noteq> [] \<and> rest \<noteq> cx_Path c then rest else [])
      in if ident = [] then Inr (fail 400 ''proxy id required'', s)
         else bindE (Remove ident (sv_pool s)) (\<lambda>(ok, p).
                Inr (if \<not> ok then fail 404 ''proxy not found'' else ok_reply, set_pool p s)))"

text \<open>\<open>None\<close> when the round of checks never ends.\<close>

definition handleHealthCheck :: "io \<Rightarrow> Server \<Rightarrow> (Reply \<times> Server) go option" where
  "handleHealthCheck w s =
     (case sv_checker s of
        None \<Rightarrow> Some (Inr (fail 503 ''health checker not configured'', s))
      | Some ck \<Rightarrow>
         map_option (\<lambda>r. bindE r (\<lambda>(ck, p). Inr (ok_reply, set_pool p (s\<lparr>sv_checker := Some ck\<rparr>))))
           (checkAll (io_json w) (io_times w) (io_trials w) ck (sv_pool s)))"

end
