(* ===== verification/Server_Admin.thy ===== *)
theory Server_Admin
  imports Server_Handlers
begin

section \<open>Alerts, accounts, settings and groups of the console server\<close>

text \<open>The remaining handlers of \<^verbatim>\<open>server.go\<close>, in the same form.\<close>

subsection \<open>Alert configuration\<close>

definition with_alerts :: "(Dispatcher \<Rightarrow> Reply \<times> Dispatcher) \<Rightarrow> Server \<Rightarrow> Reply \<times> Server" where
  "with_alerts f s =
     (case sv_alerts s of
        None \<Rightarrow> (fail 503 ''alert dispatcher not configured'', s)
      | Some d \<Rightarrow> let (r, d) = f d in (r, s\<lparr>sv_alerts := Some d\<rparr>))"

definition alert_reply :: "alert_error option \<times> Dispatcher \<Rightarrow> Reply \<times> Dispatcher" where
  "alert_reply r = (case r of (Some e, d) \<Rightarrow> (refuse (OfAlert e), d) | (None, d) \<Rightarrow> (ok_reply, d))"

definition body_or :: "'a option \<Rightarrow> ('a \<Rightarrow> Dispatcher \<Rightarrow> Reply \<times> Dispatcher) \<Rightarrow> Dispatcher \<Rightarrow> Reply \<times> Dispatcher" where
  "body_or b f d = (case b of None \<Rightarrow> (fail 400 ''invalid body'', d) | Some x \<Rightarrow> f x d)"

definition handleGetAlerts :: "Server \<Rightarrow> Reply \<times> Server" where
  "handleGetAlerts s = with_alerts (\<lambda>d. (Json 200 (JAlerts (GetConfig d)), d)) s"

definition handleAddWebhook :: "io \<Rightarrow> Ctx \<Rightarrow> Server \<Rightarrow> Reply \<times> Server" where
  "handleAddWebhook w c s = with_alerts (body_or (bd_webhook (cx_Body c)) (\<lambda>wh d. alert_reply (AddWebhook (io_cfgw w) wh d))) s"

definition handleRemoveWebhook :: "io \<Rightarrow> Ctx \<Rightarrow> Server \<Rightarrow> Reply \<times> Server" where
  "handleRemoveWebhook w c s = with_alerts (\<lambda>d. alert_reply (RemoveWebhook (io_cfgw w) (query ''url'' c) d)) s"

definition handleUpdateWebhook :: "io \<Rightarrow> Ctx \<Rightarrow> Server \<Rightarrow> Reply \<times> Server" where
  "handleUpdateWebhook w c s =
     with_alerts (body_or (bd_webhook_edit (cx_Body c)) (\<lambda>(oldURL, wh) d.
       if oldURL = [] then (fail 400 ''old_url required'', d) else alert_reply (UpdateWebhook (io_cfgw w) oldURL wh d))) s"

definition handleUpdateEmail :: "io \<Rightarrow> Ctx \<Rightarrow> Server \<Rightarrow> Reply \<times> Server" where
  "handleUpdateEmail w c s = with_alerts (body_or (bd_email (cx_Body c)) (\<lambda>e d. alert_reply (UpdateEmail (io_cfgw w) e d))) s"

definition handleUpdateDedup :: "io \<Rightarrow> Ctx \<Rightarrow> Server \<Rightarrow> Reply \<times> Server" where
  "handleUpdateDedup w c s = with_alerts (body_or (bd_dedup (cx_Body c)) (\<lambda>n d. alert_reply (UpdateDedup (io_cfgw w) n d))) s"

definition handleUpdateMonitor :: "io \<Rightarrow> Ctx \<Rightarrow> Server \<Rightarrow> Reply \<times> Server" where
  "handleUpdateMonitor w c s =
     with_alerts (body_or (bd_monitor (cx_Body c)) (\<lambda>n d. alert_reply (UpdateMonitorSeconds (io_cfgw w) n d))) s"

definition handleUpdateRecover :: "io \<Rightarrow> Ctx \<Rightarrow> Server \<Rightarrow> Reply \<times> Server" where
  "handleUpdateRecover w c s =
     with_alerts (body_or (bd_recover (cx_Body c)) (\<lambda>n d. alert_reply (UpdateRecoverSeconds (io_cfgw w) n d))) s"

subsection \<open>Accounts\<close>

definition handleLogin :: "io \<Rightarrow> Ctx \<Rightarrow> Server \<Rightarrow> Reply \<times> Server" where
  "handleLogin w c s =
     (if no_auth s then (fail 403 ''auth not configured'', s)
      else case bd_login (cx_Body c) of
             None \<Rightarrow> (fail 400 ''invalid body'', s)
           | Some (name, password) \<Rightarrow>
              (case Login (io_sha w) (io_salt w) (io_w w) name password (the (sv_auth s)) of
                 (None, a) \<Rightarrow> (fail 401 ''invalid credentials'', s\<lparr>sv_auth := Some a\<rparr>)
               | (Some i, a) \<Rightarrow> (Json 200 (JToken (at_Token (am_heap a ! i)) (am_heap a ! i)), s\<lparr>sv_auth := Some a\<rparr>)))"

definition handleMe :: "Caller \<Rightarrow> Server \<Rightarrow> Reply \<times> Server" where
  "handleMe u s =
     (if no_auth s then (Json 200 JOpen, s)
      else case cl_obj u of
             None \<Rightarrow> (fail 401 ''unauthorized'', s)
           | Some acct \<Rightarrow> (Json 200 (JAccount acct), s))"

definition currentSettings :: "Server \<Rightarrow> Settings" where
  "currentSettings s =
     (case sv_settings s of
        Some st \<Rightarrow> Settings_Get st
      | None \<Rightarrow> \<lparr>st_SiteName = ''Proxy Pool'', st_RegistrationEnabled = False, st_ThemeDefault = ''dark'',
                 st_HealthCheck = \<lparr>hc_IntervalSeconds = 0, hc_TimeoutMs = 0, hc_Concurrency = 0, hc_CheckURL = [],
                   hc_CheckURLs = [], hc_MaxFails = 0, hc_RebuildIntervalMs = 0\<rparr>\<rparr>)"

definition handleSite :: "Server \<Rightarrow> Reply \<times> Server" where
  "handleSite s =
     (let st = currentSettings s
      in (Json 200 (JSite (st_SiteName st) (st_RegistrationEnabled st) (st_ThemeDefault st)), s))"

definition register_account :: "string \<Rightarrow> string \<Rightarrow> AccountCfg" where
  "register_account name password =
     \<lparr>ac_Name = name, ac_Password = password, ac_Token = [], ac_Role = ''user'', ac_Enabled = True, ac_Groups = None\<rparr>"

definition handleRegister :: "io \<Rightarrow> Ctx \<Rightarrow> Server \<Rightarrow> Reply \<times> Server" where
  "handleRegister w c s =
     (if no_auth s then (fail 403 ''registration not available'', s)
      else if \<not> st_RegistrationEnabled (currentSettings s) then (fail 403 ''registration is disabled'', s)
      else case bd_login (cx_Body c) of
             None \<Rightarrow> (fail 400 ''invalid body'', s)
           | Some (rawName, password) \<Rightarrow>
              let name = trim_space rawName
              in if name = [] \<or> length name < 3 then (fail 400 ''username must be at least 3 characters'', s)
                 else if length password < 6 then (fail 400 ''password must be at least 6 characters'', s)
                 else if name = ''admin'' then (fail 400 ''username is reserved'', s)
                 else
                   (case AddAccount (io_sha w) (io_salt w) (io_tok w) (io_w w) (register_account name password) (the (sv_auth s)) of
                      (Some e, a) \<Rightarrow> (refuse (OfAuth e), s\<lparr>sv_auth := Some a\<rparr>)
                    | (None, a) \<Rightarrow>
                       (case Login (io_sha w) (io_salt2 w) (io_w2 w) name password a of
                          (None, a) \<Rightarrow> (Json 200 (JRegistered name), s\<lparr>sv_auth := Some a\<rparr>)
                        | (Some i, a) \<Rightarrow>
                           (Json 200 (JToken (at_Token (am_heap a ! i)) (am_heap a ! i)), s\<lparr>sv_auth := Some a\<rparr>))))"

definition with_auth :: "(AuthManager \<Rightarrow> Reply \<times> AuthManager) \<Rightarrow> Server \<Rightarrow> Reply \<times> Server" where
  "with_auth f s =
     (case sv_auth s of
        None \<Rightarrow> (fail 503 ''auth not configured'', s)
      | Some a \<Rightarrow> let (r, a) = f a in (r, s\<lparr>sv_auth := Some a\<rparr>))"

definition auth_reply :: "auth_error option \<times> AuthManager \<Rightarrow> Reply \<times> AuthManager" where
  "auth_reply r = (case r of (Some e, a) \<Rightarrow> (refuse (OfAuth e), a) | (None, a) \<Rightarrow> (ok_reply, a))"

definition handleListAccounts :: "io \<Rightarrow> Server \<Rightarrow> Reply \<times> Server" where
  "handleListAccounts w s = with_auth (\<lambda>a. (Json 200 (JAccounts (List_accounts (io_rng w) a)), a)) s"

definition handleAddAccount :: "io \<Rightarrow> Ctx \<Rightarrow> Server \<Rightarrow> Reply \<times> Server" where
  "handleAddAccount w c s =
     with_auth (\<lambda>a.
       case bd_account (cx_Body c) of
         None \<Rightarrow> (fail 400 ''invalid body'', a)
       | Some req \<Rightarrow>
          let req = (case bd_raw_enabled (cx_Body c) of
                       None \<Rightarrow> req
                     | Some (Some v) \<Rightarrow> req\<lparr>ac_Enabled := v\<rparr>
                     | Some None \<Rightarrow> req\<lparr>ac_Enabled := True\<rparr>)
          in auth_reply (AddAccount (io_sha w) (io_salt w) (io_tok w) (io_w w) req a)) s"

definition handleRemoveAccount :: "io \<Rightarrow> Ctx \<Rightarrow> Server \<Rightarrow> Reply \<times> Server" where
  "handleRemoveAccount w c s = with_auth (\<lambda>a. auth_reply (RemoveAccount (io_w w) (query ''name'' c) a)) s"

definition handleUpdateAccount :: "io \<Rightarrow> Ctx \<Rightarrow> Server \<Rightarrow> Reply \<times> Server" where
  "handleUpdateAccount w c s =
     with_auth (\<lambda>a.
       let name = fst (cut0 (CHR ''/'') (trim_prefix (cx_Path c) ''/api/v1/admin/accounts/''))
       in if name = [] then (fail 400 ''account name required'', a)
          else case bd_account (cx_Body c) of
                 None \<Rightarrow> (fail 400 ''invalid body'', a)
               | Some req \<Rightarrow> auth_reply (UpdateAccount (io_sha w) (io_salt w) (io_w w) (io_w2 w) name req a)) s"

subsection \<open>Settings and usage\<close>

definition handleGetSettings :: "Server \<Rightarrow> Reply \<times> Server" where
  "handleGetSettings s =
     (case sv_settings s of
        None \<Rightarrow> (fail 503 ''settings store not configured'', s)
      | Some st \<Rightarrow> (Json 200 (JSettings (Settings_Get st)), s))"

definition handleUpdateSettings :: "io \<Rightarrow> Ctx \<Rightarrow> Server \<Rightarrow> Reply \<times> Server" where
  "handleUpdateSettings w c s =
     (case sv_settings s of
        None \<Rightarrow> (fail 503 ''settings store not configured'', s)
      | Some st \<Rightarrow>
         (case bd_settings (cx_Body c) of
            Inl e \<Rightarrow> (fail 400 (''invalid body: '' @ e), s)
          | Inr cfg \<Rightarrow>
             (case Settings_Update (io_cfgw w) cfg st of
                (Some e, st) \<Rightarrow> (refuse (OfSettings e), s\<lparr>sv_settings := Some st\<rparr>)
              | (None, st) \<Rightarrow> (ok_reply, s\<lparr>sv_settings := Some st\<rparr>))))"

definition handleUsage :: "io \<Rightarrow> Ctx \<Rightarrow> Server \<Rightarrow> Reply \<times> Server" where
  "handleUsage w c s =
     (case sv_usage s of
        None \<Rightarrow> (fail 503 ''usage recording not configured'', s)
      | Some calls \<Rightarrow>
         let account = query ''account'' c; from = atoi_lax (query ''from'' c); to = atoi_lax (query ''to'' c)
         in if account \<noteq> [] then
              (case io_count w calls account from to of
                 Inl e \<Rightarrow> (Json 500 (JErr (OfUsage e)), s)
               | Inr n \<Rightarrow> (Json 200 (JUsage account n), s))
            else
              (case io_summary w calls from to of
                 Inl e \<Rightarrow> (Json 500 (JErr (OfUsage e)), s)
               | Inr xs \<Rightarrow> (Json 200 (JUsages xs), s)))"

subsection \<open>Groups\<close>

text \<open>The tiers shown while the pool has no snapshot of the groups.\<close>

definition unbuilt_stat :: "GroupCfg \<Rightarrow> GroupStat" where
  "unbuilt_stat g =
     \<lparr>gt_Group = gc_Name g, gt_Type = gc_Type g,
      gt_Tiers = \<lparr>ts_Name = ''primary'', ts_AliveTotal = 0, ts_AliveCount = 0, ts_MinRatio = gc_MinAliveRatio g, ts_Usable = False\<rparr> #
        map (\<lambda>b. \<lparr>ts_Name = bk_Name b, ts_AliveTotal = 0, ts_AliveCount = 0, ts_MinRatio = bk_MinAliveRatio b, ts_Usable = False\<rparr>)
          (gc_Backups g)\<rparr>"

definition handleListGroups :: "Caller \<Rightarrow> Server \<Rightarrow> Reply \<times> Server" where
  "handleListGroups u s =
     (let stats = GroupStats (sv_pool s);
          visible = filter (groupVisible u) (sv_groups s);
          cfgMap = fold (\<lambda>g. mput (gc_Name g) g) visible []
      in if length stats = 0 \<and> length cfgMap > 0 then (Json 200 (JGroups (map (\<lambda>g. (unbuilt_stat g, g)) visible)), s)
         else (Json 200 (JGroups (List.map_filter (\<lambda>g. map_option (Pair g) (mget cfgMap (gt_Group g))) stats)), s))"

text \<open>The checks of the entries of a weight map, in the order of the range.\<close>

fun weight_loop :: "(string \<Rightarrow> group_error) \<Rightarrow> (string \<Rightarrow> group_error) \<Rightarrow> string list \<Rightarrow> (string \<times> int) list \<Rightarrow> group_error option" where
  "weight_loop low foreign allowed [] = None"
| "weight_loop low foreign allowed ((pn, wt) # rest) =
     (if wt < 1 then Some (low pn)
      else if pn \<notin> set allowed then Some (foreign pn)
      else weight_loop low foreign allowed rest)"

fun backups_loop :: "string list \<Rightarrow> BackupPool list \<Rightarrow> string list \<Rightarrow> group_error + string list" where
  "backups_loop known [] acc = Inr acc"
| "backups_loop known (b # bs) acc =
     (if bk_MinAliveRatio b < 0 \<or> bk_MinAliveRatio b > 1 then Inl BackupRatioRange
      else case find (\<lambda>pn. pn \<notin> set known) (bk_Providers b) of
             Some pn \<Rightarrow> Inl (BackupUnknown pn)
           | None \<Rightarrow> backups_loop known bs (acc @ bk_Providers b))"

definition weight_sum :: "(string, int) gomap \<Rightarrow> int" where
  "weight_sum m = fold (\<lambda>(pn, wt) acc. i64 (acc + wt)) m 0"

definition validateGroup :: "io \<Rightarrow> string list \<Rightarrow> GroupCfg \<Rightarrow> group_error option" where
  "validateGroup w known g =
     (if gc_Name g = [] then Some GroupNameRequired
      else if gc_MinAliveRatio g < 0 \<or> gc_MinAliveRatio g > 1 then Some GroupRatioRange
      else if (gc_Username g = []) \<noteq> (gc_Password g = []) then Some CredentialsPair
      else case find (\<lambda>r. \<not> validRegion r) (gc_Regions g) of
             Some r \<Rightarrow> Some (RegionInvalid r)
           | None \<Rightarrow>
              if length (gc_Primary g) = 0 then Some PrimaryRequired
              else case find (\<lambda>pn. pn \<notin> set known) (gc_Primary g) of
                     Some pn \<Rightarrow> Some (PrimaryUnknown pn)
                   | None \<Rightarrow>
                      (case weight_loop PrimaryWeightLow PrimaryWeightForeign (gc_Primary g) (fst (range_order (gc_PrimaryWeights g) (io_rng w))) of
                         Some e \<Rightarrow> Some e
                       | None \<Rightarrow>
                          if length (gc_PrimaryWeights g) = length (gc_Primary g) \<and> weight_sum (gc_PrimaryWeights g) \<noteq> 100 then Some PrimarySum
                          else case backups_loop known (gc_Backups g) [] of
                                 Inl e \<Rightarrow> Some e
                               | Inr bps \<Rightarrow>
                                  (case weight_loop BackupWeightLow BackupWeightForeign bps (fst (range_order (gc_BackupWeights g) (io_rng w))) of
                                     Some e \<Rightarrow> Some e
                                   | None \<Rightarrow>
                                      if length (gc_BackupWeights g) = length (remdups bps) \<and> length (remdups bps) > 0 \<and>
                                         weight_sum (gc_BackupWeights g) \<noteq> 100 then Some BackupSum
                                      else None)))"

definition applyGroups :: "io \<Rightarrow> Server \<Rightarrow> Server go" where
  "applyGroups w s =
     bindE (SetGroups (sv_groups s) (sv_pool s)) (\<lambda>p.
       let s = set_pool p s;
           s = s\<lparr>sv_gateway := map_option (Gateway_Rebuild (Some (GroupList s))) (sv_gateway s)\<rparr>
       in Inr (if sv_db s \<noteq> None then s\<lparr>sv_db := fst (ReplaceGroups (io_w w) (sv_groups s) (sv_db s))\<rparr> else s))"

text \<open>Validation lists the providers, which draws on the random stream of the pool (here also when an earlier check
  already refuses the group; the stream is arbitrary).\<close>

definition validate_then :: "io \<Rightarrow> GroupCfg \<Rightarrow> (Server \<Rightarrow> (Reply \<times> Server) go) \<Rightarrow> Server \<Rightarrow> (Reply \<times> Server) go" where
  "validate_then w g f s =
     (let (list, m) = ProviderList (io_rng w) (sv_mgr s)
      in case validateGroup w (map pi_Name list) g of
           Some e \<Rightarrow> Inr (refuse (OfGroup e), s\<lparr>sv_mgr := m\<rparr>)
         | None \<Rightarrow> f (s\<lparr>sv_mgr := m\<rparr>))"

definition handleAddGroup :: "io \<Rightarrow> Ctx \<Rightarrow> Caller \<Rightarrow> Server \<Rightarrow> (Reply \<times> Server) go" where
  "handleAddGroup w c u s =
     (case bd_group (cx_Body c) of
        Inl e \<Rightarrow> Inr (fail 400 (''invalid body: '' @ e), s)
      | Inr g \<Rightarrow>
         let g = (if \<not> isAdminUser u then g\<lparr>gc_Owner := cl_account u\<rparr> else g)
         in validate_then w g (\<lambda>s.
              if list_ex (\<lambda>existing. gc_Name existing = gc_Name g) (sv_groups s)
              then Inr (fail 400 (''group already exists: '' @ gc_Name g), s)
              else bindE (applyGroups w (s\<lparr>sv_groups := sv_groups s @ [g]\<rparr>)) (\<lambda>s. Inr (ok_reply, s))) s)"

fun replace_group :: "string \<Rightarrow> GroupCfg \<Rightarrow> GroupCfg list \<Rightarrow> GroupCfg list option" where
  "replace_group name g [] = None"
| "replace_group name g (x # xs) = (if gc_Name x = name then Some (g # xs) else map_option (Cons x) (replace_group name g xs))"

fun remove_group :: "string \<Rightarrow> GroupCfg list \<Rightarrow> GroupCfg list option" where
  "remove_group name [] = None"
| "remove_group name (x # xs) = (if gc_Name x = name then Some xs else map_option (Cons x) (remove_group name xs))"

definition groupNameFromPath :: "Ctx \<Rightarrow> string" where
  "groupNameFromPath c = trim_suffix (trim_prefix (cx_Path c) ''/api/v1/admin/groups/'') ''/''"

definition handleUpdateGroup :: "io \<Rightarrow> Ctx \<Rightarrow> Caller \<Rightarrow> Server \<Rightarrow> (Reply \<times> Server) go" where
  "handleUpdateGroup w c u s =
     (let name = groupNameFromPath c
      in if name = [] then Inr (fail 400 ''name required'', s)
         else case requireOwnedGroup u name s of
                Inl e \<Rightarrow> Inr (e, s)
              | Inr _ \<Rightarrow>
                 (case bd_group (cx_Body c) of
                    Inl e \<Rightarrow> Inr (fail 400 (''invalid body: '' @ e), s)
                  | Inr g \<Rightarrow>
                     let g = g\<lparr>gc_Name := name\<rparr>;
                         g = (if \<not> isAdminUser u then g\<lparr>gc_Owner := cl_account u\<rparr> else g)
                     in validate_then w g (\<lambda>s.
                          case replace_group name g (sv_groups s) of
                            None \<Rightarrow> Inr (fail 404 (''group not found: '' @ name), s)
                          | Some gs \<Rightarrow> bindE (applyGroups w (s\<lparr>sv_groups := gs\<rparr>)) (\<lambda>s. Inr (ok_reply, s))) s))"

definition handleRemoveGroup :: "io \<Rightarrow> Ctx \<Rightarrow> Caller \<Rightarrow> Server \<Rightarrow> (Reply \<times> Server) go" where
  "handleRemoveGroup w c u s =
     (let name = query ''name'' c
      in if name = [] then Inr (fail 400 ''name required'', s)
         else case requireOwnedGroup u name s of
                Inl e \<Rightarrow> Inr (e, s)
              | Inr _ \<Rightarrow>
                 (case remove_group name (sv_groups s) of
                    None \<Rightarrow> Inr (fail 404 (''group not found: '' @ name), s)
                  | Some gs \<Rightarrow> bindE (applyGroups w (s\<lparr>sv_groups := gs\<rparr>)) (\<lambda>s. Inr (ok_reply, s))))"

subsection \<open>The path-based gateway endpoint\<close>

definition handleGatewayProxy :: "io \<Rightarrow> Ctx \<Rightarrow> Server \<Rightarrow> (Reply \<times> Server) go" where
  "handleGatewayProxy w c s =
     (case sv_gateway s of
        None \<Rightarrow> Inr (fail 503 ''gateway not configured'', s)
      | Some g \<Rightarrow>
         (case basicCredentials c of
            None \<Rightarrow> Inr (AskProxyAuth, s)
          | Some (user, pass) \<Rightarrow>
             let grp = LookupGroup user pass g; target = query ''url'' c
             in if grp = [] then Inr (AskProxyAuth, s)
                else if target = [] then Inr (fail 400 ''url query parameter required'', s)
                else case url_parse target of
                       None \<Rightarrow> Inr (fail 400 ''invalid url'', s)
                     | Some u \<Rightarrow>
                        if u_Scheme u \<noteq> ''http'' \<and> u_Scheme u \<noteq> ''https'' then Inr (fail 400 ''invalid url'', s)
                        else
                          bindE (ForwardPlain target (u_Host u) grp (io_hop w) (g\<lparr>gw_pool := sv_pool s\<rparr>)) (\<lambda>(r, g).
                            let s = set_pool (gw_pool g) (s\<lparr>sv_gateway := Some g\<rparr>)
                            in case r of
                                 Inl e \<Rightarrow> Inr (Json 502 (JErr (OfForward e)), s)
                               | Inr resp \<Rightarrow>
                                  Inr (Relayed (rs_Status resp)
                                         (filter (\<lambda>(k, vv). \<not> equal_fold k ''Content-Length'') (rs_Header resp)) (rs_Body resp), s))))"

subsection \<open>Routing\<close>

text \<open>A request that looks like one of a forward proxy goes to the gateway.\<close>

definition gateway_request :: "Ctx \<Rightarrow> Req" where
  "gateway_request c =
     \<lparr>rq_Method = cx_Method c, rq_URL = cx_URI c, rq_Path = cx_Path c, rq_Host = h_get ''Host'' (cx_Header c),
      rq_Header = cx_Header c, rq_Body = cx_PostBody c\<rparr>"

definition gwHandler :: "io \<Rightarrow> Ctx \<Rightarrow> Gateway \<Rightarrow> Server \<Rightarrow> (Reply \<times> Server) go" where
  "gwHandler w c g s =
     bindE (ServeHTTP (Some (GroupList s)) (gateway_request c) (io_net w) \<lparr>w_Header = [], w_Status = 200, w_Body = [], w_Raw = None\<rparr>
              (g\<lparr>gw_pool := sv_pool s\<rparr>)) (\<lambda>(wr, g).
       Inr (Proxied wr, set_pool (gw_pool g) (s\<lparr>sv_gateway := Some g\<rparr>)))"

definition html_page :: "string \<Rightarrow> Ctx \<Rightarrow> Server \<Rightarrow> Reply \<times> Server" where
  "html_page file c s = (if cx_Method c = ''GET'' then (Page file, s) else (Text 405 ''method not allowed'', s))"

definition notFound :: "Server \<Rightarrow> Reply \<times> Server" where
  "notFound s = (Text 404 ''not found'', s)"

text \<open>The table of routes: method, path and what the handler does. The three entries with \<^verbatim>\<open>{name}\<close> in the path
  are left out: such a path is dispatched by its prefix before the table is consulted.\<close>

definition routes :: "io \<Rightarrow> Ctx \<Rightarrow> Caller \<Rightarrow> Server \<Rightarrow> (string \<times> string \<times> (Reply \<times> Server) go option) list" where
  "routes w c u s =
     [(''GET'', ''/api/v1/proxy'', Some (handleGetProxy w c u s)),
      (''GET'', ''/api/v1/proxies'', Some (handleGetProxies w c u s)),
      (''GET'', ''/api/v1/status'', Some (Inr (handleStatus w s))),
      (''POST'', ''/api/v1/feedback'', Some (handleFeedback w c s)),
      (''GET'', ''/healthz'', Some (Inr (handleHealthz s))),
      (''POST'', ''/api/v1/auth/login'', Some (Inr (handleLogin w c s))),
      (''GET'', ''/api/v1/auth/me'', Some (Inr (handleMe u s))),
      (''GET'', ''/api/v1/admin/settings'', Some (Inr (handleGetSettings s))),
      (''PUT'', ''/api/v1/admin/settings'', Some (Inr (handleUpdateSettings w c s))),
      (''GET'', ''/api/v1/admin/providers'', Some (Inr (handleListProviders w u s))),
      (''POST'', ''/api/v1/admin/providers'', Some (handleAddProvider w c u s)),
      (''DELETE'', ''/api/v1/admin/providers'', Some (handleRemoveProvider w c u s)),
      (''GET'', ''/api/v1/admin/proxies'', Some (Inr (handleListProxies s))),
      (''POST'', ''/api/v1/admin/health/check'', handleHealthCheck w s),
      (''GET'', ''/api/v1/admin/groups'', Some (Inr (handleListGroups u s))),
      (''POST'', ''/api/v1/admin/groups'', Some (handleAddGroup w c u s)),
      (''DELETE'', ''/api/v1/admin/groups'', Some (handleRemoveGroup w c u s)),
      (''GET'', ''/api/v1/admin/accounts'', Some (Inr (handleListAccounts w s))),
      (''POST'', ''/api/v1/admin/accounts'', Some (Inr (handleAddAccount w c s))),
      (''DELETE'', ''/api/v1/admin/accounts'', Some (Inr (handleRemoveAccount w c s))),
      (''GET'', ''/api/v1/admin/usage'', Some (Inr (handleUsage w c s))),
      (''GET'', ''/api/v1/admin/alerts'', Some (Inr (handleGetAlerts s))),
      (''POST'', ''/api/v1/admin/alerts/webhooks'', Some (Inr (handleAddWebhook w c s))),
      (''PUT'', ''/api/v1/admin/alerts/webhooks'', Some (Inr (handleUpdateWebhook w c s))),
      (''DELETE'', ''/api/v1/admin/alerts/webhooks'', Some (Inr (handleRemoveWebhook w c s))),
      (''POST'', ''/api/v1/admin/alerts/email'', Some (Inr (handleUpdateEmail w c s))),
      (''POST'', ''/api/v1/admin/alerts/dedup'', Some (Inr (handleUpdateDedup w c s))),
      (''POST'', ''/api/v1/admin/alerts/monitor'', Some (Inr (handleUpdateMonitor w c s))),
      (''POST'', ''/api/v1/admin/alerts/recover'', Some (Inr (handleUpdateRecover w c s)))]"

definition route :: "io \<Rightarrow> Ctx \<Rightarrow> Caller \<Rightarrow> Server \<Rightarrow> (Reply \<times> Server) go option" where
  "route w c u s =
     (case find (\<lambda>(m, p, h). m = cx_Method c \<and> p = cx_Path c) (routes w c u s) of
        Some (m, p, h) \<Rightarrow> h
      | None \<Rightarrow> Some (Inr (notFound s)))"

text \<open>The part of the handler after authorization.\<close>

definition dispatch :: "io \<Rightarrow> Ctx \<Rightarrow> Caller \<Rightarrow> Server \<Rightarrow> (Reply \<times> Server) go option" where
  "dispatch w c u s =
     (let m = cx_Method c; p = cx_Path c
      in if has_prefix p ''/api/v1/admin/providers/'' then
           (case handleProviderAction w c u s of
              Some r \<Rightarrow> Some r
            | None \<Rightarrow>
               if m = ''PUT'' then Some (handleUpdateProvider w c u s)
               else if m = ''DELETE'' then Some (handleRemoveProviderByName w c u s)
               else Some (Inr (notFound s)))
         else if has_prefix p ''/api/v1/admin/groups/'' \<and> m = ''PUT'' then Some (handleUpdateGroup w c u s)
         else if has_prefix p ''/api/v1/admin/accounts/'' \<and> m = ''PUT'' then Some (Inr (handleUpdateAccount w c s))
         else if m = ''DELETE'' \<and> has_prefix p ''/api/v1/admin/proxies/'' then Some (handleRemoveProxy c s)
         else route w c u s)"

text \<open>Which accounts a path is open to: administrators only, any account, or everybody.\<close>

definition admin_path :: "string \<Rightarrow> bool" where
  "admin_path p \<longleftrightarrow> has_prefix p ''/api/v1/admin/'' \<and>
     \<not> has_prefix p ''/api/v1/admin/providers'' \<and> \<not> has_prefix p ''/api/v1/admin/groups''"

definition Handler :: "io \<Rightarrow> Ctx \<Rightarrow> Server \<Rightarrow> (Reply \<times> Server) go option" where
  "Handler w c s =
     (let m = cx_Method c; p = cx_Path c
      in if isProxyRequest c \<and> sv_gateway s \<noteq> None then Some (gwHandler w c (the (sv_gateway s)) s)
         else if p = ''/'' \<or> p = ''/index.html'' then Some (Inr (html_page ''web/index.html'' c s))
         else if p = ''/login'' then Some (Inr (html_page ''web/login.html'' c s))
         else if p = ''/register'' then Some (Inr (html_page ''web/register.html'' c s))
         else if m = ''POST'' \<and> p = ''/api/v1/auth/login'' then Some (Inr (handleLogin w c s))
         else if m = ''POST'' \<and> p = ''/api/v1/auth/register'' then Some (Inr (handleRegister w c s))
         else if m = ''GET'' \<and> p = ''/api/v1/site'' then Some (Inr (handleSite s))
         else if m = ''POST'' \<and> has_prefix p ''/api/v1/proxy/'' \<and> has_suffix p ''/report'' then
           (case authorize c False s of Inl e \<Rightarrow> Some (Inr (e, s)) | Inr u \<Rightarrow> Some (handleReport w c s))
         else if p = ''/api/v1/gw'' then Some (handleGatewayProxy w c s)
         else if has_prefix p ''/api/v1/'' then
           (case authorize c (admin_path p) s of Inl e \<Rightarrow> Some (Inr (e, s)) | Inr u \<Rightarrow> dispatch w c u s)
         else dispatch w c nobody s)"

end
