(* ===== verification/Server_Safety.thy ===== *)
theory Server_Safety
  imports Server_Admin Manager_Props Pool_Room
begin

section \<open>What a request can change\<close>

text \<open>
  Frame lemmas for the handlers: which provider configurations and which groups a request touches. They
  carry the properties on ownership and on the groups.
\<close>

subsection \<open>Provider configurations\<close>

text \<open>The configuration of a provider, if it does not belong to the account.\<close>

definition foreign :: "string \<Rightarrow> Manager \<Rightarrow> string \<rightharpoonup> ProviderCfg" where
  "foreign acct m n = (case ProviderConfig n m of Some c \<Rightarrow> if pc_Owner c \<noteq> acct then Some c else None | None \<Rightarrow> None)"

definition only_own :: "string \<Rightarrow> Manager \<Rightarrow> Manager \<Rightarrow> bool" where
  "only_own acct m m' \<longleftrightarrow> (\<forall>n. foreign acct m' n = foreign acct m n)"

lemma only_own_provs: "mg_provs m' = mg_provs m \<Longrightarrow> only_own acct m m'"
  by (simp add: only_own_def foreign_def ProviderConfig_def)

lemma only_own_refl [simp]: "only_own acct m m"
  by (simp add: only_own_def)

lemma only_own_put:
  assumes "mg_provs m' = mput name mp (mg_provs m)" "pc_Owner (mp_cfg mp) = acct"
    and "\<forall>mp. mget (mg_provs m) name = Some mp \<longrightarrow> pc_Owner (mp_cfg mp) = acct"
  shows "only_own acct m m'"
  using assms by (auto simp: only_own_def foreign_def ProviderConfig_def split: option.split)

lemma only_own_same_cfg:
  assumes "mg_provs m' = mput name mp' (mg_provs m)" "mget (mg_provs m) name = Some mp" "mp_cfg mp' = mp_cfg mp"
  shows "only_own acct m m'"
  using assms by (auto simp: only_own_def foreign_def ProviderConfig_def split: option.split)

lemma only_own_del:
  assumes "mg_provs m' = mdel name (mg_provs m)"
    and "\<forall>mp. mget (mg_provs m) name = Some mp \<longrightarrow> pc_Owner (mp_cfg mp) = acct"
  shows "only_own acct m m'"
  using assms by (auto simp: only_own_def foreign_def ProviderConfig_def split: option.split)

text \<open>An operation of the manager on a provider of the account.\<close>

definition owns :: "string \<Rightarrow> string \<Rightarrow> Manager \<Rightarrow> bool" where
  "owns acct name m \<longleftrightarrow> (\<forall>mp. mget (mg_provs m) name = Some mp \<longrightarrow> pc_Owner (mp_cfg mp) = acct)"

lemma AddProvider_own:
  assumes "AddProvider ev w cfg m = Inr (e, m')" "pc_Owner cfg = acct" shows "only_own acct m m'"
proof (cases "mg_provs m' = mg_provs m")
  case False
  then obtain pv where pv: "New_provider cfg = Inr pv"
    using assms(1) by (cases "New_provider cfg") (auto simp: AddProvider_def split: if_splits)
  have "mget (mg_provs m) (pc_Name cfg) = None" "\<exists>mp. mg_provs m' = mput (pc_Name cfg) mp (mg_provs m) \<and> mp_cfg mp = cfg"
    using assms(1) False pv
    by (auto simp: AddProvider_def Let_def bindE_Inr_iff new_managed_def split: if_splits, auto split: sum.splits simp: bindE_Inr_iff)
  then show ?thesis using assms(2) by (auto intro: only_own_put)
qed (rule only_own_provs)

lemma RemoveProvider_own:
  assumes "RemoveProvider w name m = Inr (e, m')" "owns acct name m" shows "only_own acct m m'"
proof (cases "mg_provs m' = mg_provs m")
  case False
  then have "mg_provs m' = mdel name (mg_provs m)"
    using assms(1) by (auto simp: RemoveProvider_def Let_def bindE_Inr_iff split: if_splits option.splits)
  then show ?thesis using assms(2) by (auto simp: owns_def intro: only_own_del)
qed (rule only_own_provs)

lemma UpdateProvider_own:
  assumes "UpdateProvider ev w name cfg m = Inr (e, m')" "owns acct name m" "pc_Owner cfg = acct" shows "only_own acct m m'"
proof (cases "mg_provs m' = mg_provs m")
  case False
  then obtain pv where pv: "New_provider (cfg\<lparr>pc_Name := name\<rparr>) = Inr pv"
    using assms(1) by (cases "New_provider (cfg\<lparr>pc_Name := name\<rparr>)") (auto simp: UpdateProvider_def Let_def split: if_splits)
  have "\<exists>mp. mg_provs m' = mput name mp (mg_provs m) \<and> mp_cfg mp = cfg\<lparr>pc_Name := name\<rparr>"
    using assms(1) False pv
    by (auto simp: UpdateProvider_def Let_def bindE_Inr_iff split: if_splits option.splits, auto split: sum.splits simp: bindE_Inr_iff)
  then show ?thesis using assms(2,3) by (auto simp: owns_def intro: only_own_put)
qed (rule only_own_provs)

lemma set_own:
  assumes "mg_provs m' = mg_provs m \<or> (\<exists>mp mp'. mget (mg_provs m) name = Some mp \<and> mg_provs m' = mput name mp' (mg_provs m) \<and>
      pc_Owner (mp_cfg mp') = pc_Owner (mp_cfg mp))" "owns acct name m"
  shows "only_own acct m m'"
  using assms by (auto simp: owns_def intro: only_own_provs only_own_put)

lemma SetProviderEnabled_own:
  assumes "SetProviderEnabled ev w name b m = Inr (e, m')" "owns acct name m" shows "only_own acct m m'"
  using assms(1) by (intro set_own [OF _ assms(2)])
    (auto simp: SetProviderEnabled_def Let_def bindE_Inr_iff split: if_splits option.splits, auto split: sum.splits simp: bindE_Inr_iff)

lemma SetProviderPublic_own:
  assumes "SetProviderPublic w name b m = (e, m')" "owns acct name m" shows "only_own acct m m'"
  using assms(1) by (intro set_own [OF _ assms(2)]) (auto simp: SetProviderPublic_def Let_def split: if_splits option.splits)

lemma SetProviderWeight_own:
  assumes "SetProviderWeight w name v m = Inr (e, m')" "owns acct name m" shows "only_own acct m m'"
  using assms(1) by (intro set_own [OF _ assms(2)])
    (auto simp: SetProviderWeight_def Let_def bindE_Inr_iff split: if_splits option.splits prod.splits)

lemma SetProviderPriority_own:
  assumes "SetProviderPriority w name v r m = Inr (e, m')" "owns acct name m" shows "only_own acct m m'"
  using assms(1) by (intro set_own [OF _ assms(2)])
    (auto simp: SetProviderPriority_def Let_def bindE_Inr_iff split: if_splits option.splits prod.splits)

lemma RefreshProvider_own:
  assumes "RefreshProvider ev name m = Inr (e, m')" "owns acct name m" shows "only_own acct m m'"
  using assms(1) by (intro set_own [OF _ assms(2)])
    (auto simp: RefreshProvider_def Let_def bindE_Inr_iff split: option.splits, auto split: sum.splits option.splits simp: bindE_Inr_iff)

subsection \<open>Requests\<close>

definition safe_for :: "string \<Rightarrow> Server \<Rightarrow> Server \<Rightarrow> bool" where
  "safe_for acct s s' \<longleftrightarrow> only_own acct (sv_mgr s) (sv_mgr s') \<and>
     filter (\<lambda>g. gc_Owner g \<noteq> acct) (sv_groups s') = filter (\<lambda>g. gc_Owner g \<noteq> acct) (sv_groups s)"

text \<open>A request that changes neither the provider registry nor the groups.\<close>

definition still :: "Server \<Rightarrow> Server \<Rightarrow> bool" where
  "still s s' \<longleftrightarrow> mg_provs (sv_mgr s') = mg_provs (sv_mgr s) \<and> sv_groups s' = sv_groups s"

lemma still_safe: "still s s' \<Longrightarrow> safe_for acct s s'"
  by (simp add: still_def safe_for_def only_own_provs)

lemma still_refl [simp]: "still s s"
  by (simp add: still_def)

lemma still_simps [simp]:
  "still s (set_pool p s') = still s s'" "still s (recordCall a g pv i ad s') = still s s'" "still s (emitPoolExhausted s') = still s s'"
  "still s (triggerHealthCheck s') = still s s'" "still s (s'\<lparr>sv_alerts := d\<rparr>) = still s s'" "still s (s'\<lparr>sv_auth := au\<rparr>) = still s s'"
  "still s (s'\<lparr>sv_settings := st\<rparr>) = still s s'" "still s (s'\<lparr>sv_gateway := gw\<rparr>) = still s s'" "still s (s'\<lparr>sv_checker := ck\<rparr>) = still s s'"
  by (simp_all add: still_def set_pool_def recordCall_def emitPoolExhausted_def triggerHealthCheck_def split: option.split)

lemma ProviderList_provs [simp]: "mg_provs (snd (ProviderList r m)) = mg_provs m"
  by (simp add: ProviderList_def Let_def case_prod_unfold)

lemma providers_still [simp]:
  "ProviderList r (sv_mgr s) = (l, m) \<Longrightarrow> still t (s\<lparr>sv_mgr := m\<rparr>) = still t s"
  using ProviderList_provs [of r "sv_mgr s"] by (simp add: still_def)

lemma still_get: "handleGetProxy w c u s = Inr (r, s') \<Longrightarrow> still s s'" "handleGetProxies w c u s = Inr (r, s') \<Longrightarrow> still s s'"
  by (auto simp: handleGetProxy_def handleGetProxies_def no_proxy_def Let_def bindE_Inr_iff split: if_splits option.splits)

lemma still_mark: "mark w i b l s = Inr (r, s') \<Longrightarrow> still s s'"
  by (auto simp: mark_def bindE_Inr_iff)

lemma still_reports: "handleReport w c s = Inr (r, s') \<Longrightarrow> still s s'" "handleFeedback w c s = Inr (r, s') \<Longrightarrow> still s s'"
  using still_mark by (auto simp: handleReport_def handleFeedback_def Let_def split: if_splits option.splits)

lemma still_status: "handleStatus w s = (r, s') \<Longrightarrow> still s s'"
  by (auto simp: handleStatus_def providerStats_def Let_def case_prod_unfold still_def)

lemma still_lists:
  "handleListProviders w u s = (r, s') \<Longrightarrow> still s s'" "handleListProxies s = (r, s') \<Longrightarrow> still s s'" "handleListGroups u s = (r, s') \<Longrightarrow> still s s'"
  by (auto simp: handleListProviders_def handleListProxies_def handleListGroups_def Let_def split: prod.splits if_splits)

lemma still_proxies: "handleRemoveProxy c s = Inr (r, s') \<Longrightarrow> still s s'" "handleHealthCheck w s = Some (Inr (r, s')) \<Longrightarrow> still s s'"
  by (auto simp: handleRemoveProxy_def handleHealthCheck_def Let_def bindE_Inr_iff split: if_splits option.splits)

lemma still_alerts:
  "handleGetAlerts s = (r, s') \<Longrightarrow> still s s'" "handleAddWebhook w c s = (r, s') \<Longrightarrow> still s s'" "handleUpdateWebhook w c s = (r, s') \<Longrightarrow> still s s'"
  "handleRemoveWebhook w c s = (r, s') \<Longrightarrow> still s s'" "handleUpdateEmail w c s = (r, s') \<Longrightarrow> still s s'"
  "handleUpdateDedup w c s = (r, s') \<Longrightarrow> still s s'" "handleUpdateMonitor w c s = (r, s') \<Longrightarrow> still s s'"
  "handleUpdateRecover w c s = (r, s') \<Longrightarrow> still s s'"
proof -
  have "with_alerts f s = (r, s') \<Longrightarrow> still s s'" for f by (auto simp: with_alerts_def split: option.splits prod.splits)
  then show "handleGetAlerts s = (r, s') \<Longrightarrow> still s s'" "handleAddWebhook w c s = (r, s') \<Longrightarrow> still s s'"
    "handleUpdateWebhook w c s = (r, s') \<Longrightarrow> still s s'" "handleRemoveWebhook w c s = (r, s') \<Longrightarrow> still s s'"
    "handleUpdateEmail w c s = (r, s') \<Longrightarrow> still s s'" "handleUpdateDedup w c s = (r, s') \<Longrightarrow> still s s'"
    "handleUpdateMonitor w c s = (r, s') \<Longrightarrow> still s s'" "handleUpdateRecover w c s = (r, s') \<Longrightarrow> still s s'"
    unfolding handleGetAlerts_def handleAddWebhook_def handleUpdateWebhook_def handleRemoveWebhook_def handleUpdateEmail_def
      handleUpdateDedup_def handleUpdateMonitor_def handleUpdateRecover_def by blast+
qed

lemma still_accounts:
  "handleListAccounts w s = (r, s') \<Longrightarrow> still s s'" "handleAddAccount w c s = (r, s') \<Longrightarrow> still s s'"
  "handleRemoveAccount w c s = (r, s') \<Longrightarrow> still s s'" "handleUpdateAccount w c s = (r, s') \<Longrightarrow> still s s'"
proof -
  have "with_auth f s = (r, s') \<Longrightarrow> still s s'" for f by (auto simp: with_auth_def split: option.splits prod.splits)
  then show "handleListAccounts w s = (r, s') \<Longrightarrow> still s s'" "handleAddAccount w c s = (r, s') \<Longrightarrow> still s s'"
    "handleRemoveAccount w c s = (r, s') \<Longrightarrow> still s s'" "handleUpdateAccount w c s = (r, s') \<Longrightarrow> still s s'"
    unfolding handleListAccounts_def handleAddAccount_def handleRemoveAccount_def handleUpdateAccount_def by blast+
qed

lemma still_login:
  "handleLogin w c s = (r, s') \<Longrightarrow> still s s'" "handleMe u s = (r, s') \<Longrightarrow> still s s'" "handleSite s = (r, s') \<Longrightarrow> still s s'"
  "handleRegister w c s = (r, s') \<Longrightarrow> still s s'" "handleGetSettings s = (r, s') \<Longrightarrow> still s s'"
  "handleUpdateSettings w c s = (r, s') \<Longrightarrow> still s s'" "handleUsage w c s = (r, s') \<Longrightarrow> still s s'"
  by (auto simp: handleLogin_def handleMe_def handleSite_def handleRegister_def handleGetSettings_def handleUpdateSettings_def
      handleUsage_def Let_def split: if_splits option.splits sum.splits prod.splits)

lemma still_gateway: "handleGatewayProxy w c s = Inr (r, s') \<Longrightarrow> still s s'" "gwHandler w c g s = Inr (r, s') \<Longrightarrow> still s s'"
  by (auto simp: handleGatewayProxy_def gwHandler_def Let_def bindE_Inr_iff split: if_splits option.splits, auto split: sum.splits)

lemma still_pages: "html_page f c s = (r, s') \<Longrightarrow> still s s'" "notFound s = (r, s') \<Longrightarrow> still s s'" "handleHealthz s = (r, s') \<Longrightarrow> still s s'"
  by (auto simp: html_page_def notFound_def handleHealthz_def split: if_splits)

lemmas stills = still_get still_reports still_status still_lists still_proxies still_alerts still_accounts still_login still_gateway still_pages

subsection \<open>Requests that change providers or groups\<close>

text \<open>A caller who is an ordinary account.\<close>

definition plain_user :: "string \<Rightarrow> Caller \<Rightarrow> bool" where
  "plain_user acct u \<longleftrightarrow> \<not> isAdminUser u \<and> cl_account u = acct \<and> acct \<noteq> []"

lemma mgr_reply_cases:
  assumes "mgr_reply b r s = Inr (x, s')"
  obtains e m where "r = Inr (e, m)" "sv_mgr s' = m" "sv_groups s' = sv_groups s" "sv_auth s' = sv_auth s"
  using assms by (auto simp: mgr_reply_def Let_def bindE_Inr_iff triggerHealthCheck_def split: option.splits if_splits)

lemma safe_mgr:
  assumes "mgr_reply b r s = Inr (x, s')" "\<And>e m. r = Inr (e, m) \<Longrightarrow> only_own acct (sv_mgr s) m"
  shows "safe_for acct s s'"
  using assms(1) by (rule mgr_reply_cases) (use assms(2) in \<open>auto simp: safe_for_def\<close>)

lemma owned_provider:
  assumes "plain_user acct u" "requireOwnedProvider u name s = Inr cfg" shows "owns acct name (sv_mgr s)"
  using assms by (auto simp: plain_user_def requireOwnedProvider_def providerWritable_def ProviderConfig_def owns_def split: option.splits if_splits)

lemma safe_providers:
  assumes u: "plain_user acct u"
  shows "handleAddProvider w c u s = Inr (r, s') \<Longrightarrow> safe_for acct s s'"
    "remove_owned w name u s = Inr (r, s') \<Longrightarrow> safe_for acct s s'"
    "handleUpdateProvider w c u s = Inr (r, s') \<Longrightarrow> safe_for acct s s'"
    "handleProviderAction w c u s = Some (Inr (r, s')) \<Longrightarrow> safe_for acct s s'"
proof -
  have na: "\<not> isAdminUser u" "cl_account u = acct" using u by (simp_all add: plain_user_def)
  have id: "safe_for acct s s" by (simp add: still_safe)
  show "safe_for acct s s'" if "handleAddProvider w c u s = Inr (r, s')"
    using that id safe_mgr AddProvider_own by (auto simp: handleAddProvider_def Let_def na split: sum.splits)
  show "safe_for acct s s'" if "remove_owned w name u s = Inr (r, s')"
    using that id safe_mgr RemoveProvider_own owned_provider [OF u, of name s] by (auto simp: remove_owned_def split: sum.splits)
  show "safe_for acct s s'" if "handleUpdateProvider w c u s = Inr (r, s')"
    using that id safe_mgr UpdateProvider_own owned_provider [OF u, of "name_from_path c" s]
    by (auto simp: handleUpdateProvider_def Let_def na split: sum.splits if_splits)
  show "safe_for acct s s'" if "handleProviderAction w c u s = Some (Inr (r, s'))"
  proof -
    let ?n = "split_on (CHR ''/'') (trim_prefix (cx_Path c) ''/api/v1/admin/providers/'') ! 0"
    have own: "owns acct ?n (sv_mgr s)" if "requireOwnedProvider u ?n s = Inr cfg" for cfg using owned_provider [OF u that] .
    show ?thesis
    proof (cases "requireOwnedProvider u ?n s")
      case (Inl e)
      then show ?thesis using that id by (auto simp: handleProviderAction_def Let_def split: if_splits)
    next
      case (Inr cfg)
      note o = own [OF Inr]
      show ?thesis using that id Inr
        by (auto simp: handleProviderAction_def Let_def split: if_splits option.splits prod.splits
            elim!: safe_mgr intro: SetProviderEnabled_own [OF _ o] SetProviderWeight_own [OF _ o] RefreshProvider_own [OF _ o]
              SetProviderPriority_own [OF _ o] SetProviderPublic_own [OF _ o])
    qed
  qed
qed

lemma applyGroups_frame:
  "applyGroups w s = Inr s' \<Longrightarrow> mg_provs (sv_mgr s') = mg_provs (sv_mgr s) \<and> sv_groups s' = sv_groups s \<and> sv_auth s' = sv_auth s"
  by (auto simp: applyGroups_def Let_def bindE_Inr_iff set_pool_def split: if_splits)

lemma replace_group_split:
  "replace_group name g gs = Some gs' \<Longrightarrow> \<exists>xs x ys. gs = xs @ x # ys \<and> gs' = xs @ g # ys \<and> gc_Name x = name \<and> (\<forall>y \<in> set xs. gc_Name y \<noteq> name)"
proof (induction gs arbitrary: gs')
  case (Cons y gs)
  show ?case
  proof (cases "gc_Name y = name")
    case True
    then show ?thesis using Cons.prems by (intro exI [of _ "[]"]) auto
  next
    case False
    then obtain hs where "replace_group name g gs = Some hs" "gs' = y # hs" using Cons.prems by auto
    with Cons.IH obtain xs x ys where "gs = xs @ x # ys" "hs = xs @ g # ys" "gc_Name x = name" "\<forall>z \<in> set xs. gc_Name z \<noteq> name" by blast
    then show ?thesis using False \<open>gs' = y # hs\<close> by (intro exI [of _ "y # xs"] exI [of _ x] exI [of _ ys]) simp
  qed
qed simp

lemma remove_group_split:
  "remove_group name gs = Some gs' \<Longrightarrow> \<exists>xs x ys. gs = xs @ x # ys \<and> gs' = xs @ ys \<and> gc_Name x = name \<and> (\<forall>y \<in> set xs. gc_Name y \<noteq> name)"
proof (induction gs arbitrary: gs')
  case (Cons y gs)
  show ?case
  proof (cases "gc_Name y = name")
    case True
    then show ?thesis using Cons.prems by (intro exI [of _ "[]"]) auto
  next
    case False
    then obtain hs where "remove_group name gs = Some hs" "gs' = y # hs" using Cons.prems by auto
    with Cons.IH obtain xs x ys where "gs = xs @ x # ys" "hs = xs @ ys" "gc_Name x = name" "\<forall>z \<in> set xs. gc_Name z \<noteq> name" by blast
    then show ?thesis using False \<open>gs' = y # hs\<close> by (intro exI [of _ "y # xs"] exI [of _ x] exI [of _ ys]) simp
  qed
qed simp

lemma find_append_None: "find P xs = None \<Longrightarrow> find P (xs @ ys) = find P ys"
  by (induction xs) (auto split: if_splits)

lemma owned_group:
  assumes "plain_user acct u" "requireOwnedGroup u name s = Inr g" "sv_groups s = xs @ x # ys" "gc_Name x = name" "\<forall>y \<in> set xs. gc_Name y \<noteq> name"
  shows "gc_Owner x = acct"
proof -
  have "find (\<lambda>g. gc_Name g = name) xs = None" using assms(5) by (simp add: find_None_iff)
  then have "Server_findGroup name s = Some x" using assms(3,4) by (simp add: Server_findGroup_def find_append_None)
  then show ?thesis using assms(1,2) by (auto simp: requireOwnedGroup_def groupWritable_def plain_user_def split: if_splits)
qed

lemma validate_then_cases:
  assumes "validate_then w g f s = Inr (r, s')"
  obtains "still s s'" | m where "mg_provs m = mg_provs (sv_mgr s)" "f (s\<lparr>sv_mgr := m\<rparr>) = Inr (r, s')"
proof -
  obtain l m where pl: "ProviderList (io_rng w) (sv_mgr s) = (l, m)" by (cases "ProviderList (io_rng w) (sv_mgr s)")
  then have m: "mg_provs m = mg_provs (sv_mgr s)" using ProviderList_provs [of "io_rng w" "sv_mgr s"] by simp
  show thesis
    using assms that m by (cases "validateGroup w (map pi_Name l) g") (auto simp: validate_then_def pl still_def)
qed

lemma safe_groups:
  assumes u: "plain_user acct u"
  shows "handleAddGroup w c u s = Inr (r, s') \<Longrightarrow> safe_for acct s s'"
    "handleUpdateGroup w c u s = Inr (r, s') \<Longrightarrow> safe_for acct s s'"
    "handleRemoveGroup w c u s = Inr (r, s') \<Longrightarrow> safe_for acct s s'"
proof -
  have na: "\<not> isAdminUser u" "cl_account u = acct" using u by (simp_all add: plain_user_def)
  have id: "safe_for acct s s" by (simp add: still_safe)
  show "safe_for acct s s'" if "handleAddGroup w c u s = Inr (r, s')"
  proof (cases "bd_group (cx_Body c)")
    case (Inr g)
    with that na have "validate_then w (g\<lparr>gc_Owner := acct\<rparr>) (\<lambda>s.
        if list_ex (\<lambda>existing. gc_Name existing = gc_Name g) (sv_groups s) then Inr (fail 400 (''group already exists: '' @ gc_Name (g\<lparr>gc_Owner := acct\<rparr>)), s)
        else bindE (applyGroups w (s\<lparr>sv_groups := sv_groups s @ [g\<lparr>gc_Owner := acct\<rparr>]\<rparr>)) (\<lambda>s. Inr (ok_reply, s))) s = Inr (r, s')"
      by (simp add: handleAddGroup_def Let_def)
    then show ?thesis
      by (rule validate_then_cases) (rule still_safe, assumption, auto simp: safe_for_def only_own_provs bindE_Inr_iff dest!: applyGroups_frame split: if_splits)
  qed (use that id in \<open>simp add: handleAddGroup_def\<close>)
  show "safe_for acct s s'" if "handleUpdateGroup w c u s = Inr (r, s')"
  proof (cases "groupNameFromPath c = [] \<or> (\<exists>e. requireOwnedGroup u (groupNameFromPath c) s = Inl e) \<or> (\<exists>e. bd_group (cx_Body c) = Inl e)")
    case True
    then show ?thesis using that id by (auto simp: handleUpdateGroup_def Let_def split: sum.splits if_splits)
  next
    case False
    then obtain g0 g where ok: "groupNameFromPath c \<noteq> []" "requireOwnedGroup u (groupNameFromPath c) s = Inr g0" "bd_group (cx_Body c) = Inr g"
      by (cases "requireOwnedGroup u (groupNameFromPath c) s"; cases "bd_group (cx_Body c)") auto
    let ?n = "groupNameFromPath c" and ?g = "g\<lparr>gc_Name := groupNameFromPath c, gc_Owner := acct\<rparr>"
    have "validate_then w ?g (\<lambda>s. case replace_group ?n ?g (sv_groups s) of
          None \<Rightarrow> Inr (fail 404 (''group not found: '' @ ?n), s)
        | Some gs \<Rightarrow> bindE (applyGroups w (s\<lparr>sv_groups := gs\<rparr>)) (\<lambda>s. Inr (ok_reply, s))) s = Inr (r, s')"
      using that ok na by (simp add: handleUpdateGroup_def Let_def)
    then show ?thesis
    proof (rule validate_then_cases)
      fix m assume m: "mg_provs m = mg_provs (sv_mgr s)" and f: "(case replace_group ?n ?g (sv_groups (s\<lparr>sv_mgr := m\<rparr>)) of
          None \<Rightarrow> Inr (fail 404 (''group not found: '' @ ?n), s\<lparr>sv_mgr := m\<rparr>)
        | Some gs \<Rightarrow> bindE (applyGroups w (s\<lparr>sv_mgr := m, sv_groups := gs\<rparr>)) (\<lambda>s. Inr (ok_reply, s))) = Inr (r, s')"
      show ?thesis
      proof (cases "replace_group ?n ?g (sv_groups s)")
        case None
        then show ?thesis using f m by (auto simp: safe_for_def only_own_provs)
      next
        case (Some gs)
        from replace_group_split [OF this] obtain xs x ys where
          gs: "sv_groups s = xs @ x # ys" "gs = xs @ ?g # ys" "gc_Name x = ?n" "\<forall>y \<in> set xs. gc_Name y \<noteq> ?n" by blast
        have "gc_Owner x = acct" by (rule owned_group [OF u ok(2) gs(1,3,4)])
        then show ?thesis using f m Some gs
          by (auto simp: safe_for_def only_own_provs bindE_Inr_iff dest!: applyGroups_frame)
      qed
    qed (rule still_safe)
  qed
  show "safe_for acct s s'" if "handleRemoveGroup w c u s = Inr (r, s')"
  proof (cases "query ''name'' c = [] \<or> (\<exists>e. requireOwnedGroup u (query ''name'' c) s = Inl e) \<or> remove_group (query ''name'' c) (sv_groups s) = None")
    case True
    then show ?thesis using that id by (auto simp: handleRemoveGroup_def Let_def split: sum.splits if_splits)
  next
    case False
    then obtain g0 gs where ok: "query ''name'' c \<noteq> []" "requireOwnedGroup u (query ''name'' c) s = Inr g0"
      "remove_group (query ''name'' c) (sv_groups s) = Some gs"
      by (cases "requireOwnedGroup u (query ''name'' c) s") auto
    from remove_group_split [OF ok(3)] obtain xs x ys where
      gs: "sv_groups s = xs @ x # ys" "gs = xs @ ys" "gc_Name x = query ''name'' c" "\<forall>y \<in> set xs. gc_Name y \<noteq> query ''name'' c" by blast
    have "gc_Owner x = acct" by (rule owned_group [OF u ok(2) gs(1,3,4)])
    then show ?thesis using that ok gs
      by (auto simp: handleRemoveGroup_def Let_def safe_for_def only_own_provs bindE_Inr_iff dest!: applyGroups_frame)
  qed
qed

subsection \<open>Dispatch\<close>

lemma route_cases:
  assumes "route w c u s = Some (Inr (r, s'))"
  obtains "s' = s" | m p where "(m, p, Some (Inr (r, s'))) \<in> set (routes w c u s)" "m = cx_Method c" "p = cx_Path c"
proof (cases "find (\<lambda>(m, p, h). m = cx_Method c \<and> p = cx_Path c) (routes w c u s)")
  case None
  then show thesis using assms that(1) by (simp add: route_def notFound_def)
next
  case (Some x)
  then have "x \<in> set (routes w c u s)" "fst x = cx_Method c" "fst (snd x) = cx_Path c"
    by (auto simp: find_Some_iff case_prod_unfold)
  moreover obtain m p h where x: "x = (m, p, h)" by (cases x)
  moreover have "h = Some (Inr (r, s'))" using assms Some x by (simp add: route_def)
  ultimately show thesis using that(2) [of m p] by simp
qed

lemma routes_safe:
  assumes u: "plain_user acct u"
  shows "list_all (\<lambda>(m, p, h). \<forall>r s'. h = Some (Inr (r, s')) \<longrightarrow> safe_for acct s s') (routes w c u s)"
proof -
  have remove: "handleRemoveProvider w c u s = Inr (r, s') \<Longrightarrow> safe_for acct s s'" for r s'
    using safe_providers(2) [OF u] still_refl still_safe by (auto simp: handleRemoveProvider_def Let_def split: if_splits)
  show ?thesis
    unfolding routes_def list.pred_inject prod.case option.inject sum.inject
    by (intro conjI allI impI list.pred_inject(1); (rule TrueI | erule stills [THEN still_safe] safe_providers(1) [OF u] safe_groups [OF u] remove))
qed

lemma route_safe:
  assumes u: "plain_user acct u" and r: "route w c u s = Some (Inr (r, s'))"
  shows "safe_for acct s s'"
  using r
proof (rule route_cases)
  fix m p assume "(m, p, Some (Inr (r, s'))) \<in> set (routes w c u s)"
  then show ?thesis using routes_safe [OF u, of s w c] by (auto simp: list_all_iff)
qed (simp add: still_safe)

lemma dispatch_safe:
  assumes u: "plain_user acct u" and r: "dispatch w c u s = Some (Inr (r, s'))"
  shows "safe_for acct s s'"
proof -
  have remove: "handleRemoveProviderByName w c u s = Inr (r, s') \<Longrightarrow> safe_for acct s s'"
    using safe_providers(2) [OF u] still_refl still_safe by (auto simp: handleRemoveProviderByName_def Let_def split: if_splits)
  show ?thesis
    using r unfolding dispatch_def Let_def
    by (auto split: if_splits option.splits
        intro: stills [THEN still_safe] safe_providers(3,4) [OF u] safe_groups [OF u] remove route_safe [OF u])
qed

lemma has_prefix_less: "has_prefix p (a @ b) \<Longrightarrow> has_prefix p a"
  by (auto simp: has_prefix_def) (metis append_eq_conv_conj append_take_drop_id take_append take_take min.absorb1 le_add1 length_append)

text \<open>Outside the API nothing is changed.\<close>

lemma outside_still:
  assumes "\<not> has_prefix (cx_Path c) ''/api/v1/''" "dispatch w c u s = Some (Inr (r, s'))"
  shows "still s s'"
proof -
  have p: "\<not> has_prefix (cx_Path c) (''/api/v1/'' @ x)" for x using assms(1) has_prefix_less by blast
  have no: "\<not> has_prefix (cx_Path c) ''/api/v1/admin/providers/''" "\<not> has_prefix (cx_Path c) ''/api/v1/admin/groups/''"
    "\<not> has_prefix (cx_Path c) ''/api/v1/admin/accounts/''" "\<not> has_prefix (cx_Path c) ''/api/v1/admin/proxies/''"
    using p [of "''admin/providers/''"] p [of "''admin/groups/''"] p [of "''admin/accounts/''"] p [of "''admin/proxies/''"] by simp_all
  have "list_all (\<lambda>(m, p, h). has_prefix p ''/api/v1/'' \<or> h = Some (Inr (handleHealthz s))) (routes w c u s)"
    by (simp add: routes_def has_prefix_def)
  moreover have "route w c u s = Some (Inr (r, s'))" using assms(2) no by (simp add: dispatch_def Let_def)
  ultimately show ?thesis
    using assms(1) by (elim route_cases) (auto simp: list_all_iff handleHealthz_def)
qed

lemma Handler_safe:
  assumes r: "Handler w c s = Some (Inr (r, s'))" and u: "\<And>a u. authorize c a s = Inr u \<Longrightarrow> plain_user acct u"
  shows "safe_for acct s s'"
  using r unfolding Handler_def Let_def
  by (auto split: if_splits sum.splits
      intro: stills [THEN still_safe] dispatch_safe [OF u] outside_still [THEN still_safe] still_safe [OF still_refl])

end
