(* ===== verification/Server_Total.thy ===== *)
theory Server_Total
  imports Server_Safety Health_Props Gateway_Props
begin

section \<open>Every request is answered\<close>

text \<open>
  Under what its environment guarantees (\<open>request_ok\<close>), a request neither panics nor hangs, and the manager's
  invariant holds afterwards. Handler by handler, from the steps of the components.
\<close>

definition selection_room :: "nat \<Rightarrow> int \<Rightarrow> Pool \<Rightarrow> bool" where
  "selection_room n B p \<longleftrightarrow> (\<forall>gname. group_room n B gname p)"

text \<open>What a request relies on: room for the selections it makes, providers that do not panic and whose
  proxies fit, weights that are \<^verbatim>\<open>int32\<close> values, and a health checker that can run a probe.\<close>

definition request_ok :: "io \<Rightarrow> Ctx \<Rightarrow> Server \<Rightarrow> bool" where
  "request_ok w c s \<longleftrightarrow>
     (\<exists>B. selection_room 100 B (sv_pool s)) \<and>
     (\<forall>cfg own n. bd_provider (cx_Body c) = Inr cfg \<longrightarrow>
        mgr_ok (MAdd (io_env w) (io_w w) (cfg\<lparr>pc_Owner := own\<rparr>)) (sv_mgr s) \<and>
        mgr_ok (MUpdate (io_env w) (io_w w) n (cfg\<lparr>pc_Owner := own\<rparr>)) (sv_mgr s)) \<and>
     (\<forall>n. mgr_ok (MEnable (io_env w) (io_w w) n True) (sv_mgr s) \<and> mgr_ok (MRefresh (io_env w) n) (sv_mgr s)) \<and>
     (\<forall>v. bd_weight (cx_Body c) = Some v \<longrightarrow> v \<le> MaxInt32) \<and>
     (\<forall>ck. sv_checker s = Some ck \<longrightarrow> 0 < hc_Concurrency (ck_cfg ck))"

definition good :: "(Reply \<times> Server) go \<Rightarrow> bool" where
  "good x \<longleftrightarrow> (\<exists>r s'. x = Inr (r, s') \<and> mgr_wf (sv_mgr s'))"

lemma good_Inr [simp]: "good (Inr (r, s)) = mgr_wf (sv_mgr s)"
  by (simp add: good_def)

lemma sv_mgr_simps [simp]:
  "sv_mgr (recordCall a g pv i ad s) = sv_mgr s" "sv_mgr (emitPoolExhausted s) = sv_mgr s" "sv_mgr (triggerHealthCheck s) = sv_mgr s"
  "sv_mgr (set_pool p s) = (sv_mgr s)\<lparr>mg_pool := p\<rparr>"
  by (simp_all add: recordCall_def emitPoolExhausted_def triggerHealthCheck_def set_pool_def split: option.split)

subsection \<open>Calls on the pool\<close>

lemma mgr_sel:
  assumes "mgr_wf m" "sel_frame (mg_pool m) q" shows "mgr_wf (m\<lparr>mg_pool := q\<rparr>)"
proof -
  have "keeps (mg_pool m) q" using sel_frame_fields [OF assms(2)] by (intro keeps_same) simp_all
  then show ?thesis using assms sel_frame_wf [OF assms(2)] keeps_owned by (auto simp: mgr_wf_def)
qed

lemma mgr_rng: "mgr_wf m \<Longrightarrow> mgr_wf (m\<lparr>mg_pool := (mg_pool m)\<lparr>pl_rng := r\<rparr>\<rparr>)"
  by (rule mgr_sel) simp_all

text \<open>A call of the pool that another component makes.\<close>

lemma pool_call:
  assumes "mgr_wf m" "mgr_ok (MPool op) m" "run_op op (mg_pool m) = bindE f (\<lambda>(_, q). Inr q)"
  shows "\<exists>x q. f = Inr (x, q) \<and> mgr_wf (m\<lparr>mg_pool := q\<rparr>)"
  using run_pool_wf [OF assms(1,2)] by (cases f) (auto simp: run_pool_def assms(3) bindE_Inr_iff)

lemma pool_call_unit:
  assumes "mgr_wf m" "mgr_ok (MPool op) m" shows "\<exists>q. run_op op (mg_pool m) = Inr q \<and> mgr_wf (m\<lparr>mg_pool := q\<rparr>)"
  using run_pool_wf [OF assms] by (auto simp: run_pool_def bindE_Inr_iff)

lemma StatsByProvider_rng: "\<exists>st r. StatsByProvider p = (st, p\<lparr>pl_rng := r\<rparr>)"
  by (auto simp: StatsByProvider_def Let_def case_prod_unfold intro: exI)

lemma All_rng: "\<exists>as r. All p = (as, p\<lparr>pl_rng := r\<rparr>)"
  by (auto simp: All_def case_prod_unfold Let_def intro: exI)

lemma provider_infos_rng: "\<exists>l r. provider_infos alv tot es p = (l, p\<lparr>pl_rng := r\<rparr>)"
proof (induction es arbitrary: p)
  case Nil
  have "p = p\<lparr>pl_rng := pl_rng p\<rparr>" by simp
  then show ?case by (metis provider_infos.simps(1))
next
  case (Cons e es)
  obtain name mp where e: "e = (name, mp)" by (cases e)
  obtain cs r where cd: "countryDistribution name p = (cs, p\<lparr>pl_rng := r\<rparr>)"
    using All_rng [of p] by (auto simp: countryDistribution_def)
  obtain l r' where l: "provider_infos alv tot es (p\<lparr>pl_rng := r\<rparr>) = (l, p\<lparr>pl_rng := r\<rparr>\<lparr>pl_rng := r'\<rparr>)"
    using Cons.IH [of "p\<lparr>pl_rng := r\<rparr>"] by blast
  then have "snd (provider_infos alv tot (e # es) p) = p\<lparr>pl_rng := r'\<rparr>" by (simp add: e cd Let_def)
  then show ?case by (metis prod.collapse)
qed

lemma ProviderList_rng: "\<exists>l r. ProviderList rr m = (l, m\<lparr>mg_pool := (mg_pool m)\<lparr>pl_rng := r\<rparr>\<rparr>)"
proof -
  obtain st r where st: "StatsByProvider (mg_pool m) = (st, (mg_pool m)\<lparr>pl_rng := r\<rparr>)" using StatsByProvider_rng [of "mg_pool m"] by blast
  obtain l r' where "provider_infos (fold (\<lambda>st. mput (ps_Provider st) (ps_Alive st)) st []) (fold (\<lambda>st. mput (ps_Provider st) (ps_Total st)) st [])
      (fst (range_order (mg_provs m) rr)) ((mg_pool m)\<lparr>pl_rng := r\<rparr>) = (l, (mg_pool m)\<lparr>pl_rng := r\<rparr>\<lparr>pl_rng := r'\<rparr>)"
    using provider_infos_rng by blast
  then have "ProviderList rr m = (l, m\<lparr>mg_pool := (mg_pool m)\<lparr>pl_rng := r'\<rparr>\<rparr>)" by (simp add: ProviderList_def st Let_def)
  then show ?thesis by blast
qed

subsection \<open>Handing out proxies\<close>

lemma selection_room_mono:
  assumes wf: "pool_wf p" and room: "selection_room n B p" and le: "k \<le> n" shows "group_room k B gname p"
proof -
  have "int k * group_cost gname p \<le> int n * group_cost gname p"
    using group_cost_nonneg [OF wf] le by (intro mult_right_mono) simp_all
  moreover have "group_room n B gname p" using room by (simp add: selection_room_def)
  ultimately show ?thesis by (simp add: group_room_def)
qed

lemma select_group:
  assumes wf: "pool_wf p" and room: "group_room (Suc n) B gname p"
  shows "\<exists>pr q. NextInGroupExcluding gname ex p = Inr (pr, q) \<and> sel_frame p q \<and> pool_wf q \<and> group_room n (B + group_cost gname p) gname q"
  using group_selection [OF wf room] by blast

text \<open>The group a selection without a name uses is the first one of the snapshot.\<close>

definition sel_name :: "string \<Rightarrow> Pool \<Rightarrow> string" where
  "sel_name grp p = (if grp \<noteq> [] then grp else case sn_groups (pl_snap p) of [] \<Rightarrow> [] | g # _ \<Rightarrow> gs_name g)"

definition select_one :: "string \<Rightarrow> string list \<Rightarrow> Pool \<Rightarrow> (addr option \<times> Pool) go" where
  "select_one grp ex p = (if grp \<noteq> [] then NextInGroupExcluding grp ex p else NextExcluding ex p)"

lemma proxies_loop_Suc:
  "proxies_loop (Suc n) grp ex out p = bindE (select_one grp ex p) (\<lambda>(pr, p).
     case pr of None \<Rightarrow> Inr (out, p) | Some a \<Rightarrow> proxies_loop n grp (px_ID (pl_heap p a) # ex) (out @ [toResponse (pl_heap p a)]) p)"
  by (simp add: select_one_def)

lemma select_any:
  assumes wf: "pool_wf p" and room: "group_room (Suc n) B (sel_name grp p) p"
  shows "\<exists>pr q B'. select_one grp ex p = Inr (pr, q) \<and> sel_frame p q \<and> pool_wf q \<and>
    group_room n B' (sel_name grp q) q \<and> (\<forall>a. pr = Some a \<longrightarrow> a \<in> set (live p) \<and> id_of p a \<notin> set ex)"
proof (cases "grp = [] \<and> sn_groups (pl_snap p) = []")
  case True
  have "mwf (pl_swrr p)" using wf by (simp add: pool_wf_def)
  obtain pr q where q: "NextExcluding ex p = Inr (pr, q)"
  proof (cases "ex = []")
    case True
    then show thesis using Next_total [OF wf] that by (auto simp: NextExcluding_def)
  next
    case False
    then show thesis using nextPrio_total [OF wf, of ex] \<open>grp = [] \<and> sn_groups (pl_snap p) = []\<close> that by (auto simp: NextExcluding_def)
  qed
  have post: "sel_frame p q" "\<forall>a. pr = Some a \<longrightarrow> a \<in> set (live p) \<and> id_of p a \<notin> set ex"
    using NextExcluding_post [OF wf, of ex] q by (auto simp: sel_post_def)
  have cost: "group_cost x y = 0" if "sn_groups (pl_snap y) = []" for x y using that by (simp add: group_cost_def)
  have "pl_swrr q = pl_swrr p"
  proof -
    have "\<forall>g \<in> set (sn_prio (pl_snap p)). prio_group_wf (length (sn_proxies (pl_snap p))) g"
      using wf by (auto simp: pool_wf_def snap_wf_def list_all_iff)
    from next_prios_total [OF this, of ex p] next_prios_total [OF this, of "[]" p] q True show ?thesis
      by (auto simp: NextExcluding_def Next_def nextPrio_def split: if_splits)
  qed
  then have "group_room n B (sel_name grp q) q"
    using room True cost sel_frame_fields(3) [OF post(1)] by (simp add: group_room_def swrr_within_def)
  then show ?thesis using q post sel_frame_wf [OF post(1) wf] True by (intro exI [of _ pr] exI [of _ q] exI [of _ B]) (simp add: select_one_def)
next
  case False
  let ?n = "sel_name grp p"
  have eq: "select_one grp ex p = NextInGroupExcluding ?n ex p"
    using False by (auto simp: select_one_def sel_name_def NextExcluding_def NextInGroupExcluding_def NextInGroup_def Next_def nextFromGroup_def split: list.splits)
  from group_selection [OF wf room, of ex] obtain pr q where
    q: "NextInGroupExcluding ?n ex p = Inr (pr, q)" "sel_frame p q" "pool_wf q" "group_room n (B + group_cost ?n p) ?n q"
      "\<forall>a. pr = Some a \<longrightarrow> a \<in> set (live p) \<and> id_of p a \<notin> set ex" by blast
  have "sel_name grp q = ?n" using sel_frame_fields(3) [OF q(2)] by (simp add: sel_name_def)
  then show ?thesis using q unfolding eq by auto
qed

text \<open>The loop of \<^verbatim>\<open>handleGetProxies\<close>: different live proxies, as many as asked for or as there are.\<close>

lemma proxies_loop_run:
  assumes "pool_wf p" "group_room n B (sel_name grp p) p"
  shows "\<exists>as q. proxies_loop n grp ex out p = Inr (out @ map (\<lambda>a. toResponse (pl_heap p a)) as, q) \<and> sel_frame p q \<and>
    length as \<le> n \<and> set as \<subseteq> set (live p) \<and> distinct (map (id_of p) as) \<and> set (map (id_of p) as) \<inter> set ex = {} \<and>
    (length as < n \<longrightarrow> (\<exists>q1 q2. sel_frame p q1 \<and>
       select_one grp (rev (map (id_of p) as) @ ex) q1 = Inr (None, q2)))"
  using assms
proof (induction n arbitrary: p B ex out)
  case 0
  show ?case by (intro exI [of _ "[]"] exI [of _ p]) simp
next
  case (Suc n)
  from select_any [OF Suc.prems, of ex] obtain pr q B' where
    q: "select_one grp ex p = Inr (pr, q)" "sel_frame p q" "pool_wf q"
      "group_room n B' (sel_name grp q) q" "\<forall>a. pr = Some a \<longrightarrow> a \<in> set (live p) \<and> id_of p a \<notin> set ex" by blast
  show ?case
  proof (cases pr)
    case None
    have "\<exists>q1 q2. sel_frame p q1 \<and> select_one grp ex q1 = Inr (None, q2)"
      using q(1) None by (intro exI [of _ p] exI [of _ q]) simp
    then show ?thesis using q(1,2) None unfolding proxies_loop_Suc by (intro exI [of _ "[]"] exI [of _ q]) simp
  next
    case (Some a)
    have h: "pl_heap q = pl_heap p" "id_of q = id_of p" "live q = live p" using sel_frame_fields [OF q(2)] by simp_all
    from Suc.IH [OF q(3,4), of "px_ID (pl_heap q a) # ex" "out @ [toResponse (pl_heap q a)]"] obtain as t where
      t: "proxies_loop n grp (px_ID (pl_heap q a) # ex) (out @ [toResponse (pl_heap q a)]) q =
          Inr ((out @ [toResponse (pl_heap q a)]) @ map (\<lambda>a. toResponse (pl_heap p a)) as, t)" "sel_frame q t" "length as \<le> n"
        "set as \<subseteq> set (live p)" "distinct (map (id_of p) as)" "set (map (id_of p) as) \<inter> set (px_ID (pl_heap p a) # ex) = {}"
        "length as < n \<longrightarrow> (\<exists>q1 q2. sel_frame q q1 \<and> select_one grp (rev (map (id_of p) as) @ px_ID (pl_heap p a) # ex) q1 = Inr (None, q2))"
      unfolding h by blast
    have r: "proxies_loop (Suc n) grp ex out p = proxies_loop n grp (px_ID (pl_heap q a) # ex) (out @ [toResponse (pl_heap q a)]) q"
      using q(1) Some unfolding proxies_loop_Suc by simp
    have a: "a \<in> set (live p)" "id_of p a \<notin> set ex" using q(5) Some by auto
    have i: "px_ID (pl_heap p a) = id_of p a" by (simp add: id_of_def)
    show ?thesis
      unfolding r using t [unfolded h i] a sel_frame_trans [OF q(2)]
      by (intro exI [of _ "a # as"] exI [of _ t]) (auto simp: h i)
  qed
qed

lemma good_no_proxy: "mgr_wf (sv_mgr s) \<Longrightarrow> good (Inr (no_proxy acct grp s))"
  by (simp add: no_proxy_def)

lemma good_get_proxy:
  assumes wf: "mgr_wf (sv_mgr s)" shows "good (handleGetProxy w c u s)"
proof -
  let ?g = "query ''group'' c"
  have sticky: "\<exists>x q. StickyNext now ck n g (sv_pool s) = Inr (x, q) \<and> mgr_wf ((sv_mgr s)\<lparr>mg_pool := q\<rparr>)" for now ck n g
    by (rule pool_call [OF wf, of "OpStickyNext now ck n g"]) simp_all
  have ing: "\<exists>x q. NextInGroup g (sv_pool s) = Inr (x, q) \<and> mgr_wf ((sv_mgr s)\<lparr>mg_pool := q\<rparr>)" for g
    by (rule pool_call [OF wf, of "OpNextInGroup g"]) simp_all
  have nxt: "\<exists>x q. Next (sv_pool s) = Inr (x, q) \<and> mgr_wf ((sv_mgr s)\<lparr>mg_pool := q\<rparr>)"
    by (rule pool_call [OF wf, of OpNext]) simp_all
  have "\<exists>x q. (if ?g \<noteq> [] then NextInGroup ?g (sv_pool s) else Next (sv_pool s)) = Inr (x, q) \<and> mgr_wf ((sv_mgr s)\<lparr>mg_pool := q\<rparr>)"
    using ing nxt by simp
  then obtain x q where xq: "(if ?g \<noteq> [] then NextInGroup ?g (sv_pool s) else Next (sv_pool s)) = Inr (x, q)" "mgr_wf ((sv_mgr s)\<lparr>mg_pool := q\<rparr>)" by blast
  obtain y t where yt: "StickyNext (io_now w) (query ''client_id'' c) (atoi_lax (query ''sticky_seconds'' c)) ?g (sv_pool s) = Inr (y, t)"
    "mgr_wf ((sv_mgr s)\<lparr>mg_pool := t\<rparr>)" using sticky by blast
  show ?thesis
    unfolding handleGetProxy_def Let_def xq(1) yt(1) bindE.simps prod.case
    using wf xq(2) yt(2) by (cases x; cases y) (simp_all add: good_no_proxy)
qed

lemma good_get_proxies:
  assumes wf: "mgr_wf (sv_mgr s)" and room: "selection_room 100 B (sv_pool s)" shows "good (handleGetProxies w c u s)"
proof -
  let ?g = "query ''group'' c" and ?n = "nat (clamp_count (atoi_lax (query ''count'' c)))"
  have p: "pool_wf (sv_pool s)" using wf by (simp add: mgr_wf_def)
  have "clamp_count x \<le> 100" for x by (auto simp: clamp_count_def Let_def)
  then have "?n \<le> 100" by (simp add: nat_le_iff)
  then have "group_room ?n B (sel_name ?g (sv_pool s)) (sv_pool s)" by (rule selection_room_mono [OF p room])
  from proxies_loop_run [OF p this, of "[]" "[]"] obtain out q where
    q: "proxies_loop ?n ?g [] [] (sv_pool s) = Inr (out, q)" "sel_frame (sv_pool s) q" by blast
  show ?thesis
    unfolding handleGetProxies_def Let_def q(1) bindE.simps prod.case using wf mgr_sel [OF wf q(2)]
    by (simp add: good_no_proxy)
qed

lemma good_mark: "mgr_wf (sv_mgr s) \<Longrightarrow> good (mark w i b l s)"
proof -
  assume wf: "mgr_wf (sv_mgr s)"
  have "\<exists>q. (if b then MarkSuccess (io_now w) i l (sv_pool s) else MarkFailed i l (sv_pool s)) = Inr q \<and> mgr_wf ((sv_mgr s)\<lparr>mg_pool := q\<rparr>)"
    using pool_call_unit [OF wf, of "OpMarkSuccess (io_now w) i l"] pool_call_unit [OF wf, of "OpMarkFailed i l"] by (cases b) simp_all
  then show ?thesis by (auto simp: mark_def)
qed

lemma good_reports: "mgr_wf (sv_mgr s) \<Longrightarrow> good (handleReport w c s)" "mgr_wf (sv_mgr s) \<Longrightarrow> good (handleFeedback w c s)"
  using good_mark by (auto simp: handleReport_def handleFeedback_def Let_def split: option.split)

lemma good_status: "mgr_wf (sv_mgr s) \<Longrightarrow> good (Inr (handleStatus w s))"
proof -
  assume wf: "mgr_wf (sv_mgr s)"
  obtain l r where l: "ProviderList (io_rng w) (sv_mgr s) = (l, (sv_mgr s)\<lparr>mg_pool := (sv_pool s)\<lparr>pl_rng := r\<rparr>\<rparr>)" using ProviderList_rng by blast
  obtain st r' where st: "StatsByProvider ((sv_pool s)\<lparr>pl_rng := r\<rparr>) = (st, (sv_pool s)\<lparr>pl_rng := r\<rparr>\<lparr>pl_rng := r'\<rparr>)" using StatsByProvider_rng by blast
  show ?thesis using wf by (simp add: handleStatus_def providerStats_def l st Let_def case_prod_unfold mgr_rng)
qed

lemma good_lists:
  assumes wf: "mgr_wf (sv_mgr s)"
  shows "good (Inr (handleListProviders w u s))" "good (Inr (handleListProxies s))" "good (Inr (handleListGroups u s))"
proof -
  obtain l r where l: "ProviderList (io_rng w) (sv_mgr s) = (l, (sv_mgr s)\<lparr>mg_pool := (sv_pool s)\<lparr>pl_rng := r\<rparr>\<rparr>)" using ProviderList_rng by blast
  show "good (Inr (handleListProviders w u s))" "good (Inr (handleListProxies s))" "good (Inr (handleListGroups u s))"
    using wf by (simp_all add: handleListProviders_def l handleListProxies_def ProxyList_def handleListGroups_def Let_def case_prod_unfold mgr_rng)
qed

subsection \<open>Administration\<close>

lemma good_mgr_reply: "\<exists>e t. r = Inr (e, t) \<and> mgr_wf t \<Longrightarrow> good (mgr_reply b r s)"
  by (auto simp: mgr_reply_def Let_def split: option.split)

lemma good_mgr_op:
  assumes "mgr_wf (sv_mgr s)" "mgr_ok op (sv_mgr s)" "run_mgr op (sv_mgr s) = drop_err r"
  shows "good (mgr_reply b r s)"
  using run_mgr_wf [OF assms(1,2)] assms(3) by (intro good_mgr_reply) (auto simp: drop_err_def bindE_Inr_iff)

lemma request_ok_ops:
  assumes "request_ok w c s"
  shows "bd_provider (cx_Body c) = Inr cfg \<Longrightarrow> mgr_ok (MAdd (io_env w) (io_w w) (if b then cfg\<lparr>pc_Owner := own\<rparr> else cfg)) (sv_mgr s)"
    "bd_provider (cx_Body c) = Inr cfg \<Longrightarrow> mgr_ok (MUpdate (io_env w) (io_w w) n (if b then cfg\<lparr>pc_Owner := own\<rparr> else cfg)) (sv_mgr s)"
    "mgr_ok (MEnable (io_env w) (io_w w) n True) (sv_mgr s)" "mgr_ok (MRefresh (io_env w) n) (sv_mgr s)"
    "bd_weight (cx_Body c) = Some v \<Longrightarrow> v \<le> MaxInt32"
proof -
  have A: "\<forall>cfg own n. bd_provider (cx_Body c) = Inr cfg \<longrightarrow>
      mgr_ok (MAdd (io_env w) (io_w w) (cfg\<lparr>pc_Owner := own\<rparr>)) (sv_mgr s) \<and>
      mgr_ok (MUpdate (io_env w) (io_w w) n (cfg\<lparr>pc_Owner := own\<rparr>)) (sv_mgr s)"
    using assms unfolding request_ok_def by (elim conjE) assumption
  show "mgr_ok (MAdd (io_env w) (io_w w) (if b then cfg\<lparr>pc_Owner := own\<rparr> else cfg)) (sv_mgr s)" if "bd_provider (cx_Body c) = Inr cfg"
    using A [rule_format, OF that, of own] A [rule_format, OF that, of "pc_Owner cfg"] by (cases b) (simp_all del: mgr_ok.simps)
  show "mgr_ok (MUpdate (io_env w) (io_w w) n (if b then cfg\<lparr>pc_Owner := own\<rparr> else cfg)) (sv_mgr s)" if "bd_provider (cx_Body c) = Inr cfg"
    using A [rule_format, OF that, of own] A [rule_format, OF that, of "pc_Owner cfg"] by (cases b) (simp_all del: mgr_ok.simps)
  show "v \<le> MaxInt32" if "bd_weight (cx_Body c) = Some v" using assms that unfolding request_ok_def by blast
  show "mgr_ok (MEnable (io_env w) (io_w w) n True) (sv_mgr s)" "mgr_ok (MRefresh (io_env w) n) (sv_mgr s)"
    using assms unfolding request_ok_def by blast+
qed

lemma good_providers:
  assumes wf: "mgr_wf (sv_mgr s)" and ok: "request_ok w c s"
  shows "good (handleAddProvider w c u s)" "good (remove_owned w name u s)" "good (handleUpdateProvider w c u s)"
    "handleProviderAction w c u s = Some x \<Longrightarrow> good x"
proof -
  note op = request_ok_ops [OF ok]
  show "good (handleAddProvider w c u s)"
    using wf good_mgr_op [OF wf op(1)] by (auto simp: handleAddProvider_def Let_def simp del: mgr_ok.simps split: sum.split)
  show "good (remove_owned w name u s)"
    using wf good_mgr_op [OF wf, of "MRemove (io_w w) name"] by (auto simp: remove_owned_def split: sum.split)
  show "good (handleUpdateProvider w c u s)"
    using wf good_mgr_op [OF wf op(2)] by (auto simp: handleUpdateProvider_def Let_def simp del: mgr_ok.simps split: sum.split)
  have enable: "good (mgr_reply b (SetProviderEnabled (io_env w) (io_w w) n e (sv_mgr s)) s)" for b n e
    using good_mgr_op [OF wf, of "MEnable (io_env w) (io_w w) n e"] op(3) [of n] by (cases e) (simp_all split: option.splits)
  have weight: "good (mgr_reply b (SetProviderWeight (io_w w) n v (sv_mgr s)) s)" if "bd_weight (cx_Body c) = Some v" for b n v
    using good_mgr_op [OF wf, of "MWeight (io_w w) n v"] op(5) [OF that] by simp
  have refresh: "good (mgr_reply b (RefreshProvider (io_env w) n (sv_mgr s)) s)" for b n
    using good_mgr_op [OF wf op(4)] by simp
  have prio: "good (mgr_reply b (SetProviderPriority (io_w w) n v x (sv_mgr s)) s)" for b n v x
    using good_mgr_op [OF wf, of "MPriority (io_w w) n v x"] by simp
  have pub: "good (mgr_reply b (Inr (SetProviderPublic (io_w w) n v (sv_mgr s))) s)" for b n v
    using run_mgr_wf [OF wf, of "MPublic (io_w w) n v"]
    by (cases "SetProviderPublic (io_w w) n v (sv_mgr s)") (auto intro: good_mgr_reply)
  show "handleProviderAction w c u s = Some x \<Longrightarrow> good x"
    using wf enable weight refresh prio pub
    by (auto simp: handleProviderAction_def Let_def split: if_splits sum.splits option.splits)
qed

lemma good_remove_proxy: "mgr_wf (sv_mgr s) \<Longrightarrow> good (handleRemoveProxy c s)"
proof -
  assume wf: "mgr_wf (sv_mgr s)"
  have "good (bindE (Remove i (sv_pool s)) (\<lambda>(ok, p). Inr (if \<not> ok then fail 404 ''proxy not found'' else ok_reply, set_pool p s)))" for i
    using pool_call [OF wf, of "OpRemove i" "Remove i (sv_pool s)"] by auto
  then show ?thesis using wf by (simp add: handleRemoveProxy_def Let_def)
qed

end
