(* ===== verification/Server_Run.thy ===== *)
theory Server_Run
  imports Server_Total
begin

section \<open>Every request is answered: rounds, groups, gateway and dispatch\<close>

text \<open>The rest of the handlers, and the handler of the server as a whole.\<close>

subsection \<open>A round of checks\<close>

definition pool_only :: "pool_op \<Rightarrow> bool" where
  "pool_only op \<longleftrightarrow> (\<forall>m. mgr_ok (MPool op) m)"

lemma checkOne_pool_only: "list_all pool_only (checkOne_ops json cfg t pr)"
  by (auto simp: checkOne_ops_def pool_only_def Let_def case_prod_unfold)

lemma run_ops_mgr:
  assumes "list_all pool_only ops" "mgr_wf m"
  shows "\<exists>q. run_ops ops (mg_pool m) = Inr q \<and> mgr_wf (m\<lparr>mg_pool := q\<rparr>)"
  using assms
proof (induction ops arbitrary: m)
  case (Cons op ops)
  then obtain q where q: "run_op op (mg_pool m) = Inr q" "mgr_wf (m\<lparr>mg_pool := q\<rparr>)"
    using pool_call_unit [of m op] by (auto simp: pool_only_def)
  with Cons.IH [OF _ q(2)] Cons.prems(1) show ?case by simp
qed simp

lemma check_list_mgr: "mgr_wf m \<Longrightarrow> \<exists>q. check_list json cfg tr as (mg_pool m) = Inr q \<and> mgr_wf (m\<lparr>mg_pool := q\<rparr>)"
proof (induction as arbitrary: m)
  case (Cons a as)
  obtain q where q: "checkOne json cfg (tr a) a (mg_pool m) = Inr q" "mgr_wf (m\<lparr>mg_pool := q\<rparr>)"
    using run_ops_mgr [OF checkOne_pool_only Cons.prems] unfolding checkOne_run by blast
  then show ?case using Cons.IH [OF q(2)] by simp
qed simp

text \<open>A handler whose result is \<open>None\<close> never returns.\<close>

definition answers :: "(Reply \<times> Server) go option \<Rightarrow> bool" where
  "answers x \<longleftrightarrow> (\<exists>r. x = Some r \<and> good r)"

lemma answers_Some [simp]: "answers (Some r) = good r"
  by (simp add: answers_def)

lemma answers_if: "(b \<Longrightarrow> answers x) \<Longrightarrow> (\<not> b \<Longrightarrow> answers y) \<Longrightarrow> answers (if b then x else y)"
  by simp

lemma answers_allowed:
  "mgr_wf (sv_mgr s) \<Longrightarrow> (\<And>u. answers (f u)) \<Longrightarrow> answers (case x of Inl e \<Rightarrow> Some (Inr (e, s)) | Inr u \<Rightarrow> f u)"
  by (auto split: sum.split)

lemma answers_health_check:
  assumes wf: "mgr_wf (sv_mgr s)" and ok: "request_ok w c s" shows "answers (handleHealthCheck w s)"
proof (cases "sv_checker s")
  case (Some ck)
  have conc: "hc_Concurrency (ck_cfg ck) > 0" using ok Some by (simp add: request_ok_def)
  obtain as r where all: "All (sv_pool s) = (as, (sv_pool s)\<lparr>pl_rng := r\<rparr>)" using All_rng by blast
  let ?m = "(sv_mgr s)\<lparr>mg_pool := (sv_pool s)\<lparr>pl_rng := r\<rparr>\<rparr>"
  have m: "mgr_wf ?m" by (rule mgr_rng [OF wf])
  obtain q where "check_list (io_json w) (ck_cfg ck) (io_trials w) as (mg_pool ?m) = Inr q" "mgr_wf (?m\<lparr>mg_pool := q\<rparr>)"
    using check_list_mgr [OF m] by blast
  then show ?thesis using m conc Some by (simp add: handleHealthCheck_def checkAll_def all run_checks_def Let_def)
qed (use wf in \<open>simp add: handleHealthCheck_def\<close>)

subsection \<open>Handlers that leave the manager alone\<close>

definition quiet :: "Server \<Rightarrow> Reply \<times> Server \<Rightarrow> bool" where
  "quiet s x \<longleftrightarrow> sv_mgr (snd x) = sv_mgr s"

lemma quiet_good: "quiet s x \<Longrightarrow> mgr_wf (sv_mgr s) \<Longrightarrow> good (Inr x)"
  by (cases x) (simp add: quiet_def)

lemma quiet_alerts:
  "quiet s (handleGetAlerts s)" "quiet s (handleAddWebhook w c s)" "quiet s (handleUpdateWebhook w c s)" "quiet s (handleRemoveWebhook w c s)"
  "quiet s (handleUpdateEmail w c s)" "quiet s (handleUpdateDedup w c s)" "quiet s (handleUpdateMonitor w c s)" "quiet s (handleUpdateRecover w c s)"
proof -
  have "quiet s (with_alerts f s)" for f by (auto simp: quiet_def with_alerts_def Let_def case_prod_unfold split: option.split)
  then show "quiet s (handleGetAlerts s)" "quiet s (handleAddWebhook w c s)" "quiet s (handleUpdateWebhook w c s)" "quiet s (handleRemoveWebhook w c s)"
    "quiet s (handleUpdateEmail w c s)" "quiet s (handleUpdateDedup w c s)" "quiet s (handleUpdateMonitor w c s)" "quiet s (handleUpdateRecover w c s)"
    unfolding handleGetAlerts_def handleAddWebhook_def handleUpdateWebhook_def handleRemoveWebhook_def handleUpdateEmail_def
      handleUpdateDedup_def handleUpdateMonitor_def handleUpdateRecover_def by blast+
qed

lemma quiet_accounts:
  "quiet s (handleListAccounts w s)" "quiet s (handleAddAccount w c s)" "quiet s (handleRemoveAccount w c s)" "quiet s (handleUpdateAccount w c s)"
proof -
  have "quiet s (with_auth f s)" for f by (auto simp: quiet_def with_auth_def Let_def case_prod_unfold split: option.split)
  then show "quiet s (handleListAccounts w s)" "quiet s (handleAddAccount w c s)" "quiet s (handleRemoveAccount w c s)" "quiet s (handleUpdateAccount w c s)"
    unfolding handleListAccounts_def handleAddAccount_def handleRemoveAccount_def handleUpdateAccount_def by blast+
qed

lemma quiet_login:
  "quiet s (handleLogin w c s)" "quiet s (handleMe u s)" "quiet s (handleSite s)" "quiet s (handleRegister w c s)"
  "quiet s (handleGetSettings s)" "quiet s (handleUpdateSettings w c s)" "quiet s (handleUsage w c s)"
  by (auto simp: quiet_def handleLogin_def handleMe_def handleSite_def handleRegister_def handleGetSettings_def handleUpdateSettings_def
      handleUsage_def Let_def split: option.split sum.split prod.split)

lemma quiet_pages: "quiet s (html_page f c s)" "quiet s (notFound s)" "quiet s (handleHealthz s)"
  by (simp_all add: quiet_def html_page_def notFound_def handleHealthz_def)

lemmas quiets = quiet_alerts quiet_accounts quiet_login quiet_pages

subsection \<open>Groups\<close>

lemma applyGroups_run:
  assumes wf: "mgr_wf (sv_mgr s)" shows "\<exists>s'. applyGroups w s = Inr s' \<and> mgr_wf (sv_mgr s')"
proof -
  obtain q where q: "SetGroups (sv_groups s) (sv_pool s) = Inr q" "mgr_wf ((sv_mgr s)\<lparr>mg_pool := q\<rparr>)"
    using pool_call_unit [OF wf, of "OpSetGroups (sv_groups s)"] by auto
  then show ?thesis by (simp add: applyGroups_def Let_def)
qed

lemma good_apply: "mgr_wf (sv_mgr s) \<Longrightarrow> good (bindE (applyGroups w s) (\<lambda>s. Inr (r, s)))"
  using applyGroups_run [of s w] by auto

lemma good_validate:
  assumes wf: "mgr_wf (sv_mgr s)" and f: "\<And>s. mgr_wf (sv_mgr s) \<Longrightarrow> good (f s)" shows "good (validate_then w g f s)"
proof -
  obtain l r where l: "ProviderList (io_rng w) (sv_mgr s) = (l, (sv_mgr s)\<lparr>mg_pool := (sv_pool s)\<lparr>pl_rng := r\<rparr>\<rparr>)" using ProviderList_rng by blast
  show ?thesis using mgr_rng [OF wf, of r] by (auto simp: validate_then_def l split: option.split intro: f)
qed

lemma good_groups:
  assumes wf: "mgr_wf (sv_mgr s)"
  shows "good (handleAddGroup w c u s)" "good (handleUpdateGroup w c u s)" "good (handleRemoveGroup w c u s)"
  using wf by (auto simp: handleAddGroup_def handleUpdateGroup_def handleRemoveGroup_def Let_def
      split: sum.split option.split intro!: good_validate good_apply)

subsection \<open>The gateway\<close>

lemma good_gateway_proxy:
  assumes wf: "mgr_wf (sv_mgr s)" shows "good (handleGatewayProxy w c s)"
proof -
  have fwd: "\<exists>x g'. ForwardPlain t h grp hp (g\<lparr>gw_pool := sv_pool s\<rparr>) = Inr (x, g') \<and> mgr_wf ((sv_mgr s)\<lparr>mg_pool := gw_pool g'\<rparr>)" for t h grp hp g
  proof -
    obtain x q where "NextInGroup grp (sv_pool s) = Inr (x, q)" "mgr_wf ((sv_mgr s)\<lparr>mg_pool := q\<rparr>)"
      using pool_call [OF wf, of "OpNextInGroup grp" "NextInGroup grp (sv_pool s)"] by auto
    then show ?thesis
      by (cases x) (auto simp: ForwardPlain_def pickProxy_def dialUpstream_def dialTCP_def send_def Let_def case_prod_unfold split: option.split)
  qed
  have "good (bindE (ForwardPlain t h grp (io_hop w) (g\<lparr>gw_pool := sv_pool s\<rparr>)) (\<lambda>(r, g).
      let s = set_pool (gw_pool g) (s\<lparr>sv_gateway := Some g\<rparr>)
      in case r of Inl e \<Rightarrow> Inr (Json 502 (JErr (OfForward e)), s)
         | Inr resp \<Rightarrow> Inr (Relayed (rs_Status resp) (filter (\<lambda>(k, vv). \<not> equal_fold k ''Content-Length'') (rs_Header resp)) (rs_Body resp), s)))"
    for t h grp g using fwd [of t h grp "io_hop w" g] by (auto simp: Let_def split: sum.split)
  then show ?thesis using wf by (auto simp: handleGatewayProxy_def Let_def split: option.split)
qed

lemma ServeHTTP_run:
  assumes wf: "pool_wf (gw_pool g)" and room: "selection_room 3 B (gw_pool g)"
  shows "\<exists>w' g'. ServeHTTP src r net w g = Inr (w', g') \<and> sel_frame (gw_pool g) (gw_pool g')"
proof -
  have gr: "group_room maxProxyAttempts B grp (gw_pool g)" for grp using room by (simp add: selection_room_def maxProxyAttempts_def)
  have h: "\<exists>w' g'. handleHTTP r grp net w g = Inr (w', g') \<and> sel_frame (gw_pool g) (gw_pool g')" for grp
    using http.attempts_run [OF wf gr] unfolding handleHTTP_def run_ok_def by blast
  have t: "\<exists>w' g'. handleConnect r grp net w g = Inr (w', g') \<and> sel_frame (gw_pool g) (gw_pool g')" for grp
    using connect.attempts_run [OF wf gr] unfolding handleConnect_def run_ok_def by blast
  have d: "\<exists>w' g'. handleDirect grp src w g = (w', g') \<and> sel_frame (gw_pool g) (gw_pool g')" for grp
    using handleDirect_frame [of grp src w g] by auto
  show ?thesis using h t d by (auto simp: ServeHTTP_def Let_def split: option.split)
qed

lemma good_gwHandler:
  assumes wf: "mgr_wf (sv_mgr s)" and room: "selection_room 100 B (sv_pool s)" shows "good (gwHandler w c g s)"
proof -
  have p: "pool_wf (sv_pool s)" using wf by (simp add: mgr_wf_def)
  have "selection_room 3 B (sv_pool s)" using selection_room_mono [OF p room, of 3] by (simp add: selection_room_def)
  with p obtain w' g' where "ServeHTTP (Some (GroupList s)) (gateway_request c) (io_net w)
      \<lparr>w_Header = [], w_Status = 200, w_Body = [], w_Raw = None\<rparr> (g\<lparr>gw_pool := sv_pool s\<rparr>) = Inr (w', g')" "sel_frame (sv_pool s) (gw_pool g')"
    using ServeHTTP_run [of "g\<lparr>gw_pool := sv_pool s\<rparr>" B "Some (GroupList s)" "gateway_request c" "io_net w"] by fastforce
  then show ?thesis using mgr_sel [OF wf] by (simp add: gwHandler_def)
qed

subsection \<open>Dispatch\<close>

lemma routes_answer:
  assumes wf: "mgr_wf (sv_mgr s)" and ok: "request_ok w c s"
  shows "list_all (\<lambda>(m, p, h). answers h) (routes w c u s)"
proof -
  obtain B where room: "selection_room 100 B (sv_pool s)" using ok by (auto simp: request_ok_def)
  have remove: "good (handleRemoveProvider w c u s)"
    using good_providers(2) [OF wf ok] wf by (auto simp: handleRemoveProvider_def Let_def)
  show ?thesis
    unfolding routes_def list.pred_inject prod.case answers_Some
    by (intro conjI list.pred_inject(1);
        (rule TrueI | rule quiets [THEN quiet_good, OF wf] good_get_proxy [OF wf] good_get_proxies [OF wf room] good_status [OF wf]
          good_reports [OF wf] good_lists [OF wf] good_providers [OF wf ok] remove answers_health_check [OF wf ok] good_groups [OF wf]))
qed

lemma dispatch_answers:
  assumes wf: "mgr_wf (sv_mgr s)" and ok: "request_ok w c s" shows "answers (dispatch w c u s)"
proof -
  have remove: "good (handleRemoveProviderByName w c u s)"
    using good_providers(2) [OF wf ok] wf by (auto simp: handleRemoveProviderByName_def Let_def)
  have "answers (route w c u s)"
  proof (cases "find (\<lambda>(m, p, h). m = cx_Method c \<and> p = cx_Path c) (routes w c u s)")
    case None
    then show ?thesis using quiet_good [OF quiet_pages(2) wf] by (simp add: route_def)
  next
    case (Some x)
    then have "x \<in> set (routes w c u s)" by (auto simp: find_Some_iff case_prod_unfold)
    then show ?thesis using routes_answer [OF wf ok, of u] Some by (auto simp: route_def list_all_iff)
  qed
  then show ?thesis
    using remove good_providers(3,4) [OF wf ok] good_groups [OF wf] quiet_good [OF quiet_accounts(4) wf]
      quiet_good [OF quiet_pages(2) wf] good_remove_proxy [OF wf]
    by (auto simp: dispatch_def Let_def split: option.split)
qed

lemma Handler_answers:
  assumes wf: "mgr_wf (sv_mgr s)" and ok: "request_ok w c s" shows "answers (Handler w c s)"
proof -
  obtain B where room: "selection_room 100 B (sv_pool s)" using ok by (auto simp: request_ok_def)
  show ?thesis
    unfolding Handler_def Let_def
    by (intro answers_if answers_allowed [OF wf] dispatch_answers [OF wf ok]; simp only: answers_Some;
        rule quiets [THEN quiet_good, OF wf] good_gateway_proxy [OF wf] good_gwHandler [OF wf room] good_reports [OF wf])
qed

end
