(* ===== verification/Server_Props.thy ===== *)
theory Server_Props
  imports Server_Run Auth_Props Persist_Props
begin

section \<open>Properties of the console server\<close>

text \<open>
  Access control, ownership, totality and the effects of the administrative requests, for the handler as
  \<^verbatim>\<open>fasthttp\<close> calls it (\<open>Handler\<close>) or for a single handler behind it.
\<close>

subsection \<open>A small server for the witnesses\<close>

definition demo_bob :: AccountCfg where
  "demo_bob = \<lparr>ac_Name = ''bob'', ac_Password = ''pw'', ac_Token = ''t2'', ac_Role = ''user'', ac_Enabled = True, ac_Groups = None\<rparr>"

definition demo_users :: AuthManager where
  "demo_users = New [demo_cfg, demo_bob]"

definition demo_server :: Server where
  "demo_server =
     \<lparr>sv_mgr = demo_mgr, sv_checker = None, sv_emitter = True, sv_events = [], sv_alerts = None, sv_auth = Some demo_users,
      sv_usage = None, sv_groups = [demo_group], sv_gateway = Some demo_gateway, sv_db = None, sv_settings = None, sv_checks = 0\<rparr>"

definition demo_body :: Body where
  "demo_body =
     \<lparr>bd_provider = Inl [], bd_group = Inl [], bd_account = None, bd_raw_enabled = None, bd_login = None, bd_report = None,
      bd_feedback = None, bd_weight = None, bd_priority = None, bd_public = None, bd_webhook = None, bd_webhook_edit = None,
      bd_email = None, bd_dedup = None, bd_monitor = None, bd_recover = None, bd_settings = Inl []\<rparr>"

text \<open>A request with a token.\<close>

definition demo_ctx :: "string \<Rightarrow> string \<Rightarrow> string \<Rightarrow> Ctx" where
  "demo_ctx method path token =
     \<lparr>cx_Method = method, cx_Path = path, cx_URI = path, cx_Query = [], cx_Header = [(''X-Api-Token'', [token])], cx_PostBody = [],
      cx_Body = demo_body\<rparr>"

definition demo_io :: io where
  "demo_io =
     \<lparr>io_now = 0, io_env = demo_env, io_w = Written, io_w2 = Written, io_cfgw = CfgWritten, io_sha = rev, io_salt = ''s'', io_salt2 = ''s'',
      io_tok = ''r'', io_rng = (\<lambda>_. 0), io_hop = demo_hop, io_net = (\<lambda>_. demo_hop), io_json = (\<lambda>_. None), io_times = (\<lambda>_. 0),
      io_trials = (\<lambda>_. \<lparr>tr_replies = [], tr_latency = 0, tr_now = 0\<rparr>), io_count = (\<lambda>_ _ _ _. Inr 0), io_summary = (\<lambda>_ _ _. Inr [])\<rparr>"

lemma demo_users_eq:
  "demo_users = \<lparr>am_heap = [cfg_acct demo_cfg, cfg_acct demo_bob], am_byName = [(''ann'', 0), (''bob'', 1)],
     am_byToken = [(''t1'', 0), (''t2'', 1)], am_persist = None\<rparr>"
  by (simp add: demo_users_def New_def new_account_eq demo_cfg_def demo_bob_def mput_def)

lemma demo_users_wf: "auth_wf demo_users" "\<not> Empty demo_users" "ByToken ''t2'' demo_users = Some 1" "ByToken ''zz'' demo_users = None"
proof -
  have "ac_Name demo_cfg \<noteq> ac_Name demo_bob" by (simp add: demo_cfg_def demo_bob_def)
  then show "auth_wf demo_users" unfolding demo_users_def using New_wf_view [of "[demo_cfg, demo_bob]"] by simp
qed (simp_all add: demo_users_eq Empty_def ByToken_def demo_bob_def)

lemma canon_auth: "CanonicalHeaderKey ''Authorization'' = ''Authorization''" "CanonicalHeaderKey ''X-Api-Token'' = ''X-Api-Token''"
  "CanonicalHeaderKey ''Proxy-Authorization'' = ''Proxy-Authorization''"
  by code_simp+

lemma demo_token: "bearerToken (demo_ctx m p ''t2'') = ''t2''" "bearerToken (demo_ctx m p ''zz'') = ''zz''"
  by (simp_all add: bearerToken_def demo_ctx_def h_get_def h_values_def canon_auth mget0_def Let_def trim_space_def is_space_def has_prefix_def)

lemma demo_not_proxied: "m \<noteq> ''CONNECT'' \<Longrightarrow> has_prefix p ''/'' \<Longrightarrow> \<not> isProxyRequest (demo_ctx m p t)"
  by (cases p) (simp_all add: isProxyRequest_def demo_ctx_def h_get_def h_values_def canon_auth mget0_def has_prefix_def)

lemma demo_selection_room: "selection_room 100 0 demo_pool"
  by (auto simp: selection_room_def group_room_def group_cost_def swrr_within_def demo_pool_def layer_cost_def demo_layer_def MaxInt64_def)

lemma demo_request_ok: "request_ok demo_io (demo_ctx m p t) demo_server"
proof -
  obtain ps where "StaticURLs_Refresh (demo_prov\<lparr>pc_Name := ''p''\<rparr>) = Inr (Inr (Some ps))" "length ps \<le> 1"
    using demo_static [of "''p''"] by blast
  then show ?thesis
    using demo_selection_room
    by (auto simp: request_ok_def demo_server_def demo_mgr_def demo_ctx_def demo_body_def demo_mp_def new_managed_def fits_def
        demo_pool_def split: option.split if_splits)
qed

subsection \<open>Access control\<close>

text \<open>The endpoints under \<^verbatim>\<open>/api/v1/\<close> that need no account: login, registration, the public site data, and the
  path-based gateway, which has credentials of its own.\<close>

definition open_endpoint :: "Ctx \<Rightarrow> bool" where
  "open_endpoint c \<longleftrightarrow> cx_Path c = ''/api/v1/gw'' \<or> cx_Method c = ''GET'' \<and> cx_Path c = ''/api/v1/site'' \<or>
     cx_Method c = ''POST'' \<and> cx_Path c \<in> {''/api/v1/auth/login'', ''/api/v1/auth/register''}"

lemma report_not_admin: "has_prefix p ''/api/v1/proxy/'' \<Longrightarrow> \<not> admin_path p"
proof
  assume "has_prefix p ''/api/v1/proxy/''" "admin_path p"
  then have "p ! 8 = CHR ''p''" "p ! 8 = CHR ''a''"
    by (auto simp: admin_path_def has_prefix_def dest!: arg_cong [where f = "\<lambda>xs. xs ! 8"])
  then show False by simp
qed

text \<open>A guarded request is refused by \<^verbatim>\<open>authorize\<close> before anything is done.\<close>

lemma guarded_refused:
  assumes path: "has_prefix (cx_Path c) ''/api/v1/''" "\<not> open_endpoint c" and gw: "\<not> (isProxyRequest c \<and> sv_gateway s \<noteq> None)"
    and a: "authorize c (admin_path (cx_Path c)) s = Inl e"
  shows "Handler w c s = Some (Inr (e, s))"
proof -
  have n: "cx_Path c \<noteq> ''/''" "cx_Path c \<noteq> ''/index.html''" "cx_Path c \<noteq> ''/login''" "cx_Path c \<noteq> ''/register''"
    using path(1) by (auto simp: has_prefix_def)
  show ?thesis
    using path(2) gw a report_not_admin [of "cx_Path c"] by (auto simp: Handler_def Let_def n path(1) open_endpoint_def)
qed

text \<open>
  C3. Complete mediation. When accounts are configured, every request under \<^verbatim>\<open>/api/v1/\<close> other than the open
  endpoints is answered with 401 and changes nothing unless its bearer token is the current token of an
  enabled, registered account; and with 403, changing nothing, when the path is reserved for administrators
  and the account is none. (A request in the form of a forward proxy goes to the gateway, which checks the
  credentials of the groups.)
\<close>

theorem api_mediation:
  assumes auth: "sv_auth s = Some a" "auth_wf a" "\<not> Empty a"
    and path: "has_prefix (cx_Path c) ''/api/v1/''" "\<not> open_endpoint c" and gw: "\<not> (isProxyRequest c \<and> sv_gateway s \<noteq> None)"
  shows "((\<exists>n i. mget (am_byName a) n = Some i \<and> at_Enabled (am_heap a ! i) \<and> at_Token (am_heap a ! i) = bearerToken c \<and>
            (admin_path (cx_Path c) \<longrightarrow> IsAdmin (am_heap a ! i))) \<or>
          Handler w c s = Some (Inr (fail 401 ''missing bearer token'', s)) \<or> Handler w c s = Some (Inr (fail 401 ''invalid token'', s)) \<or>
          admin_path (cx_Path c) \<and> Handler w c s = Some (Inr (fail 403 ''admin role required'', s))) \<and>
    (bearerToken c = [] \<longrightarrow> Handler w c s = Some (Inr (fail 401 ''missing bearer token'', s))) \<and>
    (\<forall>i. ByToken (bearerToken c) a = Some i \<and> admin_path (cx_Path c) \<and> \<not> IsAdmin (am_heap a ! i) \<longrightarrow>
       Handler w c s = Some (Inr (fail 403 ''admin role required'', s)))"
proof -
  note ref = guarded_refused [OF path gw, of _ w]
  have na: "\<not> no_auth s" "the (sv_auth s) = a" using auth by (simp_all add: no_auth_def)
  have none: "bearerToken c = [] \<Longrightarrow> Handler w c s = Some (Inr (fail 401 ''missing bearer token'', s))"
    by (rule ref) (simp add: authorize_def na fail_def)
  have denied: "Handler w c s = Some (Inr (fail 403 ''admin role required'', s))"
    if "ByToken (bearerToken c) a = Some i" "admin_path (cx_Path c)" "\<not> IsAdmin (am_heap a ! i)" for i
  proof (rule ref)
    have "bearerToken c \<noteq> []" using that(1) auth_wf_token [OF auth(2)] by (auto simp: ByToken_def split: option.splits)
    then show "authorize c (admin_path (cx_Path c)) s = Inl (fail 403 ''admin role required'')"
      using that by (simp add: authorize_def na fail_def Let_def)
  qed
  have invalid: "bearerToken c \<noteq> [] \<Longrightarrow> ByToken (bearerToken c) a = None \<Longrightarrow> Handler w c s = Some (Inr (fail 401 ''invalid token'', s))"
    by (rule ref) (simp add: authorize_def na fail_def Let_def)
  have ok: "\<exists>n. mget (am_byName a) n = Some i \<and> at_Enabled (am_heap a ! i) \<and> at_Token (am_heap a ! i) = bearerToken c"
    if "ByToken (bearerToken c) a = Some i" for i
    using that auth_wf_token [OF auth(2), of "bearerToken c" i] by (auto simp: ByToken_def split: option.splits if_splits)
  show ?thesis using none denied invalid ok by (cases "ByToken (bearerToken c) a") blast+
qed

theorem api_mediation_witness:
  "Handler demo_io (demo_ctx ''GET'' ''/api/v1/admin/proxies'' ''t2'') demo_server = Some (Inr (fail 403 ''admin role required'', demo_server)) \<and>
   (\<exists>r. Handler demo_io (demo_ctx ''GET'' ''/api/v1/proxy'' ''zz'') demo_server = Some (Inr (r, demo_server)))"
proof -
  have s: "sv_auth demo_server = Some demo_users" by (simp add: demo_server_def)
  let ?c = "demo_ctx ''GET'' ''/api/v1/admin/proxies'' ''t2''" and ?d = "demo_ctx ''GET'' ''/api/v1/proxy'' ''zz''"
  have p: "has_prefix (cx_Path ?c) ''/api/v1/''" "has_prefix (cx_Path ?d) ''/api/v1/''" "\<not> open_endpoint ?c" "\<not> open_endpoint ?d" "admin_path (cx_Path ?c)"
    by (simp_all add: demo_ctx_def has_prefix_def open_endpoint_def admin_path_def)
  have np: "\<not> (isProxyRequest ?c \<and> sv_gateway demo_server \<noteq> None)" "\<not> (isProxyRequest ?d \<and> sv_gateway demo_server \<noteq> None)"
    using demo_not_proxied by (simp_all add: has_prefix_def)
  have bob: "\<not> IsAdmin (am_heap demo_users ! 1)" by (simp add: demo_users_eq demo_bob_def IsAdmin_def)
  have zz: "\<not> (\<exists>n i. mget (am_byName demo_users) n = Some i \<and> at_Token (am_heap demo_users ! i) = ''zz'')"
    by (auto simp: demo_users_eq demo_cfg_def demo_bob_def split: if_splits)
  show ?thesis
    using api_mediation [OF s demo_users_wf(1,2) p(1,3) np(1), of demo_io] api_mediation [OF s demo_users_wf(1,2) p(2,4) np(2), of demo_io] bob p(5)
      demo_users_wf(3) zz unfolding demo_token by blast
qed

text \<open>What an ordinary account cannot reach at all: alert configuration, settings and, outside login and
  registration, the accounts; and the checker, which only a round of checks and the settings change.\<close>

definition console_same :: "Server \<Rightarrow> Server \<Rightarrow> bool" where
  "console_same s s' \<longleftrightarrow> sv_alerts s' = sv_alerts s \<and> sv_settings s' = sv_settings s \<and> sv_auth s' = sv_auth s \<and> sv_checker s' = sv_checker s"

lemma console_refl [simp]: "console_same s s"
  by (simp add: console_same_def)

lemma console_simps [simp]:
  "console_same s (set_pool p s') = console_same s s'" "console_same s (recordCall a g pv i ad s') = console_same s s'"
  "console_same s (emitPoolExhausted s') = console_same s s'" "console_same s (triggerHealthCheck s') = console_same s s'"
  "console_same s (s'\<lparr>sv_mgr := m\<rparr>) = console_same s s'" "console_same s (s'\<lparr>sv_gateway := gw\<rparr>) = console_same s s'"
  "console_same s (s'\<lparr>sv_groups := gs\<rparr>) = console_same s s'" "console_same s (s'\<lparr>sv_db := db\<rparr>) = console_same s s'"
  by (simp_all add: console_same_def set_pool_def recordCall_def emitPoolExhausted_def triggerHealthCheck_def split: option.split)

lemma console_get: "handleGetProxy w c u s = Inr (r, s') \<Longrightarrow> console_same s s'" "handleGetProxies w c u s = Inr (r, s') \<Longrightarrow> console_same s s'"
  by (auto simp: handleGetProxy_def handleGetProxies_def no_proxy_def Let_def bindE_Inr_iff split: if_splits option.splits)

lemma console_reports: "handleReport w c s = Inr (r, s') \<Longrightarrow> console_same s s'" "handleFeedback w c s = Inr (r, s') \<Longrightarrow> console_same s s'"
  by (auto simp: handleReport_def handleFeedback_def mark_def bindE_Inr_iff Let_def split: if_splits option.splits)

lemma console_lists:
  "handleStatus w s = (r, s') \<Longrightarrow> console_same s s'" "handleListProviders w u s = (r, s') \<Longrightarrow> console_same s s'"
  "handleListGroups u s = (r, s') \<Longrightarrow> console_same s s'" "handleMe u s = (r, s') \<Longrightarrow> console_same s s'"
  "handleHealthz s = (r, s') \<Longrightarrow> console_same s s'" "html_page f c s = (r, s') \<Longrightarrow> console_same s s'" "handleSite s = (r, s') \<Longrightarrow> console_same s s'"
  by (auto simp: handleStatus_def providerStats_def handleListProviders_def handleListGroups_def handleMe_def handleHealthz_def
      html_page_def handleSite_def Let_def case_prod_unfold split: if_splits option.splits)

lemma console_mgr: "mgr_reply b x s = Inr (r, s') \<Longrightarrow> console_same s s'"
  by (auto simp: mgr_reply_def bindE_Inr_iff Let_def split: option.splits if_splits)

lemma console_providers:
  "handleAddProvider w c u s = Inr (r, s') \<Longrightarrow> console_same s s'" "remove_owned w n u s = Inr (r, s') \<Longrightarrow> console_same s s'"
  "handleRemoveProvider w c u s = Inr (r, s') \<Longrightarrow> console_same s s'" "handleRemoveProviderByName w c u s = Inr (r, s') \<Longrightarrow> console_same s s'"
  "handleUpdateProvider w c u s = Inr (r, s') \<Longrightarrow> console_same s s'" "handleProviderAction w c u s = Some (Inr (r, s')) \<Longrightarrow> console_same s s'"
  using console_mgr
  by (auto simp: handleAddProvider_def remove_owned_def handleRemoveProvider_def handleRemoveProviderByName_def handleUpdateProvider_def
      handleProviderAction_def Let_def split: sum.splits if_splits option.splits)

lemma console_apply: "applyGroups w t = Inr s' \<Longrightarrow> console_same s s' = console_same s t"
  by (auto simp: applyGroups_def Let_def bindE_Inr_iff split: if_splits)

lemma console_validate:
  assumes "validate_then w g f s = Inr (r, s')" "\<And>t. f t = Inr (r, s') \<Longrightarrow> console_same t s'" shows "console_same s s'"
proof -
  obtain l m where pl: "ProviderList (io_rng w) (sv_mgr s) = (l, m)" by (cases "ProviderList (io_rng w) (sv_mgr s)")
  have "console_same (s\<lparr>sv_mgr := m\<rparr>) s' \<Longrightarrow> console_same s s'" by (simp add: console_same_def)
  then show ?thesis using assms by (auto simp: validate_then_def pl split: option.splits)
qed

lemma console_groups:
  "handleAddGroup w c u s = Inr (r, s') \<Longrightarrow> console_same s s'" "handleUpdateGroup w c u s = Inr (r, s') \<Longrightarrow> console_same s s'"
  "handleRemoveGroup w c u s = Inr (r, s') \<Longrightarrow> console_same s s'"
  by (auto simp: handleAddGroup_def handleUpdateGroup_def handleRemoveGroup_def Let_def bindE_Inr_iff console_apply
      split: sum.splits if_splits option.splits elim!: console_validate)

lemma console_gateway: "handleGatewayProxy w c s = Inr (r, s') \<Longrightarrow> console_same s s'" "gwHandler w c g s = Inr (r, s') \<Longrightarrow> console_same s s'"
  by (auto simp: handleGatewayProxy_def gwHandler_def Let_def bindE_Inr_iff split: if_splits option.splits, auto split: sum.splits)

lemmas consoles = console_get console_reports console_lists console_providers console_groups console_gateway

lemma routes_console:
  "list_all (\<lambda>(m, p, h). admin_path p \<or> m = ''POST'' \<and> p = ''/api/v1/auth/login'' \<or>
     (\<forall>r s'. h = Some (Inr (r, s')) \<longrightarrow> console_same s s')) (routes w c u s)"
  unfolding routes_def list.pred_inject prod.case option.inject sum.inject
  by (intro conjI list.pred_inject(1);
      (rule TrueI | (intro disjI2 allI impI, erule consoles) | (rule disjI1, (simp add: admin_path_def has_prefix_def; fail)) |
        (rule disjI2, rule disjI1, (simp; fail))))

lemma has_prefixE: "has_prefix p q \<Longrightarrow> (\<And>t. p = q @ t \<Longrightarrow> thesis) \<Longrightarrow> thesis"
  by (metis append_take_drop_id has_prefix_def)

lemma prefix_admin:
  "\<not> admin_path p \<Longrightarrow> \<not> has_prefix p ''/api/v1/admin/accounts/'' \<and> \<not> has_prefix p ''/api/v1/admin/proxies/''"
  by (auto elim!: has_prefixE) (simp_all add: admin_path_def has_prefix_def)

lemma dispatch_console:
  assumes "\<not> admin_path (cx_Path c)" "\<not> (cx_Method c = ''POST'' \<and> cx_Path c = ''/api/v1/auth/login'')"
    and r: "dispatch w c u s = Some (Inr (r, s'))"
  shows "console_same s s'"
proof -
  have "console_same s s'" if "route w c u s = Some (Inr (r, s'))"
    using that
  proof (rule route_cases)
    fix m p assume "(m, p, Some (Inr (r, s'))) \<in> set (routes w c u s)" "m = cx_Method c" "p = cx_Path c"
    then show ?thesis using routes_console [of s w c u] assms(1,2) by (auto simp: list_all_iff)
  qed simp
  then show ?thesis
    using r prefix_admin [OF assms(1)] unfolding dispatch_def Let_def
    by (auto split: if_splits option.splits intro: consoles simp: notFound_def)
qed

lemma if_someE: "(if b then x else y) = Some z \<Longrightarrow> (b \<Longrightarrow> x = Some z \<Longrightarrow> P) \<Longrightarrow> (\<not> b \<Longrightarrow> y = Some z \<Longrightarrow> P) \<Longrightarrow> P"
  by (simp split: if_splits)

lemma sum_someE:
  "(case x of Inl e \<Rightarrow> f e | Inr v \<Rightarrow> g v) = Some z \<Longrightarrow> (\<And>e. x = Inl e \<Longrightarrow> f e = Some z \<Longrightarrow> P) \<Longrightarrow>
   (\<And>v. x = Inr v \<Longrightarrow> g v = Some z \<Longrightarrow> P) \<Longrightarrow> P"
  by (cases x) auto

lemma Handler_console:
  assumes r: "Handler w c s = Some (Inr (r, s'))" and u: "\<And>u. authorize c True s \<noteq> Inr u"
    and path: "\<not> (cx_Method c = ''POST'' \<and> cx_Path c \<in> {''/api/v1/auth/login'', ''/api/v1/auth/register''})"
  shows "console_same s s'"
proof -
  have "\<not> admin_path (cx_Path c)" if "authorize c (admin_path (cx_Path c)) s = Inr v" for v using u that by (cases "admin_path (cx_Path c)") auto
  moreover have "\<not> admin_path (cx_Path c)" if "\<not> has_prefix (cx_Path c) ''/api/v1/''"
    using that has_prefix_less [of "cx_Path c" "''/api/v1/''" "''admin/''"] by (auto simp: admin_path_def)
  moreover have "\<not> (cx_Method c = ''POST'' \<and> cx_Path c = ''/api/v1/auth/login'')" using path by simp
  ultimately have d: "console_same s s'"
    if "dispatch w c v s = Some (Inr (r, s'))" "authorize c (admin_path (cx_Path c)) s = Inr v \<or> \<not> has_prefix (cx_Path c) ''/api/v1/''" for v
    using that dispatch_console by blast
  show ?thesis
    using r unfolding Handler_def Let_def
    by (elim if_someE sum_someE, insert path, simp_all only: option.inject sum.inject)
      (erule consoles | (simp; fail) | (erule d, simp; fail))+
qed

text \<open>
  C2. An ordinary account is confined to what it owns. Whatever request is made with the token of an account
  that is no administrator, or with no valid token at all, the provider configurations and the groups owned
  by anybody else, unowned ones included, are afterwards what they were, and no new ones appear; and unless
  it is a login or a registration, the accounts, the alert configuration and the settings are unchanged.
\<close>

theorem ordinary_account_confined:
  assumes auth: "sv_auth s = Some a" "\<not> Empty a"
    and acct: "\<forall>i. ByToken (bearerToken c) a = Some i \<longrightarrow> at_Name (am_heap a ! i) = acct \<and> \<not> IsAdmin (am_heap a ! i)" "acct \<noteq> []"
    and r: "Handler w c s = Some (Inr (r, s'))"
  shows "(\<forall>n cfg. pc_Owner cfg \<noteq> acct \<longrightarrow> (ProviderConfig n (sv_mgr s') = Some cfg \<longleftrightarrow> ProviderConfig n (sv_mgr s) = Some cfg)) \<and>
    filter (\<lambda>g. gc_Owner g \<noteq> acct) (sv_groups s') = filter (\<lambda>g. gc_Owner g \<noteq> acct) (sv_groups s) \<and>
    (cx_Method c = ''POST'' \<and> cx_Path c \<in> {''/api/v1/auth/login'', ''/api/v1/auth/register''} \<or>
     sv_auth s' = sv_auth s \<and> sv_alerts s' = sv_alerts s \<and> sv_settings s' = sv_settings s)"
proof -
  have na: "\<not> no_auth s" "the (sv_auth s) = a" using auth by (simp_all add: no_auth_def)
  have u: "plain_user acct u" "\<not> adm" if "authorize c adm s = Inr u" for adm u
    using that acct by (auto simp: authorize_def na Let_def plain_user_def isAdminUser_def split: if_splits option.splits)
  have safe: "safe_for acct s s'" by (rule Handler_safe [OF r u(1)])
  have "ProviderConfig n (sv_mgr s') = Some cfg \<longleftrightarrow> ProviderConfig n (sv_mgr s) = Some cfg" if "pc_Owner cfg \<noteq> acct" for n cfg
  proof -
    have "foreign acct m n = Some cfg \<longleftrightarrow> ProviderConfig n m = Some cfg" for m using that by (auto simp: foreign_def split: option.split)
    then show ?thesis using safe by (metis only_own_def safe_for_def)
  qed
  moreover have "console_same s s'" if "\<not> (cx_Method c = ''POST'' \<and> cx_Path c \<in> {''/api/v1/auth/login'', ''/api/v1/auth/register''})"
    using Handler_console [OF r _ that] u(2) [of True] by blast
  ultimately show ?thesis using safe unfolding safe_for_def console_same_def by blast
qed

text \<open>
  Every request is answered. In a server whose manager satisfies its invariant, under what the
  environment guarantees (\<open>request_ok\<close>: room for the selections in the round-robin weights, providers that do
  not panic and whose proxies fit, 32-bit weights, a health checker with a positive concurrency), the handler
  of every request returns, does not panic, and keeps the invariant of the manager and its pool.
\<close>

theorem every_request_answered:
  assumes "mgr_wf (sv_mgr s)" "request_ok w c s"
  shows "\<exists>r s'. Handler w c s = Some (Inr (r, s')) \<and> mgr_wf (sv_mgr s')"
  using Handler_answers [OF assms] by (auto simp: answers_def good_def)

theorem every_request_answered_witness:
  "\<exists>r s'. Handler demo_io (demo_ctx ''GET'' ''/api/v1/proxies'' ''t2'') demo_server = Some (Inr (r, s')) \<and> mgr_wf (sv_mgr s')"
  by (rule every_request_answered [OF _ demo_request_ok]) (simp add: demo_server_def demo_mgr_wf)

theorem ordinary_account_confined_witness:
  "\<exists>r s'. Handler demo_io (demo_ctx ''DELETE'' ''/api/v1/admin/providers/p'' ''t2'') demo_server = Some (Inr (r, s')) \<and>
     ProviderConfig ''p'' (sv_mgr s') = Some (mp_cfg demo_mp) \<and> filter (\<lambda>g. gc_Owner g \<noteq> ''bob'') (sv_groups s') = [demo_group]"
proof -
  let ?c = "demo_ctx ''DELETE'' ''/api/v1/admin/providers/p'' ''t2''"
  have s: "sv_auth demo_server = Some demo_users" "mgr_wf (sv_mgr demo_server)" by (simp_all add: demo_server_def demo_mgr_wf)
  obtain r s' where r: "Handler demo_io ?c demo_server = Some (Inr (r, s'))"
    using Handler_answers [OF s(2) demo_request_ok, of "''DELETE''" "''/api/v1/admin/providers/p''" "''t2''"] by (auto simp: answers_def good_def)
  have b: "\<forall>i. ByToken (bearerToken ?c) demo_users = Some i \<longrightarrow> at_Name (am_heap demo_users ! i) = ''bob'' \<and> \<not> IsAdmin (am_heap demo_users ! i)"
    using demo_users_wf(3) by (simp add: demo_token demo_users_eq demo_bob_def IsAdmin_def)
  have o: "pc_Owner (mp_cfg demo_mp) \<noteq> ''bob''" "ProviderConfig ''p'' (sv_mgr demo_server) = Some (mp_cfg demo_mp)" "gc_Owner demo_group = []"
    by (simp_all add: demo_mp_def new_managed_def demo_prov_def ProviderConfig_def demo_server_def demo_mgr_def demo_group_def)
  from ordinary_account_confined [OF s(1) demo_users_wf(2) b _ r] o have
    "ProviderConfig ''p'' (sv_mgr s') = Some (mp_cfg demo_mp)" "filter (\<lambda>g. gc_Owner g \<noteq> ''bob'') (sv_groups s') = [demo_group]"
    by (simp_all add: demo_server_def)
  then show ?thesis using r by blast
qed

end
