(* ===== verification/Server_Effects.thy ===== *)
theory Server_Effects
  imports Server_Props
begin

section \<open>Effects of the requests\<close>

text \<open>
  What the requests for proxies return and what a change of the groups or of the settings does, with what
  the server accepts as a group. The last part has the places where the server does less than it says.
\<close>

subsection \<open>Several proxies at once\<close>

text \<open>
  C35. A request for several proxies. For an allowed group the answer lists different live proxies, at most
  as many as asked for (at least 1, at most 100); it has fewer only when the selection finds no further
  proxy besides those listed, and is 503 when it finds none at all. The pool keeps its proxies.
\<close>

theorem proxies_distinct_live:
  assumes wf: "mgr_wf (sv_mgr s)" and room: "selection_room 100 B (sv_pool s)" and allowed: "groupAllowed u (query ''group'' c) s"
    and n: "n = clamp_count (atoi_lax (query ''count'' c))"
  shows "1 \<le> n \<and> n \<le> 100 \<and> (\<exists>as s'.
    handleGetProxies w c u s =
      Inr (if as = [] then fail 503 ''no available proxy'' else Json 200 (JProxies (map (\<lambda>a. toResponse (pl_heap (sv_pool s) a)) as)), s') \<and>
    int (length as) \<le> n \<and> set as \<subseteq> set (live (sv_pool s)) \<and> distinct (map (id_of (sv_pool s)) as) \<and>
    (int (length as) < n \<longrightarrow> (\<exists>q q'. sel_frame (sv_pool s) q \<and>
       select_one (query ''group'' c) (rev (map (id_of (sv_pool s)) as)) q = Inr (None, q'))) \<and>
    sel_frame (sv_pool s) (sv_pool s'))"
proof -
  let ?g = "query ''group'' c"
  have p: "pool_wf (sv_pool s)" using wf by (simp add: mgr_wf_def)
  have b: "1 \<le> n" "n \<le> 100" by (auto simp: n clamp_count_def Let_def)
  then have "group_room (nat n) B (sel_name ?g (sv_pool s)) (sv_pool s)" by (intro selection_room_mono [OF p room]) simp
  from proxies_loop_run [OF p this, of "[]" "[]"] obtain as q where
    q: "proxies_loop (nat n) ?g [] [] (sv_pool s) = Inr (map (\<lambda>a. toResponse (pl_heap (sv_pool s) a)) as, q)" "sel_frame (sv_pool s) q"
      "length as \<le> nat n" "set as \<subseteq> set (live (sv_pool s))" "distinct (map (id_of (sv_pool s)) as)"
      "length as < nat n \<longrightarrow> (\<exists>q q'. sel_frame (sv_pool s) q \<and> select_one ?g (rev (map (id_of (sv_pool s)) as)) q = Inr (None, q'))"
    by auto
  let ?out = "map (\<lambda>a. toResponse (pl_heap (sv_pool s) a)) as"
  let ?s = "if as = [] then snd (no_proxy (cl_account u) ?g (set_pool q s))
     else recordCall (cl_account u) ?g (pp_Provider (hd ?out)) (pp_ID (hd ?out)) (pp_Addr (hd ?out)) (set_pool q s)"
  have "handleGetProxies w c u s = Inr (if as = [] then fail 503 ''no available proxy'' else Json 200 (JProxies ?out), ?s)"
    unfolding handleGetProxies_def n [symmetric] Let_def using allowed by (simp add: q(1) no_proxy_def)
  moreover have "sel_frame (sv_pool s) (sv_pool ?s)" using q(2) by (simp add: no_proxy_def)
  ultimately show ?thesis using b q(3-6) by (intro conjI exI [of _ as] exI [of _ ?s]) auto
qed

theorem proxies_distinct_live_witness:
  "\<exists>as s'. handleGetProxies demo_io (demo_ctx ''GET'' ''/api/v1/proxies'' ''t2'') nobody demo_server =
      Inr (if as = [] then fail 503 ''no available proxy'' else Json 200 (JProxies (map (\<lambda>a. toResponse (pl_heap demo_pool a)) as)), s') \<and>
    length as \<le> 1 \<and> set as \<subseteq> set (live demo_pool)"
proof -
  let ?c = "demo_ctx ''GET'' ''/api/v1/proxies'' ''t2''"
  have s: "sv_pool demo_server = demo_pool" "mgr_wf (sv_mgr demo_server)" by (simp_all add: demo_server_def demo_mgr_def demo_mgr_wf [unfolded demo_mgr_def])
  have q: "query ''group'' ?c = []" "1 = clamp_count (atoi_lax (query ''count'' ?c))"
    by (simp_all add: query_def demo_ctx_def mget0_def atoi_lax_def clamp_count_def has_prefix_def Let_def)
  have "selection_room 100 0 (sv_pool demo_server)" "groupAllowed nobody (query ''group'' ?c) demo_server"
    using demo_selection_room by (simp_all add: s q(1) groupAllowed_def)
  from proxies_distinct_live [OF s(2) this q(2), of demo_io] show ?thesis unfolding s(1) by (elim conjE exE) (intro exI conjI, assumption, simp_all)
qed

subsection \<open>Groups\<close>

text \<open>When the server accepts a group.\<close>

definition weights_fit :: "string list \<Rightarrow> (string, int) gomap \<Rightarrow> bool" where
  "weights_fit allowed m \<longleftrightarrow> list_all (\<lambda>(pn, wt). 1 \<le> wt \<and> pn \<in> set allowed) m"

definition valid_group :: "string list \<Rightarrow> GroupCfg \<Rightarrow> bool" where
  "valid_group known g \<longleftrightarrow>
     gc_Name g \<noteq> [] \<and> 0 \<le> gc_MinAliveRatio g \<and> gc_MinAliveRatio g \<le> 1 \<and> (gc_Username g = [] \<longleftrightarrow> gc_Password g = []) \<and>
     list_all validRegion (gc_Regions g) \<and> gc_Primary g \<noteq> [] \<and> set (gc_Primary g) \<subseteq> set known \<and>
     weights_fit (gc_Primary g) (gc_PrimaryWeights g) \<and>
     (length (gc_PrimaryWeights g) = length (gc_Primary g) \<longrightarrow> weight_sum (gc_PrimaryWeights g) = 100) \<and>
     list_all (\<lambda>b. 0 \<le> bk_MinAliveRatio b \<and> bk_MinAliveRatio b \<le> 1 \<and> set (bk_Providers b) \<subseteq> set known) (gc_Backups g) \<and>
     (let bps = concat (map bk_Providers (gc_Backups g))
      in weights_fit bps (gc_BackupWeights g) \<and>
         (bps \<noteq> [] \<and> length (gc_BackupWeights g) = card (set bps) \<longrightarrow> weight_sum (gc_BackupWeights g) = 100))"

lemma weight_loop_None: "weight_loop f1 f2 allowed xs = None \<longleftrightarrow> (\<forall>(pn, wt) \<in> set xs. 1 \<le> wt \<and> pn \<in> set allowed)"
  by (induction xs rule: weight_loop.induct) auto

lemma weight_loop_fit: "weight_loop f1 f2 allowed (fst (range_order m r)) = None \<longleftrightarrow> weights_fit allowed m"
  by (simp add: weight_loop_None weights_fit_def list_all_iff)

lemma backups_loop_Inr:
  "backups_loop known bs acc = Inr bps \<longleftrightarrow>
     list_all (\<lambda>b. 0 \<le> bk_MinAliveRatio b \<and> bk_MinAliveRatio b \<le> 1 \<and> set (bk_Providers b) \<subseteq> set known) bs \<and>
     bps = acc @ concat (map bk_Providers bs)"
proof (induction bs arbitrary: acc)
  case (Cons b bs)
  have "find (\<lambda>pn. pn \<notin> set known) (bk_Providers b) = None \<longleftrightarrow> set (bk_Providers b) \<subseteq> set known" by (auto simp: find_None_iff)
  then show ?case using Cons by (auto split: option.split)
qed auto

lemma group_validation: "validateGroup w known g = None \<longleftrightarrow> valid_group known g"
proof -
  have reg: "find (\<lambda>r. \<not> validRegion r) xs = None \<longleftrightarrow> list_all validRegion xs" for xs by (auto simp: find_None_iff list_all_iff)
  have prim: "find (\<lambda>pn. pn \<notin> set known) xs = None \<longleftrightarrow> set xs \<subseteq> set known" for xs by (auto simp: find_None_iff)
  let ?bps = "concat (map bk_Providers (gc_Backups g))"
  let ?backs = "list_all (\<lambda>b. 0 \<le> bk_MinAliveRatio b \<and> bk_MinAliveRatio b \<le> 1 \<and> set (bk_Providers b) \<subseteq> set known) (gc_Backups g)"
  have len: "length (remdups ?bps) = card (set ?bps)" by (simp add: length_remdups_card_conv)
  show ?thesis
  proof (cases "gc_Name g \<noteq> [] \<and> 0 \<le> gc_MinAliveRatio g \<and> gc_MinAliveRatio g \<le> 1 \<and> (gc_Username g = [] \<longleftrightarrow> gc_Password g = []) \<and>
      list_all validRegion (gc_Regions g) \<and> gc_Primary g \<noteq> [] \<and> set (gc_Primary g) \<subseteq> set known \<and>
      weights_fit (gc_Primary g) (gc_PrimaryWeights g) \<and>
      (length (gc_PrimaryWeights g) = length (gc_Primary g) \<longrightarrow> weight_sum (gc_PrimaryWeights g) = 100)")
    case False
    have "validateGroup w known g \<noteq> None"
      using False unfolding reg [symmetric] prim [symmetric] weight_loop_fit [of PrimaryWeightLow PrimaryWeightForeign _ _ "io_rng w", symmetric]
      by (auto simp: validateGroup_def split: option.splits)
    then show ?thesis using False by (auto simp: valid_group_def)
  next
    case True
    have "validateGroup w known g =
       (case backups_loop known (gc_Backups g) [] of
          Inl e \<Rightarrow> Some e
        | Inr bps \<Rightarrow>
           (case weight_loop BackupWeightLow BackupWeightForeign bps (fst (range_order (gc_BackupWeights g) (io_rng w))) of
              Some e \<Rightarrow> Some e
            | None \<Rightarrow> if length (gc_BackupWeights g) = length (remdups bps) \<and> length (remdups bps) > 0 \<and>
                        weight_sum (gc_BackupWeights g) \<noteq> 100 then Some BackupSum else None))"
      using True unfolding reg [symmetric] prim [symmetric] weight_loop_fit [of PrimaryWeightLow PrimaryWeightForeign _ _ "io_rng w", symmetric]
      by (simp add: validateGroup_def not_less) blast
    note unfolded = this
    have spec: "valid_group known g \<longleftrightarrow> ?backs \<and> weights_fit ?bps (gc_BackupWeights g) \<and>
        (?bps \<noteq> [] \<and> length (gc_BackupWeights g) = card (set ?bps) \<longrightarrow> weight_sum (gc_BackupWeights g) = 100)"
      unfolding valid_group_def Let_def using True by blast
    show ?thesis
    proof (cases ?backs)
      case False
      then obtain e where "backups_loop known (gc_Backups g) [] = Inl e"
        using backups_loop_Inr [of known "gc_Backups g" "[]"] by (cases "backups_loop known (gc_Backups g) []") auto
      then show ?thesis using False unfolding unfolded spec by simp
    next
      case True
      then have b: "backups_loop known (gc_Backups g) [] = Inr ?bps" by (simp add: backups_loop_Inr)
      have "0 < length (remdups ?bps) \<longleftrightarrow> ?bps \<noteq> []" by simp
      then show ?thesis
        using True unfolding unfolded b spec sum.case len [symmetric] weight_loop_fit [of BackupWeightLow BackupWeightForeign _ _ "io_rng w", symmetric]
        by (cases "weight_loop BackupWeightLow BackupWeightForeign ?bps (fst (range_order (gc_BackupWeights g) (io_rng w)))") (simp_all only: option.case, auto)
    qed
  qed
qed

text \<open>
  C36. Validation of a group, in declarative form: the name, the ratios in [0, 1], user name and password
  only together, valid regions, at least one primary, known providers in every tier, weights of at least 1
  for members of the tier only, and weights that cover the whole tier add up to 100. Whether a group is
  accepted does not depend on the order in which the weight maps are visited.
\<close>

theorem group_validation_exact: "validateGroup w known g = None \<longleftrightarrow> valid_group known g"
  by (rule group_validation)

text \<open>The groups are in force: the pool schedules by them, the gateway knows exactly their credentials, and
  the file, if there is one and the write succeeds, has them.\<close>

definition groups_in_force :: "io \<Rightarrow> Server \<Rightarrow> Server \<Rightarrow> bool" where
  "groups_in_force w s s' \<longleftrightarrow>
     pl_groupsCfg (sv_pool s') = sv_groups s' \<and> map gs_name (sn_groups (pl_snap (sv_pool s'))) = map gc_Name (sv_groups s') \<and>
     map_option gw_creds (sv_gateway s') = map_option (\<lambda>_. gw_creds (New_gateway (sv_pool s') (Some (sv_groups s')))) (sv_gateway s) \<and>
     (sv_db s \<noteq> None \<longrightarrow> io_w w = Written \<longrightarrow> LoadGroups (sv_db s') = Inr (sv_groups s'))"

lemma creds_of_groups: "gw_creds (Gateway_Rebuild src g) = gw_creds (New_gateway p src)"
  by (simp add: Gateway_Rebuild_def New_gateway_def rebuildCreds_def)

lemma SetGroups_cfg: "SetGroups gs p = Inr q \<Longrightarrow> pl_groupsCfg q = gs"
  by (auto simp: SetGroups_def Rebuild_def Let_def bindE_Inr_iff split: prod.splits if_splits)

lemma applyGroups_in_force:
  assumes r: "applyGroups w t = Inr s'" and wf: "mgr_wf (sv_mgr t)" and same: "sv_gateway t = sv_gateway s" "sv_db t = sv_db s"
  shows "groups_in_force w s s'" "sv_groups s' = sv_groups t"
proof -
  obtain p where p: "SetGroups (sv_groups t) (sv_pool t) = Inr p" using r by (auto simp: applyGroups_def bindE_Inr_iff)
  have "pool_wf (sv_pool t)" using wf by (simp add: mgr_wf_def)
  with p have pw: "pool_wf p" using SetGroups_wf [of "sv_pool t" "sv_groups t"] by simp
  have cfg: "pl_groupsCfg p = sv_groups t" by (rule SetGroups_cfg [OF p])
  have nm: "map gs_name (sn_groups (pl_snap p)) = map gc_Name (sv_groups t)" using pw cfg by (simp add: pool_wf_def)
  let ?g = "map_option (Gateway_Rebuild (Some (sv_groups t))) (sv_gateway t)"
  have s': "sv_pool s' = p" "sv_groups s' = sv_groups t" "sv_gateway s' = ?g"
      "sv_db s' = (if sv_db t \<noteq> None then fst (ReplaceGroups (io_w w) (sv_groups t) (sv_db t)) else sv_db t)"
    using r by (auto simp: applyGroups_def p Let_def set_pool_def GroupList_def split: if_splits)
  have db: "LoadGroups (fst (ReplaceGroups Written (sv_groups t) (sv_db t))) = Inr (sv_groups t)" if "sv_db t \<noteq> None"
    using that by (auto simp: persist_group_defs load_list_def)
  show "groups_in_force w s s'" "sv_groups s' = sv_groups t"
    unfolding groups_in_force_def s' using cfg nm db same
    by (auto simp: option.map_comp comp_def creds_of_groups [of _ _ p])
qed

lemma provider_infos_names: "map pi_Name (fst (provider_infos alv tot es p)) = map fst es"
  by (induction alv tot es p rule: provider_infos.induct) (auto simp: Let_def split: prod.split)

lemma ProviderList_names: "set (map pi_Name (fst (ProviderList r m))) = set (mkeys (mg_provs m))"
  by (simp add: ProviderList_def Let_def case_prod_unfold provider_infos_names mkeys_def del: set_map) simp

lemma valid_group_set: "set known = set known' \<Longrightarrow> valid_group known g = valid_group known' g"
  by (simp add: valid_group_def)

text \<open>A request on a group that succeeds has passed the validation against the registered providers.\<close>

lemma validate_then_ok:
  assumes r: "validate_then w g f s = Inr (ok_reply, s')" and wf: "mgr_wf (sv_mgr s)"
  obtains m where "mgr_wf m" "f (s\<lparr>sv_mgr := m\<rparr>) = Inr (ok_reply, s')" "valid_group (mkeys (mg_provs (sv_mgr s))) g"
proof -
  obtain l r where l: "ProviderList (io_rng w) (sv_mgr s) = (l, (sv_mgr s)\<lparr>mg_pool := (sv_pool s)\<lparr>pl_rng := r\<rparr>\<rparr>)" using ProviderList_rng by blast
  have v: "validateGroup w (map pi_Name l) g = None" using r by (auto simp: validate_then_def l refuse_def ok_reply_def split: option.splits)
  moreover have "set (map pi_Name l) = set (mkeys (mg_provs (sv_mgr s)))" using ProviderList_names [of "io_rng w" "sv_mgr s"] by (simp only: l fst_conv)
  ultimately have "valid_group (mkeys (mg_provs (sv_mgr s))) g" using group_validation valid_group_set by blast
  then show thesis using that [OF mgr_rng [OF wf, of r]] r v by (simp add: validate_then_def l)
qed

definition as_caller :: "Caller \<Rightarrow> GroupCfg \<Rightarrow> GroupCfg" where
  "as_caller u g = (if isAdminUser u then g else g\<lparr>gc_Owner := cl_account u\<rparr>)"

lemma as_caller_eq: "(if \<not> isAdminUser u then g\<lparr>gc_Owner := cl_account u\<rparr> else g) = as_caller u g"
  by (simp add: as_caller_def)

lemma owned_entry:
  assumes "requireOwnedGroup u name s = Inr g0" "sv_groups s = xs @ x # ys" "gc_Name x = name" "\<forall>y \<in> set xs. gc_Name y \<noteq> name"
  shows "groupWritable u x"
proof -
  have "find (\<lambda>g. gc_Name g = name) xs = None" using assms(4) by (simp add: find_None_iff)
  then have "Server_findGroup name s = Some x" using assms(2,3) by (simp add: Server_findGroup_def find_append_None)
  then show ?thesis using assms(1) by (auto simp: requireOwnedGroup_def split: if_splits)
qed

lemma add_group_effect:
  assumes wf: "mgr_wf (sv_mgr s)" and r: "handleAddGroup w c u s = Inr (ok_reply, s')"
  shows "\<exists>b g. bd_group (cx_Body c) = Inr b \<and> g = as_caller u b \<and> valid_group (mkeys (mg_provs (sv_mgr s))) g \<and>
    gc_Name g \<notin> gc_Name ` set (sv_groups s) \<and> sv_groups s' = sv_groups s @ [g] \<and> groups_in_force w s s'"
proof -
  obtain b where b: "bd_group (cx_Body c) = Inr b" using r by (auto simp: handleAddGroup_def fail_def ok_reply_def split: sum.splits)
  let ?g = "as_caller u b"
  have "validate_then w ?g (\<lambda>s. if list_ex (\<lambda>existing. gc_Name existing = gc_Name ?g) (sv_groups s)
      then Inr (fail 400 (''group already exists: '' @ gc_Name ?g), s)
      else bindE (applyGroups w (s\<lparr>sv_groups := sv_groups s @ [?g]\<rparr>)) (\<lambda>s. Inr (ok_reply, s))) s = Inr (ok_reply, s')"
    using r unfolding handleAddGroup_def b sum.case Let_def as_caller_eq .
  then obtain m where m: "mgr_wf m" "valid_group (mkeys (mg_provs (sv_mgr s))) ?g" "\<not> list_ex (\<lambda>existing. gc_Name existing = gc_Name ?g) (sv_groups s)"
      "applyGroups w (s\<lparr>sv_mgr := m, sv_groups := sv_groups s @ [?g]\<rparr>) = Inr s'"
    by (rule validate_then_ok [OF _ wf]) (auto simp: bindE_Inr_iff fail_def ok_reply_def split: if_splits)
  have "gc_Name ?g \<notin> gc_Name ` set (sv_groups s)" using m(3) by (auto simp: list_ex_iff)
  then show ?thesis
    using b m(2) applyGroups_in_force [OF m(4), of s] m(1) by (intro exI [of _ b] exI [of _ ?g]) simp
qed

lemma update_group_effect:
  assumes wf: "mgr_wf (sv_mgr s)" and r: "handleUpdateGroup w c u s = Inr (ok_reply, s')"
  shows "\<exists>b g xs old ys. bd_group (cx_Body c) = Inr b \<and> g = as_caller u (b\<lparr>gc_Name := groupNameFromPath c\<rparr>) \<and>
    valid_group (mkeys (mg_provs (sv_mgr s))) g \<and> sv_groups s = xs @ old # ys \<and> gc_Name old = groupNameFromPath c \<and> groupWritable u old \<and>
    sv_groups s' = xs @ g # ys \<and> groups_in_force w s s'"
proof -
  let ?n = "groupNameFromPath c"
  have "groupNameFromPath c \<noteq> [] \<and> (\<exists>g0 b. requireOwnedGroup u ?n s = Inr g0 \<and> bd_group (cx_Body c) = Inr b)"
    using r by (auto simp: handleUpdateGroup_def Let_def fail_def ok_reply_def requireOwnedGroup_def split: sum.splits if_splits option.splits)
  then obtain g0 b where ok: "?n \<noteq> []" "requireOwnedGroup u ?n s = Inr g0" "bd_group (cx_Body c) = Inr b" by blast
  let ?g = "as_caller u (b\<lparr>gc_Name := ?n\<rparr>)"
  have "validate_then w ?g (\<lambda>s. case replace_group ?n ?g (sv_groups s) of
        None \<Rightarrow> Inr (fail 404 (''group not found: '' @ ?n), s)
      | Some gs \<Rightarrow> bindE (applyGroups w (s\<lparr>sv_groups := gs\<rparr>)) (\<lambda>s. Inr (ok_reply, s))) s = Inr (ok_reply, s')"
    using r ok(1) unfolding handleUpdateGroup_def ok(2,3) sum.case Let_def as_caller_eq by simp
  then obtain m gs where m: "mgr_wf m" "valid_group (mkeys (mg_provs (sv_mgr s))) ?g" "replace_group ?n ?g (sv_groups s) = Some gs"
      "applyGroups w (s\<lparr>sv_mgr := m, sv_groups := gs\<rparr>) = Inr s'"
    by (rule validate_then_ok [OF _ wf]) (auto simp: bindE_Inr_iff fail_def ok_reply_def split: option.splits)
  from replace_group_split [OF m(3)] obtain xs x ys where
    gs: "sv_groups s = xs @ x # ys" "gs = xs @ ?g # ys" "gc_Name x = ?n" "\<forall>y \<in> set xs. gc_Name y \<noteq> ?n" by blast
  show ?thesis
    using ok(3) m(2) gs owned_entry [OF ok(2) gs(1,3,4)] applyGroups_in_force [OF m(4), of s] m(1)
    by (intro exI [of _ b] exI [of _ ?g] exI [of _ xs] exI [of _ x] exI [of _ ys]) simp
qed

lemma remove_group_effect:
  assumes wf: "mgr_wf (sv_mgr s)" and r: "handleRemoveGroup w c u s = Inr (ok_reply, s')"
  shows "\<exists>xs old ys. sv_groups s = xs @ old # ys \<and> gc_Name old = query ''name'' c \<and> groupWritable u old \<and>
    sv_groups s' = xs @ ys \<and> groups_in_force w s s'"
proof -
  let ?n = "query ''name'' c"
  have "\<exists>g0 gs. requireOwnedGroup u ?n s = Inr g0 \<and> remove_group ?n (sv_groups s) = Some gs \<and> applyGroups w (s\<lparr>sv_groups := gs\<rparr>) = Inr s'"
    using r by (auto simp: handleRemoveGroup_def Let_def fail_def ok_reply_def requireOwnedGroup_def bindE_Inr_iff split: sum.splits if_splits option.splits)
  then obtain g0 gs where ok: "requireOwnedGroup u ?n s = Inr g0" "remove_group ?n (sv_groups s) = Some gs" "applyGroups w (s\<lparr>sv_groups := gs\<rparr>) = Inr s'"
    by blast
  from remove_group_split [OF ok(2)] obtain xs x ys where
    gs: "sv_groups s = xs @ x # ys" "gs = xs @ ys" "gc_Name x = ?n" "\<forall>y \<in> set xs. gc_Name y \<noteq> ?n" by blast
  show ?thesis
    using gs owned_entry [OF ok(1) gs(1,3,4)] applyGroups_in_force [OF ok(3), of s] wf
    by (intro exI [of _ xs] exI [of _ x] exI [of _ ys]) simp
qed

lemma groups_refused:
  assumes "r \<noteq> ok_reply" "handleAddGroup w c u s = Inr (r, s') \<or> handleUpdateGroup w c u s = Inr (r, s') \<or> handleRemoveGroup w c u s = Inr (r, s')"
  shows "sv_groups s' = sv_groups s"
  using assms
  by (auto simp: handleAddGroup_def handleUpdateGroup_def handleRemoveGroup_def Let_def bindE_Inr_iff still_def
      split: sum.splits if_splits option.splits elim!: validate_then_cases)



subsection \<open>Settings\<close>

lemma update_health_pos:
  "0 < hc_IntervalSeconds (update_health cur h) \<and> 0 < hc_TimeoutMs (update_health cur h) \<and> 0 < hc_Concurrency (update_health cur h) \<and>
   0 < hc_MaxFails (update_health cur h) \<and> hc_CheckURLs (update_health cur h) = hc_CheckURLs h"
  by (simp add: update_health_def Let_def)

lemma merge_health_id:
  assumes "0 < hc_IntervalSeconds h" "0 < hc_TimeoutMs h" "0 < hc_Concurrency h" "0 < hc_MaxFails h" "hc_CheckURLs h \<noteq> []"
  shows "merge_health def h = h"
  using assms by (simp add: merge_health_def Let_def)

text \<open>
  C37. Settings survive a restart. An update is accepted exactly when the site has a name, the theme is dark, light
  or left open, and the write succeeds. What is then in force has a positive interval, timeout, concurrency and
  failure limit, and a store opened on the written file, whatever its defaults, has the same settings, if
  a theme and at least one check URL were given.
\<close>

theorem settings_survive_restart:
  assumes path: "ss_path st \<noteq> []"
  shows "(fst (Settings_Update w cfg st) = None \<longleftrightarrow>
       st_SiteName cfg \<noteq> [] \<and> st_ThemeDefault cfg \<in> {[], ''dark'', ''light''} \<and> w = CfgWritten) \<and>
    (\<forall>st'. Settings_Update w cfg st = (None, st') \<longrightarrow>
       (let h = st_HealthCheck (Settings_Get st')
        in 0 < hc_IntervalSeconds h \<and> 0 < hc_TimeoutMs h \<and> 0 < hc_Concurrency h \<and> 0 < hc_MaxFails h) \<and>
       (st_ThemeDefault cfg \<noteq> [] \<and> hc_CheckURLs (st_HealthCheck cfg) \<noteq> [] \<longrightarrow>
          (\<exists>t. NewSettingsStore (ss_file st') (ss_path st') def = Inr t \<and> Settings_Get t = Settings_Get st')))"
proof -
  let ?cfg = "cfg\<lparr>st_HealthCheck := update_health (st_HealthCheck (Settings_Get st)) (st_HealthCheck cfg)\<rparr>"
  have acc: "fst (Settings_Update w cfg st) = None \<longleftrightarrow>
      st_SiteName cfg \<noteq> [] \<and> st_ThemeDefault cfg \<in> {[], ''dark'', ''light''} \<and> w = CfgWritten"
    using path by (cases w) (auto simp: Settings_Update_def Settings_persist_def Let_def)
  have upd: "ss_settings st' = ?cfg \<and> ss_file st' = SettingsDoc ?cfg \<and> ss_path st' = ss_path st \<and> st_SiteName cfg \<noteq> []"
    if "Settings_Update w cfg st = (None, st')" for st'
    using that path by (cases w) (auto simp: Settings_Update_def Settings_persist_def Let_def split: if_splits)
  have merge: "merge_settings def ?cfg = ?cfg" if "st_SiteName cfg \<noteq> []" "st_ThemeDefault cfg \<noteq> []" "hc_CheckURLs (st_HealthCheck cfg) \<noteq> []"
    using that update_health_pos [of "st_HealthCheck (Settings_Get st)" "st_HealthCheck cfg"]
    by (simp add: merge_settings_def Let_def merge_health_id)
  have reopen: "NewSettingsStore (SettingsDoc ?cfg) (ss_path st) def =
      Inr \<lparr>ss_path = ss_path st, ss_file = SettingsDoc ?cfg, ss_settings = merge_settings def ?cfg, ss_onApply = False, ss_applied = []\<rparr>"
    using path by (simp add: NewSettingsStore_def Settings_load_def)
  show ?thesis
  proof (intro conjI allI impI acc)
    fix st' assume "Settings_Update w cfg st = (None, st')"
    then have st': "Settings_Get st' = ?cfg" "ss_file st' = SettingsDoc ?cfg" "ss_path st' = ss_path st" "st_SiteName cfg \<noteq> []"
      using upd by (simp_all add: Settings_Get_def [of st'])
    show "let h = st_HealthCheck (Settings_Get st')
        in 0 < hc_IntervalSeconds h \<and> 0 < hc_TimeoutMs h \<and> 0 < hc_Concurrency h \<and> 0 < hc_MaxFails h"
      unfolding st'(1) Let_def using update_health_pos by simp
    assume "st_ThemeDefault cfg \<noteq> [] \<and> hc_CheckURLs (st_HealthCheck cfg) \<noteq> []"
    then have "merge_settings def ?cfg = ?cfg" using merge st'(4) by simp
    then show "\<exists>t. NewSettingsStore (ss_file st') (ss_path st') def = Inr t \<and> Settings_Get t = Settings_Get st'"
      unfolding st' reopen by (simp add: Settings_Get_def [of "\<lparr>ss_path = _, ss_file = _, ss_settings = _, ss_onApply = _, ss_applied = _\<rparr>"])
  qed
qed

definition demo_settings :: Settings where
  "demo_settings = \<lparr>st_SiteName = ''x'', st_RegistrationEnabled = True, st_ThemeDefault = ''dark'',
     st_HealthCheck = demo_hc\<lparr>hc_CheckURLs := [\<lparr>cu_Name = [], cu_URL = ''http://c'', cu_Enabled = None\<rparr>]\<rparr>\<rparr>"

definition demo_store :: SettingsStore where
  "demo_store = \<lparr>ss_path = ''s.json'', ss_file = SettingsMissing, ss_settings = demo_settings, ss_onApply = True, ss_applied = []\<rparr>"

theorem settings_survive_restart_witness:
  "\<exists>st' t. Settings_Update CfgWritten (demo_settings\<lparr>st_SiteName := ''y''\<rparr>) demo_store = (None, st') \<and>
     NewSettingsStore (ss_file st') (ss_path st') demo_settings = Inr t \<and> Settings_Get t = Settings_Get st'"
proof -
  let ?cfg = "demo_settings\<lparr>st_SiteName := ''y''\<rparr>"
  have p: "ss_path demo_store \<noteq> []" by (simp add: demo_store_def)
  note S = settings_survive_restart [OF p, of CfgWritten ?cfg demo_settings]
  have "fst (Settings_Update CfgWritten ?cfg demo_store) = None" using S by (simp add: demo_settings_def)
  then obtain st' where st': "Settings_Update CfgWritten ?cfg demo_store = (None, st')" by (cases "Settings_Update CfgWritten ?cfg demo_store") simp
  moreover have "st_ThemeDefault ?cfg \<noteq> [] \<and> hc_CheckURLs (st_HealthCheck ?cfg) \<noteq> []" by (simp add: demo_settings_def)
  ultimately show ?thesis using S by blast
qed

subsection \<open>Where the server falls short\<close>

text \<open>
  Registration takes over an existing account: \<^verbatim>\<open>handleRegister\<close> reserves only the name \<^verbatim>\<open>admin\<close> and calls \<^verbatim>\<open>AddAccount\<close>,
  which replaces whatever is registered. Here an unauthenticated request registers the name of an
  administrator: the reply is 200, the administrator's token is void, and the account with that name is an
  ordinary one with the password of the request.
\<close>

theorem registration_takes_over:
  "\<exists>w c s s' r. bearerToken c = [] \<and> (\<exists>a i. sv_auth s = Some a \<and> ByToken ''t1'' a = Some i \<and> at_Name (am_heap a ! i) = ''ann'' \<and> IsAdmin (am_heap a ! i)) \<and>
     handleRegister w c s = (Json 200 r, s') \<and>
     (\<exists>a i. sv_auth s' = Some a \<and> ByToken ''t1'' a = None \<and> mget (am_byName a) ''ann'' = Some i \<and> \<not> IsAdmin (am_heap a ! i) \<and>
        verifyPassword (io_sha w) (at_Password (am_heap a ! i)) ''secret'')"
proof -
  let ?s = "demo_server\<lparr>sv_settings := Some demo_store\<rparr>"
  let ?c = "(demo_ctx ''POST'' ''/api/v1/auth/register'' [])\<lparr>cx_Body := demo_body\<lparr>bd_login := Some (''ann'', ''secret'')\<rparr>\<rparr>"
  let ?pw = "hashPassword rev ''s'' ''secret''"
  let ?new = "\<lparr>ac_Name = ''ann'', ac_Password = ?pw, ac_Token = NewToken ''r'', ac_Role = ''user'', ac_Enabled = True, ac_Groups = None\<rparr>"
  have nh: "\<not> isHashed ''secret''" by (simp add: isHashed_def)
  have prep: "prepare_account rev ''s'' ''r'' (register_account ''ann'' ''secret'') = Inr ?new"
    by (simp add: prepare_account_def register_account_def trim_space_def is_space_def nh)
  let ?a = "insert_account ?new demo_users"
  have a: "AddAccount rev ''s'' ''r'' Written (register_account ''ann'' ''secret'') demo_users = (None, ?a)"
    unfolding AddAccount_eq [OF prep] by (simp add: demo_users_eq)
  have acct: "mget (am_byName ?a) ''ann'' = Some 2" "am_heap ?a ! 2 = cfg_acct ?new"
    by (simp_all add: insert_account_def demo_users_eq mput_def)
  have l: "Login rev ''s'' Written ''ann'' ''secret'' ?a = (Some 2, ?a)"
    using acct by (simp add: Login_def Let_def verify_hashPassword isHashed_hashPassword)
  have tok: "ByToken ''t1'' ?a = None" if "NewToken ''r'' \<noteq> ''t1''"
    using that by (simp add: ByToken_def insert_account_def demo_users_eq demo_cfg_def mdel_def)
  have nt: "NewToken ''r'' \<noteq> ''t1''" by code_simp
  have r: "handleRegister demo_io ?c ?s = (Json 200 (JToken (NewToken ''r'') (cfg_acct ?new)), ?s\<lparr>sv_auth := Some ?a\<rparr>)"
    using a l acct demo_users_wf(2)
    by (simp add: handleRegister_def no_auth_def demo_server_def currentSettings_def Settings_Get_def demo_store_def demo_settings_def
        demo_io_def trim_space_def is_space_def Let_def)
  show ?thesis
  proof (intro exI conjI)
    show "bearerToken ?c = []" by (simp add: bearerToken_def demo_ctx_def h_get_def h_values_def canon_auth mget0_def Let_def trim_space_def has_prefix_def)
    show "sv_auth ?s = Some demo_users" "ByToken ''t1'' demo_users = Some 0" by (simp_all add: demo_server_def demo_users_eq ByToken_def demo_cfg_def)
    show "at_Name (am_heap demo_users ! 0) = ''ann''" "IsAdmin (am_heap demo_users ! 0)" by (simp_all add: demo_users_eq demo_cfg_def IsAdmin_def)
    show "handleRegister demo_io ?c ?s = (Json 200 (JToken (NewToken ''r'') (cfg_acct ?new)), ?s\<lparr>sv_auth := Some ?a\<rparr>)" by (rule r)
    show "sv_auth (?s\<lparr>sv_auth := Some ?a\<rparr>) = Some ?a" by simp
    show "ByToken ''t1'' ?a = None" "mget (am_byName ?a) ''ann'' = Some 2" by (rule tok [OF nt]) (rule acct(1))
    show "\<not> IsAdmin (am_heap ?a ! 2)" unfolding acct(2) by (simp add: IsAdmin_def)
    have "io_sha demo_io = rev" by (simp add: demo_io_def)
    then show "verifyPassword (io_sha demo_io) (at_Password (am_heap ?a ! 2)) ''secret''" unfolding acct(2) by (simp add: verify_hashPassword)
  qed
qed

text \<open>
  The restriction of an account to groups does not hold for requests without a group: such a request is always
  allowed, and the pool then serves the first group, which the account may not be allowed to use.
\<close>

theorem group_restriction_bypassed:
  "groupAllowed u [] s \<and> (\<forall>g gs. sn_groups (pl_snap (sv_pool s)) = g # gs \<longrightarrow> Next (sv_pool s) = NextInGroup (gs_name g) (sv_pool s)) \<and>
   (\<exists>u s g gs. sn_groups (pl_snap (sv_pool s)) = g # gs \<and> \<not> groupAllowed u (gs_name g) s)"
proof (intro conjI)
  show "\<forall>g gs. sn_groups (pl_snap (sv_pool s)) = g # gs \<longrightarrow> Next (sv_pool s) = NextInGroup (gs_name g) (sv_pool s)"
    by (auto simp: Next_def NextInGroup_def nextFromGroup_def)
  let ?u = "\<lparr>cl_account = ''bob'', cl_obj = Some ((cfg_acct demo_bob)\<lparr>at_Groups := Some [''x'']\<rparr>)\<rparr>"
  have "sn_groups (pl_snap (sv_pool demo_server)) = [\<lparr>gs_name = ''g'', gs_layers = [demo_layer]\<rparr>]"
    by (simp add: demo_server_def demo_mgr_def demo_pool_def)
  moreover have "\<not> groupAllowed ?u ''g'' demo_server"
    by (simp add: groupAllowed_def Server_findGroup_def demo_server_def demo_group_def IsAdmin_def demo_bob_def CanUseGroup_def)
  ultimately show "\<exists>u s g gs. sn_groups (pl_snap (sv_pool s)) = g # gs \<and> \<not> groupAllowed u (gs_name g) s"
    by (metis groupSnap.select_convs(1))
qed (simp add: groupAllowed_def)

text \<open>
  What a caller who does not own a public provider sees of it is stripped of the tunnel, extraction and feed
  sections, but not of the proxy URLs, which may carry user names and passwords.
\<close>

theorem sanitized_urls_kept:
  "pc_URLs (pi_Config (sanitizeProviderInfo p)) = pc_URLs (pi_Config p) \<and> pc_Tunnel (pi_Config (sanitizeProviderInfo p)) = None"
  by (simp add: sanitizeProviderInfo_def)

text \<open>
  Settings with no theme or no check URL are accepted and put in force, but a restart brings back the defaults; and
  an update whose write fails is answered with an error although the new settings are in force.
\<close>

theorem settings_reverted_by_restart:
  "\<exists>cfg st st' def t. Settings_Update CfgWritten cfg st = (None, st') \<and> NewSettingsStore (ss_file st') (ss_path st') def = Inr t \<and>
     hc_CheckURLs (st_HealthCheck (Settings_Get st')) = [] \<and> hc_CheckURLs (st_HealthCheck (Settings_Get t)) \<noteq> []"
proof -
  let ?cfg = "demo_settings\<lparr>st_HealthCheck := demo_hc\<rparr>"
  have "Settings_Update CfgWritten ?cfg demo_store = (None, demo_store\<lparr>ss_settings := ?cfg, ss_file := SettingsDoc ?cfg, ss_applied := [?cfg]\<rparr>)"
    by (simp add: Settings_Update_def Settings_persist_def demo_store_def demo_settings_def update_health_def demo_hc_def Settings_Get_def Let_def)
  moreover have "NewSettingsStore (SettingsDoc ?cfg) ''s.json'' demo_settings = Inr (demo_store\<lparr>ss_file := SettingsDoc ?cfg, ss_onApply := False\<rparr>)"
    by (simp add: NewSettingsStore_def Settings_load_def demo_store_def merge_settings_def merge_health_def demo_settings_def demo_hc_def Let_def)
  ultimately show ?thesis
    by (intro exI [of _ ?cfg] exI [of _ demo_store] exI [of _ "demo_store\<lparr>ss_settings := ?cfg, ss_file := SettingsDoc ?cfg, ss_applied := [?cfg]\<rparr>"]
        exI [of _ demo_settings] exI [of _ "demo_store\<lparr>ss_file := SettingsDoc ?cfg, ss_onApply := False\<rparr>"])
      (simp add: demo_store_def Settings_Get_def demo_settings_def demo_hc_def)
qed

theorem failed_settings_write_in_force:
  assumes "ss_path st \<noteq> []" "st_SiteName cfg \<noteq> []" "st_ThemeDefault cfg \<in> {[], ''dark'', ''light''}"
  shows "\<exists>st'. Settings_Update CfgOpenFails cfg st = (Some SettingsWriteFails, st') \<and> st_SiteName (Settings_Get st') = st_SiteName cfg \<and>
    ss_file st' = ss_file st \<and> ss_applied st' = ss_applied st"
  using assms by (auto simp: Settings_Update_def Settings_persist_def Settings_Get_def Let_def)

end
