(* ===== verification/Service_Boot.thy ===== *)
theory Service_Boot
  imports Server_Effects
begin

section \<open>Putting the service together (cmd/proxy-pool/main.go)\<close>

text \<open>
  \<^verbatim>\<open>main\<close> from the decoded configuration to the server that is handed to the listener: the data directory, the
  manager with its providers, the alert dispatcher, the first load, the checker, the accounts, the settings,
  the usage store and the gateway. An exit with an error is \<open>Inl\<close>. The components share one \<^verbatim>\<open>persist.File\<close>; each of
  them reads and writes a file of its own in it, so here each has its own copy of the record. The flags, the
  contents of the files and the outcomes of the writes are arguments. The goroutines that \<^verbatim>\<open>main\<close> starts (the tickers
  of the manager, the checker and the monitor, the enrichment) and the standalone listener of the gateway are not
  started here: what they do to the pool are the operations of \<open>run_mgr\<close>.
\<close>

record boot_io =
  bi_mkdir :: bool
  bi_disk :: File
  bi_rng :: rng
  bi_order :: rng
  bi_wProviders :: write_outcome
  bi_wGroups :: write_outcome
  bi_wAccounts :: write_outcome
  bi_env :: "string \<Rightarrow> env"
  bi_alertsFile :: string
  bi_alerts :: cfg_file
  bi_dataDir :: string
  bi_settings :: settings_file
  bi_usageFails :: "string option"

datatype boot_error = BootConfig cfg_error | BootFiles io_error | BootManager mgr_error | BootSettings settings_error | BootUsage string

text \<open>Providers in the file take precedence over the configuration.\<close>

definition boot_providers :: "File option \<Rightarrow> Config \<Rightarrow> Config" where
  "boot_providers fs cfg =
     (if fs = None then cfg
      else case LoadProviders fs of
             Inl e \<Rightarrow> cfg
           | Inr fromFile \<Rightarrow> if length fromFile > 0 then cfg\<lparr>cf_Providers := fromFile\<rparr> else cfg)"

definition boot_alerts :: "boot_io \<Rightarrow> Config \<Rightarrow> Dispatcher" where
  "boot_alerts b cfg =
     (let d = NewDispatcher (cf_Alerts cfg) (bi_alerts b)
      in if bi_alertsFile b \<noteq> [] then snd (LoadFile (SetFile (bi_alertsFile b) d)) else d)"

text \<open>Up to the first load of the providers.\<close>

definition boot_manager :: "boot_io \<Rightarrow> Config \<Rightarrow> (boot_error + Config \<times> File option \<times> Manager) go" where
  "boot_manager b decoded =
     (case Load_decoded decoded of
        Inl e \<Rightarrow> Inr (Inl (BootConfig e))
      | Inr cfg \<Rightarrow>
         let cfg = (if bi_dataDir b \<noteq> [] then cfg\<lparr>cf_DataDir := bi_dataDir b\<rparr> else cfg)
         in case OpenFile (bi_mkdir b) (cf_DataDir cfg) (bi_disk b) of
              Inl e \<Rightarrow> Inr (Inl (BootFiles e))
            | Inr fs \<Rightarrow>
               let cfg = boot_providers fs cfg
               in case NewManager (bi_rng b) cfg of
                    Inl e \<Rightarrow> Inr (Inl (BootManager e))
                  | Inr mgr \<Rightarrow>
                     let mgr = (if fs \<noteq> None
                                then snd (SyncProvidersToStore (bi_order b) (bi_wProviders b) (Manager_AttachStore fs mgr)) else mgr)
                     in bindE (SetGroups (cf_Groups cfg) (mg_pool mgr)) (\<lambda>p.
                          Inr (Inr (cfg, fs, mgr\<lparr>mg_pool := p, mg_AlertEmit := True\<rparr>))))"

text \<open>Accounts in the file take precedence over the configured ones, which seed an empty file.\<close>

definition boot_account_list :: "File option \<Rightarrow> Config \<Rightarrow> AccountCfg list" where
  "boot_account_list fs cfg =
     (if fs = None then cf_Accounts cfg
      else case LoadAccounts fs of
             Inl e \<Rightarrow> cf_Accounts cfg
           | Inr fromFile \<Rightarrow> if length fromFile > 0 then fromFile else cf_Accounts cfg)"

definition boot_accounts :: "boot_io \<Rightarrow> File option \<Rightarrow> Config \<Rightarrow> Server \<Rightarrow> Server" where
  "boot_accounts b fs cfg s =
     (let accounts = boot_account_list fs cfg
      in if length accounts > 0 then
           let am = New accounts;
               am = (if fs \<noteq> None then snd (SyncAll (bi_order b) (bi_wAccounts b) (AttachStore fs am)) else am)
           in AttachAuth (Some am) s
         else s)"

definition settings_path :: "Config \<Rightarrow> string" where
  "settings_path cfg = (if cf_DataDir cfg \<noteq> [] then cf_DataDir cfg @ ''/settings.json'' else [])"

text \<open>The settings are applied to the checker at once; afterwards the hook does it.\<close>

definition boot_settings :: "boot_io \<Rightarrow> Config \<Rightarrow> Checker \<Rightarrow> Server \<Rightarrow> settings_error + Server" where
  "boot_settings b cfg checker s =
     (case NewSettingsStore (bi_settings b) (settings_path cfg) (cf_Settings cfg) of
        Inl e \<Rightarrow> Inl e
      | Inr st \<Rightarrow>
         let st = SetOnApply True st
         in Inr ((AttachSettings (Some st) s)\<lparr>sv_checker := Some (SetConfig (st_HealthCheck (Settings_Get st)) checker)\<rparr>))"

definition boot_gateway :: "Server \<Rightarrow> Server" where
  "boot_gateway s =
     snd (AttachGateway (Some (SetOnUse (sv_usage s \<noteq> None) (New_gateway (sv_pool s) (Some (GroupList s))))) s)"

definition boot :: "boot_io \<Rightarrow> Config \<Rightarrow> (boot_error + Server) go" where
  "boot b decoded =
     bindE (boot_manager b decoded) (\<lambda>r.
       case r of
         Inl e \<Rightarrow> Inr (Inl e)
       | Inr (cfg, fs, mgr) \<Rightarrow>
          bindE (LoadInitial (bi_env b) (bi_order b) mgr) (\<lambda>mgr.
            let checker = NewChecker (cf_HealthCheck cfg);
                s = AttachGroups (cf_Groups cfg) (AttachAlerts (boot_alerts b cfg) (New_server cfg mgr (Some checker)))
            in bindE (if fs \<noteq> None then Server_AttachStore (bi_wGroups b) fs s else Inr s) (\<lambda>s.
                 case boot_settings b cfg checker (boot_accounts b fs cfg s) of
                   Inl e \<Rightarrow> Inr (Inl (BootSettings e))
                 | Inr s \<Rightarrow>
                    if db_Path (cf_DB cfg) \<noteq> [] \<and> bi_usageFails b \<noteq> None then Inr (Inl (BootUsage (the (bi_usageFails b))))
                    else Inr (Inr (boot_gateway (if db_Path (cf_DB cfg) \<noteq> [] then AttachUsage (Some []) s else s))))))"

text \<open>What the hook that \<^verbatim>\<open>main\<close> gives to \<^verbatim>\<open>SetOnApply\<close> does with the settings applied during a request.\<close>

definition run_hooks :: "Server \<Rightarrow> Server" where
  "run_hooks s =
     (case sv_settings s of
        None \<Rightarrow> s
      | Some st \<Rightarrow>
         s\<lparr>sv_checker := map_option (fold (\<lambda>cfg. SetConfig (st_HealthCheck cfg)) (ss_applied st)) (sv_checker s),
           sv_settings := Some (st\<lparr>ss_applied := []\<rparr>)\<rparr>)"

subsection \<open>The invariant of the service\<close>

text \<open>The accounts are well formed, and the checker, now and after the hook, has a positive concurrency.\<close>

definition held :: "Server \<Rightarrow> bool" where
  "held s \<longleftrightarrow> (\<forall>a. sv_auth s = Some a \<longrightarrow> auth_wf a) \<and>
     (\<forall>ck. sv_checker s = Some ck \<longrightarrow> 0 < hc_Concurrency (ck_cfg ck)) \<and>
     (\<forall>st. sv_settings s = Some st \<longrightarrow> list_all (\<lambda>cfg. 0 < hc_Concurrency (st_HealthCheck cfg)) (ss_applied st))"

lemma console_held: "console_same s s' \<Longrightarrow> held s \<Longrightarrow> held s'"
  by (simp add: held_def console_same_def)

lemma held_alerts [simp]: "held (s\<lparr>sv_alerts := d\<rparr>) = held s"
  by (simp add: held_def)

lemma held_simps [simp]: "held (set_pool p s) = held s" "held (s\<lparr>sv_mgr := m\<rparr>) = held s"
  by (simp_all add: held_def set_pool_def)

lemma held_with_alerts: "held s \<Longrightarrow> with_alerts f s = (r, s') \<Longrightarrow> held s'"
  by (auto simp: with_alerts_def split: option.splits prod.splits)

lemma held_with_auth:
  "held s \<Longrightarrow> (\<And>a. auth_wf a \<Longrightarrow> auth_wf (snd (f a))) \<Longrightarrow> with_auth f s = (r, s') \<Longrightarrow> held s'"
  by (fastforce simp: with_auth_def held_def split: option.splits prod.splits)

end
