(* ===== verification/Service_Inv.thy ===== *)
theory Service_Inv
  imports Service_Boot
begin

section \<open>The invariant of the running service\<close>

text \<open>
  Every handler keeps \<open>held\<close>; booting establishes it together with the invariant of the manager; the service as a
  state machine.
\<close>

subsection \<open>Requests\<close>

lemma held_alerts_handlers:
  assumes "held s"
  shows "handleGetAlerts s = (r, s') \<Longrightarrow> held s'" "handleAddWebhook w c s = (r, s') \<Longrightarrow> held s'" "handleUpdateWebhook w c s = (r, s') \<Longrightarrow> held s'"
    "handleRemoveWebhook w c s = (r, s') \<Longrightarrow> held s'" "handleUpdateEmail w c s = (r, s') \<Longrightarrow> held s'"
    "handleUpdateDedup w c s = (r, s') \<Longrightarrow> held s'" "handleUpdateMonitor w c s = (r, s') \<Longrightarrow> held s'"
    "handleUpdateRecover w c s = (r, s') \<Longrightarrow> held s'"
  unfolding handleGetAlerts_def handleAddWebhook_def handleUpdateWebhook_def handleRemoveWebhook_def handleUpdateEmail_def
    handleUpdateDedup_def handleUpdateMonitor_def handleUpdateRecover_def
  by (rule held_with_alerts [OF assms]; assumption)+

lemma auth_reply_wf: "auth_wf (snd x) \<Longrightarrow> auth_wf (snd (auth_reply x))"
  by (auto simp: auth_reply_def split: prod.split option.split)

lemma held_accounts:
  assumes h: "held s" and tok: "io_tok w \<noteq> []"
  shows "handleListAccounts w s = (r, s') \<Longrightarrow> held s'" "handleAddAccount w c s = (r, s') \<Longrightarrow> held s'"
    "handleRemoveAccount w c s = (r, s') \<Longrightarrow> held s'" "handleUpdateAccount w c s = (r, s') \<Longrightarrow> held s'"
proof -
  note a = held_with_auth [OF h]
  show "handleListAccounts w s = (r, s') \<Longrightarrow> held s'" unfolding handleListAccounts_def by (erule a [rotated]) simp
  show "handleAddAccount w c s = (r, s') \<Longrightarrow> held s'" unfolding handleAddAccount_def
    by (erule a [rotated]) (auto simp: Let_def AddAccount_wf tok split: option.split intro!: auth_reply_wf)
  show "handleRemoveAccount w c s = (r, s') \<Longrightarrow> held s'" unfolding handleRemoveAccount_def
    by (erule a [rotated]) (auto intro: auth_reply_wf RemoveAccount_wf)
  show "handleUpdateAccount w c s = (r, s') \<Longrightarrow> held s'" unfolding handleUpdateAccount_def
    by (erule a [rotated]) (auto simp: Let_def UpdateAccount_wf split: option.split intro!: auth_reply_wf)
qed

lemma held_auth: "held s \<Longrightarrow> auth_wf a \<Longrightarrow> held (s\<lparr>sv_auth := Some a\<rparr>)"
  by (simp add: held_def)

lemma held_login:
  assumes h: "held s" and tok: "io_tok w \<noteq> []"
  shows "handleLogin w c s = (r, s') \<Longrightarrow> held s'" "handleRegister w c s = (r, s') \<Longrightarrow> held s'"
proof -
  have wf: "auth_wf (the (sv_auth s))" if "\<not> no_auth s" using h that by (auto simp: held_def no_auth_def split: option.splits)
  have login: "auth_wf a' \<Longrightarrow> Login sha salt x n pw a' = (i, a) \<Longrightarrow> auth_wf a" for a' sha salt x n pw i a
    using Login_wf [of a' sha salt x n pw] by simp
  have add: "auth_wf a' \<Longrightarrow> AddAccount sha salt (io_tok w) x ac a' = (e, a) \<Longrightarrow> auth_wf a" for a' sha salt x ac e a
    using AddAccount_wf [of a' "io_tok w" sha salt x ac] tok by simp
  show "handleLogin w c s = (r, s') \<Longrightarrow> held s'"
    using h wf by (auto simp: handleLogin_def split: if_splits option.splits prod.splits intro!: held_auth dest: login)
  show "handleRegister w c s = (r, s') \<Longrightarrow> held s'"
    using h wf by (auto simp: handleRegister_def Let_def split: if_splits option.splits prod.splits intro!: held_auth dest: add login)
qed

lemma update_applied:
  assumes "Settings_Update w cfg st = (e, st')" "list_all (\<lambda>cfg. 0 < hc_Concurrency (st_HealthCheck cfg)) (ss_applied st)"
  shows "list_all (\<lambda>cfg. 0 < hc_Concurrency (st_HealthCheck cfg)) (ss_applied st')"
proof -
  let ?cfg = "cfg\<lparr>st_HealthCheck := update_health (st_HealthCheck (Settings_Get st)) (st_HealthCheck cfg)\<rparr>"
  have "ss_applied st' = ss_applied st \<or> ss_applied st' = ss_applied st @ [?cfg]"
    using assms(1) by (auto simp: Settings_Update_def Settings_persist_def Let_def split: if_splits cfg_write.splits)
  moreover have "0 < hc_Concurrency (update_health (st_HealthCheck (Settings_Get st)) (st_HealthCheck cfg))"
    by (simp add: update_health_def Let_def)
  ultimately show ?thesis using assms(2) by auto
qed

lemma held_settings:
  assumes h: "held s"
  shows "handleGetSettings s = (r, s') \<Longrightarrow> held s'" "handleUpdateSettings w c s = (r, s') \<Longrightarrow> held s'" "handleUsage w c s = (r, s') \<Longrightarrow> held s'"
proof -
  have upd: "held (s\<lparr>sv_settings := Some st'\<rparr>)" if "sv_settings s = Some st" "Settings_Update x cfg st = (e, st')" for x cfg st st' e
    using h that update_applied [OF that(2)] by (simp add: held_def)
  show "handleGetSettings s = (r, s') \<Longrightarrow> held s'" using h by (auto simp: handleGetSettings_def split: option.splits)
  show "handleUpdateSettings w c s = (r, s') \<Longrightarrow> held s'"
    using h upd by (auto simp: handleUpdateSettings_def split: option.splits sum.splits prod.splits)
  show "handleUsage w c s = (r, s') \<Longrightarrow> held s'" using h by (auto simp: handleUsage_def Let_def split: option.splits sum.splits if_splits)
qed

lemma held_proxies:
  assumes h: "held s"
  shows "handleListProxies s = (r, s') \<Longrightarrow> held s'" "handleRemoveProxy c s = Inr (r, s') \<Longrightarrow> held s'"
    "handleHealthCheck w s = Some (Inr (r, s')) \<Longrightarrow> held s'" "notFound s = (r, s') \<Longrightarrow> held s'"
proof -
  have cfg: "ck_cfg ck' = ck_cfg ck" if "checkAll j n t ck p = Some (Inr (ck', q))" for j n t ck p ck' q
    using that by (auto simp: checkAll_def Let_def bindE_Inr_iff case_prod_unfold split: if_splits)
  show "handleListProxies s = (r, s') \<Longrightarrow> held s'" using h by (auto simp: handleListProxies_def split: prod.splits)
  show "handleRemoveProxy c s = Inr (r, s') \<Longrightarrow> held s'" using h by (auto simp: handleRemoveProxy_def Let_def bindE_Inr_iff split: if_splits)
  show "handleHealthCheck w s = Some (Inr (r, s')) \<Longrightarrow> held s'"
    using h cfg by (auto simp: handleHealthCheck_def bindE_Inr_iff held_def set_pool_def split: option.splits)
  show "notFound s = (r, s') \<Longrightarrow> held s'" using h by (simp add: notFound_def)
qed

text \<open>Every handler.\<close>

lemma routes_held:
  assumes h: "held s" and tok: "io_tok w \<noteq> []"
  shows "list_all (\<lambda>(m, p, x). \<forall>r s'. x = Some (Inr (r, s')) \<longrightarrow> held s') (routes w c u s)"
  unfolding routes_def list.pred_inject prod.case option.inject sum.inject
  by (intro conjI allI impI list.pred_inject(1);
      (rule TrueI | erule consoles [THEN console_held, OF _ h] held_alerts_handlers [OF h] held_accounts [OF h tok] held_login [OF h tok]
        held_settings [OF h] held_proxies [OF h]))

lemma dispatch_held:
  assumes h: "held s" and tok: "io_tok w \<noteq> []" and d: "dispatch w c u s = Some (Inr (r, s'))"
  shows "held s'"
proof -
  have "held s'" if "route w c u s = Some (Inr (r, s'))"
    using that
  proof (rule route_cases)
    fix m p assume "(m, p, Some (Inr (r, s'))) \<in> set (routes w c u s)"
    then show ?thesis using routes_held [OF h tok, of c u] by (auto simp: list_all_iff)
  qed (use h in simp)
  then show ?thesis
    using d unfolding dispatch_def Let_def
    by (auto split: if_splits option.splits intro: consoles [THEN console_held, OF _ h] held_accounts [OF h tok] held_proxies [OF h])
qed

lemma Handler_held:
  assumes h: "held s" and tok: "io_tok w \<noteq> []" and r: "Handler w c s = Some (Inr (r, s'))"
  shows "held s'"
  using r unfolding Handler_def Let_def
  by (elim if_someE sum_someE, simp_all only: option.inject sum.inject)
    (erule consoles [THEN console_held, OF _ h] held_login [OF h tok] dispatch_held [OF h tok] | (use h in \<open>simp; fail\<close>))+

lemma run_hooks_held: "held s \<Longrightarrow> held (run_hooks s)"
proof -
  assume h: "held s"
  have pos: "0 < hc_Concurrency (ck_cfg (fold (\<lambda>cfg. SetConfig (st_HealthCheck cfg)) cfgs ck))"
    if "0 < hc_Concurrency (ck_cfg ck)" "list_all (\<lambda>cfg. 0 < hc_Concurrency (st_HealthCheck cfg)) cfgs" for cfgs ck
    using that by (induction cfgs arbitrary: ck) (auto simp: SetConfig_def Let_def)
  show ?thesis using h pos by (auto simp: run_hooks_def held_def split: option.split)
qed

lemma run_hooks_mgr [simp]: "sv_mgr (run_hooks s) = sv_mgr s"
  by (simp add: run_hooks_def split: option.split)

subsection \<open>Booting\<close>

text \<open>What the first load of the providers relies on: each of them does not panic, and its proxies fit.\<close>

fun loads_ok :: "(string \<Rightarrow> env) \<Rightarrow> string list \<Rightarrow> Manager \<Rightarrow> bool" where
  "loads_ok ev [] m = True"
| "loads_ok ev (n # ns) m = (mgr_ok (MLoad (ev n) n) m \<and> (case load_one (ev n) n m of Inl _ \<Rightarrow> True | Inr t \<Rightarrow> loads_ok ev ns t))"

definition first_loads :: "rng \<Rightarrow> Manager \<Rightarrow> string list" where
  "first_loads r m = map fst (filter (\<lambda>(n, mp). mp_enabled mp) (fst (range_order (mg_provs m) r)))"

definition boot_ok :: "boot_io \<Rightarrow> Config \<Rightarrow> bool" where
  "boot_ok b decoded \<longleftrightarrow>
     (case boot_manager b decoded of
        Inr (Inr (cfg, fs, mgr)) \<Rightarrow>
          loads_ok (bi_env b) (first_loads (bi_order b) mgr) mgr \<and> distinct (map ac_Name (boot_account_list fs cfg)) \<and>
          0 < hc_Concurrency (st_HealthCheck (cf_Settings cfg))
      | _ \<Rightarrow> True)"

text \<open>A load changes neither the configurations of the providers nor the groups of the pool.\<close>

definition same_setup :: "Manager \<Rightarrow> Manager \<Rightarrow> bool" where
  "same_setup m t \<longleftrightarrow> (\<forall>n. ProviderConfig n t = ProviderConfig n m) \<and> pl_groupsCfg (mg_pool t) = pl_groupsCfg (mg_pool m) \<and>
     mg_persist t = mg_persist m \<and> mg_AlertEmit t = mg_AlertEmit m"

lemma same_setup_refl [simp]: "same_setup m m"
  by (simp add: same_setup_def)

lemma Add_groupsCfg: "Add pr p = Inr q \<Longrightarrow> pl_groupsCfg q = pl_groupsCfg p"
  by (auto simp: Add_def Rebuild_def notifyState_def heap_upd_def Let_def bindE_Inr_iff split: option.splits if_splits prod.splits)

lemma addProxies_groupsCfg: "addProxies cfg prs p = Inr q \<Longrightarrow> pl_groupsCfg q = pl_groupsCfg p"
  by (induction prs arbitrary: p) (auto simp: Let_def bindE_Inr_iff dest!: Add_groupsCfg)

lemma load_one_setup:
  assumes "load_one ev n m = Inr t" shows "same_setup m t"
proof (cases "mget (mg_provs m) n")
  case (Some mp)
  obtain r where r: "Provider_Initial ev (mp_provider mp) = Inr r"
    using assms Some by (cases "Provider_Initial ev (mp_provider mp)") (simp_all add: load_one_def)
  show ?thesis
    using assms by (cases r) (auto simp: load_one_def Some r same_setup_def ProviderConfig_def bindE_Inr_iff dest!: addProxies_groupsCfg)
qed (use assms in \<open>simp add: load_one_def\<close>)

lemma loads_run:
  assumes "mgr_wf m" "loads_ok ev ns m"
  shows "\<exists>t. load_list_of ev ns m = Inr t \<and> mgr_wf t \<and> same_setup m t"
  using assms
proof (induction ns arbitrary: m)
  case (Cons n ns)
  obtain t where t: "load_one (ev n) n m = Inr t" "mgr_wf t" using run_mgr_wf [of m "MLoad (ev n) n"] Cons.prems by auto
  obtain u where u: "load_list_of ev ns t = Inr u" "mgr_wf u" "same_setup t u" using Cons.IH [OF t(2)] Cons.prems t(1) by auto
  then have "same_setup m u" using load_one_setup [OF t(1)] by (simp add: same_setup_def)
  then show ?case using t u by simp
qed simp

lemma LoadInitial_run:
  assumes "mgr_wf m" "loads_ok ev (first_loads r m) m"
  shows "\<exists>t. LoadInitial ev r m = Inr t \<and> mgr_wf t \<and> same_setup m t"
  using loads_run [OF assms] by (simp add: LoadInitial_def first_loads_def)

text \<open>The file, when it has entries, wins.\<close>

definition pick :: "'e + 'a list \<Rightarrow> 'a list \<Rightarrow> 'a list" where
  "pick fromFile configured = (case fromFile of Inl e \<Rightarrow> configured | Inr xs \<Rightarrow> if xs = [] then configured else xs)"

lemma new_manager_loop_cfg:
  assumes "new_manager_loop pcs m = Inr t"
  shows "ProviderConfig n t = (case ProviderConfig n m of None \<Rightarrow> entry pc_Name pcs n | Some c \<Rightarrow> Some c) \<and> mg_pool t = mg_pool m"
  using assms
proof (induction pcs arbitrary: m)
  case (Cons pc pcs)
  from Cons.prems obtain p where new: "mget (mg_provs m) (pc_Name pc) = None" "New_provider pc = Inr p"
    and rest: "new_manager_loop pcs (m\<lparr>mg_provs := mput (pc_Name pc) (new_managed p pc) (mg_provs m)\<rparr>) = Inr t"
    by (auto split: if_splits sum.splits)
  from Cons.IH [OF rest] new show ?case by (auto simp: ProviderConfig_def new_managed_def split: option.splits)
qed (simp add: ProviderConfig_def split: option.split)

text \<open>The defaults give every configuration a data directory, so the service always has files.\<close>

definition boot_files :: "boot_io \<Rightarrow> Config \<Rightarrow> File option" where
  "boot_files b cfg = Some ((bi_disk b)\<lparr>fl_dir := (if bi_dataDir b \<noteq> [] then bi_dataDir b else cf_DataDir cfg)\<rparr>)"

lemma Load_dataDir: "Load_decoded c = Inr cfg \<Longrightarrow> cf_DataDir cfg \<noteq> []"
  by (auto simp: Load_decoded_def Validate_Inr applyDefaults_def Let_def) (cases "cf_DataDir c"; simp)

lemma boot_providers_simps [simp]:
  "cf_Groups (boot_providers fs cfg) = cf_Groups cfg" "cf_Accounts (boot_providers fs cfg) = cf_Accounts cfg"
  "cf_Settings (boot_providers fs cfg) = cf_Settings cfg" "cf_DataDir (boot_providers fs cfg) = cf_DataDir cfg"
  "cf_DB (boot_providers fs cfg) = cf_DB cfg" "cf_HealthCheck (boot_providers fs cfg) = cf_HealthCheck cfg"
  by (simp_all add: boot_providers_def split: sum.split)

lemma boot_providers_pick: "fs \<noteq> None \<Longrightarrow> cf_Providers (boot_providers fs cfg) = pick (LoadProviders fs) (cf_Providers cfg)"
  by (auto simp: boot_providers_def pick_def split: sum.splits)

lemma SyncProviders_frame:
  "mg_pool (snd (SyncProvidersToStore r w m)) = mg_pool m" "mg_provs (snd (SyncProvidersToStore r w m)) = mg_provs m"
  by (simp_all add: SyncProvidersToStore_def Let_def case_prod_unfold)

lemma boot_manager_run:
  assumes load: "Load_decoded decoded = Inr cfg0" and r: "boot_manager b decoded = Inr (Inr (cfg, fs, mgr))"
  shows "fs = boot_files b cfg0 \<and> cf_Groups cfg = cf_Groups cfg0 \<and> cf_Accounts cfg = cf_Accounts cfg0 \<and> cf_Settings cfg = cf_Settings cfg0 \<and>
    cf_DataDir cfg \<noteq> [] \<and> mgr_wf mgr \<and> mg_AlertEmit mgr \<and> pl_groupsCfg (mg_pool mgr) = cf_Groups cfg0 \<and>
    (\<forall>n. ProviderConfig n mgr = entry pc_Name (pick (LoadProviders fs) (cf_Providers cfg0)) n)"
proof -
  let ?cfg = "if bi_dataDir b \<noteq> [] then cfg0\<lparr>cf_DataDir := bi_dataDir b\<rparr> else cfg0"
  have dir: "cf_DataDir ?cfg \<noteq> []" using Load_dataDir [OF load] by simp
  have fs: "OpenFile (bi_mkdir b) (cf_DataDir ?cfg) (bi_disk b) = Inr fs" "fs = boot_files b cfg0" "fs \<noteq> None"
    using r dir by (auto simp: boot_manager_def load Let_def OpenFile_def boot_files_def bindE_Inr_iff split: if_splits sum.splits)
  obtain mgr0 where m0: "NewManager (bi_rng b) (boot_providers fs ?cfg) = Inr mgr0"
    using r fs by (cases "NewManager (bi_rng b) (boot_providers fs ?cfg)") (simp_all add: boot_manager_def load Let_def)
  let ?m = "snd (SyncProvidersToStore (bi_order b) (bi_wProviders b) (Manager_AttachStore fs mgr0))"
  have frame: "mg_pool ?m = mg_pool mgr0" "mg_provs ?m = mg_provs mgr0"
    by (simp_all add: SyncProviders_frame Manager_AttachStore_def)
  have grp: "cf_Groups ?cfg = cf_Groups cfg0" by simp
  obtain p where p: "SetGroups (cf_Groups cfg0) (mg_pool mgr0) = Inr p" "cfg = boot_providers fs ?cfg" "mgr = ?m\<lparr>mg_pool := p, mg_AlertEmit := True\<rparr>"
    using r fs(1,3) m0 grp by (auto simp: boot_manager_def load Let_def bindE_Inr_iff frame)
  have wf0: "mgr_wf mgr0" by (rule NewManager_wf [OF m0])
  obtain q where "SetGroups (cf_Groups cfg0) (mg_pool mgr0) = Inr q" "mgr_wf (mgr0\<lparr>mg_pool := q\<rparr>)"
    using pool_call_unit [OF wf0, of "OpSetGroups (cf_Groups cfg0)"] by auto
  then have wf: "mgr_wf mgr" using p(1,3) by (simp add: mgr_wf_def frame)
  have "ProviderConfig n mgr = ProviderConfig n mgr0" for n by (simp add: p(3) ProviderConfig_def frame)
  also have "ProviderConfig n mgr0 = entry pc_Name (cf_Providers (boot_providers fs ?cfg)) n" for n
    using new_manager_loop_cfg [OF m0 [unfolded NewManager_def], of n] by (simp add: ProviderConfig_def)
  finally have "ProviderConfig n mgr = entry pc_Name (pick (LoadProviders fs) (cf_Providers cfg0)) n" for n
    by (simp add: boot_providers_pick [OF fs(3)])
  then show ?thesis using fs(2) p(2,3) wf SetGroups_cfg [OF p(1)] dir by simp
qed

lemma AttachStore_total: "mgr_wf (sv_mgr s) \<Longrightarrow> \<exists>t. Server_AttachStore w fs s = Inr t"
proof -
  assume "mgr_wf (sv_mgr s)"
  then have "\<exists>q. SetGroups gs (sv_pool s) = Inr q" for gs using SetGroups_wf [of "sv_pool s" gs] by (auto simp: mgr_wf_def)
  then have "\<exists>t. bindE (SetGroups gs (sv_pool s)) (\<lambda>p. Inr (f p)) = Inr t" for gs and f :: "Pool \<Rightarrow> Server" by (metis bindE.simps(2))
  then show ?thesis by (cases "LoadGroups fs") (auto simp: Server_AttachStore_def Let_def)
qed

lemma AttachStore_server:
  assumes r: "Server_AttachStore w fs s = Inr t" and fs: "fs \<noteq> None" and wf: "mgr_wf (sv_mgr s)"
    and g: "pl_groupsCfg (sv_pool s) = sv_groups s"
  shows "sv_groups t = pick (LoadGroups fs) (sv_groups s) \<and> pl_groupsCfg (sv_pool t) = sv_groups t \<and> mgr_wf (sv_mgr t) \<and>
    mg_provs (sv_mgr t) = mg_provs (sv_mgr s) \<and> sv_auth t = sv_auth s \<and> sv_settings t = sv_settings s"
proof (cases "\<exists>gs. LoadGroups fs = Inr gs \<and> gs \<noteq> []")
  case True
  then obtain gs where gs: "LoadGroups fs = Inr gs" "gs \<noteq> []" by blast
  obtain q where q: "SetGroups gs (sv_pool s) = Inr q" "mgr_wf ((sv_mgr s)\<lparr>mg_pool := q\<rparr>)"
    using pool_call_unit [OF wf, of "OpSetGroups gs"] by auto
  have "t = set_pool q (s\<lparr>sv_db := fs, sv_groups := gs\<rparr>)" using r gs q(1) fs by (simp add: Server_AttachStore_def Let_def)
  then show ?thesis using q(2) gs SetGroups_cfg [OF q(1)] by (simp add: set_pool_def pick_def)
next
  case False
  then show ?thesis using r fs wf g by (auto simp: Server_AttachStore_def Let_def pick_def split: sum.splits if_splits)
qed

lemma boot_accounts_held:
  assumes "distinct (map ac_Name (boot_account_list fs cfg))" "fs \<noteq> None" "sv_auth s = None"
  shows "(\<forall>a. sv_auth (boot_accounts b fs cfg s) = Some a \<longrightarrow> auth_wf a) \<and> sv_mgr (boot_accounts b fs cfg s) = sv_mgr s \<and>
    sv_groups (boot_accounts b fs cfg s) = sv_groups s \<and> map_option acct_view (sv_auth (boot_accounts b fs cfg s)) =
    (if boot_account_list fs cfg = [] then None else Some (\<lambda>n. map_option with_role (entry ac_Name (boot_account_list fs cfg) n)))"
proof -
  let ?am = "snd (SyncAll (bi_order b) (bi_wAccounts b) (AttachStore fs (New (boot_account_list fs cfg))))"
  have "auth_wf (AttachStore fs (New (boot_account_list fs cfg)))" using New_wf_view [OF assms(1)] by (simp add: AttachStore_def)
  then have "auth_wf ?am" by (rule SyncAll_wf)
  moreover have "acct_view ?am = acct_view (New (boot_account_list fs cfg))"
    by (simp add: SyncAll_def AttachStore_def Let_def case_prod_unfold)
  ultimately show ?thesis using assms New_wf_view [OF assms(1)] by (simp add: boot_accounts_def AttachAuth_def)
qed

lemma boot_settings_held:
  assumes r: "boot_settings b cfg ck s = Inr t" and h: "\<forall>a. sv_auth s = Some a \<longrightarrow> auth_wf a" and pos: "0 < hc_Concurrency (st_HealthCheck (cf_Settings cfg))"
  shows "held t \<and> sv_mgr t = sv_mgr s \<and> sv_auth t = sv_auth s \<and> sv_groups t = sv_groups s"
proof -
  obtain st where st: "NewSettingsStore (bi_settings b) (settings_path cfg) (cf_Settings cfg) = Inr st"
    using r by (cases "NewSettingsStore (bi_settings b) (settings_path cfg) (cf_Settings cfg)") (simp_all add: boot_settings_def)
  have "0 < hc_Concurrency (merge_health d h)" if "0 < hc_Concurrency d" for d h using that by (simp add: merge_health_def Let_def)
  then have "0 < hc_Concurrency (st_HealthCheck (ss_settings st)) \<and> ss_applied st = []"
    using st pos by (auto simp: NewSettingsStore_def Settings_load_def merge_settings_def Let_def split: if_splits settings_file.splits)
  then show ?thesis using r h
    by (auto simp: boot_settings_def st held_def AttachSettings_def SetOnApply_def Settings_Get_def SetConfig_def Let_def)
qed

lemma boot_gateway_frame:
  "held (boot_gateway s) = held s" "sv_mgr (boot_gateway s) = sv_mgr s" "sv_auth (boot_gateway s) = sv_auth s" "sv_groups (boot_gateway s) = sv_groups s"
  "map_option gw_creds (sv_gateway (boot_gateway s)) = Some (gw_creds (New_gateway (sv_pool s) (Some (sv_groups s))))"
  by (simp_all add: boot_gateway_def AttachGateway_def held_def SetOnUse_def GroupList_def)

lemma AttachUsage_frame [simp]:
  "held (AttachUsage u s) = held s" "sv_mgr (AttachUsage u s) = sv_mgr s" "sv_auth (AttachUsage u s) = sv_auth s" "sv_groups (AttachUsage u s) = sv_groups s"
  by (simp_all add: AttachUsage_def held_def)

text \<open>What a started service is like.\<close>

definition started_from :: "File option \<Rightarrow> Config \<Rightarrow> Server \<Rightarrow> bool" where
  "started_from fs cfg s \<longleftrightarrow>
     sv_groups s = pick (LoadGroups fs) (cf_Groups cfg) \<and> pl_groupsCfg (sv_pool s) = sv_groups s \<and>
     map_option gw_creds (sv_gateway s) = Some (gw_creds (New_gateway (sv_pool s) (Some (sv_groups s)))) \<and>
     (\<forall>n. ProviderConfig n (sv_mgr s) = entry pc_Name (pick (LoadProviders fs) (cf_Providers cfg)) n) \<and>
     (let accounts = pick (LoadAccounts fs) (cf_Accounts cfg)
      in map_option acct_view (sv_auth s) = (if accounts = [] then None else Some (\<lambda>n. map_option with_role (entry ac_Name accounts n))))"

lemma boot_account_pick: "fs \<noteq> None \<Longrightarrow> boot_account_list fs cfg = pick (LoadAccounts fs) (cf_Accounts cfg)"
  by (auto simp: boot_account_list_def pick_def split: sum.split)

lemma boot_manager_total: "\<exists>r. boot_manager b decoded = Inr r"
proof -
  have sg: "\<exists>q. SetGroups gs (mg_pool m) = Inr q" if "NewManager r cfg = Inr m" for gs r cfg m
    using SetGroups_wf [of "mg_pool m" gs] NewManager_wf [OF that] by (auto simp: mgr_wf_def)
  have sync: "mg_pool (snd (SyncProvidersToStore r w (Manager_AttachStore fs m))) = mg_pool m" for r w fs m
    by (simp add: SyncProviders_frame Manager_AttachStore_def)
  have bound: "\<exists>x. bindE (SetGroups gs (mg_pool m)) f = Inr x" if "NewManager r cfg = Inr m" "\<And>q. \<exists>x. f q = Inr x" for gs r cfg m and f :: "Pool \<Rightarrow> 'x go"
    using sg [OF that(1), of gs] that(2) by auto
  show ?thesis
    by (auto simp: boot_manager_def Let_def sync split: sum.split intro!: bound)
qed

lemma boot_run:
  assumes load: "Load_decoded decoded = Inr cfg0" and ok: "boot_ok b decoded"
  shows "\<exists>r. boot b decoded = Inr r \<and> (\<forall>s. r = Inr s \<longrightarrow> mgr_wf (sv_mgr s) \<and> held s \<and> started_from (boot_files b cfg0) cfg0 s)"
proof -
  obtain x where x: "boot_manager b decoded = Inr x" using boot_manager_total by blast
  show ?thesis
  proof (cases x)
    case (Inl e)
    then show ?thesis by (simp add: boot_def x)
  next
    case (Inr y)
    obtain cfg fs mgr where y: "y = (cfg, fs, mgr)" by (cases y)
    note bm = boot_manager_run [OF load x [unfolded Inr y]]
    have fs: "fs = boot_files b cfg0" "fs \<noteq> None" using bm by (simp_all add: boot_files_def)
    have ok': "loads_ok (bi_env b) (first_loads (bi_order b) mgr) mgr" "distinct (map ac_Name (boot_account_list fs cfg))"
      "0 < hc_Concurrency (st_HealthCheck (cf_Settings cfg))" using ok by (simp_all add: boot_ok_def x Inr y)
    obtain m where m: "LoadInitial (bi_env b) (bi_order b) mgr = Inr m" "mgr_wf m" "same_setup mgr m"
      using LoadInitial_run [OF _ ok'(1)] bm by blast
    let ?ck = "NewChecker (cf_HealthCheck cfg)"
    let ?s = "AttachGroups (cf_Groups cfg) (AttachAlerts (boot_alerts b cfg) (New_server cfg m (Some ?ck)))"
    have s: "sv_mgr ?s = m" "sv_groups ?s = cf_Groups cfg0" "sv_auth ?s = None" "sv_settings ?s = None"
      using bm by (simp_all add: AttachGroups_def AttachAlerts_def New_server_def)
    have g: "pl_groupsCfg (sv_pool ?s) = sv_groups ?s" using m(3) bm s by (simp add: same_setup_def)
    obtain t where t: "Server_AttachStore (bi_wGroups b) fs ?s = Inr t" using AttachStore_total [of ?s] m(2) s(1) by auto
    note at = AttachStore_server [OF t fs(2) _ g]
    let ?t = "boot_accounts b fs cfg t"
    have "sv_auth t = None" using at m(2) s by simp
    note ac = boot_accounts_held [OF ok'(2) fs(2) this, of b]
    have boot: "boot b decoded = (case boot_settings b cfg ?ck ?t of
        Inl e \<Rightarrow> Inr (Inl (BootSettings e))
      | Inr s \<Rightarrow> if db_Path (cf_DB cfg) \<noteq> [] \<and> bi_usageFails b \<noteq> None then Inr (Inl (BootUsage (the (bi_usageFails b))))
                 else Inr (Inr (boot_gateway (if db_Path (cf_DB cfg) \<noteq> [] then AttachUsage (Some []) s else s))))"
      using fs(2) t by (simp add: boot_def x Inr y m(1) Let_def)
    show ?thesis
    proof (cases "boot_settings b cfg ?ck ?t")
      case (Inl e)
      then show ?thesis by (simp add: boot)
    next
      case (Inr v)
      note se = boot_settings_held [OF Inr conjunct1 [OF ac] ok'(3)]
      let ?v = "boot_gateway (if db_Path (cf_DB cfg) \<noteq> [] then AttachUsage (Some []) v else v)"
      have "ProviderConfig n (sv_mgr ?v) = ProviderConfig n mgr" for n
        using se ac at m(2,3) s(1) by (simp add: boot_gateway_frame ProviderConfig_def same_setup_def)
      moreover have "sv_groups ?v = pick (LoadGroups fs) (cf_Groups cfg0)" "pl_groupsCfg (sv_pool ?v) = sv_groups ?v" "mgr_wf (sv_mgr ?v)" "held ?v"
        using se ac at m(2) s(1,2) by (simp_all add: boot_gateway_frame)
      moreover have "sv_auth ?v = sv_auth ?t" using se by (simp add: boot_gateway_frame)
      then have "map_option acct_view (sv_auth ?v) = (if boot_account_list fs cfg = [] then None
          else Some (\<lambda>n. map_option with_role (entry ac_Name (boot_account_list fs cfg) n)))" using ac by (elim conjE) (simp only:)
      moreover have "boot_account_list fs cfg = pick (LoadAccounts fs) (cf_Accounts cfg0)" using bm fs(2) by (simp add: boot_account_pick)
      moreover have "map_option gw_creds (sv_gateway ?v) = Some (gw_creds (New_gateway (sv_pool ?v) (Some (sv_groups ?v))))" by (simp add: boot_gateway_frame)
      ultimately have "started_from fs cfg0 ?v \<and> mgr_wf (sv_mgr ?v) \<and> held ?v" using bm by (simp add: started_from_def Let_def)
      then have good: "mgr_wf (sv_mgr ?v) \<and> held ?v \<and> started_from (boot_files b cfg0) cfg0 ?v" using fs(1) by simp
      show ?thesis
        unfolding boot Inr sum.case using good by (cases "db_Path (cf_DB cfg) \<noteq> [] \<and> bi_usageFails b \<noteq> None") (simp_all only: if_True if_False, simp_all)
    qed
  qed
qed

subsection \<open>The service as a state machine\<close>

text \<open>What the environment guarantees for a request, without the checker, which the invariant covers.\<close>

definition request_env :: "io \<Rightarrow> Ctx \<Rightarrow> Server \<Rightarrow> bool" where
  "request_env w c s \<longleftrightarrow> request_ok w c (s\<lparr>sv_checker := None\<rparr>) \<and> length (io_tok w) = 16"

text \<open>A started service, a request with the hook it triggers, and an operation of one of the background loops.\<close>

inductive service :: "Server \<Rightarrow> bool" where
  started: "Load_decoded decoded = Inr cfg \<Longrightarrow> boot_ok b decoded \<Longrightarrow> boot b decoded = Inr (Inr s) \<Longrightarrow> service s"
| request: "service s \<Longrightarrow> request_env w c s \<Longrightarrow> Handler w c s = Some (Inr (r, s')) \<Longrightarrow> service (run_hooks s')"
| background: "service s \<Longrightarrow> mgr_ok op (sv_mgr s) \<Longrightarrow> run_mgr op (sv_mgr s) = Inr m \<Longrightarrow> service (s\<lparr>sv_mgr := m\<rparr>)"

inductive_cases serviceE: "service s"

lemma request_env_ok: "request_env w c s \<Longrightarrow> held s \<Longrightarrow> request_ok w c s \<and> io_tok w \<noteq> []"
  by (auto simp: request_env_def request_ok_def held_def)

lemma service_wf: "service s \<Longrightarrow> mgr_wf (sv_mgr s) \<and> held s"
proof (induction rule: service.induct)
  case (started decoded cfg b s)
  then show ?case using boot_run [of decoded cfg b] by auto
next
  case (request s w c r s')
  have ok: "request_ok w c s" "io_tok w \<noteq> []" using request_env_ok [OF request(2)] request.IH by auto
  have "answers (Handler w c s)" using Handler_answers ok request.IH by blast
  then have "mgr_wf (sv_mgr s')" using request(3) by (simp add: answers_def)
  moreover have "held s'" by (rule Handler_held [OF _ ok(2) request(3)]) (use request.IH in simp)
  ultimately show ?case using run_hooks_held by simp
next
  case (background s op m)
  then show ?case using run_mgr_wf [of "sv_mgr s" op] by auto
qed

end
