(* ===== verification/Service_Props.thy ===== *)
theory Service_Props
  imports Service_Inv
begin

section \<open>Properties of the whole service\<close>

text \<open>
  What holds of the composition: the service from its start through any sequence of requests and background work, and what it
  starts with.
\<close>

subsection \<open>A small service for the witnesses\<close>

definition demo_boot :: boot_io where
  "demo_boot =
     \<lparr>bi_mkdir = True, bi_disk = fresh_dir\<lparr>fl_accounts := Doc [demo_bob]\<rparr>, bi_rng = (\<lambda>_. 0), bi_order = (\<lambda>_. 0), bi_wProviders = Written,
      bi_wGroups = Written, bi_wAccounts = Written, bi_env = (\<lambda>_. demo_env), bi_alertsFile = [], bi_alerts = NoFile, bi_dataDir = [],
      bi_settings = SettingsMissing, bi_usageFails = None\<rparr>"

text \<open>The configuration of a file with nothing but a section of settings.\<close>

definition configured :: "Settings \<Rightarrow> Config" where
  "configured st = demo_config\<lparr>cf_Settings := st\<rparr>"

lemma demo_load: "Load_decoded (configured st) = Inr (applyDefaults (configured st))"
proof -
  have "config_ok (applyDefaults (configured st))"
    using demo_config_ok by (simp add: config_ok_def applyDefaults_def configured_def Let_def)
  then show ?thesis by (simp add: Load_decoded_def Validate_complete_aux)
qed

lemma demo_applied:
  "cf_Groups (applyDefaults (configured st)) = []" "cf_Providers (applyDefaults (configured st)) = []" "cf_Accounts (applyDefaults (configured st)) = []"
  "cf_DataDir (applyDefaults (configured st)) = ''data''" "db_Path (cf_DB (applyDefaults (configured st))) = []"
  "hc_IntervalSeconds (st_HealthCheck st) = 0 \<Longrightarrow> hc_Concurrency (st_HealthCheck (cf_Settings (applyDefaults (configured st)))) = 64"
  "hc_IntervalSeconds (st_HealthCheck st) \<noteq> 0 \<Longrightarrow> st_HealthCheck (cf_Settings (applyDefaults (configured st))) = st_HealthCheck st"
  by (simp_all add: applyDefaults_def configured_def demo_config_def defaults_settings_def defaults_health_def Let_def)

abbreviation demo_decoded :: Config where
  "demo_decoded \<equiv> configured (cf_Settings demo_config)"

lemma demo_interval: "hc_IntervalSeconds (st_HealthCheck (cf_Settings demo_config)) = 0"
  by (simp add: demo_config_def)

lemma demo_disk:
  "LoadGroups (boot_files demo_boot cfg) = Inr []" "LoadProviders (boot_files demo_boot cfg) = Inr []"
  "LoadAccounts (boot_files demo_boot cfg) = Inr [demo_bob]"
  by (simp_all add: boot_files_def demo_boot_def fresh_dir_def LoadGroups_def LoadProviders_def LoadAccounts_def loadGroupsLocked_def
      loadProvidersLocked_def loadAccountsLocked_def load_list_def)

lemma demo_boot_manager:
  "\<exists>cfg mgr. boot_manager demo_boot (configured st) = Inr (Inr (cfg, boot_files demo_boot (applyDefaults (configured st)), mgr)) \<and>
     cf_Settings cfg = cf_Settings (applyDefaults (configured st)) \<and> cf_DB cfg = cf_DB (applyDefaults (configured st)) \<and>
     cf_Accounts cfg = [] \<and> cf_Groups cfg = [] \<and> mg_provs mgr = [] \<and> pl_swrr (mg_pool mgr) = [] \<and> sn_groups (pl_snap (mg_pool mgr)) = []"
proof -
  let ?c = "applyDefaults (configured st)" and ?fs = "boot_files demo_boot (applyDefaults (configured st))"
  have fs: "OpenFile True (cf_DataDir ?c) (bi_disk demo_boot) = Inr ?fs" by (simp add: OpenFile_def demo_applied boot_files_def demo_boot_def)
  have bp: "boot_providers ?fs ?c = ?c" by (simp add: boot_providers_def demo_disk split: sum.split)
  let ?m = "\<lparr>mg_pool = NewPool (\<lambda>_. 0), mg_provs = [], mg_persist = None, mg_AlertEmit = False, mg_events = []\<rparr>"
  have nm: "NewManager (\<lambda>_. 0) ?c = Inr ?m" by (simp add: NewManager_def demo_applied)
  obtain q where q: "SetGroups [] (NewPool (\<lambda>_. 0)) = Inr q" "pool_wf q" using SetGroups_wf [OF NewPool_wf] by blast
  have "pl_swrr q = []" using q(1) Rebuild_fields(3) [of "(NewPool (\<lambda>_. 0))\<lparr>pl_groupsCfg := []\<rparr>" q] by (simp add: SetGroups_def NewPool_def)
  moreover have "map gs_name (sn_groups (pl_snap q)) = map gc_Name (pl_groupsCfg q)" using q(2) by (simp add: pool_wf_def)
  then have "sn_groups (pl_snap q) = []" using SetGroups_cfg [OF q(1)] by simp
  ultimately show ?thesis
    using fs bp nm q(1) demo_load demo_applied
    by (simp add: boot_manager_def demo_boot_def [THEN arg_cong, of bi_mkdir] demo_boot_def [THEN arg_cong, of bi_dataDir] demo_boot_def [THEN arg_cong, of bi_rng]
        Let_def SyncProviders_frame Manager_AttachStore_def boot_files_def)
qed

lemma demo_boot_ok: "boot_ok demo_boot demo_decoded"
proof -
  obtain cfg mgr where m: "boot_manager demo_boot demo_decoded = Inr (Inr (cfg, boot_files demo_boot (applyDefaults demo_decoded), mgr))"
    "cf_Settings cfg = cf_Settings (applyDefaults demo_decoded)" "mg_provs mgr = []" using demo_boot_manager [of "cf_Settings demo_config"] by blast
  have "boot_files demo_boot (applyDefaults demo_decoded) \<noteq> None" by (simp add: boot_files_def)
  then show ?thesis
    by (auto simp: boot_ok_def m first_loads_def demo_applied demo_interval boot_account_list_def demo_disk)
qed

lemma demo_started:
  "\<exists>s. boot demo_boot (configured st) = Inr (Inr s) \<and> mg_provs (sv_mgr s) = [] \<and> pl_swrr (sv_pool s) = [] \<and> sn_groups (pl_snap (sv_pool s)) = []"
proof -
  let ?fs = "boot_files demo_boot (applyDefaults (configured st))"
  obtain cfg mgr where m: "boot_manager demo_boot (configured st) = Inr (Inr (cfg, ?fs, mgr))"
    "cf_Settings cfg = cf_Settings (applyDefaults (configured st))" "cf_DB cfg = cf_DB (applyDefaults (configured st))" "mg_provs mgr = []"
    "cf_Groups cfg = []" "pl_swrr (mg_pool mgr) = []" "sn_groups (pl_snap (mg_pool mgr)) = []" using demo_boot_manager by blast
  have l: "LoadInitial e r mgr = Inr mgr" for e r by (simp add: LoadInitial_def m(4) range_order.simps(1))
  have fs: "?fs \<noteq> None" by (simp add: boot_files_def)
  have st: "\<exists>t. boot_settings demo_boot cfg ck s = Inr t \<and> sv_mgr t = sv_mgr s" for ck s
    by (simp add: boot_settings_def NewSettingsStore_def Settings_load_def demo_boot_def Let_def AttachSettings_def)
  let ?s = "AttachGroups (cf_Groups cfg) (AttachAlerts (boot_alerts demo_boot cfg) (New_server cfg mgr (Some (NewChecker (cf_HealthCheck cfg)))))"
  have s: "Server_AttachStore w ?fs ?s = Inr (?s\<lparr>sv_db := ?fs\<rparr>)" for w
    using fs m(5) by (simp add: Server_AttachStore_def demo_disk AttachGroups_def Let_def)
  obtain t where t: "boot_settings demo_boot cfg (NewChecker (cf_HealthCheck cfg)) (boot_accounts demo_boot ?fs cfg (?s\<lparr>sv_db := ?fs\<rparr>)) = Inr t"
    "sv_mgr t = sv_mgr (boot_accounts demo_boot ?fs cfg (?s\<lparr>sv_db := ?fs\<rparr>))" using st by blast
  have "sv_mgr t = mgr"
    by (simp add: t(2) boot_accounts_def AttachAuth_def AttachGroups_def AttachAlerts_def New_server_def Let_def)
  then show ?thesis using fs m t(1) s l by (simp add: boot_def demo_applied Let_def boot_gateway_frame)
qed

lemma demo_service: "boot demo_boot demo_decoded = Inr (Inr s) \<Longrightarrow> service s"
  by (rule service.started [OF demo_load demo_boot_ok])

definition demo_request_io :: io where
  "demo_request_io = demo_io\<lparr>io_tok := ''0123456789abcdef''\<rparr>"

lemma demo_request_env:
  assumes "mg_provs (sv_mgr s) = []" "pl_swrr (sv_pool s) = []" "sn_groups (pl_snap (sv_pool s)) = []"
  shows "request_env demo_request_io (demo_ctx m p t) s"
proof -
  have "selection_room 100 0 (sv_pool s)"
    using assms by (simp add: selection_room_def group_room_def group_cost_def swrr_within_def MaxInt64_def)
  then show ?thesis
    using assms by (auto simp: request_env_def request_ok_def demo_request_io_def demo_ctx_def demo_body_def)
qed

subsection \<open>The running service\<close>



subsection \<open>What the service starts with\<close>



subsection \<open>A section of settings that is only partly filled in\<close>

text \<open>The checker a started service has is the one with the stored settings.\<close>

lemma boot_checker:
  assumes "boot b decoded = Inr (Inr s)"
  shows "\<exists>cfg fs mgr st ck. boot_manager b decoded = Inr (Inr (cfg, fs, mgr)) \<and>
    NewSettingsStore (bi_settings b) (settings_path cfg) (cf_Settings cfg) = Inr st \<and>
    sv_checker s = Some ck \<and> ck_cfg ck = st_HealthCheck (Settings_Get st)"
proof -
  obtain x where x: "boot_manager b decoded = Inr x" using boot_manager_total by blast
  then obtain cfg fs mgr where m: "boot_manager b decoded = Inr (Inr (cfg, fs, mgr))"
    using assms by (cases x) (auto simp: boot_def)
  let ?set = "\<lambda>t. boot_settings b cfg (NewChecker (cf_HealthCheck cfg)) (boot_accounts b fs cfg t)"
  obtain t where t: "(case ?set t of Inl e \<Rightarrow> Inr (Inl (BootSettings e))
      | Inr s \<Rightarrow> if db_Path (cf_DB cfg) \<noteq> [] \<and> bi_usageFails b \<noteq> None then Inr (Inl (BootUsage (the (bi_usageFails b))))
                 else Inr (Inr (boot_gateway (if db_Path (cf_DB cfg) \<noteq> [] then AttachUsage (Some []) s else s)))) = (Inr (Inr s) :: (boot_error + Server) go)"
    using assms unfolding boot_def m bindE_Inr_iff Let_def by (auto simp: bindE_Inr_iff)
  then obtain v where v: "?set t = Inr v" "sv_checker s = sv_checker v"
    by (cases "?set t") (auto simp: boot_gateway_def AttachGateway_def AttachUsage_def split: if_splits)
  then obtain st where "NewSettingsStore (bi_settings b) (settings_path cfg) (cf_Settings cfg) = Inr st"
    by (auto simp: boot_settings_def split: sum.splits)
  then show ?thesis using m v by (auto simp: boot_settings_def SetConfig_def SetOnApply_def Settings_Get_def Let_def)
qed

text \<open>
  The section \<^verbatim>\<open>settings.health_check\<close> is taken as a whole once its interval is set, so a section without a concurrency gives a
  checker without any slot: a request for a health check never returns when the pool has a proxy.
\<close>

theorem partial_health_section_blocks:
  "\<exists>st s. 0 < hc_IntervalSeconds (st_HealthCheck st) \<and> boot demo_boot (configured st) = Inr (Inr s) \<and>
     (\<forall>w p. pl_proxies p \<noteq> [] \<longrightarrow> handleHealthCheck w (set_pool p s) = None)"
proof -
  let ?h = "(st_HealthCheck (cf_Settings demo_config))\<lparr>hc_IntervalSeconds := 10\<rparr>"
  let ?st = "(cf_Settings demo_config)\<lparr>st_HealthCheck := ?h\<rparr>"
  obtain s where s: "boot demo_boot (configured ?st) = Inr (Inr s)" using demo_started by blast
  obtain cfg fs mgr st ck where k: "boot_manager demo_boot (configured ?st) = Inr (Inr (cfg, fs, mgr))"
    "NewSettingsStore (bi_settings demo_boot) (settings_path cfg) (cf_Settings cfg) = Inr st" "sv_checker s = Some ck"
    "ck_cfg ck = st_HealthCheck (Settings_Get st)" using boot_checker [OF s] by blast
  have "cf_Settings cfg = cf_Settings (applyDefaults (configured ?st))" using demo_boot_manager [of ?st] k(1) by auto
  moreover have "Settings_Get st = cf_Settings cfg"
    using k(2) by (auto simp: NewSettingsStore_def Settings_load_def demo_boot_def Settings_Get_def split: if_splits)
  ultimately have "hc_Concurrency (ck_cfg ck) = 0" by (simp add: k(4) demo_applied) (simp add: demo_config_def)
  moreover have "\<exists>as r. All p = (as, p\<lparr>pl_rng := r\<rparr>) \<and> as \<noteq> []" if "pl_proxies p \<noteq> []" for p
    using that All_members [of p] by (auto simp: registered_def)
  ultimately have "handleHealthCheck w (set_pool p s) = None" if "pl_proxies p \<noteq> []" for w p
    using that k(3) by (fastforce simp: handleHealthCheck_def set_pool_def checkAll_def run_checks_def Let_def)
  then show ?thesis using s by (intro exI [of _ ?st] exI [of _ s]) (simp)
qed

end
