(* ===== verification/Service_Loops.thy ===== *)
theory Service_Loops
  imports Service_Inv Alert_Props Geo_Props
begin

section \<open>The background loops\<close>

text \<open>
  The goroutines that \<^verbatim>\<open>main\<close> starts for the checker, the monitor and the enrichment: what they do at their start and at every tick. A ticker panics
  when it is created or reset with an interval that is not positive.
\<close>

definition NewTicker :: "int \<Rightarrow> unit go" where
  "NewTicker d = (if d \<le> 0 then Inl PanicInvalidArgument else Inr ())"

subsection \<open>The checker\<close>

definition Checker_start ::
  "(string \<Rightarrow> string option) \<Rightarrow> (addr \<Rightarrow> int) \<Rightarrow> (addr \<Rightarrow> trial) \<Rightarrow> Checker \<Rightarrow> Pool \<Rightarrow> (int \<times> Checker \<times> Pool) go option" where
  "Checker_start json now tr c p =
     (let (interval, p) = minInterval c p
      in case NewTicker interval of
           Inl e \<Rightarrow> Some (Inl e)
         | Inr _ \<Rightarrow> map_option (\<lambda>r. bindE r (\<lambda>(c, p). Inr (interval, c, p))) (checkAll json now tr c p))"

definition Checker_tick ::
  "(string \<Rightarrow> string option) \<Rightarrow> int \<Rightarrow> (addr \<Rightarrow> trial) \<Rightarrow> int \<times> Checker \<times> Pool \<Rightarrow> (int \<times> Checker \<times> Pool) go option" where
  "Checker_tick json now tr s =
     (let (interval, c, p) = s
      in map_option (\<lambda>r. bindE r (\<lambda>(c, p).
           let (d, p) = minInterval c p
           in if d \<noteq> interval then bindE (NewTicker d) (\<lambda>_. Inr (d, c, p)) else Inr (interval, c, p))) (checkDue json now tr c p))"

text \<open>The start and a number of ticks.\<close>

fun Checker_ticks ::
  "(string \<Rightarrow> string option) \<Rightarrow> (int \<times> (addr \<Rightarrow> trial)) list \<Rightarrow> int \<times> Checker \<times> Pool \<Rightarrow> (int \<times> Checker \<times> Pool) go option" where
  "Checker_ticks json [] s = Some (Inr s)"
| "Checker_ticks json ((now, tr) # ts) s =
     (case Checker_tick json now tr s of
        None \<Rightarrow> None
      | Some (Inl e) \<Rightarrow> Some (Inl e)
      | Some (Inr t) \<Rightarrow> Checker_ticks json ts t)"

definition Checker_Run ::
  "(string \<Rightarrow> string option) \<Rightarrow> (addr \<Rightarrow> int) \<Rightarrow> (addr \<Rightarrow> trial) \<Rightarrow> (int \<times> (addr \<Rightarrow> trial)) list \<Rightarrow> Checker \<Rightarrow> Pool \<Rightarrow>
   (int \<times> Checker \<times> Pool) go option" where
  "Checker_Run json now tr ts c p =
     (case Checker_start json now tr c p of
        None \<Rightarrow> None
      | Some (Inl e) \<Rightarrow> Some (Inl e)
      | Some (Inr s) \<Rightarrow> Checker_ticks json ts s)"

subsection \<open>The monitor\<close>

definition Monitor_tick ::
  "rng \<Rightarrow> (string \<Rightarrow> int) \<Rightarrow> (string \<Rightarrow> env) \<Rightarrow> ProviderMonitor \<times> Dispatcher \<times> Manager \<Rightarrow>
   (Event list \<times> (int \<times> string) list \<times> ProviderMonitor \<times> Dispatcher \<times> Manager) go" where
  "Monitor_tick r clk ev s = bindE (NewTicker (effectiveInterval (fst (snd s)))) (\<lambda>_. check r clk ev s)"

subsection \<open>The enrichment\<close>

definition enrich_interval :: "int \<Rightarrow> int" where
  "enrich_interval secs = (let interval = i64 (secs * 1000000000) in if interval \<le> 0 then 60000000000 else interval)"

text \<open>The loop over a number of ticks, with the outcomes of their requests; without a client nothing is done.\<close>

fun enrich_ticks :: "geo_reply list \<Rightarrow> Client \<Rightarrow> Manager \<Rightarrow> (Manager \<times> Client) go" where
  "enrich_ticks [] c m = Inr (m, c)"
| "enrich_ticks (reply # replies) c m = bindE (enrich_tick reply c m) (\<lambda>(m, c). enrich_ticks replies c m)"

definition EnrichCountries :: "int \<Rightarrow> geo_reply list \<Rightarrow> Client option \<Rightarrow> Manager \<Rightarrow> (Manager \<times> Client option) go" where
  "EnrichCountries secs replies geo m =
     (case geo of
        None \<Rightarrow> Inr (m, None)
      | Some c \<Rightarrow>
         bindE (NewTicker (enrich_interval secs)) (\<lambda>_.
           bindE (enrich_ticks replies c m) (\<lambda>(m, c). Inr (m, Some c))))"

subsection \<open>The checker keeps running\<close>

lemma min_interval_loop_le: "0 < m \<Longrightarrow> 0 < min_interval_loop h m as \<and> min_interval_loop h m as \<le> m"
proof (induction as arbitrary: m)
  case (Cons a as)
  from Cons.prems show ?case using Cons.IH [of "px_CheckIntervalMS (h a)"] Cons.IH [of m] by (simp, linarith)
qed simp

lemma minInterval_bounds:
  assumes "- 9223372036 \<le> hc_IntervalSeconds (ck_cfg c)" "hc_IntervalSeconds (ck_cfg c) \<le> 9223372036" "minInterval c p = (d, q)"
  shows "1000000000 \<le> d \<and> d \<le> max 60000000000 (hc_IntervalSeconds (ck_cfg c) * 1000000000) \<and> (\<exists>r. q = p\<lparr>pl_rng := r\<rparr>)"
proof -
  let ?s = "hc_IntervalSeconds (ck_cfg c)"
  obtain as r where all: "All p = (as, p\<lparr>pl_rng := r\<rparr>)" using All_rng by blast
  have i: "i64 (?s * 1000) = ?s * 1000" using assms(1,2) by (simp add: i64_id MinInt64_def MaxInt64_def)
  define m where "m = (if ?s * 1000 \<le> 0 then 60000 else ?s * 1000)"
  have m: "0 < m" "m \<le> max 60000 (?s * 1000)" "m \<le> 9223372036000" using assms(2) by (auto simp: m_def)
  define l where "l = min_interval_loop (pl_heap p) m as"
  have l: "0 < l" "l \<le> m" using min_interval_loop_le [OF m(1)] by (simp_all add: l_def)
  define k where "k = (if l < 1000 then 1000 else l)"
  have k: "1000 \<le> k" "k \<le> max 60000 (?s * 1000)" "k \<le> 9223372036000" using l m by (auto simp: k_def)
  have "minInterval c p = (i64 (k * 1000000), p\<lparr>pl_rng := r\<rparr>)"
    by (simp add: minInterval_def i all k_def l_def m_def Let_def)
  moreover have "i64 (k * 1000000) = k * 1000000" using k by (simp add: i64_id MinInt64_def MaxInt64_def)
  ultimately show ?thesis using assms(3) k by auto
qed

definition checker_ok :: "Checker \<Rightarrow> bool" where
  "checker_ok c \<longleftrightarrow> 0 < hc_Concurrency (ck_cfg c) \<and> - 9223372036 \<le> hc_IntervalSeconds (ck_cfg c) \<and> hc_IntervalSeconds (ck_cfg c) \<le> 9223372036"

text \<open>A round on the pool of a manager.\<close>

lemma rounds_run:
  assumes "mgr_wf m" "checker_ok c"
  shows "\<exists>lst q. checkDue json now tr c (mg_pool m) = Some (Inr (c\<lparr>ck_lastCheck := lst\<rparr>, q)) \<and> mgr_wf (m\<lparr>mg_pool := q\<rparr>)"
    and "\<exists>lst q. checkAll json nows tr c (mg_pool m) = Some (Inr (c\<lparr>ck_lastCheck := lst\<rparr>, q)) \<and> mgr_wf (m\<lparr>mg_pool := q\<rparr>)"
proof -
  obtain as r where all: "All (mg_pool m) = (as, (mg_pool m)\<lparr>pl_rng := r\<rparr>)" using All_rng by blast
  let ?m = "m\<lparr>mg_pool := (mg_pool m)\<lparr>pl_rng := r\<rparr>\<rparr>"
  have wf: "mgr_wf ?m" by (rule mgr_rng [OF assms(1)])
  have run: "\<exists>q. run_checks json (ck_cfg c) tr xs (mg_pool ?m) = Some (Inr q) \<and> mgr_wf (m\<lparr>mg_pool := q\<rparr>)" for xs
    using check_list_mgr [OF wf, of json "ck_cfg c" tr xs] assms(2) by (auto simp: run_checks_def checker_ok_def)
  have same: "c\<lparr>ck_lastCheck := ck_lastCheck c\<rparr> = c" by simp
  obtain due lst where due: "due_loop now (ck_cfg c) (pl_heap (mg_pool m)) (ck_lastCheck c) as = (due, lst)" by fastforce
  show "\<exists>lst q. checkDue json now tr c (mg_pool m) = Some (Inr (c\<lparr>ck_lastCheck := lst\<rparr>, q)) \<and> mgr_wf (m\<lparr>mg_pool := q\<rparr>)"
  proof (cases "as = []")
    case True
    then show ?thesis using wf all by (intro exI [of _ "ck_lastCheck c"] exI [of _ "mg_pool ?m"]) (simp add: checkDue_def)
  next
    case False
    then show ?thesis using run [of due] all due by (auto simp: checkDue_def Let_def)
  qed
  show "\<exists>lst q. checkAll json nows tr c (mg_pool m) = Some (Inr (c\<lparr>ck_lastCheck := lst\<rparr>, q)) \<and> mgr_wf (m\<lparr>mg_pool := q\<rparr>)"
  proof (cases "as = []")
    case True
    then show ?thesis using wf all by (intro exI [of _ "ck_lastCheck c"] exI [of _ "mg_pool ?m"]) (simp add: checkAll_def)
  next
    case False
    then show ?thesis using run [of as] all by (auto simp: checkAll_def Let_def)
  qed
qed

definition interval_ok :: "Checker \<Rightarrow> int \<Rightarrow> bool" where
  "interval_ok c d \<longleftrightarrow> 1000000000 \<le> d \<and> d \<le> max 60000000000 (hc_IntervalSeconds (ck_cfg c) * 1000000000)"

lemma minInterval_mgr:
  assumes "mgr_wf (m\<lparr>mg_pool := p\<rparr>)" "checker_ok c" "minInterval c p = (d, q)"
  shows "mgr_wf (m\<lparr>mg_pool := q\<rparr>) \<and> interval_ok c d \<and> NewTicker d = Inr ()"
proof -
  obtain r where q: "q = p\<lparr>pl_rng := r\<rparr>" and d: "interval_ok c d"
    using minInterval_bounds [OF _ _ assms(3)] assms(2) by (auto simp: checker_ok_def interval_ok_def)
  show ?thesis using mgr_rng [OF assms(1), of r] q d by (simp add: interval_ok_def NewTicker_def)
qed

lemma tick_run:
  assumes "mgr_wf (m\<lparr>mg_pool := p\<rparr>)" "checker_ok c" "interval_ok c d"
  shows "\<exists>d' lst q. Checker_tick json now tr (d, c, p) = Some (Inr (d', c\<lparr>ck_lastCheck := lst\<rparr>, q)) \<and> mgr_wf (m\<lparr>mg_pool := q\<rparr>) \<and> interval_ok c d'"
proof -
  obtain lst q where q: "checkDue json now tr c p = Some (Inr (c\<lparr>ck_lastCheck := lst\<rparr>, q))" "mgr_wf (m\<lparr>mg_pool := q\<rparr>)"
    using rounds_run(1) [OF assms(1,2), where json = json and now = now and tr = tr] by auto
  obtain e u where e: "minInterval (c\<lparr>ck_lastCheck := lst\<rparr>) q = (e, u)" by fastforce
  have "mgr_wf (m\<lparr>mg_pool := u\<rparr>) \<and> interval_ok c e \<and> NewTicker e = Inr ()"
    using minInterval_mgr [OF q(2) _ e] assms(2) by (simp add: checker_ok_def interval_ok_def)
  then show ?thesis using q(1) e assms(3) by (cases "e = d") (auto simp: Checker_tick_def)
qed

lemma ticks_run:
  assumes "mgr_wf (m\<lparr>mg_pool := p\<rparr>)" "checker_ok c" "interval_ok c d"
  shows "\<exists>d' lst q. Checker_ticks json ts (d, c, p) = Some (Inr (d', c\<lparr>ck_lastCheck := lst\<rparr>, q)) \<and> mgr_wf (m\<lparr>mg_pool := q\<rparr>) \<and> interval_ok c d'"
  using assms
proof (induction ts arbitrary: d c p)
  case Nil
  then show ?case by (intro exI [of _ d] exI [of _ "ck_lastCheck c"] exI [of _ p]) simp
next
  case (Cons x ts)
  obtain now tr where x: "x = (now, tr)" by (cases x)
  obtain d1 lst q where t: "Checker_tick json now tr (d, c, p) = Some (Inr (d1, c\<lparr>ck_lastCheck := lst\<rparr>, q))" "mgr_wf (m\<lparr>mg_pool := q\<rparr>)" "interval_ok c d1"
    using tick_run [OF Cons.prems] by blast
  have "checker_ok (c\<lparr>ck_lastCheck := lst\<rparr>)" "interval_ok (c\<lparr>ck_lastCheck := lst\<rparr>) d1"
    using Cons.prems(2) t(3) by (simp_all add: checker_ok_def interval_ok_def)
  from Cons.IH [OF t(2) this] t(1) show ?case by (auto simp: x interval_ok_def)
qed



subsection \<open>The enrichment keeps running\<close>

text \<open>At most a missing country is filled in.\<close>

definition only_country :: "Proxy \<Rightarrow> Proxy \<Rightarrow> bool" where
  "only_country pr pr' \<longleftrightarrow> pr' = pr \<or> px_Country pr = [] \<and> pr' = pr\<lparr>px_Country := px_Country pr'\<rparr>"

lemma only_country_refl [simp]: "only_country pr pr"
  by (simp add: only_country_def)

lemma only_country_trans: "only_country a b \<Longrightarrow> only_country b c \<Longrightarrow> only_country a c"
proof -
  assume "only_country a b" "only_country b c"
  then consider "c = b" "only_country a b" | "b = a" "only_country a c"
    | "px_Country a = []" "b = a\<lparr>px_Country := px_Country b\<rparr>" "c = b\<lparr>px_Country := px_Country c\<rparr>"
    unfolding only_country_def by blast
  then show ?thesis
  proof cases
    case 3
    have "b\<lparr>px_Country := px_Country c\<rparr> = a\<lparr>px_Country := px_Country c\<rparr>" by (subst 3(2)) simp
    then show ?thesis using 3(1,3) by (simp add: only_country_def)
  qed auto
qed

lemma tick_only_country:
  assumes "mgr_wf m"
  shows "\<exists>t c'. enrich_tick reply c m = Inr (t, c') \<and> mgr_wf t \<and> (\<forall>k. Get k (mg_pool t) = Get k (mg_pool m)) \<and>
    (\<forall>k a. Get k (mg_pool m) = Some a \<longrightarrow> only_country (pl_heap (mg_pool m) a) (pl_heap (mg_pool t) a))"
proof -
  obtain t c' where t: "enrich_tick reply c m = Inr (t, c')" "mgr_wf t" "\<forall>k. Get k (mg_pool t) = Get k (mg_pool m)"
    "\<forall>k a. Get k (mg_pool m) = Some a \<longrightarrow> pl_heap (mg_pool t) a =
       (let pr = pl_heap (mg_pool m) a in if px_Country pr = [] then pr\<lparr>px_Country := country_of reply (unlocated m) c (px_Host pr)\<rparr> else pr)"
    using enrich_tick_spec [OF assms, of reply c] by blast
  have "only_country (pl_heap (mg_pool m) a) (pl_heap (mg_pool t) a)" if "Get k (mg_pool m) = Some a" for k a
    unfolding t(4) [rule_format, OF that] Let_def by (simp add: only_country_def)
  then show ?thesis using t(1-3) by blast
qed

lemma ticks_only_country:
  assumes "mgr_wf m"
  shows "\<exists>t c'. enrich_ticks replies c m = Inr (t, c') \<and> mgr_wf t \<and> (\<forall>k. Get k (mg_pool t) = Get k (mg_pool m)) \<and>
    (\<forall>k a. Get k (mg_pool m) = Some a \<longrightarrow> only_country (pl_heap (mg_pool m) a) (pl_heap (mg_pool t) a))"
  using assms
proof (induction replies arbitrary: c m)
  case (Cons reply replies)
  obtain t c1 where t: "enrich_tick reply c m = Inr (t, c1)" "mgr_wf t" "\<forall>k. Get k (mg_pool t) = Get k (mg_pool m)"
    "\<forall>k a. Get k (mg_pool m) = Some a \<longrightarrow> only_country (pl_heap (mg_pool m) a) (pl_heap (mg_pool t) a)"
    using tick_only_country [OF Cons.prems] by blast
  obtain u c2 where u: "enrich_ticks replies c1 t = Inr (u, c2)" "mgr_wf u" "\<forall>k. Get k (mg_pool u) = Get k (mg_pool t)"
    "\<forall>k a. Get k (mg_pool t) = Some a \<longrightarrow> only_country (pl_heap (mg_pool t) a) (pl_heap (mg_pool u) a)"
    using Cons.IH [OF t(2)] by blast
  have "only_country (pl_heap (mg_pool m) a) (pl_heap (mg_pool u) a)" if "Get k (mg_pool m) = Some a" for k a
    using t(3,4) u(4) that by (metis only_country_trans)
  then show ?case using t(1,3) u(1-3) by simp
qed simp

text \<open>
  The enrichment, whatever its interval is configured to be and however its requests end, does not panic; it only fills in countries
  of proxies that have none.
\<close>

theorem enrichment_keeps_running:
  assumes "mgr_wf m"
  shows "\<exists>t c'. EnrichCountries secs replies geo m = Inr (t, c') \<and> mgr_wf t \<and> (\<forall>k. Get k (mg_pool t) = Get k (mg_pool m)) \<and>
    (\<forall>k a. Get k (mg_pool m) = Some a \<longrightarrow> only_country (pl_heap (mg_pool m) a) (pl_heap (mg_pool t) a))"
proof -
  have tick: "NewTicker (enrich_interval secs) = Inr ()" by (simp add: enrich_interval_def NewTicker_def Let_def)
  show ?thesis
  proof (cases geo)
    case None
    then show ?thesis using assms by (simp add: EnrichCountries_def)
  next
    case (Some c)
    obtain t c' where "enrich_ticks replies c m = Inr (t, c')" "mgr_wf t" "\<forall>k. Get k (mg_pool t) = Get k (mg_pool m)"
      "\<forall>k a. Get k (mg_pool m) = Some a \<longrightarrow> only_country (pl_heap (mg_pool m) a) (pl_heap (mg_pool t) a)"
      using ticks_only_country [OF assms] by blast
    then show ?thesis by (intro exI [of _ t] exI [of _ "Some c'"]) (simp add: EnrichCountries_def Some tick)
  qed
qed

subsection \<open>Intervals that do not fit\<close>

text \<open>
  An interval of more than 292 years is accepted and becomes negative when it is converted to a duration: the next tick of the monitor
  panics, which ends the process. The same holds for the interval of the health checks.
\<close>

theorem monitor_interval_crashes:
  "\<exists>d'. UpdateMonitorSeconds CfgWritten 9223372037 d = (None, d') \<and> Monitor_tick r clk ev (m, d', g) = Inl PanicInvalidArgument"
  by (auto simp: UpdateMonitorSeconds_def persist_cfg_def Monitor_tick_def effectiveInterval_def GetConfig_def NewTicker_def i64_def)

theorem check_interval_crashes:
  assumes "hc_IntervalSeconds (ck_cfg c) = 9223372037" "pl_proxies p = []"
  shows "Checker_start json now tr c p = Some (Inl PanicInvalidArgument)"
  using assms by (simp add: Checker_start_def minInterval_def All_def NewTicker_def i64_def Let_def)

end
