(* ===== verification/Spec2Isabelle.thy ===== *)
theory Spec2Isabelle
  imports Config_Props Persist_Props Auth_Props Provider_Props Pool_Props Pool_Effects Pool_Sessions Health_Props Manager_Props Alert_Props Alert_Send Gateway_Props Geo_Props Usage_Props Service_Props Service_Loops
begin

text \<open>
  A verification development for the proxy gateway: a Go service that keeps a pool of upstream proxies
  fetched from providers, checks their health, and hands them out to clients over HTTP and through a
  forwarding gateway.

  \<^bold>\<open>The parts and how they interact.\<close> \<^verbatim>\<open>internal/config\<close> loads and validates the configuration.
  \<^verbatim>\<open>internal/provider\<close> turns what a provider's endpoint answers into proxies (\<^verbatim>\<open>internal/model\<close>).
  \<^verbatim>\<open>internal/pool/manager.go\<close> owns the providers: it loads, refreshes, reconfigures and removes them and
  puts their proxies into the pool of \<^verbatim>\<open>internal/pool/pool.go\<close>, which schedules them by groups, tiers,
  weights, latency and sessions. \<^verbatim>\<open>internal/health\<close> probes the proxies of the pool and reports successes
  and failures to it. \<^verbatim>\<open>internal/auth\<close> keeps the accounts of the console; accounts, providers and groups
  are written to files by \<^verbatim>\<open>internal/persist\<close>. \<^verbatim>\<open>internal/gateway\<close> authenticates clients by the credentials of a
  group and relays their requests and tunnels through proxies of the group. \<^verbatim>\<open>internal/alert\<close> watches the providers
  and sends alerts. \<^verbatim>\<open>internal/server\<close> is the HTTP server of the console: it authorizes requests and calls all the
  others. \<^verbatim>\<open>internal/geo\<close> finds the countries of proxies, \<^verbatim>\<open>internal/store\<close> records which proxies were handed out, and
  \<^verbatim>\<open>cmd/proxy-pool\<close> puts the parts together.

  \<^bold>\<open>How Go is modelled\<close> (\<open>Go_Prelude\<close>, \<open>Go_Runtime\<close>, \<open>Go_Float\<close>, \<open>Go_Strings\<close>, \<open>Go_Encoding\<close>,
  \<open>Go_Http\<close>).
  \<^item> A function that may panic returns \<^typ>\<open>'a go\<close>, with \<open>Inl\<close> a panic; every indexed read, nil dereference
    and invalid argument of the source is a branch. Errors are values of datatypes, one per component.
  \<^item> \<^verbatim>\<open>int\<close>, \<^verbatim>\<open>int32\<close> and \<^verbatim>\<open>int64\<close> are integers with the wrap-around written out (\<open>i32\<close>, \<open>i64\<close>) where the
    source computes; \<^verbatim>\<open>float64\<close> is modelled with its rounding. Times are nanoseconds.
  \<^item> Go maps are association lists with distinct keys (locale \<open>finite_map\<close>, interpreted on them). The order
    of a \<^verbatim>\<open>range\<close> loop is a permutation chosen by a stream of numbers in the state, and the theorems hold for
    every stream; the same stream answers \<^verbatim>\<open>math/rand\<close>.
  \<^item> Proxies and accounts that several indexes share are addresses into an explicit heap.
  \<^item> Code that is not in the repository is an argument: HTTP answers, JSON decoding of a body, the digest
    and random bytes of passwords and tokens, the outcome of a file write, the database of the usage store.

  \<^bold>\<open>Theories and sources.\<close>
  \<^item> \<open>Proxy_Model\<close>: \<^verbatim>\<open>model/proxy.go\<close>. \<open>Config_Model\<close>, \<open>Config_Validate\<close>: the records, \<^verbatim>\<open>applyDefaults\<close> and
    \<^verbatim>\<open>Validate\<close> of \<^verbatim>\<open>config/config.go\<close>; \<open>Config_Props\<close>: a loaded configuration is exactly one that meets
    the conditions the other components rely on, and loading it again changes nothing.
  \<^item> \<open>Pool_Snapshot\<close>, \<open>Pool_Rebuild\<close>, \<open>Pool_Select\<close>, \<open>Pool_Ops\<close>: \<^verbatim>\<open>pool/pool.go\<close>, from the immutable snapshot and
    its construction to the selections and the operations. \<open>Swrr_Fair\<close>, \<open>Pool_Swrr\<close>: smooth weighted
    round-robin as an abstract algorithm, its fairness, and that the code refines it. \<open>Pool_Inv\<close>,
    \<open>Pool_Next\<close>, \<open>Pool_Machine\<close>: the invariant \<open>pool_wf\<close>, that every operation keeps it and does not panic,
    and the pool as a state machine. \<open>Pool_Props\<close>, \<open>Pool_Effects\<close>, \<open>Pool_Sessions\<close>: the properties.
  \<^item> \<open>Persist_File\<close>, \<open>Persist_Props\<close>: \<^verbatim>\<open>persist/file.go\<close>; the three files are one development (locale
    \<open>named_store\<close>) interpreted for accounts, providers and groups: they refine finite maps, and a failed
    write changes nothing.
  \<^item> \<open>Auth_Accounts\<close>, \<open>Auth_Inv\<close>, \<open>Auth_Props\<close>: \<^verbatim>\<open>auth/auth.go\<close>; the two indexes, the shared account objects and
    the file; tokens, logins, and that accounts survive a restart.
  \<^item> \<open>Provider_Sources\<close>, \<open>Provider_Props\<close>: \<^verbatim>\<open>provider/*.go\<close>; the four kinds of provider and the URL parser.
  \<^item> \<open>Health_Checker\<close>, \<open>Health_Props\<close>: \<^verbatim>\<open>health/checker.go\<close>; the verdict of a check, the spacing of checks, and
    rounds under every schedule of their goroutines.
  \<^item> \<open>Pool_Manager\<close>, \<open>Manager_Inv\<close>, \<open>Manager_Step\<close>, \<open>Manager_Props\<close>: \<^verbatim>\<open>pool/manager.go\<close>; the life cycle of
    providers on top of the pool, the providers and the file. The invariant \<open>mgr_wf\<close> spans the components:
    whatever the manager and the other users of the pool do, every proxy belongs to a registered
    provider.

  \<^item> \<open>Alert_Dispatcher\<close>, \<open>Alert_Monitor\<close>, \<open>Alert_Props\<close>: \<^verbatim>\<open>alert/alert.go\<close> and \<^verbatim>\<open>alert/monitor.go\<close>; the dispatcher refines a
    specification of suppression, the monitor (locale \<open>manager_provider\<close> for what it needs of the manager)
    reports every change of a provider once and spaces its recovery attempts. \<open>Alert_Send\<close>: the webhook requests and the exchange
    with the mail server.
  \<^item> \<open>Gateway_Forward\<close>: \<^verbatim>\<open>gateway/gateway.go\<close>; \<open>Pool_Room\<close>: how many selections the round-robin weights have room for;
    \<open>Gateway_Relay\<close>: the contract of a relay (locale \<open>hop_relay\<close>, interpreted on plain requests and on tunnels) and
    the retry loop on top of it; \<open>Gateway_Props\<close>: authentication, retries, what an upstream gets to see, and the
    direct address.
  \<^item> \<open>Server_Settings\<close>: \<^verbatim>\<open>server/settings.go\<close>. \<open>Server_State\<close>, \<open>Server_Handlers\<close>, \<open>Server_Admin\<close>: \<^verbatim>\<open>server/server.go\<close>; the state
    of the server, access control, one definition per handler, and the router \<open>Handler\<close>. \<open>Server_Safety\<close>: what a
    request can change; \<open>Server_Total\<close>, \<open>Server_Run\<close>: that every request is answered; \<open>Server_Props\<close>, \<open>Server_Effects\<close>: complete
    mediation, confinement of ordinary accounts, totality, and the effects of the requests.
  \<^item> \<open>Go_Net\<close>, \<open>Geo_Client\<close>, \<open>Geo_Props\<close>: \<^verbatim>\<open>geo/geo.go\<close>; IP addresses, the cache and the batch request, and a tick of the enrichment
    of the manager with this client.
  \<^item> \<open>Usage_Store\<close>, \<open>Usage_Props\<close>: \<^verbatim>\<open>store/store.go\<close>; recording, the worker and closing as steps in any order, the reports, and that
    the table has the recorded calls. The database is an argument; \<open>table_laws\<close> states what its statements mean and \<open>row_db\<close> satisfies it.
  \<^item> \<open>Service_Boot\<close>, \<open>Service_Inv\<close>, \<open>Service_Props\<close>: \<^verbatim>\<open>cmd/proxy-pool/main.go\<close>; the start of the service, the started service with its
    requests and background operations as a state machine (\<open>service\<close>), and its invariant. \<open>Service_Loops\<close>: the loops of the
    checker, the monitor and the enrichment.

  \<^bold>\<open>Concurrency.\<close> Each method of the pool, the accounts and the store runs under its lock and is one step;
  \<open>reachable\<close>, \<open>auth_reachable\<close> and \<open>mgr_reachable\<close> are the states after any sequence of steps. A
  round of health checks is any interleaving of the steps of its goroutines. An operation of the
  manager that makes several calls to the pool is one step here: interleavings inside it are not covered,
  except where a theorem shows a race (\<open>rebuild_race_panics\<close>). In the usage store \<^verbatim>\<open>Record\<close> and \<^verbatim>\<open>Close\<close> are split into their
  atomic actions, and a run is any sequence of the actions that their guards allow.

  \<^bold>\<open>Bounds.\<close> A pool has at most \<open>2 ^ 32\<close> proxies, so that sums of \<^verbatim>\<open>int32\<close> weights stay below \<open>2 ^ 63\<close>. A
  selection with exclusions needs current round-robin weights within \<open>swrr_limit = 2 ^ 62\<close>, which leaves
  room for the rounds one call makes. \<open>fits\<close> is the room for what a provider returns. There is no fuel: all
  loops are structural or have a termination proof.

  \<open>selection_room\<close> and \<open>group_room\<close> bound the current weights for the several selections of one request: they grow by at
  most the cost of a selection, so the 100 selections of the largest request and the three of a relay fit.

  \<^bold>\<open>Not modelled.\<close> The HTTP and SMTP exchanges below the level of requests and commands, TLS and byte copying; YAML and JSON
  text (a request body is what decoding it gives); flags, listeners and signals of \<^verbatim>\<open>cmd/proxy-pool\<close>, and the moments at which its tickers
  fire; the HTML pages; the SQL engine; \<^verbatim>\<open>examples/mock-env\<close>, a mock upstream for manual tests. What remains of the sources is import
  lists, comments, and such I/O.
\<close>

end
